(* ===== verification/Dot_Prelude.thy ===== *)
theory Dot_Prelude
  imports Main "HOL-Library.Char_ord" "HOL-Library.List_Lexorder" "HOL-Library.Product_Lexorder"
begin

text \<open>
  Shared vocabulary of the development.

  \<^item> Results: a Python function that may raise is a function into \<open>'e + 'a\<close>, \<open>Inl\<close> for the
    exception; \<open>bindR\<close> sequences two such steps and \<open>mapR\<close> runs one over a list, stopping at the
    first exception.
  \<^item> Tables: a database table is a list of rows in insertion order. A query is \<open>find\<close>,
    \<open>filter\<close>, \<open>least_by\<close> (\<open>ORDER BY k LIMIT 1\<close>) or \<open>latest_by\<close> (\<open>ORDER BY k DESC LIMIT 1\<close>); an
    \<open>UPDATE .. WHERE\<close> is \<open>upd_where\<close>. Ties of an ordering, which SQL leaves open, are broken by
    insertion order.
  \<^item> Text: a Python \<open>str\<close> is a list of \<open>char\<close>, one character per code point, so the model covers
    the text over the code points 0 to 255; \<open>utf8_size\<close> is its length in UTF-8.
  \<^item> Time: an \<open>instant\<close> is a number of microseconds since the epoch in UTC, the resolution of
    \<open>datetime\<close>.
\<close>

section \<open>Results\<close>

named_theorems result_simps "decomposition of a successful or failed result"

definition bindR :: "'e + 'a \<Rightarrow> ('a \<Rightarrow> 'e + 'b) \<Rightarrow> 'e + 'b" where
  "bindR m k = (case m of Inl e \<Rightarrow> Inl e | Inr x \<Rightarrow> k x)"

definition require :: "bool \<Rightarrow> 'e \<Rightarrow> 'e + unit" where
  "require b e = (if b then Inr () else Inl e)"

definition some_or :: "'e \<Rightarrow> 'a option \<Rightarrow> 'e + 'a" where
  "some_or e m = (case m of None \<Rightarrow> Inl e | Some x \<Rightarrow> Inr x)"

primrec mapR :: "('a \<Rightarrow> 'e + 'b) \<Rightarrow> 'a list \<Rightarrow> 'e + 'b list" where
  "mapR f [] = Inr []"
| "mapR f (x # xs) = bindR (f x) (\<lambda>y. bindR (mapR f xs) (\<lambda>ys. Inr (y # ys)))"

primrec foldR :: "('a \<Rightarrow> 's \<Rightarrow> 'e + 's) \<Rightarrow> 'a list \<Rightarrow> 's \<Rightarrow> 'e + 's" where
  "foldR f [] s = Inr s"
| "foldR f (x # xs) s = bindR (f x s) (foldR f xs)"

lemma bindR_simps [simp]: "bindR (Inr x) k = k x" "bindR (Inl e) k = Inl e"
  by (simp_all add: bindR_def)

lemma bindR_Inr [result_simps]: "bindR m k = Inr y \<longleftrightarrow> (\<exists>x. m = Inr x \<and> k x = Inr y)"
  by (cases m) simp_all

lemma bindR_Inl [result_simps]:
  "bindR m k = Inl e \<longleftrightarrow> m = Inl e \<or> (\<exists>x. m = Inr x \<and> k x = Inl e)"
  by (cases m) simp_all

lemma bindR_assoc: "bindR (bindR m k) h = bindR m (\<lambda>x. bindR (k x) h)"
  by (cases m) simp_all

lemma require_simps [simp]: "require True e = Inr ()" "require False e = Inl e"
  by (simp_all add: require_def)

lemma require_Inr [result_simps]: "require b e = Inr u \<longleftrightarrow> b"
  by (cases b) simp_all

lemma require_Inl [result_simps]: "require b e = Inl e' \<longleftrightarrow> \<not> b \<and> e' = e"
  by (cases b) auto

lemma some_or_simps [simp]: "some_or e None = Inl e" "some_or e (Some x) = Inr x"
  by (simp_all add: some_or_def)

lemma some_or_Inr [result_simps]: "some_or e m = Inr x \<longleftrightarrow> m = Some x"
  by (cases m) simp_all

lemma some_or_Inl [result_simps]: "some_or e m = Inl e' \<longleftrightarrow> m = None \<and> e' = e"
  by (cases m) auto

lemma if_Inr_raise [result_simps]: "(if b then Inl e else m) = Inr y \<longleftrightarrow> \<not> b \<and> m = Inr y"
  by simp

lemma mapR_Inr_iff: "mapR f xs = Inr ys \<longleftrightarrow> list_all2 (\<lambda>x y. f x = Inr y) xs ys"
proof (induction xs arbitrary: ys)
  case Nil
  show ?case by auto
next
  case (Cons x xs)
  then show ?case by (cases ys) (auto simp: result_simps)
qed

lemma mapR_cong_id: "mapR f xs = Inr ys \<Longrightarrow> (\<And>x y. f x = Inr y \<Longrightarrow> g y = h x) \<Longrightarrow> map g ys = map h xs"
  by (induction xs arbitrary: ys) (auto simp: result_simps)

section \<open>Tables\<close>

definition upd_where :: "('r \<Rightarrow> bool) \<Rightarrow> ('r \<Rightarrow> 'r) \<Rightarrow> 'r list \<Rightarrow> 'r list" where
  "upd_where p f rows = map (\<lambda>r. if p r then f r else r) rows"

definition delete_where :: "('r \<Rightarrow> bool) \<Rightarrow> 'r list \<Rightarrow> 'r list" where
  "delete_where p rows = filter (\<lambda>r. \<not> p r) rows"

definition row_by :: "('r \<Rightarrow> 'k) \<Rightarrow> 'k \<Rightarrow> 'r list \<Rightarrow> 'r option" where
  "row_by key k rows = find (\<lambda>r. key r = k) rows"

fun least_by :: "('r \<Rightarrow> 'k::linorder) \<Rightarrow> 'r list \<Rightarrow> 'r option" where
  "least_by k [] = None"
| "least_by k (x # xs) =
     (case least_by k xs of None \<Rightarrow> Some x | Some y \<Rightarrow> if k y < k x then Some y else Some x)"

fun latest_by :: "('r \<Rightarrow> 'k::linorder) \<Rightarrow> 'r list \<Rightarrow> 'r option" where
  "latest_by k [] = None"
| "latest_by k (x # xs) =
     (case latest_by k xs of None \<Rightarrow> Some x | Some y \<Rightarrow> if k x < k y then Some y else Some x)"

definition count_where :: "('r \<Rightarrow> bool) \<Rightarrow> 'r list \<Rightarrow> int" where
  "count_where p rows = int (length (filter p rows))"

definition sum_where :: "('r \<Rightarrow> bool) \<Rightarrow> ('r \<Rightarrow> int) \<Rightarrow> 'r list \<Rightarrow> int" where
  "sum_where p f rows = sum_list (map f (filter p rows))"

named_theorems table_simps "rewriting of the table operations"

lemma upd_where_Nil [simp]: "upd_where p f [] = []"
  by (simp add: upd_where_def)

lemma upd_where_Cons [simp]:
  "upd_where p f (r # rows) = (if p r then f r else r) # upd_where p f rows"
  by (simp add: upd_where_def)

lemma upd_where_append [simp]: "upd_where p f (xs @ ys) = upd_where p f xs @ upd_where p f ys"
  by (simp add: upd_where_def)

lemma length_upd_where [simp]: "length (upd_where p f rows) = length rows"
  by (simp add: upd_where_def)

lemma in_set_upd_where:
  "r \<in> set (upd_where p f rows) \<longleftrightarrow> (\<exists>q\<in>set rows. r = (if p q then f q else q))"
  by (auto simp: upd_where_def)

lemma map_upd_where: "(\<And>r. p r \<Longrightarrow> key (f r) = key r) \<Longrightarrow> map key (upd_where p f rows) = map key rows"
  by (simp add: upd_where_def)

lemma ball_upd_where:
  "(\<forall>r\<in>set (upd_where p f rows). Q r) \<longleftrightarrow> (\<forall>r\<in>set rows. if p r then Q (f r) else Q r)"
  by (induction rows) auto

lemma upd_where_none: "(\<forall>r\<in>set rows. \<not> p r) \<Longrightarrow> upd_where p f rows = rows"
  by (induction rows) auto

lemma count_where_simps [simp]:
  "count_where p [] = 0"
  "count_where p (r # rows) = (if p r then 1 else 0) + count_where p rows"
  "count_where p (xs @ ys) = count_where p xs + count_where p ys"
  by (simp_all add: count_where_def)

lemma count_where_nonneg [simp]: "0 \<le> count_where p rows"
  by (simp add: count_where_def)

lemma count_where_mono: "(\<And>r. r \<in> set rows \<Longrightarrow> p r \<Longrightarrow> q r) \<Longrightarrow> count_where p rows \<le> count_where q rows"
  by (induction rows) auto

lemma count_where_upd:
  "(\<And>r. r \<in> set rows \<Longrightarrow> u r \<Longrightarrow> p (f r) = p r) \<Longrightarrow> count_where p (upd_where u f rows) = count_where p rows"
  by (induction rows) auto

lemma count_where_zero: "count_where p rows = 0 \<longleftrightarrow> (\<forall>r\<in>set rows. \<not> p r)"
  by (auto simp: count_where_def filter_empty_conv)

lemma count_where_delete_le: "count_where p (delete_where q rows) \<le> count_where p rows"
  by (induction rows) (auto simp: delete_where_def)

lemma sum_where_simps [simp]:
  "sum_where p f [] = 0"
  "sum_where p f (r # rows) = (if p r then f r else 0) + sum_where p f rows"
  "sum_where p f (xs @ ys) = sum_where p f xs + sum_where p f ys"
  by (simp_all add: sum_where_def)

lemma sum_where_upd:
  "(\<And>r. r \<in> set rows \<Longrightarrow> u r \<Longrightarrow> p (g r) = p r \<and> f (g r) = f r) \<Longrightarrow>
   sum_where p f (upd_where u g rows) = sum_where p f rows"
  by (induction rows) auto

lemma sum_where_nonneg: "(\<And>r. r \<in> set rows \<Longrightarrow> p r \<Longrightarrow> 0 \<le> f r) \<Longrightarrow> 0 \<le> sum_where p f rows"
  by (induction rows) (auto intro!: add_nonneg_nonneg)

lemma sum_where_delete_le:
  "(\<And>r. r \<in> set rows \<Longrightarrow> p r \<Longrightarrow> 0 \<le> f r) \<Longrightarrow> sum_where p f (delete_where q rows) \<le> sum_where p f rows"
proof (induction rows)
  case Nil
  show ?case by (simp add: delete_where_def)
next
  case (Cons r rows)
  then have "sum_where p f (delete_where q rows) \<le> sum_where p f rows" by simp
  with Cons.prems [of r] show ?case by (auto simp: delete_where_def)
qed

lemma in_set_delete_where: "r \<in> set (delete_where p rows) \<longleftrightarrow> r \<in> set rows \<and> \<not> p r"
  by (auto simp: delete_where_def)

lemma row_by_Some: "row_by key k rows = Some r \<Longrightarrow> r \<in> set rows \<and> key r = k"
  by (auto simp: row_by_def find_Some_iff)

lemma row_by_None: "row_by key k rows = None \<longleftrightarrow> k \<notin> key ` set rows"
  by (auto simp: row_by_def find_None_iff)

lemma row_by_distinct:
  "distinct (map key rows) \<Longrightarrow> r \<in> set rows \<Longrightarrow> row_by key (key r) rows = Some r"
  by (induction rows) (auto simp: row_by_def)

lemma row_by_Nil [simp]: "row_by key k [] = None"
  by (simp add: row_by_def)

lemma row_by_Cons [simp]: "row_by key k (r # rows) = (if key r = k then Some r else row_by key k rows)"
  by (simp add: row_by_def)

lemma row_by_append:
  "row_by key k (xs @ ys) = (case row_by key k xs of None \<Rightarrow> row_by key k ys | Some r \<Rightarrow> Some r)"
  by (induction xs) auto

lemma row_by_upd_where:
  "(\<And>r. key (f r) = key r) \<Longrightarrow>
   row_by key k (upd_where p f rows) = map_option (\<lambda>r. if p r then f r else r) (row_by key k rows)"
  by (induction rows) auto

lemma upd_where_one:
  assumes "distinct (map key rows)" "r \<in> set rows" "p r" "\<And>q. p q \<Longrightarrow> key q = key r"
  shows "\<exists>xs ys. rows = xs @ r # ys \<and> upd_where p f rows = xs @ f r # ys"
proof -
  obtain xs ys where rows: "rows = xs @ r # ys" using assms(2) by (meson split_list)
  have "\<forall>q\<in>set xs \<union> set ys. \<not> p q"
    using assms(1,4) rows by (auto simp: image_iff)
  then show ?thesis using rows assms(3) by (auto simp: upd_where_none)
qed

lemma find_append_None: "find p xs = None \<Longrightarrow> find p (xs @ ys) = find p ys"
  by (induction xs) (auto split: if_splits)

lemma find_append_Some: "find p xs = Some r \<Longrightarrow> find p (xs @ ys) = Some r"
  by (induction xs) (auto split: if_splits)

lemma find_SomeD: "find p xs = Some r \<Longrightarrow> r \<in> set xs \<and> p r"
  by (auto simp: find_Some_iff)

lemma find_upd_where:
  "(\<And>r. p (f r) = p r) \<Longrightarrow>
   find p (upd_where u f rows) = map_option (\<lambda>r. if u r then f r else r) (find p rows)"
  by (induction rows) auto

lemma least_by_None [simp]: "least_by k rows = None \<longleftrightarrow> rows = []"
  by (cases rows) (auto split: option.splits)

lemma least_by_Some: "least_by k rows = Some r \<Longrightarrow> r \<in> set rows \<and> (\<forall>q\<in>set rows. k r \<le> k q)"
proof (induction rows arbitrary: r)
  case Nil
  then show ?case by simp
next
  case (Cons x xs)
  show ?case
  proof (cases "least_by k xs")
    case None
    with Cons.prems show ?thesis by auto
  next
    case (Some y)
    with Cons.IH have "y \<in> set xs \<and> (\<forall>q\<in>set xs. k y \<le> k q)" by blast
    with Some Cons.prems show ?thesis by (force split: if_splits)
  qed
qed

lemma latest_by_None [simp]: "latest_by k rows = None \<longleftrightarrow> rows = []"
  by (cases rows) (auto split: option.splits)

lemma latest_by_in: "latest_by k rows = Some r \<Longrightarrow> r \<in> set rows"
  by (induction rows arbitrary: r) (auto split: option.splits if_splits)

section \<open>Text\<close>

definition code_point :: "char \<Rightarrow> int" where
  "code_point c = of_char c"

text \<open>\<open>str.isspace\<close> on the code points 0 to 255.\<close>

definition py_isspace :: "char \<Rightarrow> bool" where
  "py_isspace c = (let n = code_point c in
     (9 \<le> n \<and> n \<le> 13) \<or> (28 \<le> n \<and> n \<le> 32) \<or> n = 133 \<or> n = 160)"

definition py_strip :: "string \<Rightarrow> string" where
  "py_strip s = rev (dropWhile py_isspace (rev (dropWhile py_isspace s)))"

definition is_digit :: "char \<Rightarrow> bool" where
  "is_digit c = (let n = code_point c in 48 \<le> n \<and> n \<le> 57)"

definition is_lower :: "char \<Rightarrow> bool" where
  "is_lower c = (let n = code_point c in 97 \<le> n \<and> n \<le> 122)"

definition is_upper :: "char \<Rightarrow> bool" where
  "is_upper c = (let n = code_point c in 65 \<le> n \<and> n \<le> 90)"

definition utf8_size :: "string \<Rightarrow> int" where
  "utf8_size s = sum_list (map (\<lambda>c. if code_point c < 128 then 1 else 2) s)"

definition digit :: "int \<Rightarrow> char" where
  "digit n = char_of (if n < 10 then 48 + n else 87 + n)"

function digits_in :: "int \<Rightarrow> int \<Rightarrow> string" where
  "digits_in b n = (if b < 2 \<or> n < b then [digit n] else digits_in b (n div b) @ [digit (n mod b)])"
  by pat_completeness auto
termination
  by (relation "measure (\<lambda>(b, n). nat n)") (auto simp: int_div_less_self)

declare digits_in.simps [simp del]

definition str_int :: "int \<Rightarrow> string" where
  "str_int i = (if i < 0 then CHR ''-'' # digits_in 10 (- i) else digits_in 10 i)"

definition pad_left :: "nat \<Rightarrow> char \<Rightarrow> string \<Rightarrow> string" where
  "pad_left n c s = replicate (n - length s) c @ s"

fun join :: "string \<Rightarrow> string list \<Rightarrow> string" where
  "join sep [] = []"
| "join sep [s] = s"
| "join sep (s # ss) = s @ sep @ join sep ss"

text \<open>\<open>str.split(sep)\<close> on a one-character separator.\<close>

fun split_on :: "char \<Rightarrow> string \<Rightarrow> string list" where
  "split_on c [] = [[]]"
| "split_on c (x # xs) =
     (if x = c then [] # split_on c xs
      else (case split_on c xs of [] \<Rightarrow> [[x]] | w # ws \<Rightarrow> (x # w) # ws))"

text \<open>
  A UUID is the number it stands for, and \<open>str_uuid\<close> its \<open>str()\<close>: 32 hexadecimal digits in groups
  of 8, 4, 4, 4 and 12. Fresh identifiers come from a counter of the database state, which stands
  for the collision freedom \<open>uuid4\<close> is used for.
\<close>

type_synonym uuid = nat

definition str_uuid :: "uuid \<Rightarrow> string" where
  "str_uuid n = (let h = pad_left 32 (CHR ''0'') (digits_in 16 (int n)) in
     join ''-'' [take 8 h, take 4 (drop 8 h), take 4 (drop 12 h), take 4 (drop 16 h), drop 20 h])"

lemma dropWhile_id: "(xs = [] \<or> \<not> p (hd xs)) \<Longrightarrow> dropWhile p xs = xs"
  by (cases xs) auto

lemma dropWhile_last:
  "dropWhile p xs \<noteq> [] \<Longrightarrow> last (dropWhile p xs) = last xs"
  by (induction xs) (auto split: if_splits)

lemma py_strip_idem [simp]: "py_strip (py_strip s) = py_strip s"
proof -
  let ?a = "dropWhile py_isspace s"
  let ?b = "dropWhile py_isspace (rev ?a)"
  have b: "?b = [] \<or> \<not> py_isspace (hd ?b)" by (metis hd_dropWhile)
  have l: "?b \<noteq> [] \<Longrightarrow> \<not> py_isspace (last ?b)"
  proof -
    assume ne: "?b \<noteq> []"
    then have "?a \<noteq> []" by (auto dest: set_dropWhileD)
    then have "\<not> py_isspace (hd ?a)" by (metis hd_dropWhile)
    with ne \<open>?a \<noteq> []\<close> show "\<not> py_isspace (last ?b)" by (simp add: dropWhile_last last_rev)
  qed
  have "dropWhile py_isspace (rev ?b) = rev ?b"
    by (rule dropWhile_id) (use l in \<open>auto simp: hd_rev\<close>)
  moreover have "dropWhile py_isspace ?b = ?b"
    by (rule dropWhile_id) (use b in blast)
  ultimately show ?thesis by (simp add: py_strip_def)
qed

lemma utf8_size_nonneg: "0 \<le> utf8_size s"
  unfolding utf8_size_def by (rule sum_list_nonneg) auto

lemma utf8_size_Cons: "1 \<le> utf8_size (c # s)"
  using utf8_size_nonneg [of s] by (simp add: utf8_size_def)

section \<open>Time\<close>

type_synonym instant = int

definition seconds :: "int \<Rightarrow> int" where
  "seconds n = n * 1000000"

definition minutes :: "int \<Rightarrow> int" where
  "minutes n = seconds (60 * n)"

definition days :: "int \<Rightarrow> int" where
  "days n = seconds (86400 * n)"

lemma time_simps [simp]:
  "seconds 0 = 0" "seconds (numeral k) = numeral k * 1000000" "seconds 1 = 1000000"
  "minutes n = n * 60000000" "days n = n * 86400000000"
  by (simp_all add: seconds_def minutes_def days_def)

lemma seconds_mono [simp]: "seconds a \<le> seconds b \<longleftrightarrow> a \<le> b" "seconds a < seconds b \<longleftrightarrow> a < b"
  by (simp_all add: seconds_def)

end
