(* ===== verification/Dot_Json.thy ===== *)
theory Dot_Json
  imports Dot_Prelude "HOL-Library.AList" "HOL-Library.Multiset"
begin

text \<open>
  JSON values and the parts of the standard library the services print and parse with:
  \<open>json.dumps\<close> with \<open>separators=(",", ":"), sort_keys=True, ensure_ascii=False\<close>,
  \<open>str\<close> and \<open>repr\<close> of a parsed value, \<open>datetime.isoformat\<close> in UTC, and the float arithmetic of a duration in milliseconds.

  A float is represented by the text \<open>json.dumps\<close> prints for it (its \<open>repr\<close>, or \<open>NaN\<close>,
  \<open>Infinity\<close>, \<open>-Infinity\<close>); an object is a list of key-value pairs in insertion order, with
  \<open>AList.update\<close> as item assignment and \<open>AList.delete\<close> as \<open>pop\<close>.
\<close>

section \<open>Values\<close>

datatype json =
    JNull
  | JBool bool
  | JInt int
  | JFloat string
  | JStr string
  | JArr "json list"
  | JObj "(string \<times> json) list"

type_synonym obj = "(string \<times> json) list"

abbreviation obj_get :: "obj \<Rightarrow> string \<Rightarrow> json option" where
  "obj_get ob k \<equiv> map_of ob k"

text \<open>\<open>d.get(k)\<close>, which answers \<open>None\<close> both for a missing key and for a null.\<close>

definition get_or_null :: "obj \<Rightarrow> string \<Rightarrow> json" where
  "get_or_null ob k = (case obj_get ob k of None \<Rightarrow> JNull | Some v \<Rightarrow> v)"

definition get_default :: "obj \<Rightarrow> string \<Rightarrow> json \<Rightarrow> json" where
  "get_default ob k d = (case obj_get ob k of None \<Rightarrow> d | Some v \<Rightarrow> v)"

text \<open>Truth of a value in a condition or before \<open>or\<close>.\<close>

fun truthy :: "json \<Rightarrow> bool" where
  "truthy JNull = False"
| "truthy (JBool b) = b"
| "truthy (JInt i) = (i \<noteq> 0)"
| "truthy (JFloat f) = (f \<noteq> ''0.0'' \<and> f \<noteq> ''-0.0'')"
| "truthy (JStr s) = (s \<noteq> [])"
| "truthy (JArr xs) = (xs \<noteq> [])"
| "truthy (JObj ob) = (ob \<noteq> [])"

definition py_or :: "json \<Rightarrow> json \<Rightarrow> json" where
  "py_or a b = (if truthy a then a else b)"

fun is_str :: "json \<Rightarrow> bool" where
  "is_str (JStr s) = True"
| "is_str _ = False"

fun is_dict :: "json \<Rightarrow> bool" where
  "is_dict (JObj ob) = True"
| "is_dict _ = False"

fun is_list :: "json \<Rightarrow> bool" where
  "is_list (JArr xs) = True"
| "is_list _ = False"

text \<open>\<open>dict(v) if isinstance(v, dict) else {}\<close>.\<close>

fun dict_or_empty :: "json \<Rightarrow> obj" where
  "dict_or_empty (JObj ob) = ob"
| "dict_or_empty _ = []"

text \<open>A string or a null, the rendering of an optional column.\<close>

definition opt_str :: "string option \<Rightarrow> json" where
  "opt_str s = (case s of None \<Rightarrow> JNull | Some x \<Rightarrow> JStr x)"

section \<open>Printing\<close>

definition hex4 :: "int \<Rightarrow> string" where
  "hex4 n = pad_left 4 (CHR ''0'') (digits_in 16 n)"

definition escape_char :: "char \<Rightarrow> string" where
  "escape_char c =
     (let n = code_point c in
      if n = 34 then [char_of (92::int), char_of (34::int)]
      else if n = 92 then [char_of (92::int), char_of (92::int)]
      else if n = 10 then [char_of (92::int), CHR ''n'']
      else if n = 13 then [char_of (92::int), CHR ''r'']
      else if n = 9 then [char_of (92::int), CHR ''t'']
      else if n = 8 then [char_of (92::int), CHR ''b'']
      else if n = 12 then [char_of (92::int), CHR ''f'']
      else if n < 32 then [char_of (92::int), CHR ''u''] @ hex4 n
      else [c])"

definition quote_str :: "string \<Rightarrow> string" where
  "quote_str s = [char_of (34::int)] @ concat (map escape_char s) @ [char_of (34::int)]"

fun json_dumps :: "json \<Rightarrow> string" where
  "json_dumps JNull = ''null''"
| "json_dumps (JBool b) = (if b then ''true'' else ''false'')"
| "json_dumps (JInt i) = str_int i"
| "json_dumps (JFloat f) = f"
| "json_dumps (JStr s) = quote_str s"
| "json_dumps (JArr xs) = ''['' @ join '','' (map json_dumps xs) @ '']''"
| "json_dumps (JObj ob) =
     ''{'' @ join '','' (map (\<lambda>kv. quote_str (fst kv) @ '':'' @ snd kv)
       (sort_key fst (map (\<lambda>kv. (fst kv, json_dumps (snd kv))) ob))) @ ''}''"

text \<open>Whether \<open>allow_nan=False\<close> accepts the value.\<close>

fun json_finite :: "json \<Rightarrow> bool" where
  "json_finite (JFloat f) = (f \<notin> {''NaN'', ''Infinity'', ''-Infinity''})"
| "json_finite (JArr xs) = (\<forall>x\<in>set xs. json_finite x)"
| "json_finite (JObj ob) = (\<forall>kv\<in>set ob. json_finite (snd kv))"
| "json_finite _ = True"

definition json_size :: "json \<Rightarrow> int" where
  "json_size v = utf8_size (json_dumps v)"

lemma json_size_obj_pos: "0 < json_size (JObj ob)"
  using utf8_size_Cons [of "CHR ''{''"] by (simp add: json_size_def order.strict_trans2 [of 0 1])

text \<open>
  The canonical text of an object does not depend on the order its keys were inserted in: two
  objects with the same distinct keys and the same values print alike.
\<close>

lemma sort_key_fst_unique:
  assumes "distinct (map fst xs)" "mset xs = mset ys"
  shows "sort_key fst xs = sort_key fst ys"
proof (rule properties_for_sort_key)
  show "mset (sort_key fst ys) = mset xs" using assms(2) by simp
  show "sorted (map fst (sort_key fst ys))" by simp
next
  fix k
  assume "k \<in> set (sort_key fst ys)"
  have "mset (map fst xs) = mset (map fst ys)" using assms(2) by simp
  then have d: "distinct (map fst ys)" using assms(1) mset_eq_imp_distinct_iff by blast
  have same: "filter (\<lambda>x. fst k = fst x) zs = (if k \<in> set zs then [k] else [])"
    if "distinct (map fst zs)" "k \<in> set zs" for zs :: "('a \<times> 'b) list"
    using that
  proof (induction zs)
    case (Cons z zs)
    show ?case
    proof (cases "z = k")
      case True
      with Cons.prems(1) show ?thesis by (auto simp: filter_empty_conv)
    next
      case False
      with Cons.prems have "k \<in> set zs" "fst k \<noteq> fst z" by (auto simp: rev_image_eqI)
      with Cons False show ?thesis by auto
    qed
  qed simp
  have "k \<in> set ys" using \<open>k \<in> set (sort_key fst ys)\<close> by simp
  moreover have "k \<in> set xs" using calculation assms(2) by (metis set_mset_mset)
  ultimately show "filter (\<lambda>x. fst k = fst x) (sort_key fst ys) = filter (\<lambda>x. fst k = fst x) xs"
    using same [OF assms(1)] same [OF d] by (simp add: filter_sort)
qed

lemma json_dumps_key_order:
  assumes "distinct (map fst a)" "mset a = mset b"
  shows "json_dumps (JObj a) = json_dumps (JObj b)"
proof -
  let ?f = "\<lambda>kv. (fst kv, json_dumps (snd kv))"
  have "distinct (map fst (map ?f a))" using assms(1) by (simp add: comp_def)
  moreover have "mset (map ?f a) = mset (map ?f b)" using assms(2) by simp
  ultimately have "sort_key fst (map ?f a) = sort_key fst (map ?f b)"
    by (rule sort_key_fst_unique)
  then show ?thesis by simp
qed

section \<open>Dates\<close>

text \<open>Year, month and day of a number of days since 1970-01-01, in the proleptic Gregorian
  calendar \<open>datetime\<close> uses.\<close>

definition civil :: "int \<Rightarrow> int \<times> int \<times> int" where
  "civil z =
     (let z' = z + 719468;
          era = z' div 146097;
          doe = z' - era * 146097;
          yoe = (doe - doe div 1460 + doe div 36524 - doe div 146096) div 365;
          doy = doe - (365 * yoe + yoe div 4 - yoe div 100);
          mp = (5 * doy + 2) div 153;
          d = doy - (153 * mp + 2) div 5 + 1;
          m = (if mp < 10 then mp + 3 else mp - 9);
          y = yoe + era * 400 + (if m \<le> 2 then 1 else 0)
      in (y, m, d))"

definition pad_int :: "nat \<Rightarrow> int \<Rightarrow> string" where
  "pad_int n i = pad_left n (CHR ''0'') (str_int i)"

definition isoformat :: "instant \<Rightarrow> string" where
  "isoformat t =
     (case civil (t div 86400000000) of (y, m, d) \<Rightarrow>
       let us = t mod 86400000000; s = us div 1000000; f = us mod 1000000 in
       pad_int 4 y @ ''-'' @ pad_int 2 m @ ''-'' @ pad_int 2 d @ ''T'' @
       pad_int 2 (s div 3600) @ '':'' @ pad_int 2 (s div 60 mod 60) @ '':'' @ pad_int 2 (s mod 60) @
       (if f = 0 then [] else ''.'' @ pad_int 6 f) @ ''+00:00'')"

lemma isoformat_example: "isoformat 1754784000000000 = ''2025-08-10T00:00:00+00:00''"
  by code_simp

section \<open>Durations in milliseconds\<close>

text \<open>
  \<open>int((finished - started).total_seconds() * 1000)\<close> goes through two doubles: the quotient by
  $10^6$ and the product with 1000, both rounded to 53 bits, half to even. \<open>fl53\<close> rounds a
  non-negative fraction that way, so that \<open>total_ms\<close> is the integer the code gets, which may be one
  less than the exact quotient (1.001 seconds are 1000 milliseconds).
\<close>

function bit_len :: "int \<Rightarrow> int" where
  "bit_len n = (if n \<le> 0 then 0 else 1 + bit_len (n div 2))"
  by pat_completeness auto
termination
  by (relation "measure nat") auto

declare bit_len.simps [simp del]

definition round_half_even :: "int \<Rightarrow> int \<Rightarrow> int" where
  "round_half_even n d =
     (let q = n div d; r = n mod d in
      if 2 * r < d then q else if d < 2 * r then q + 1 else if even q then q else q + 1)"

definition fl53 :: "int \<times> int \<Rightarrow> int \<times> int" where
  "fl53 nd =
     (case nd of (n, d) \<Rightarrow>
       if n \<le> 0 then (0, 1)
       else
         let k = bit_len n - bit_len d;
             big = (if 0 \<le> k then d * 2 ^ nat k \<le> n else d \<le> n * 2 ^ nat (- k));
             e = (if big then k else k - 1) - 52
         in if 0 \<le> e then (round_half_even n (d * 2 ^ nat e) * 2 ^ nat e, 1)
            else (round_half_even (n * 2 ^ nat (- e)) d, 2 ^ nat (- e)))"

definition total_ms :: "int \<Rightarrow> int" where
  "total_ms us =
     (case fl53 (us, 1000000) of (n, d) \<Rightarrow> case fl53 (n * 1000, d) of (n', d') \<Rightarrow> n' div d')"

lemma total_ms_example: "total_ms 1001000 = 1000" "total_ms 1500000 = 1500"
  by code_simp+

section \<open>Printing a value\<close>

text \<open>
  \<open>str\<close> of a parsed value: a string is itself; the items of a list and the keys and values of a dict
  are printed by \<open>repr\<close>, which quotes a string with the quote it does not contain, if there is one, and escapes
  that quote, the backslash and what is not printable.
\<close>

definition repr_quote :: "string \<Rightarrow> char" where
  "repr_quote s =
     (let single = char_of (39::int); double = char_of (34::int) in
      if single \<in> set s \<and> double \<notin> set s then double else single)"

definition repr_char :: "char \<Rightarrow> char \<Rightarrow> string" where
  "repr_char q c =
     (let n = code_point c; backslash = char_of (92::int) in
      if c = q \<or> n = 92 then [backslash, c]
      else if n = 10 then [backslash, CHR ''n'']
      else if n = 13 then [backslash, CHR ''r'']
      else if n = 9 then [backslash, CHR ''t'']
      else if n < 32 \<or> (127 \<le> n \<and> n \<le> 160) \<or> n = 173 then [backslash, CHR ''x''] @ pad_left 2 (CHR ''0'') (digits_in 16 n)
      else [c])"

definition repr_str :: "string \<Rightarrow> string" where
  "repr_str s = (let q = repr_quote s in [q] @ concat (map (repr_char q) s) @ [q])"

definition float_str :: "string \<Rightarrow> string" where
  "float_str f = (if f = ''NaN'' then ''nan'' else if f = ''Infinity'' then ''inf'' else if f = ''-Infinity'' then ''-inf'' else f)"

fun py_repr :: "json \<Rightarrow> string" where
  "py_repr JNull = ''None''"
| "py_repr (JBool b) = (if b then ''True'' else ''False'')"
| "py_repr (JInt i) = str_int i"
| "py_repr (JFloat f) = float_str f"
| "py_repr (JStr s) = repr_str s"
| "py_repr (JArr xs) = ''['' @ join '', '' (map py_repr xs) @ '']''"
| "py_repr (JObj ob) = ''{'' @ join '', '' (map (\<lambda>kv. repr_str (fst kv) @ '': '' @ py_repr (snd kv)) ob) @ ''}''"

definition py_str :: "json \<Rightarrow> string" where
  "py_str v = (case v of JStr s \<Rightarrow> s | _ \<Rightarrow> py_repr v)"

end
