(* ===== verification/Dot_Models.thy ===== *)
theory Dot_Models
  imports Dot_Json
begin

text \<open>
  The tables of \<open>src/benji_api/models\<close> the modelled services work on, one record per mapped class,
  and the database they form. A column whose values the code takes from a \<open>StrEnum\<close> is a datatype;
  a column that can hold text from outside (the status of a group member, which a Linq webhook may
  set) stays a string. A JSON column that is only ever written by one operation and read back by
  its replay, the \<open>response\<close> of an app event, is kept as the value the operation serialises.

  \<open>db_next\<close> is the supply of fresh row identifiers.
\<close>

section \<open>Generated apps (models/generated\_app.py)\<close>

datatype app_status = AppActive | AppArchived

datatype access_mode = PrivateLink | CollaborativeLink

datatype runtime_kind = LegacyRuntime | CodeRuntime

definition access_mode_of :: "string \<Rightarrow> access_mode option" where
  "access_mode_of s =
     (if s = ''private_link'' then Some PrivateLink
      else if s = ''collaborative_link'' then Some CollaborativeLink else None)"

definition access_mode_str :: "access_mode \<Rightarrow> string" where
  "access_mode_str m =
     (case m of PrivateLink \<Rightarrow> ''private_link'' | CollaborativeLink \<Rightarrow> ''collaborative_link'')"

record app_row =
  ga_id :: uuid
  ga_user :: uuid
  ga_conv :: uuid
  ga_public :: string
  ga_title :: string
  ga_descr :: string
  ga_template :: string
  ga_theme :: string
  ga_access :: access_mode
  ga_status :: app_status
  ga_version :: int
  ga_runtime :: runtime_kind
  ga_created :: instant
  ga_updated :: instant

section \<open>Code apps (models/generated\_app\_v2.py)\<close>

datatype build_status = Queued | Claimed | Succeeded | Failed

datatype revision_status = RevReady | RevRejected

datatype app_role = Owner | Editor | Member | Viewer

definition role_of :: "string \<Rightarrow> app_role option" where
  "role_of s =
     (if s = ''owner'' then Some Owner else if s = ''editor'' then Some Editor
      else if s = ''member'' then Some Member else if s = ''viewer'' then Some Viewer else None)"

definition role_str :: "app_role \<Rightarrow> string" where
  "role_str r = (case r of Owner \<Rightarrow> ''owner'' | Editor \<Rightarrow> ''editor''
     | Member \<Rightarrow> ''member'' | Viewer \<Rightarrow> ''viewer'')"

lemma role_of_str [simp]: "role_of (role_str r) = Some r"
  by (cases r) (simp_all add: role_of_def role_str_def)

record revision_row =
  rv_id :: uuid
  rv_app :: uuid
  rv_number :: int
  rv_title :: string
  rv_descr :: string
  rv_status :: revision_status
  rv_manifest :: obj
  rv_seed :: obj
  rv_seed_applied :: "instant option"
  rv_sources :: obj
  rv_artifact :: obj
  rv_artifact_url :: string
  rv_artifact_sha :: string
  rv_sdk :: string
  rv_lock :: obj
  rv_tests :: obj
  rv_created :: instant

record deployment_row =
  dp_app :: uuid
  dp_active :: uuid
  dp_previous :: "uuid option"
  dp_version :: int
  dp_at :: instant

record job_row =
  jb_id :: uuid
  jb_app :: uuid
  jb_base :: "uuid option"
  jb_result_rev :: "uuid option"
  jb_status :: build_status
  jb_request :: obj
  jb_key :: "string option"
  jb_hash :: "string option"
  jb_result :: obj
  jb_provider :: "string option"
  jb_url :: string
  jb_attempts :: int
  jb_claimed_by :: "string option"
  jb_lease :: "instant option"
  jb_error :: "string option"
  jb_created :: instant
  jb_started :: "instant option"
  jb_completed :: "instant option"
  jb_updated :: instant

record membership_row =
  ms_id :: uuid
  ms_app :: uuid
  ms_user :: uuid
  ms_role :: app_role
  ms_created :: instant

record data_row =
  dr_id :: uuid
  dr_app :: uuid
  dr_entity :: string
  dr_data :: obj
  dr_bytes :: int
  dr_version :: int
  dr_created_by :: "uuid option"
  dr_updated_by :: "uuid option"
  dr_created :: instant
  dr_updated :: instant

text \<open>
  The \<open>StoredDataRecord\<close>, \<open>StoredRollback\<close> and \<open>StoredScheduledTask\<close> snapshots, and the response of
  an event: one of them, the response of a deletion, or the empty object of an event that no
  idempotency key was given for.
\<close>

record stored_record =
  sr_id :: uuid
  sr_entity :: string
  sr_data :: obj
  sr_version :: int
  sr_created :: instant
  sr_updated :: instant

record stored_rollback =
  sb_app :: uuid
  sb_public :: string
  sb_title :: string
  sb_active :: uuid
  sb_number :: int
  sb_version :: int
  sb_reversible :: bool

record stored_task =
  sk_id :: uuid
  sk_title :: string
  sk_goal :: json
  sk_for :: instant
  sk_timezone :: string
  sk_recurrence :: string
  sk_provider :: "string option"

datatype event_response =
    NoResponse
  | RecordResponse stored_record
  | DeletedResponse uuid
  | RollbackResponse stored_rollback
  | TaskResponse stored_task

record event_row =
  ev_id :: uuid
  ev_app :: uuid
  ev_record :: "uuid option"
  ev_entity :: "string option"
  ev_type :: string
  ev_user :: "uuid option"
  ev_session :: "uuid option"
  ev_key :: string
  ev_operation :: "string option"
  ev_hash :: "string option"
  ev_response :: event_response
  ev_payload :: obj
  ev_created :: instant

record ticket_row =
  tk_id :: uuid
  tk_app :: uuid
  tk_issuer :: uuid
  tk_principal :: "uuid option"
  tk_role :: app_role
  tk_hash :: string
  tk_expires :: instant
  tk_used :: "instant option"
  tk_last :: "instant option"
  tk_count :: int
  tk_created :: instant

record session_row =
  ss_id :: uuid
  ss_app :: uuid
  ss_user :: "uuid option"
  ss_role :: app_role
  ss_hash :: string
  ss_expires :: instant
  ss_revoked :: "instant option"
  ss_created :: instant

section \<open>Schedules, outbox events, memory jobs and follow-ups\<close>

datatype task_status =
  TaskActive | TaskProcessing | TaskCompleted | TaskPaused | TaskCancelled | TaskFailed

datatype recurrence = Once | Daily | Weekly

definition recurrence_of :: "string \<Rightarrow> recurrence option" where
  "recurrence_of s =
     (if s = ''once'' then Some Once else if s = ''daily'' then Some Daily
      else if s = ''weekly'' then Some Weekly else None)"

definition recurrence_str :: "recurrence \<Rightarrow> string" where
  "recurrence_str r = (case r of Once \<Rightarrow> ''once'' | Daily \<Rightarrow> ''daily'' | Weekly \<Rightarrow> ''weekly'')"

record task_row =
  st_id :: uuid
  st_user :: uuid
  st_conv :: "uuid option"
  st_action :: string
  st_source :: string
  st_key :: string
  st_title :: string
  st_payload :: obj
  st_provider :: "string option"
  st_timezone :: string
  st_recurrence :: recurrence
  st_for :: instant
  st_next :: instant
  st_status :: task_status
  st_attempts :: int
  st_runs :: int
  st_locked :: "instant option"
  st_last_run :: "instant option"
  st_completed :: "instant option"
  st_cancelled :: "instant option"
  st_error :: "string option"
  st_created :: instant

datatype uevent_status = EvPending | EvProcessing | EvProcessed | EvFailed | EvSkipped

record uevent_row =
  ue_id :: uuid
  ue_user :: uuid
  ue_conv :: "uuid option"
  ue_type :: string
  ue_source :: string
  ue_key :: string
  ue_payload :: obj
  ue_provider :: "string option"
  ue_status :: uevent_status
  ue_attempts :: int
  ue_next :: instant
  ue_locked :: "instant option"
  ue_processed :: "instant option"
  ue_error :: "string option"
  ue_created :: instant

datatype mjob_status = MjPending | MjProcessing | MjProcessed | MjFailed | MjSkipped

record mjob_row =
  mj_id :: uuid
  mj_user :: uuid
  mj_conv :: uuid
  mj_trigger :: uuid
  mj_response :: uuid
  mj_key :: string
  mj_status :: mjob_status
  mj_attempts :: int
  mj_next :: instant
  mj_locked :: "instant option"
  mj_processed :: "instant option"
  mj_error :: "string option"
  mj_created :: instant

text \<open>Agent follow-ups (models/agent.py).\<close>

datatype followup_status = FuPending | FuProcessing | FuCompleted | FuCancelled | FuFailed

record followup_row =
  fu_id :: uuid
  fu_conv :: uuid
  fu_user :: uuid
  fu_run :: uuid
  fu_goal :: string
  fu_provider :: "string option"
  fu_cancel :: bool
  fu_depth :: int
  fu_status :: followup_status
  fu_attempts :: int
  fu_due :: instant
  fu_locked :: "instant option"
  fu_completed :: "instant option"
  fu_cancelled :: "instant option"
  fu_error :: "string option"
  fu_created :: instant

section \<open>Conversations (models/channel.py)\<close>

datatype conv_kind = DirectConv | GroupConv

datatype member_role = GroupOwner | GroupMember

datatype delivery_status = DPending | DSent | DDelivered | DRead | DFailed

record conv_row =
  cv_id :: uuid
  cv_user :: uuid
  cv_kind :: conv_kind
  cv_title :: "string option"
  cv_avatar :: "string option"
  cv_mode :: string
  cv_owner_source :: "string option"
  cv_status :: string
  cv_created :: instant
  cv_updated :: instant

record member_row =
  cm_id :: uuid
  cm_conv :: uuid
  cm_user :: "uuid option"
  cm_handle :: string
  cm_external :: "string option"
  cm_name :: "string option"
  cm_service :: "string option"
  cm_role :: member_role
  cm_status :: string
  cm_joined :: instant
  cm_left :: "instant option"
  cm_created :: instant

record invite_row =
  iv_id :: uuid
  iv_conv :: uuid
  iv_creator :: uuid
  iv_hash :: string
  iv_max :: int
  iv_count :: int
  iv_expires :: instant
  iv_revoked :: "instant option"

record channel_row =
  cc_id :: uuid
  cc_conv :: uuid
  cc_provider :: string
  cc_external :: string
  cc_service :: "string option"
  cc_status :: string
  cc_updated :: instant

record delivery_row =
  md_id :: uuid
  md_provider :: string
  md_external :: "string option"
  md_key :: "string option"
  md_status :: delivery_status
  md_sent :: "instant option"
  md_delivered :: "instant option"
  md_read :: "instant option"

record message_row =
  mg_id :: uuid
  mg_conv :: uuid
  mg_user :: uuid
  mg_binding :: "uuid option"
  mg_channel :: string
  mg_key :: "string option"
  mg_group :: "uuid option"
  mg_ordinal :: "int option"
  mg_inbound :: bool
  mg_content :: string
  mg_payload :: obj
  mg_created :: instant

section \<open>Users (models/user.py)\<close>

datatype identifier_kind = PhoneId | EmailId

datatype identifier_status = IdActive | IdRevoked

record user_row =
  us_id :: uuid
  us_phone :: "string option"
  us_name :: "string option"
  us_opted_out :: "instant option"
  us_phone_verified :: "instant option"
  us_first_seen :: instant
  us_last_seen :: instant

record identifier_row =
  ui_id :: uuid
  ui_user :: uuid
  ui_kind :: identifier_kind
  ui_value :: string
  ui_primary :: bool
  ui_status :: identifier_status
  ui_source :: string
  ui_verified :: "instant option"
  ui_created :: instant

section \<open>The database\<close>

record db =
  db_next :: uuid
  db_users :: "user_row list"
  db_identifiers :: "identifier_row list"
  db_convs :: "conv_row list"
  db_members :: "member_row list"
  db_invites :: "invite_row list"
  db_channels :: "channel_row list"
  db_deliveries :: "delivery_row list"
  db_messages :: "message_row list"
  db_apps :: "app_row list"
  db_revisions :: "revision_row list"
  db_deployments :: "deployment_row list"
  db_jobs :: "job_row list"
  db_memberships :: "membership_row list"
  db_records :: "data_row list"
  db_events :: "event_row list"
  db_tickets :: "ticket_row list"
  db_sessions :: "session_row list"
  db_tasks :: "task_row list"
  db_uevents :: "uevent_row list"
  db_mjobs :: "mjob_row list"
  db_followups :: "followup_row list"

definition empty_db :: db where
  "empty_db = \<lparr>db_next = 1, db_users = [], db_identifiers = [], db_convs = [], db_members = [],
     db_invites = [], db_channels = [], db_deliveries = [], db_messages = [], db_apps = [], db_revisions = [],
     db_deployments = [], db_jobs = [], db_memberships = [], db_records = [], db_events = [],
     db_tickets = [], db_sessions = [], db_tasks = [], db_uevents = [], db_mjobs = [], db_followups = []\<rparr>"

text \<open>Lookups by primary key (\<open>session.get\<close>).\<close>

abbreviation find_app :: "db \<Rightarrow> uuid \<Rightarrow> app_row option" where
  "find_app d i \<equiv> row_by ga_id i (db_apps d)"

abbreviation find_revision :: "db \<Rightarrow> uuid \<Rightarrow> revision_row option" where
  "find_revision d i \<equiv> row_by rv_id i (db_revisions d)"

abbreviation find_deployment :: "db \<Rightarrow> uuid \<Rightarrow> deployment_row option" where
  "find_deployment d i \<equiv> row_by dp_app i (db_deployments d)"

abbreviation find_conv :: "db \<Rightarrow> uuid \<Rightarrow> conv_row option" where
  "find_conv d i \<equiv> row_by cv_id i (db_convs d)"

abbreviation find_user :: "db \<Rightarrow> uuid \<Rightarrow> user_row option" where
  "find_user d i \<equiv> row_by us_id i (db_users d)"

text \<open>The identifier of the next inserted row, and the state after taking it.\<close>

definition take_id :: "db \<Rightarrow> uuid \<times> db" where
  "take_id d = (db_next d, d\<lparr>db_next := db_next d + 1\<rparr>)"

text \<open>Whether every identifier of the database is below the supply, so that \<open>take_id\<close> is fresh.\<close>

definition ids_below :: "db \<Rightarrow> bool" where
  "ids_below d \<longleftrightarrow>
     (\<forall>r\<in>set (db_apps d). ga_id r < db_next d) \<and>
     (\<forall>r\<in>set (db_revisions d). rv_id r < db_next d) \<and>
     (\<forall>r\<in>set (db_jobs d). jb_id r < db_next d) \<and>
     (\<forall>r\<in>set (db_records d). dr_id r < db_next d) \<and>
     (\<forall>r\<in>set (db_sessions d). ss_id r < db_next d)"

end
