(* ===== verification/App_Access.thy ===== *)
theory App_Access
  imports Dot_Models
begin

text \<open>
  Authority over a generated app (\<open>services/generated_apps_v2.py\<close>): who a request speaks for
  (\<open>AppActor\<close>), the owner, the members, the bearer sessions, the access tickets they are redeemed
  from, and the re-authorisation every data operation starts with.

  \<open>sha\<close> stands for the hexadecimal digest of SHA-256, \<open>raw\<close> for the token
  \<open>secrets.token_urlsafe\<close> returned, \<open>now\<close> for the clock. An operation that raises changes nothing: its
  transaction is discarded with the session.
\<close>

datatype app_error =
    CodeAppNotFound
  | CodeAppAuthorization
  | CodeAppConflict
  | CodeAppStaleBuild
  | CodeAppValidation
  | CodeAppRateLimit
  | UncaughtKeyError
  | UncaughtTypeError
  | UncaughtValueError
  | UncaughtIntegrityError
  | DirectUserMissing

record app_actor =
  ac_role :: app_role
  ac_user :: "uuid option"
  ac_session :: "uuid option"
  ac_verified :: bool

definition MAX_ACCESS_TICKET_TTL_SECONDS :: int where
  "MAX_ACCESS_TICKET_TTL_SECONDS = 7 * 86400"

definition MAX_PRIVATE_TICKET_REDEMPTIONS :: int where
  "MAX_PRIVATE_TICKET_REDEMPTIONS = 12"

definition MAX_COLLABORATIVE_TICKET_REDEMPTIONS :: int where
  "MAX_COLLABORATIVE_TICKET_REDEMPTIONS = 64"

section \<open>Text arguments\<close>

fun text_value :: "json \<Rightarrow> nat \<Rightarrow> app_error + string" where
  "text_value (JStr s) n =
     (if py_strip s = [] then Inl CodeAppValidation
      else if n < length (py_strip s) then Inl CodeAppValidation
      else Inr (py_strip s))"
| "text_value _ n = Inl CodeAppValidation"

fun optional_text :: "json \<Rightarrow> nat \<Rightarrow> app_error + string" where
  "optional_text JNull n = Inr []"
| "optional_text (JStr s) n = Inr (take n (py_strip s))"
| "optional_text _ n = Inl CodeAppValidation"

fun fallback_text :: "json \<Rightarrow> string \<Rightarrow> nat \<Rightarrow> string" where
  "fallback_text (JStr s) d n = (if py_strip s = [] then d else take n (py_strip s))"
| "fallback_text _ d n = d"

lemma text_value_idem: "text_value v n = Inr c \<Longrightarrow> text_value (JStr c) n = Inr c"
  by (cases v) (auto split: if_splits)

lemma text_value_bound: "text_value v n = Inr c \<Longrightarrow> c \<noteq> [] \<and> length c \<le> n"
  by (cases v) (auto split: if_splits)

declare text_value.simps [simp del]

section \<open>The app row\<close>

definition locked_active_app :: "db \<Rightarrow> uuid \<Rightarrow> app_error + app_row" where
  "locked_active_app d app_id =
     (case find_app d app_id of
        None \<Rightarrow> Inl CodeAppNotFound
      | Some app \<Rightarrow> if ga_status app \<noteq> AppActive then Inl CodeAppNotFound else Inr app)"

definition locked_code_app :: "db \<Rightarrow> uuid \<Rightarrow> app_error + app_row" where
  "locked_code_app d app_id =
     bindR (locked_active_app d app_id) (\<lambda>app.
       if ga_runtime app \<noteq> CodeRuntime then Inl CodeAppNotFound else Inr app)"

definition code_app :: "db \<Rightarrow> uuid \<Rightarrow> app_error + app_row" where
  "code_app d app_id =
     (case find_app d app_id of
        None \<Rightarrow> Inl CodeAppNotFound
      | Some app \<Rightarrow>
          if ga_status app \<noteq> AppActive \<or> ga_runtime app \<noteq> CodeRuntime then Inl CodeAppNotFound
          else Inr app)"

section \<open>Users and sessions\<close>

definition unclaimed_group :: "db \<Rightarrow> app_row \<Rightarrow> bool" where
  "unclaimed_group d app =
     (case find_conv d (ga_conv app) of
        None \<Rightarrow> False
      | Some c \<Rightarrow> cv_kind c = GroupConv \<and> cv_owner_source c = Some ''unclaimed'')"

definition find_membership :: "db \<Rightarrow> uuid \<Rightarrow> uuid \<Rightarrow> membership_row option" where
  "find_membership d app_id user_id =
     find (\<lambda>m. ms_app m = app_id \<and> ms_user m = user_id) (db_memberships d)"

definition authorize_user_for_locked_app :: "db \<Rightarrow> app_row \<Rightarrow> uuid \<Rightarrow> app_error + app_actor" where
  "authorize_user_for_locked_app d app user_id =
     (if ga_user app = user_id \<and> \<not> unclaimed_group d app
      then Inr \<lparr>ac_role = Owner, ac_user = Some user_id, ac_session = None, ac_verified = True\<rparr>
      else case find_membership d (ga_id app) user_id of
             None \<Rightarrow> Inl CodeAppAuthorization
           | Some m \<Rightarrow>
               if unclaimed_group d app \<and> ms_role m = Owner then Inl CodeAppAuthorization
               else Inr \<lparr>ac_role = ms_role m, ac_user = Some user_id, ac_session = None,
                         ac_verified = True\<rparr>)"

definition authorize_user :: "db \<Rightarrow> uuid \<Rightarrow> uuid \<Rightarrow> app_error + app_actor" where
  "authorize_user d app_id user_id =
     bindR (locked_active_app d app_id) (\<lambda>app. authorize_user_for_locked_app d app user_id)"

definition session_actor :: "session_row \<Rightarrow> app_row \<Rightarrow> app_error + app_actor" where
  "session_actor row app =
     (if ss_app row \<noteq> ga_id app then Inl CodeAppAuthorization
      else Inr \<lparr>ac_role = ss_role row, ac_user = ss_user row, ac_session = Some (ss_id row),
                ac_verified = False\<rparr>)"

definition session_live :: "instant \<Rightarrow> session_row \<Rightarrow> bool" where
  "session_live now s \<longleftrightarrow> ss_revoked s = None \<and> now < ss_expires s"

definition authorize_session ::
  "(string \<Rightarrow> string) \<Rightarrow> instant \<Rightarrow> db \<Rightarrow> uuid \<Rightarrow> string \<Rightarrow> app_error + app_actor" where
  "authorize_session sha now d app_id token =
     (case locked_active_app d app_id of
        Inl e \<Rightarrow> Inl (if e = CodeAppNotFound then CodeAppAuthorization else e)
      | Inr app \<Rightarrow>
          (case find (\<lambda>s. ss_app s = app_id \<and> ss_hash s = sha token \<and> session_live now s)
                  (db_sessions d) of
             None \<Rightarrow> Inl CodeAppAuthorization
           | Some row \<Rightarrow> session_actor row app))"

definition reauthorize_actor :: "instant \<Rightarrow> db \<Rightarrow> uuid \<Rightarrow> app_actor \<Rightarrow> app_error + app_actor" where
  "reauthorize_actor now d app_id actor =
     bindR (locked_code_app d app_id) (\<lambda>app.
       case ac_session actor of
         Some sid \<Rightarrow>
           (case find (\<lambda>s. ss_id s = sid \<and> ss_app s = ga_id app \<and> session_live now s)
                   (db_sessions d) of
              None \<Rightarrow> Inl CodeAppAuthorization
            | Some row \<Rightarrow> session_actor row app)
       | None \<Rightarrow>
           (case ac_user actor of
              None \<Rightarrow> Inl CodeAppAuthorization
            | Some u \<Rightarrow> authorize_user_for_locked_app d app u))"

definition require_write :: "app_actor \<Rightarrow> app_error + unit" where
  "require_write actor =
     (if ac_role actor \<notin> {Owner, Editor, Member} then Inl CodeAppAuthorization else Inr ())"

section \<open>Tickets\<close>

definition persist_access_ticket ::
  "(string \<Rightarrow> string) \<Rightarrow> instant \<Rightarrow> string \<Rightarrow> db \<Rightarrow> uuid \<Rightarrow> uuid \<Rightarrow> uuid option \<Rightarrow> string \<Rightarrow> int \<Rightarrow>
   app_error + (string \<times> db)" where
  "persist_access_ticket sha now raw d app_id issuer princ role ttl =
     (case role_of role of
        None \<Rightarrow> Inl CodeAppValidation
      | Some r \<Rightarrow>
          (case take_id d of (tid, d1) \<Rightarrow>
             Inr (raw, d1\<lparr>db_tickets := db_tickets d1 @
               [\<lparr>tk_id = tid, tk_app = app_id, tk_issuer = issuer, tk_principal = princ,
                 tk_role = r, tk_hash = sha raw,
                 tk_expires = now + seconds (max 60 (min ttl MAX_ACCESS_TICKET_TTL_SECONDS)),
                 tk_used = None, tk_last = None, tk_count = 0, tk_created = now\<rparr>]\<rparr>)))"

definition issue_access_ticket ::
  "(string \<Rightarrow> string) \<Rightarrow> instant \<Rightarrow> string \<Rightarrow> db \<Rightarrow> uuid \<Rightarrow> uuid \<Rightarrow> uuid option \<Rightarrow> string \<Rightarrow> int \<Rightarrow>
   app_error + (string \<times> db)" where
  "issue_access_ticket sha now raw d app_id issuer princ role ttl =
     bindR (locked_active_app d app_id) (\<lambda>app.
     bindR (authorize_user_for_locked_app d app issuer) (\<lambda>actor.
       if ac_role actor \<noteq> Owner then Inl CodeAppAuthorization
       else persist_access_ticket sha now raw d app_id issuer princ role ttl))"

definition issue_trusted_group_handoff_ticket ::
  "(string \<Rightarrow> string) \<Rightarrow> instant \<Rightarrow> string \<Rightarrow> db \<Rightarrow> app_row \<Rightarrow> conv_row \<Rightarrow> int \<Rightarrow>
   app_error + (string \<times> db)" where
  "issue_trusted_group_handoff_ticket sha now raw d app conversation ttl =
     (if cv_id conversation \<noteq> ga_conv app \<or> cv_kind conversation \<noteq> GroupConv
         \<or> ga_access app \<noteq> CollaborativeLink
      then Inl CodeAppAuthorization
      else persist_access_ticket sha now raw d (ga_id app) (cv_user conversation) None
             (role_str Member) ttl)"

definition ticket_live :: "instant \<Rightarrow> ticket_row \<Rightarrow> bool" where
  "ticket_live now t \<longleftrightarrow> now < tk_expires t"

definition redemption_limit :: "app_row \<Rightarrow> int" where
  "redemption_limit app =
     (if ga_access app = CollaborativeLink then MAX_COLLABORATIVE_TICKET_REDEMPTIONS
      else MAX_PRIVATE_TICKET_REDEMPTIONS)"

definition redeem_access_ticket ::
  "(string \<Rightarrow> string) \<Rightarrow> instant \<Rightarrow> string \<Rightarrow> db \<Rightarrow> string \<Rightarrow> string \<Rightarrow> int \<Rightarrow>
   app_error + (string \<times> session_row \<times> db)" where
  "redeem_access_ticket sha now raw d public_id token ttl =
     (case find (\<lambda>a. ga_public a = public_id) (db_apps d) of
        None \<Rightarrow> Inl CodeAppNotFound
      | Some app \<Rightarrow>
          if ga_status app \<noteq> AppActive then Inl CodeAppNotFound
          else (case find (\<lambda>t. tk_app t = ga_id app \<and> tk_hash t = sha token \<and> ticket_live now t)
                       (db_tickets d) of
                  None \<Rightarrow> Inl CodeAppAuthorization
                | Some ticket \<Rightarrow>
                    if redemption_limit app \<le> tk_count ticket then Inl CodeAppAuthorization
                    else (case take_id d of (sid, d1) \<Rightarrow>
                      let s = \<lparr>ss_id = sid, ss_app = ga_id app, ss_user = tk_principal ticket,
                               ss_role = tk_role ticket, ss_hash = sha raw,
                               ss_expires = now + seconds (max 300 (min ttl (30 * 86400))),
                               ss_revoked = None, ss_created = now\<rparr>
                      in Inr (raw, s, d1\<lparr>
                           db_tickets := upd_where (\<lambda>t. tk_id t = tk_id ticket)
                             (\<lambda>t. t\<lparr>tk_used := (case tk_used t of None \<Rightarrow> Some now | Some u \<Rightarrow> Some u),
                                   tk_last := Some now, tk_count := tk_count t + 1\<rparr>)
                             (db_tickets d1),
                           db_sessions := db_sessions d1 @ [s]\<rparr>))))"

section \<open>Lemmas\<close>

named_theorems access_defs "the definitions of the access checks"

lemmas [access_defs] =
  locked_active_app_def locked_code_app_def code_app_def authorize_user_def
  authorize_user_for_locked_app_def session_actor_def reauthorize_actor_def

lemma locked_active_app_Inr [result_simps]:
  "locked_active_app d i = Inr app \<longleftrightarrow> find_app d i = Some app \<and> ga_status app = AppActive"
  by (auto simp: locked_active_app_def split: option.splits)

lemma locked_code_app_Inr [result_simps]:
  "locked_code_app d i = Inr app \<longleftrightarrow>
     find_app d i = Some app \<and> ga_status app = AppActive \<and> ga_runtime app = CodeRuntime"
  by (auto simp: locked_code_app_def result_simps)

lemma code_app_Inr [result_simps]:
  "code_app d i = Inr app \<longleftrightarrow>
     find_app d i = Some app \<and> ga_status app = AppActive \<and> ga_runtime app = CodeRuntime"
  by (auto simp: code_app_def split: option.splits)

lemma find_app_id: "find_app d i = Some app \<Longrightarrow> ga_id app = i"
  by (drule row_by_Some) simp

lemma find_membership_Some:
  "find_membership d a u = Some m \<Longrightarrow> m \<in> set (db_memberships d) \<and> ms_app m = a \<and> ms_user m = u"
  by (auto simp: find_membership_def dest: find_SomeD)

lemma find_membership_None:
  "find_membership d a u = None \<longleftrightarrow> (\<forall>m\<in>set (db_memberships d). ms_app m = a \<longrightarrow> ms_user m \<noteq> u)"
  by (auto simp: find_membership_def find_None_iff)

text \<open>An actor that comes out of a user check is that user, without a session, and verified.\<close>

lemma authorize_user_actor:
  "authorize_user_for_locked_app d app u = Inr a \<Longrightarrow>
     ac_user a = Some u \<and> ac_session a = None \<and> ac_verified a"
  by (auto simp: authorize_user_for_locked_app_def split: if_splits option.splits)

lemma authorize_user_owner:
  "authorize_user_for_locked_app d app u = Inr a \<Longrightarrow> ac_role a = Owner \<Longrightarrow>
     \<not> unclaimed_group d app \<and>
     (ga_user app = u \<or> (\<exists>m\<in>set (db_memberships d). ms_app m = ga_id app \<and> ms_user m = u \<and> ms_role m = Owner))"
  by (auto simp: authorize_user_for_locked_app_def split: if_splits option.splits
      dest: find_membership_Some)

lemma session_actor_Inr [result_simps]:
  "session_actor row app = Inr a \<longleftrightarrow> ss_app row = ga_id app \<and>
     a = \<lparr>ac_role = ss_role row, ac_user = ss_user row, ac_session = Some (ss_id row), ac_verified = False\<rparr>"
  by (auto simp: session_actor_def)

lemma reauthorize_actor_app:
  "reauthorize_actor now d i actor = Inr a \<Longrightarrow> \<exists>app. locked_code_app d i = Inr app"
  by (auto simp: reauthorize_actor_def result_simps)

text \<open>A re-authorised actor has an identity: a user or a session.\<close>

lemma reauthorize_actor_identity:
  assumes "reauthorize_actor now d i actor = Inr a"
  shows "ac_user a \<noteq> None \<or> ac_session a \<noteq> None"
  using assms
  by (auto simp: reauthorize_actor_def result_simps split: option.splits dest: authorize_user_actor)

lemma reauthorize_actor_verified:
  assumes "reauthorize_actor now d i actor = Inr a" "ac_verified a"
  shows "\<exists>app u. locked_code_app d i = Inr app \<and> ac_user actor = Some u \<and> ac_session actor = None \<and>
           authorize_user_for_locked_app d app u = Inr a"
  using assms
  by (cases "ac_session actor"; cases "ac_user actor")
    (auto simp: reauthorize_actor_def result_simps split: option.splits)

lemma require_write_Inr [result_simps]: "require_write a = Inr u \<longleftrightarrow> ac_role a \<noteq> Viewer"
  by (cases "ac_role a") (auto simp: require_write_def)

lemma require_write_ok: "ac_role a \<noteq> Viewer \<Longrightarrow> require_write a = Inr ()"
  by (simp add: require_write_Inr)

lemma persist_access_ticket_Inr [result_simps]:
  "persist_access_ticket sha now raw d i iss princ role ttl = Inr (t, d') \<longleftrightarrow>
     (\<exists>r. role_of role = Some r \<and> t = raw \<and>
       d' = d\<lparr>db_next := db_next d + 1,
              db_tickets := db_tickets d @
               [\<lparr>tk_id = db_next d, tk_app = i, tk_issuer = iss, tk_principal = princ, tk_role = r,
                 tk_hash = sha raw,
                 tk_expires = now + seconds (max 60 (min ttl MAX_ACCESS_TICKET_TTL_SECONDS)),
                 tk_used = None, tk_last = None, tk_count = 0, tk_created = now\<rparr>]\<rparr>)"
  by (auto simp: persist_access_ticket_def take_id_def split: option.splits)

lemma redeem_access_ticket_Inr:
  assumes "redeem_access_ticket sha now raw d p token ttl = Inr (t, s, d')"
  obtains app ticket where
    "find (\<lambda>a. ga_public a = p) (db_apps d) = Some app" "ga_status app = AppActive"
    "find (\<lambda>t. tk_app t = ga_id app \<and> tk_hash t = sha token \<and> ticket_live now t) (db_tickets d) = Some ticket"
    "tk_count ticket < redemption_limit app" "t = raw"
    "s = \<lparr>ss_id = db_next d, ss_app = ga_id app, ss_user = tk_principal ticket,
          ss_role = tk_role ticket, ss_hash = sha raw,
          ss_expires = now + seconds (max 300 (min ttl (30 * 86400))),
          ss_revoked = None, ss_created = now\<rparr>"
    "d' = d\<lparr>db_next := db_next d + 1,
            db_tickets := upd_where (\<lambda>t. tk_id t = tk_id ticket)
              (\<lambda>t. t\<lparr>tk_used := (case tk_used t of None \<Rightarrow> Some now | Some u \<Rightarrow> Some u),
                    tk_last := Some now, tk_count := tk_count t + 1\<rparr>) (db_tickets d),
            db_sessions := db_sessions d @ [s]\<rparr>"
  using assms
  by (auto simp: redeem_access_ticket_def take_id_def Let_def not_le split: option.splits if_splits)

end
