(* ===== verification/Work_Queue.thy ===== *)
theory Work_Queue
  imports Dot_Models
begin

text \<open>
  What the background queues share (\<open>services/user_events.py\<close>, \<open>services/schedules.py\<close>,
  \<open>services/agent_followups.py\<close>, \<open>memory/service.py\<close>): a table of rows with a status, a number of
  attempts and a lease, a claim that takes the oldest eligible row (\<open>FOR UPDATE SKIP LOCKED\<close>), and a
  failure that puts the row back with an exponential delay.

  The contract of such a queue is stated once as a locale and interpreted by each of the four
  queues in its own theory: \<open>lease_queue\<close> for the claim, \<open>backoff_queue\<close> for the failure. The keyed
  insertion of an outbox (\<open>keyed_insert\<close>) is the third contract.
\<close>

text \<open>\<open>min(2 ** max(attempts, 1), 300)\<close>.\<close>

definition backoff_seconds :: "int \<Rightarrow> int" where
  "backoff_seconds attempts = min (2 ^ nat (max attempts 1)) 300"

lemma backoff_bounds: "2 \<le> backoff_seconds n \<and> backoff_seconds n \<le> 300"
proof -
  have "(2::int) ^ 1 \<le> 2 ^ nat (max n 1)" by (rule power_increasing) auto
  then show ?thesis by (simp add: backoff_seconds_def)
qed

lemma backoff_mono: "m \<le> n \<Longrightarrow> backoff_seconds m \<le> backoff_seconds n"
proof -
  assume "m \<le> n"
  then have "(2::int) ^ nat (max m 1) \<le> 2 ^ nat (max n 1)" by (intro power_increasing) auto
  then show ?thesis unfolding backoff_seconds_def by (rule min.mono) simp
qed

section \<open>Claims under a lease\<close>

locale lease_queue =
  fixes rid :: "'r \<Rightarrow> uuid"
    and tries :: "'r \<Rightarrow> int"
    and turn :: "'r \<Rightarrow> 'k::linorder"
    and eligible :: "instant \<Rightarrow> 'r \<Rightarrow> bool"
    and held :: "instant \<Rightarrow> 'r \<Rightarrow> 'r"
    and lease :: int
    and claim :: "int \<Rightarrow> instant \<Rightarrow> uuid option \<Rightarrow> 'r list \<Rightarrow> 'r option \<times> 'r list"
  assumes held_id: "rid (held now r) = rid r"
    and held_tries: "tries (held now r) = tries r + 1"
    and held_lease: "t < now + lease \<Longrightarrow> \<not> eligible t (held now r)"
    and claim_eq: "claim limit now who rows =
      (case least_by turn (filter (\<lambda>r. eligible now r \<and> tries r < limit \<and> (who = None \<or> who = Some (rid r))) rows) of
         None \<Rightarrow> (None, rows)
       | Some r \<Rightarrow> (Some (held now r), upd_where (\<lambda>q. rid q = rid r) (held now) rows))"
begin

lemma claim_someE:
  assumes "claim limit now who rows = (Some r', rows')"
  obtains r where "r \<in> set rows" "eligible now r" "tries r < limit" "r' = held now r"
    "\<And>q. q \<in> set rows \<Longrightarrow> eligible now q \<Longrightarrow> tries q < limit \<Longrightarrow> who = None \<or> who = Some (rid q) \<Longrightarrow> turn r \<le> turn q"
    "rows' = upd_where (\<lambda>q. rid q = rid r) (held now) rows"
proof -
  let ?cand = "filter (\<lambda>r. eligible now r \<and> tries r < limit \<and> (who = None \<or> who = Some (rid r))) rows"
  from assms obtain r where r: "least_by turn ?cand = Some r" "r' = held now r"
    "rows' = upd_where (\<lambda>q. rid q = rid r) (held now) rows"
    unfolding claim_eq by (auto split: option.splits)
  from least_by_Some [OF r(1)] r(2,3) show thesis by (intro that [of r]) auto
qed

lemma claim_none:
  "fst (claim limit now who rows) = None \<longleftrightarrow>
     \<not> (\<exists>r\<in>set rows. eligible now r \<and> tries r < limit \<and> (who = None \<or> who = Some (rid r)))"
  unfolding claim_eq by (auto simp: filter_empty_conv split: option.splits dest!: least_by_Some)

lemma claim_ids: "map rid (snd (claim limit now who rows)) = map rid rows"
  unfolding claim_eq by (auto simp: map_upd_where held_id split: option.splits)

lemma claimed_in:
  assumes "claim limit now who rows = (Some r', rows')"
  shows "r' \<in> set rows'"
  using assms by (elim claim_someE) (force simp: in_set_upd_where)

lemma claim_bound:
  assumes "\<forall>r\<in>set rows. 0 \<le> tries r \<and> tries r \<le> limit" "distinct (map rid rows)"
  shows "\<forall>r\<in>set (snd (claim limit now who rows)). 0 \<le> tries r \<and> tries r \<le> limit"
proof (cases "claim limit now who rows")
  case (Pair found rows')
  show ?thesis
  proof (cases found)
    case None
    with Pair assms(1) show ?thesis unfolding claim_eq by (auto split: option.splits)
  next
    case (Some r')
    with Pair obtain r where r: "r \<in> set rows" "tries r < limit"
      "rows' = upd_where (\<lambda>q. rid q = rid r) (held now) rows"
      by (auto elim: claim_someE)
    have "q = r" if "q \<in> set rows" "rid q = rid r" for q
      using assms(2) r(1) that by (auto simp: distinct_map inj_on_def)
    with Pair r assms(1) show ?thesis by (fastforce simp: in_set_upd_where held_tries)
  qed
qed

text \<open>A claimed row is not handed out again before its lease ends.\<close>

lemma claim_exclusive:
  assumes "claim limit now who rows = (Some r1, rows1)" "distinct (map rid rows)"
    and "claim limit' t who' rows1 = (Some r2, rows2)" "t < now + lease"
  shows "rid r2 \<noteq> rid r1"
proof -
  from assms(1) obtain r where r: "r \<in> set rows" "r1 = held now r"
    "rows1 = upd_where (\<lambda>q. rid q = rid r) (held now) rows"
    by (rule claim_someE)
  from assms(3) obtain q where q: "q \<in> set rows1" "eligible t q" "r2 = held t q"
    by (rule claim_someE)
  show ?thesis
  proof
    assume "rid r2 = rid r1"
    then have "rid q = rid r" using q(3) r(2) by (simp add: held_id)
    with q(1) r(3) obtain p where "q = held now p" by (auto simp: in_set_upd_where held_id split: if_splits)
    with held_lease [OF assms(4)] q(2) show False by simp
  qed
qed

end

section \<open>Failures with a delay\<close>

locale backoff_queue = lease_queue +
  fixes failed :: "instant \<Rightarrow> string \<Rightarrow> 'r \<Rightarrow> 'r"
  assumes failed_id: "rid (failed now err r) = rid r"
    and failed_tries: "tries (failed now err r) = tries r"
    and failed_due: "eligible t (failed now err r) \<longleftrightarrow> now + seconds (backoff_seconds (tries r)) \<le> t"
begin

text \<open>A failed row waits out its delay, at least two seconds and at most five minutes, and is then
  offered again, as long as it has attempts left.\<close>

lemma failed_waits:
  assumes "t < now + seconds (backoff_seconds (tries r))" "distinct (map rid rows)" "failed now err r \<in> set rows"
    and "claim limit t who rows = (Some q, rows')"
  shows "rid q \<noteq> rid r"
proof
  assume eq: "rid q = rid r"
  from assms(4) obtain p where p: "p \<in> set rows" "eligible t p" "q = held t p" by (rule claim_someE)
  have "p = failed now err r"
    using assms(2,3) p(1,3) eq by (auto simp: distinct_map inj_on_def held_id failed_id)
  with p(2) assms(1) show False by (simp add: failed_due)
qed

lemma failed_offered:
  assumes "now + seconds (backoff_seconds (tries r)) \<le> t" "failed now err r \<in> set rows" "tries r < limit"
    and "who = None \<or> who = Some (rid r)"
  shows "fst (claim limit t who rows) \<noteq> None"
  using assms by (auto simp: claim_none failed_id failed_tries failed_due intro!: bexI [of _ "failed now err r"])

lemma failed_within: "now + seconds 300 \<le> t \<Longrightarrow> eligible t (failed now err r)"
  using backoff_bounds [of "tries r"] seconds_mono(1) [of "backoff_seconds (tries r)" 300]
  by (simp add: failed_due del: seconds_mono time_simps)

end

section \<open>Keyed insertion\<close>

text \<open>
  Insertion of a row under a unique idempotency key: an existing row with the key is returned as it
  is, otherwise one row with the key is appended.
\<close>

locale keyed_insert =
  fixes table :: "db \<Rightarrow> 'r list"
    and key :: "'r \<Rightarrow> string"
    and insert_key :: "'x \<Rightarrow> string"
    and insert :: "'x \<Rightarrow> instant \<Rightarrow> db \<Rightarrow> 'e + ('r \<times> db)"
  assumes known: "find (\<lambda>r. key r = insert_key x) (table d) = Some r \<Longrightarrow> insert x now d = Inr (r, d)"
    and fresh: "\<lbrakk>find (\<lambda>r. key r = insert_key x) (table d) = None; insert x now d = Inr (r, d')\<rbrakk> \<Longrightarrow>
      key r = insert_key x \<and> table d' = table d @ [r]"
begin

lemma insert_returns_row:
  assumes "insert x now d = Inr (r, d')"
  shows "find (\<lambda>q. key q = insert_key x) (table d') = Some r"
proof (cases "find (\<lambda>q. key q = insert_key x) (table d)")
  case None
  with fresh [OF None assms] show ?thesis by (simp add: find_append_None)
next
  case (Some q)
  with known [OF Some, of now] assms show ?thesis by simp
qed

text \<open>Inserting twice under a key, whatever the other arguments, inserts once.\<close>

lemma insert_twice:
  assumes "insert x now d = Inr (r, d')" "insert_key y = insert_key x"
  shows "insert y now' d' = Inr (r, d')"
  using insert_returns_row [OF assms(1)] known [of y d' r now'] assms(2) by simp

lemma insert_distinct:
  assumes "insert x now d = Inr (r, d')" "distinct (map key (table d))"
  shows "distinct (map key (table d'))"
proof (cases "find (\<lambda>q. key q = insert_key x) (table d)")
  case None
  with fresh [OF None assms(1)] assms(2) show ?thesis by (auto simp: find_None_iff)
next
  case (Some q)
  with known [OF Some, of now] assms show ?thesis by simp
qed

lemma insert_appends:
  assumes "insert x now d = Inr (r, d')"
  shows "table d' = table d \<or> table d' = table d @ [r]"
  using assms known [of x d _ now] fresh [of x d now r d']
  by (cases "find (\<lambda>q. key q = insert_key x) (table d)") auto

end

end
