(* ===== verification/Channels.thy ===== *)
theory Channels
  imports Dot_Models
begin

text \<open>
  Conversations and deliveries (\<open>services/channels.py\<close>, with \<open>get_primary_user_handle\<close> of
  \<open>services/users.py\<close> and \<open>preferred_delivery_provider\<close> of \<open>services/schedules.py\<close>): the direct
  conversation of a user, the conversation of a channel, the provider a proactive message leaves
  through, and the life cycle of a delivery.

  Delivery statuses are preordered by how far the message has got; a pending and a failed delivery
  are equally far. The ordering is the \<open>order\<close> table of \<open>_advance_delivery_status\<close>.
\<close>

datatype channel_error = ChannelIdentityConflict | DirectConversationUserMissing

section \<open>Conversations\<close>

definition get_primary_user_handle :: "db \<Rightarrow> user_row \<Rightarrow> string" where
  "get_primary_user_handle d user =
     (case least_by (\<lambda>i. (\<not> ui_primary i, ui_created i, ui_id i))
             (filter (\<lambda>i. ui_user i = us_id user \<and> ui_status i = IdActive) (db_identifiers d)) of
        Some i \<Rightarrow> ui_value i
      | None \<Rightarrow>
          (case us_phone user of
             Some p \<Rightarrow> if p \<noteq> [] then p else ''user:'' @ str_uuid (us_id user)
           | None \<Rightarrow> ''user:'' @ str_uuid (us_id user)))"

definition resolve_direct_conversation ::
  "instant \<Rightarrow> db \<Rightarrow> uuid \<Rightarrow> string option \<Rightarrow> channel_error + (conv_row \<times> db)" where
  "resolve_direct_conversation now d user_id external_handle =
     (case find (\<lambda>c. cv_user c = user_id \<and> cv_kind c = DirectConv) (db_convs d) of
        Some c \<Rightarrow> Inr (c, d)
      | None \<Rightarrow>
          (case take_id d of (cid, d1) \<Rightarrow>
            let c = \<lparr>cv_id = cid, cv_user = user_id, cv_kind = DirectConv, cv_title = None,
                     cv_avatar = None, cv_mode = ''auto'', cv_owner_source = None,
                     cv_status = ''active'', cv_created = now, cv_updated = now\<rparr>
            in bindR (some_or DirectConversationUserMissing (find_user d1 user_id)) (\<lambda>user.
                 let handle = (case external_handle of
                        Some h \<Rightarrow> if h \<noteq> [] then h else get_primary_user_handle d1 user
                      | None \<Rightarrow> get_primary_user_handle d1 user)
                 in case take_id d1 of (mid, d2) \<Rightarrow>
                   Inr (c, d2\<lparr>db_convs := db_convs d2 @ [c],
                     db_members := db_members d2 @
                       [\<lparr>cm_id = mid, cm_conv = cid, cm_user = Some user_id, cm_handle = handle,
                         cm_external = None, cm_name = None, cm_service = None, cm_role = GroupOwner,
                         cm_status = ''active'', cm_joined = now, cm_left = None, cm_created = now\<rparr>]\<rparr>))))"

definition resolve_channel_conversation ::
  "instant \<Rightarrow> db \<Rightarrow> uuid \<Rightarrow> string \<Rightarrow> string \<Rightarrow> string option \<Rightarrow> string option \<Rightarrow>
   channel_error + (conv_row \<times> channel_row \<times> db)" where
  "resolve_channel_conversation now d user_id provider external_id service user_handle =
     (case find (\<lambda>c. cc_provider c = provider \<and> cc_external c = external_id) (db_channels d) of
        Some channel \<Rightarrow>
          (case find_conv d (cc_conv channel) of
             None \<Rightarrow> Inl ChannelIdentityConflict
           | Some conversation \<Rightarrow>
               if cv_user conversation \<noteq> user_id then Inl ChannelIdentityConflict
               else if service \<noteq> None \<and> cc_service channel \<noteq> service
               then let set = (\<lambda>c. c\<lparr>cc_service := service, cc_updated := now\<rparr>)
                    in Inr (conversation, set channel,
                         d\<lparr>db_channels := upd_where (\<lambda>c. cc_id c = cc_id channel) set (db_channels d)\<rparr>)
               else Inr (conversation, channel, d))
      | None \<Rightarrow>
          bindR (resolve_direct_conversation now d user_id user_handle) (\<lambda>(conversation, d1).
            case take_id d1 of (hid, d2) \<Rightarrow>
              let channel = \<lparr>cc_id = hid, cc_conv = cv_id conversation, cc_provider = provider,
                             cc_external = external_id, cc_service = service, cc_status = ''active'',
                             cc_updated = now\<rparr>
              in Inr (conversation, channel, d2\<lparr>db_channels := db_channels d2 @ [channel]\<rparr>)))"

definition preferred_delivery_provider :: "db \<Rightarrow> uuid \<Rightarrow> string option" where
  "preferred_delivery_provider d conversation_id =
     (case find_conv d conversation_id of
        None \<Rightarrow> None
      | Some c \<Rightarrow>
          if cv_kind c \<noteq> DirectConv then None
          else (case latest_by cc_updated
                       (filter (\<lambda>h. cc_conv h = conversation_id \<and> cc_provider h = ''linq'' \<and>
                          cc_status h = ''active'') (db_channels d)) of
                  None \<Rightarrow> None | Some _ \<Rightarrow> Some ''linq''))"

section \<open>Deliveries\<close>

primrec delivery_rank :: "delivery_status \<Rightarrow> nat" where
  "delivery_rank DPending = 0"
| "delivery_rank DFailed = 0"
| "delivery_rank DSent = 1"
| "delivery_rank DDelivered = 2"
| "delivery_rank DRead = 3"

instantiation delivery_status :: preorder
begin

definition less_eq_delivery_status :: "delivery_status \<Rightarrow> delivery_status \<Rightarrow> bool" where
  "less_eq_delivery_status a b \<longleftrightarrow> delivery_rank a \<le> delivery_rank b"

definition less_delivery_status :: "delivery_status \<Rightarrow> delivery_status \<Rightarrow> bool" where
  "less_delivery_status a b \<longleftrightarrow> delivery_rank a < delivery_rank b"

instance
  by standard (auto simp: less_eq_delivery_status_def less_delivery_status_def)

end

definition advance_delivery_status :: "delivery_status \<Rightarrow> delivery_row \<Rightarrow> delivery_row" where
  "advance_delivery_status target r = (if md_status r \<le> target then r\<lparr>md_status := target\<rparr> else r)"

text \<open>\<open>str(v) if v else None\<close>, the identifier a webhook gives.\<close>

definition webhook_id :: "json \<Rightarrow> string option" where
  "webhook_id v = (if truthy v then Some (py_str v) else None)"

lemma webhook_id_examples:
  "webhook_id (JInt 42) = Some ''42''" "webhook_id (JArr []) = None"
  "webhook_id (JArr [JStr ''a'', JNull, JObj [(''k'', JBool True)]]) =
     Some ([CHR ''['', char_of (39::int)] @ ''a'' @ [char_of (39::int)] @ '', None, {'' @ repr_str ''k'' @ '': True}]'')"
  by code_simp+

text \<open>\<open>parse\<close> is \<open>datetime.fromisoformat\<close> after the replacement of \<open>Z\<close>, \<open>None\<close> for a \<open>ValueError\<close>.\<close>

fun event_datetime :: "(string \<Rightarrow> instant option) \<Rightarrow> json \<Rightarrow> instant option" where
  "event_datetime parse (JStr s) = parse s"
| "event_datetime parse _ = None"

definition first_some :: "'a option \<Rightarrow> 'a option \<Rightarrow> 'a option" where
  "first_some a b = (case a of None \<Rightarrow> b | Some x \<Rightarrow> Some x)"

definition lifecycle_change ::
  "(string \<Rightarrow> instant option) \<Rightarrow> instant \<Rightarrow> string \<Rightarrow> obj \<Rightarrow> delivery_row \<Rightarrow> delivery_row" where
  "lifecycle_change parse now type data r =
     (let external = webhook_id (get_or_null data ''id'');
          at = (\<lambda>field old. first_some (first_some old (event_datetime parse (get_or_null data field))) (Some now));
          r1 = (if external \<noteq> None \<and> md_external r = None then r\<lparr>md_external := external\<rparr> else r)
      in if type = ''message.sent''
         then (advance_delivery_status DSent r1)\<lparr>md_sent := at ''sent_at'' (md_sent r1)\<rparr>
         else if type = ''message.delivered''
         then (advance_delivery_status DDelivered r1)\<lparr>md_delivered := at ''delivered_at'' (md_delivered r1)\<rparr>
         else if type = ''message.read''
         then (advance_delivery_status DRead r1)\<lparr>md_read := at ''read_at'' (md_read r1)\<rparr>
         else if type = ''message.failed'' \<and> md_status r1 \<notin> {DDelivered, DRead}
         then r1\<lparr>md_status := DFailed\<rparr>
         else r1)"

definition apply_message_lifecycle_event ::
  "(string \<Rightarrow> instant option) \<Rightarrow> instant \<Rightarrow> db \<Rightarrow> string \<Rightarrow> string \<Rightarrow> obj \<Rightarrow> bool \<times> db" where
  "apply_message_lifecycle_event parse now d provider type data =
     (let external = webhook_id (get_or_null data ''id'');
          key = webhook_id (get_or_null data ''idempotency_key'')
      in if external = None \<and> key = None then (False, d)
         else case find (\<lambda>r. md_provider r = provider \<and>
                     ((external \<noteq> None \<and> md_external r = external) \<or> (key \<noteq> None \<and> md_key r = key)))
                     (db_deliveries d) of
                None \<Rightarrow> (False, d)
              | Some r \<Rightarrow>
                  (True, d\<lparr>db_deliveries := upd_where (\<lambda>q. md_id q = md_id r)
                     (lifecycle_change parse now type data) (db_deliveries d)\<rparr>))"

section \<open>Lemmas\<close>

lemma resolve_direct_conversation_Inr:
  assumes "resolve_direct_conversation now d u h = Inr (c, d')"
  shows "cv_user c = u \<and> cv_kind c = DirectConv \<and>
    find (\<lambda>c. cv_user c = u \<and> cv_kind c = DirectConv) (db_convs d') = Some c \<and>
    (d' = d \<or> (cv_id c = db_next d \<and> db_convs d' = db_convs d @ [c] \<and>
       (\<forall>q\<in>set (db_convs d). \<not> (cv_user q = u \<and> cv_kind q = DirectConv))))"
proof (cases "find (\<lambda>c. cv_user c = u \<and> cv_kind c = DirectConv) (db_convs d)")
  case None
  with assms show ?thesis
    by (auto simp: resolve_direct_conversation_def take_id_def Let_def result_simps find_append_None find_None_iff)
next
  case (Some q)
  with assms find_SomeD [OF Some] show ?thesis by (simp add: resolve_direct_conversation_def)
qed

lemma resolve_direct_conversation_other:
  assumes "resolve_direct_conversation now d u h = Inr (c, d')"
  shows "db_apps d' = db_apps d" "db_deployments d' = db_deployments d" "db_revisions d' = db_revisions d"
    "db_records d' = db_records d" "db_events d' = db_events d" "db_tasks d' = db_tasks d"
    "db_uevents d' = db_uevents d" "db_jobs d' = db_jobs d" "db_next d \<le> db_next d'"
  using assms by (auto simp: resolve_direct_conversation_def take_id_def Let_def result_simps split: option.splits)

text \<open>How a delivery row may change.\<close>

definition delivery_progress :: "delivery_row \<Rightarrow> delivery_row \<Rightarrow> bool" where
  "delivery_progress r r' \<longleftrightarrow> md_id r' = md_id r \<and>
     (DDelivered \<le> md_status r \<longrightarrow> md_status r \<le> md_status r') \<and>
     (md_sent r \<noteq> None \<longrightarrow> md_sent r' = md_sent r) \<and>
     (md_delivered r \<noteq> None \<longrightarrow> md_delivered r' = md_delivered r) \<and>
     (md_read r \<noteq> None \<longrightarrow> md_read r' = md_read r) \<and>
     (md_external r \<noteq> None \<longrightarrow> md_external r' = md_external r)"

lemma delivery_progress_refl [simp]: "delivery_progress r r"
  by (simp add: delivery_progress_def)

lemma delivery_progress_trans [trans]:
  "delivery_progress a b \<Longrightarrow> delivery_progress b c \<Longrightarrow> delivery_progress a c"
  unfolding delivery_progress_def less_eq_delivery_status_def by auto

lemma advance_delivery_status_simps [simp]:
  "md_id (advance_delivery_status t r) = md_id r" "md_sent (advance_delivery_status t r) = md_sent r"
  "md_delivered (advance_delivery_status t r) = md_delivered r"
  "md_read (advance_delivery_status t r) = md_read r"
  "md_external (advance_delivery_status t r) = md_external r"
  "md_status r \<le> md_status (advance_delivery_status t r)"
  by (simp_all add: advance_delivery_status_def)

lemma first_some_Some [simp]: "x \<noteq> None \<Longrightarrow> first_some x y = x"
  by (auto simp: first_some_def)

lemma progress_stages:
  "delivery_progress q ((advance_delivery_status t q)\<lparr>md_sent := first_some (first_some (md_sent q) x) y\<rparr>)"
  "delivery_progress q ((advance_delivery_status t q)\<lparr>md_delivered := first_some (first_some (md_delivered q) x) y\<rparr>)"
  "delivery_progress q ((advance_delivery_status t q)\<lparr>md_read := first_some (first_some (md_read q) x) y\<rparr>)"
  "md_status q \<notin> {DDelivered, DRead} \<Longrightarrow> delivery_progress q (q\<lparr>md_status := DFailed\<rparr>)"
  by (simp_all add: delivery_progress_def) (cases "md_status q"; simp add: less_eq_delivery_status_def)

lemma progress_if:
  "(b \<Longrightarrow> delivery_progress q x) \<Longrightarrow> (\<not> b \<Longrightarrow> delivery_progress q y) \<Longrightarrow> delivery_progress q (if b then x else y)"
  by simp

lemma lifecycle_change_progress: "delivery_progress r (lifecycle_change parse now type data r)"
proof -
  let ?e = "webhook_id (get_or_null data ''id'')"
  let ?r = "if ?e \<noteq> None \<and> md_external r = None then r\<lparr>md_external := ?e\<rparr> else r"
  have "delivery_progress r ?r" by (simp add: delivery_progress_def)
  moreover have "delivery_progress ?r (lifecycle_change parse now type data r)"
    unfolding lifecycle_change_def Let_def
    by (rule progress_if, rule progress_stages)+ (erule conjunct2, rule delivery_progress_refl)
  ultimately show ?thesis by (rule delivery_progress_trans)
qed

type_synonym webhook = "instant \<times> string \<times> string \<times> obj"

definition run_webhooks :: "(string \<Rightarrow> instant option) \<Rightarrow> db \<Rightarrow> webhook list \<Rightarrow> db" where
  "run_webhooks parse = foldl (\<lambda>d (now, provider, type, data).
     snd (apply_message_lifecycle_event parse now d provider type data))"

lemma webhook_progress:
  "list_all2 delivery_progress (db_deliveries d)
     (db_deliveries (snd (apply_message_lifecycle_event parse now d provider type data)))"
proof -
  have "list_all2 delivery_progress rows (upd_where p (lifecycle_change parse now type data) rows)" for p rows
    by (induction rows) (simp_all add: lifecycle_change_progress)
  then show ?thesis
    by (auto simp: apply_message_lifecycle_event_def Let_def list.rel_refl split: option.splits)
qed

text \<open>C22. Webhook events never take a delivery back, in whatever order, however often and however late they
  arrive: a message once delivered stays delivered or read and one once read stays read, and no time stamp,
  identifier or provider id that was set is ever overwritten. (Before that, a failure may undo
  \<open>sent\<close>.)\<close>

theorem deliveries_never_regress:
  "list_all2 delivery_progress (db_deliveries d) (db_deliveries (run_webhooks parse d events))"
proof (induction events arbitrary: d)
  case Nil
  show ?case by (simp add: run_webhooks_def list.rel_refl)
next
  case (Cons e events)
  obtain now provider type data where e: "e = (now, provider, type, data)" by (cases e)
  let ?d = "snd (apply_message_lifecycle_event parse now d provider type data)"
  have "run_webhooks parse d (e # events) = run_webhooks parse ?d events"
    by (simp add: run_webhooks_def e)
  with webhook_progress [of d parse now provider type data] Cons [of ?d] show ?case
    by (metis (no_types, lifting) delivery_progress_trans list_all2_trans)
qed

definition one_direct :: "db \<Rightarrow> bool" where
  "one_direct d \<longleftrightarrow> distinct (map cv_user (filter (\<lambda>c. cv_kind c = DirectConv) (db_convs d)))"

text \<open>A user has one direct conversation: resolving it creates it at most once, a second resolution
  returns the same conversation and changes nothing, and no user ever gets two.\<close>

theorem direct_conversation_is_unique:
  assumes "resolve_direct_conversation now d u h = Inr (c, d')" "one_direct d"
  shows "one_direct d' \<and> resolve_direct_conversation now' d' u h' = Inr (c, d') \<and> cv_user c = u"
proof -
  from resolve_direct_conversation_Inr [OF assms(1)] have
    f: "find (\<lambda>c. cv_user c = u \<and> cv_kind c = DirectConv) (db_convs d') = Some c" and
    c: "cv_user c = u" "cv_kind c = DirectConv" and
    d': "d' = d \<or> (db_convs d' = db_convs d @ [c] \<and>
       (\<forall>q\<in>set (db_convs d). \<not> (cv_user q = u \<and> cv_kind q = DirectConv)))" by auto
  have "one_direct d'" using d' assms(2) c by (auto simp: one_direct_def)
  with f c show ?thesis by (simp add: resolve_direct_conversation_def)
qed

theorem direct_conversation_is_unique_witness:
  "\<exists>c d'. resolve_direct_conversation 7 (empty_db\<lparr>db_users := [\<lparr>us_id = 1, us_phone = None, us_name = None,
       us_opted_out = None, us_phone_verified = None, us_first_seen = 0, us_last_seen = 0\<rparr>]\<rparr>) 1 None = Inr (c, d') \<and> one_direct d' \<and> cv_user c = 1"
proof -
  let ?d = "empty_db\<lparr>db_users := [\<lparr>us_id = 1, us_phone = None, us_name = None, us_opted_out = None, us_phone_verified = None, us_first_seen = 0, us_last_seen = 0\<rparr>]\<rparr>"
  let ?r = "resolve_direct_conversation 7 ?d 1 None"
  have r: "?r = Inr (fst (projr ?r), snd (projr ?r))" by code_simp
  have "one_direct ?d" by (simp add: one_direct_def empty_db_def)
  from direct_conversation_is_unique [OF r this] r show ?thesis by blast
qed

end
