(* ===== verification/User_Events.thy ===== *)
theory User_Events
  imports Work_Queue Channels
begin

text \<open>
  The outbox of user events (\<open>services/user_events.py\<close>): insertion under an idempotency key, the claim
  of the next event, its completion and its retry, the conversation an event is delivered to, and the
  dispatch that ties them together, with the canonical messages that stand in for the agent when an app
  build has finished and the agent cannot be reached.

  The agent and the delivery adapter are parameters (\<open>dispatch_env\<close>): either may fail with the text of
  an exception, and either may change the database. The typing indicator, which never raises and keeps
  no state, is left out, and so are the log lines.
\<close>

definition AGENT_EVENT_TYPES :: "string list" where
  "AGENT_EVENT_TYPES =
     [''integration.connected'', ''finance.connected'', ''finance.reauth_required'',
      ''group.benji_added'', ''group.dot_added'', ''schedule.triggered'', ''app.build.completed'',
      ''app.build.failed'']"

section \<open>The queue\<close>

definition enqueue_user_event ::
  "instant \<Rightarrow> db \<Rightarrow> uuid \<Rightarrow> uuid option \<Rightarrow> string \<Rightarrow> string \<Rightarrow> string \<Rightarrow> obj \<Rightarrow> string option \<Rightarrow>
   uevent_row \<times> db" where
  "enqueue_user_event now d user_id conversation_id type source key payload provider =
     (case find (\<lambda>e. ue_key e = key) (db_uevents d) of
        Some e \<Rightarrow> (e, d)
      | None \<Rightarrow>
          (case take_id d of (eid, d1) \<Rightarrow>
            let e = \<lparr>ue_id = eid, ue_user = user_id, ue_conv = conversation_id, ue_type = type,
                     ue_source = source, ue_key = key, ue_payload = payload, ue_provider = provider,
                     ue_status = EvPending, ue_attempts = 0, ue_next = now, ue_locked = None,
                     ue_processed = None, ue_error = None, ue_created = now\<rparr>
            in (e, d1\<lparr>db_uevents := db_uevents d1 @ [e]\<rparr>)))"

definition event_eligible :: "instant \<Rightarrow> uevent_row \<Rightarrow> bool" where
  "event_eligible now e \<longleftrightarrow>
     ue_status e = EvPending \<or>
     (ue_status e = EvFailed \<and> ue_next e \<le> now) \<or>
     (ue_status e = EvProcessing \<and>
        (case ue_locked e of None \<Rightarrow> False | Some t \<Rightarrow> t \<le> now - minutes 2))"

definition hold_event :: "instant \<Rightarrow> uevent_row \<Rightarrow> uevent_row" where
  "hold_event now e =
     e\<lparr>ue_status := EvProcessing, ue_attempts := ue_attempts e + 1, ue_locked := Some now, ue_error := None\<rparr>"

definition claim_event :: "int \<Rightarrow> instant \<Rightarrow> uuid option \<Rightarrow> uevent_row list \<Rightarrow> uevent_row option \<times> uevent_row list" where
  "claim_event max_attempts now event_id events =
     (case least_by (\<lambda>e. (ue_next e, ue_created e))
             (filter (\<lambda>e. event_eligible now e \<and> ue_attempts e < max_attempts \<and>
                (event_id = None \<or> event_id = Some (ue_id e))) events) of
        None \<Rightarrow> (None, events)
      | Some e \<Rightarrow> (Some (hold_event now e), upd_where (\<lambda>q. ue_id q = ue_id e) (hold_event now) events))"

definition finish_event ::
  "instant \<Rightarrow> uuid \<Rightarrow> uevent_status \<Rightarrow> string option \<Rightarrow> uevent_row list \<Rightarrow> uevent_row list" where
  "finish_event now event_id status err =
     upd_where (\<lambda>e. ue_id e = event_id)
       (\<lambda>e. e\<lparr>ue_status := status, ue_error := err, ue_locked := None, ue_processed := Some now\<rparr>)"

definition fail_event :: "instant \<Rightarrow> string \<Rightarrow> uevent_row \<Rightarrow> uevent_row" where
  "fail_event now err e =
     e\<lparr>ue_status := EvFailed, ue_error := Some (take 2000 err), ue_locked := None,
       ue_next := now + seconds (backoff_seconds (ue_attempts e))\<rparr>"

definition retry_event ::
  "int \<Rightarrow> instant \<Rightarrow> uuid \<Rightarrow> string \<Rightarrow> uevent_row list \<Rightarrow> bool \<times> uevent_row list" where
  "retry_event max_attempts now event_id err events =
     (case row_by ue_id event_id events of
        None \<Rightarrow> (False, events)
      | Some e \<Rightarrow> (max_attempts \<le> ue_attempts e, upd_where (\<lambda>q. ue_id q = event_id) (fail_event now err) events))"

section \<open>The target\<close>

definition GONE :: string where
  "GONE = ''Event conversation target no longer exists''"

definition resolve_event_target ::
  "instant \<Rightarrow> db \<Rightarrow> uevent_row \<Rightarrow> string + (conv_row \<times> channel_row option \<times> db)" where
  "resolve_event_target now d e =
     bindR (case ue_conv e of
              None \<Rightarrow>
                (case resolve_direct_conversation now d (ue_user e) None of
                   Inl _ \<Rightarrow> Inl ''Direct conversation user no longer exists''
                 | Inr (c, d1) \<Rightarrow> Inr (c, d1))
            | Some cid \<Rightarrow>
                (case find_conv d cid of
                   None \<Rightarrow> Inl GONE
                 | Some c \<Rightarrow>
                     if cv_status c \<noteq> ''active'' then Inl GONE
                     else if cv_kind c = DirectConv \<and> cv_user c \<noteq> ue_user e then Inl GONE
                     else Inr (c, d)))
       (\<lambda>(c, d1).
          let channel = (case ue_provider e of
                None \<Rightarrow> None
              | Some p \<Rightarrow>
                  latest_by cc_updated
                    (filter (\<lambda>h. cc_conv h = cv_id c \<and> cc_provider h = p \<and> cc_status h = ''active'')
                       (db_channels d1)))
          in Inr (c, channel, d1))"

definition messaging_opted_out :: "db \<Rightarrow> uuid \<Rightarrow> bool" where
  "messaging_opted_out d user_id =
     (case find_user d user_id of None \<Rightarrow> True | Some u \<Rightarrow> us_opted_out u \<noteq> None)"

section \<open>Canonical messages\<close>

type_synonym turn = "(uuid \<times> string) list"

fun contains :: "string \<Rightarrow> string \<Rightarrow> bool" where
  "contains needle [] = (needle = [])"
| "contains needle (c # cs) = (take (length needle) (c # cs) = needle \<or> contains needle cs)"

text \<open>The messages of an event, \<open>LIKE 'key:%'\<close> being a prefix test (a key has no wildcard), ordered by
  creation and ordinal with nulls last.\<close>

definition event_messages :: "db \<Rightarrow> string \<Rightarrow> message_row list" where
  "event_messages d key =
     sort_key (\<lambda>m. (mg_created m, mg_ordinal m = None, case mg_ordinal m of None \<Rightarrow> 0 | Some i \<Rightarrow> i))
       (filter (\<lambda>m. mg_channel m = ''event'' \<and>
          (case mg_key m of None \<Rightarrow> False
           | Some k \<Rightarrow> k = key \<or> take (length key + 1) k = key @ '':''))
         (db_messages d))"

definition ensure_app_completion_turn ::
  "instant \<Rightarrow> db \<Rightarrow> uevent_row \<Rightarrow> conv_row \<Rightarrow> uuid option \<Rightarrow> string \<Rightarrow> string + (turn \<times> db)" where
  "ensure_app_completion_turn now d e conversation binding key =
     (case get_or_null (ue_payload e) ''app_url'' of
        JStr url \<Rightarrow>
          if py_strip url = [] then Inl ''App completion event is missing its trusted app URL''
          else
            let messages = event_messages d key; turn_of = map (\<lambda>m. (mg_id m, mg_content m)) in
            if \<exists>m\<in>set messages. contains url (mg_content m) then Inr (turn_of messages, d)
            else
              let (grp, d1) = (case messages of
                     m # _ \<Rightarrow> (case mg_group m of Some g \<Rightarrow> (g, d) | None \<Rightarrow> take_id d)
                   | [] \<Rightarrow> take_id d);
                  ordinal = foldr max (map (\<lambda>m. case mg_ordinal m of None \<Rightarrow> 0 | Some i \<Rightarrow> i) messages) (- 1) + 1;
                  trusted_key = (if messages = [] then key else key @ '':trusted-link'')
              in (case find (\<lambda>m. mg_key m = Some trusted_key) messages of
                    None \<Rightarrow>
                      (case take_id d1 of (mid, d2) \<Rightarrow>
                        let m = \<lparr>mg_id = mid, mg_conv = cv_id conversation, mg_user = ue_user e,
                                 mg_binding = binding, mg_channel = ''event'', mg_key = Some trusted_key,
                                 mg_group = Some grp, mg_ordinal = Some ordinal, mg_inbound = False,
                                 mg_content = url,
                                 mg_payload = [(''wake_type'', JStr ''app.build.completed''),
                                   (''trusted_app_url'', JStr url), (''canonical_fallback'', JBool True)],
                                 mg_created = now\<rparr>
                        in Inr (turn_of (messages @ [m]), d2\<lparr>db_messages := db_messages d2 @ [m]\<rparr>))
                  | Some f \<Rightarrow>
                      let fix = (\<lambda>m. m\<lparr>mg_content := url,
                                       mg_payload := AList.update ''canonical_fallback'' (JBool True)
                                         (AList.update ''trusted_app_url'' (JStr url) (mg_payload m))\<rparr>);
                          here = (\<lambda>m. mg_id m = mg_id f)
                      in Inr (turn_of (upd_where here fix messages),
                              d1\<lparr>db_messages := upd_where here fix (db_messages d1)\<rparr>))
      | _ \<Rightarrow> Inl ''App completion event is missing its trusted app URL'')"

definition ensure_app_failure_turn ::
  "instant \<Rightarrow> db \<Rightarrow> uevent_row \<Rightarrow> conv_row \<Rightarrow> uuid option \<Rightarrow> string \<Rightarrow> turn \<times> db" where
  "ensure_app_failure_turn now d e conversation binding key =
     (let label = (case get_or_null (ue_payload e) ''title'' of
             JStr t \<Rightarrow> if py_strip t = [] then ''that app'' else py_strip t
           | _ \<Rightarrow> ''that app'');
          text = ''i couldn't get '' @ label @ '' working cleanly, so i didn't send you a broken link. '' @
                 ''tell me what matters most and i'll take another run at it.''
      in case find (\<lambda>m. mg_channel m = ''event'' \<and> mg_key m = Some key) (db_messages d) of
           Some m \<Rightarrow> ([(mg_id m, mg_content m)], d)
         | None \<Rightarrow>
             (case take_id d of (grp, d1) \<Rightarrow>
              case take_id d1 of (mid, d2) \<Rightarrow>
                let m = \<lparr>mg_id = mid, mg_conv = cv_id conversation, mg_user = ue_user e,
                         mg_binding = binding, mg_channel = ''event'', mg_key = Some key,
                         mg_group = Some grp, mg_ordinal = Some 0, mg_inbound = False, mg_content = text,
                         mg_payload = [(''wake_type'', JStr ''app.build.failed''),
                           (''canonical_fallback'', JBool True)],
                         mg_created = now\<rparr>
                in ([(mid, text)], d2\<lparr>db_messages := db_messages d2 @ [m]\<rparr>)))"

section \<open>Dispatch\<close>

record dispatch_env =
  de_types :: "string list"
  de_max :: int
  de_provider :: bool
  de_linq_enabled :: bool
  de_linq_client :: bool
  de_agent :: "uevent_row \<Rightarrow> conv_row \<Rightarrow> channel_row option \<Rightarrow> bool \<Rightarrow> string \<Rightarrow> db \<Rightarrow> (string + turn) \<times> db"
  de_deliver :: "turn \<Rightarrow> channel_row \<Rightarrow> string \<Rightarrow> db \<Rightarrow> string option \<times> db"

text \<open>The delivery note and whether the message goes out through Linq.\<close>

definition delivery_plan ::
  "dispatch_env \<Rightarrow> db \<Rightarrow> uevent_row \<Rightarrow> conv_row \<Rightarrow> channel_row option \<Rightarrow> string + (string option \<times> bool)" where
  "delivery_plan env d e conversation channel =
     (case ue_provider e of
        None \<Rightarrow> Inr (None, False)
      | Some p \<Rightarrow>
          if p \<noteq> ''linq'' then Inl (''No delivery adapter for '' @ p)
          else if cv_kind conversation = DirectConv \<and> messaging_opted_out d (ue_user e)
          then Inr (Some ''User has opted out of proactive messaging'', False)
          else if channel = None then Inr (Some ''No active linq channel'', False)
          else if \<not> de_linq_enabled env then Inr (Some ''Automated Linq delivery is disabled'', False)
          else if \<not> de_linq_client env then Inr (Some ''Linq delivery is not configured'', False)
          else Inr (None, True))"

definition event_message_key :: "uevent_row \<Rightarrow> string" where
  "event_message_key e = ''benji:user-event:'' @ str_uuid (ue_id e)"

text \<open>The agent's turn, or for a finished build the canonical message when the agent fails.\<close>

definition generate_turn ::
  "dispatch_env \<Rightarrow> instant \<Rightarrow> db \<Rightarrow> uevent_row \<Rightarrow> conv_row \<Rightarrow> channel_row option \<Rightarrow> string option \<Rightarrow> bool \<Rightarrow>
   (string + (turn \<times> string option)) \<times> db" where
  "generate_turn env now d e conversation channel note ready =
     (let (outcome, d1) = (if de_provider env
             then de_agent env e conversation channel ready (event_message_key e) d
             else (Inl ''The event agent model provider is not configured'', d))
      in case outcome of
           Inr turn \<Rightarrow> (Inr (turn, note), d1)
         | Inl m \<Rightarrow>
             if ue_type e \<noteq> ''app.build.completed'' then (Inl m, d1)
             else
               let generation_note = ''Agent generation failed; persisted the canonical app completion instead''
               in case ensure_app_completion_turn now d1 e conversation (map_option cc_id channel)
                         (event_message_key e) of
                    Inl m' \<Rightarrow> (Inl m', d1)
                  | Inr (turn, d2) \<Rightarrow>
                      (Inr (turn, Some (case note of
                         Some n \<Rightarrow> if n = [] then generation_note else n @ ''; '' @ generation_note
                       | None \<Rightarrow> generation_note)), d2))"

text \<open>
  The body of the \<open>try\<close>: the status and note to finish with, or the exception. The rest is what the
  handler reads: the resolved target, whether delivery was ready, and the turn.
\<close>

record attempt_result =
  at_outcome :: "string + (uevent_status \<times> string option)"
  at_db :: db
  at_target :: "(conv_row \<times> channel_row option) option"
  at_ready :: bool
  at_turn :: "turn option"

definition attempt_event :: "dispatch_env \<Rightarrow> instant \<Rightarrow> db \<Rightarrow> uevent_row \<Rightarrow> attempt_result" where
  "attempt_event env now d e =
     (if ue_type e \<notin> set (de_types env)
      then \<lparr>at_outcome = Inr (EvSkipped, Some (''No agent event policy registered for '' @ ue_type e)),
            at_db = d, at_target = None, at_ready = False, at_turn = None\<rparr>
      else case resolve_event_target now d e of
        Inl m \<Rightarrow> \<lparr>at_outcome = Inl m, at_db = d, at_target = None, at_ready = False, at_turn = None\<rparr>
      | Inr (conversation, channel, d1) \<Rightarrow>
          (case delivery_plan env d1 e conversation channel of
             Inl m \<Rightarrow> \<lparr>at_outcome = Inl m, at_db = d1, at_target = Some (conversation, channel),
                       at_ready = False, at_turn = None\<rparr>
           | Inr (note, ready) \<Rightarrow>
               (case generate_turn env now d1 e conversation channel note ready of
                  (Inl m, d2) \<Rightarrow> \<lparr>at_outcome = Inl m, at_db = d2, at_target = Some (conversation, channel),
                                   at_ready = ready, at_turn = None\<rparr>
                | (Inr (turn, note'), d2) \<Rightarrow>
                    let (failure, d3) = (case (ready, channel) of
                          (True, Some ch) \<Rightarrow> de_deliver env turn ch (event_message_key e) d2
                        | _ \<Rightarrow> (None, d2))
                    in \<lparr>at_outcome = (case failure of Some m \<Rightarrow> Inl m | None \<Rightarrow> Inr (EvProcessed, note')),
                        at_db = d3, at_target = Some (conversation, channel), at_ready = ready,
                        at_turn = Some turn\<rparr>)))"

definition set_events :: "db \<Rightarrow> uevent_row list \<Rightarrow> db" where
  "set_events d rows = d\<lparr>db_uevents := rows\<rparr>"

text \<open>After the last attempt of an app event: persist the canonical message, deliver it if nothing was
  generated (a failure to deliver is logged only), and finish the event.\<close>

definition canonical_fallback :: "dispatch_env \<Rightarrow> instant \<Rightarrow> db \<Rightarrow> uevent_row \<Rightarrow> attempt_result \<Rightarrow> db" where
  "canonical_fallback env now d e a =
     (case (case at_target a of
              Some (c, ch) \<Rightarrow> Inr (c, ch, d)
            | None \<Rightarrow> resolve_event_target now d e) of
        Inl _ \<Rightarrow> d
      | Inr (conversation, channel, d1) \<Rightarrow>
          (case (if ue_type e = ''app.build.completed''
                 then ensure_app_completion_turn now d1 e conversation (map_option cc_id channel) (event_message_key e)
                 else Inr (ensure_app_failure_turn now d1 e conversation (map_option cc_id channel)
                             (event_message_key e))) of
             Inl _ \<Rightarrow> d1
           | Inr (turn, d2) \<Rightarrow>
               let d3 = (case (at_turn a, at_ready a, channel) of
                     (None, True, Some ch) \<Rightarrow> snd (de_deliver env turn ch (event_message_key e) d2)
                   | _ \<Rightarrow> d2)
               in set_events d3 (finish_event now (ue_id e) EvProcessed
                    (Some ''Agent generation exhausted retries; persisted the canonical app completion instead'')
                    (db_uevents d3))))"

definition dispatch_user_event :: "dispatch_env \<Rightarrow> instant \<Rightarrow> db \<Rightarrow> uuid option \<Rightarrow> bool \<times> db" where
  "dispatch_user_event env now d event_id =
     (case claim_event (de_max env) now event_id (db_uevents d) of
        (None, _) \<Rightarrow> (False, d)
      | (Some e, rows) \<Rightarrow>
          let a = attempt_event env now (set_events d rows) e; d1 = at_db a in
          (True, case at_outcome a of
             Inr (status, note) \<Rightarrow> set_events d1 (finish_event now (ue_id e) status note (db_uevents d1))
           | Inl m \<Rightarrow>
               let (exhausted, rows') = retry_event (de_max env) now (ue_id e) m (db_uevents d1);
                   d2 = set_events d1 rows'
               in if exhausted \<and> ue_type e \<in> {''app.build.completed'', ''app.build.failed''}
                  then canonical_fallback env now d2 e a else d2))"

section \<open>The contracts\<close>

interpretation event_keys: keyed_insert db_uevents ue_key
  "\<lambda>(u, c, type, source, key, payload, p). key"
  "\<lambda>(u, c, type, source, key, payload, p) now d. Inr (enqueue_user_event now d u c type source key payload p)"
proof (unfold_locales, goal_cases)
  case (1 x d r now)
  then show ?case by (cases x) (simp add: enqueue_user_event_def)
next
  case (2 x d now r d')
  then show ?case by (cases x) (auto simp: enqueue_user_event_def take_id_def Let_def)
qed

lemma enqueue_again:
  "enqueue_user_event now' (snd (enqueue_user_event now d u c ty s key pl p)) u' c' ty' s' key pl' p' =
   enqueue_user_event now d u c ty s key pl p"
proof -
  let ?r = "enqueue_user_event now d u c ty s key pl p"
  have "(case (u, c, ty, s, key, pl, p) of (u, c, type, source, key, payload, p) \<Rightarrow>
      \<lambda>now d. (Inr (enqueue_user_event now d u c type source key payload p) :: unit + _)) now d =
      Inr (fst ?r, snd ?r)" by simp
  from event_keys.insert_twice [OF this, of "(u', c', ty', s', key, pl', p')" now'] show ?thesis by simp
qed

interpretation events: backoff_queue ue_id ue_attempts "\<lambda>e. (ue_next e, ue_created e)" event_eligible hold_event
  "minutes 2" claim_event fail_event
  by unfold_locales
    (auto simp: hold_event_def event_eligible_def fail_event_def claim_event_def split: option.splits)

section \<open>Interleavings\<close>

text \<open>The calls the workers and the services make, in any order and with any arguments.\<close>

datatype event_call =
    Enqueue uuid "uuid option" string string string obj "string option"
  | Claim "uuid option"
  | Finish uuid uevent_status "string option"
  | Retry uuid string

text \<open>One call at a time \<open>now\<close>, with the identifier of the event it claimed, if any.\<close>

fun run_event_call :: "int \<Rightarrow> instant \<times> event_call \<Rightarrow> db \<Rightarrow> uuid option \<times> db" where
  "run_event_call m (now, Enqueue u c type source key payload p) d =
     (None, snd (enqueue_user_event now d u c type source key payload p))"
| "run_event_call m (now, Claim who) d =
     (case claim_event m now who (db_uevents d) of
        (found, rows) \<Rightarrow> (map_option ue_id found, set_events d rows))"
| "run_event_call m (now, Finish i status err) d =
     (None, set_events d (finish_event now i status err (db_uevents d)))"
| "run_event_call m (now, Retry i err) d = (None, set_events d (snd (retry_event m now i err (db_uevents d))))"

fun run_event_calls :: "int \<Rightarrow> (instant \<times> event_call) list \<Rightarrow> db \<Rightarrow> uuid option list \<times> db" where
  "run_event_calls m [] d = ([], d)"
| "run_event_calls m (c # cs) d =
     (case run_event_call m c d of (found, d1) \<Rightarrow>
      case run_event_calls m cs d1 of (rest, d2) \<Rightarrow> (found # rest, d2))"

definition outbox_ok :: "int \<Rightarrow> db \<Rightarrow> bool" where
  "outbox_ok m d \<longleftrightarrow> distinct (map ue_id (db_uevents d)) \<and> distinct (map ue_key (db_uevents d)) \<and>
     (\<forall>e\<in>set (db_uevents d). ue_id e < db_next d \<and> 0 \<le> ue_attempts e \<and> ue_attempts e \<le> m)"

definition attempts_of :: "uuid \<Rightarrow> uevent_row list \<Rightarrow> int" where
  "attempts_of i rows = (case row_by ue_id i rows of None \<Rightarrow> 0 | Some e \<Rightarrow> ue_attempts e)"

lemma set_events_simps [simp]:
  "db_uevents (set_events d rows) = rows" "db_next (set_events d rows) = db_next d"
  "db_messages (set_events d rows) = db_messages d" "db_convs (set_events d rows) = db_convs d"
  "db_channels (set_events d rows) = db_channels d" "db_users (set_events d rows) = db_users d"
  by (simp_all add: set_events_def)

lemma enqueue_cases:
  obtains e where "find (\<lambda>e. ue_key e = key) (db_uevents d) = Some e"
      "enqueue_user_event now d u c type source key payload p = (e, d)"
  | e where "find (\<lambda>e. ue_key e = key) (db_uevents d) = None"
      "ue_id e = db_next d" "ue_key e = key" "ue_attempts e = 0" "ue_status e = EvPending" "ue_user e = u"
      "ue_type e = type" "ue_conv e = c" "ue_payload e = payload" "ue_provider e = p" "ue_next e = now"
      "enqueue_user_event now d u c type source key payload p =
         (e, d\<lparr>db_next := db_next d + 1, db_uevents := db_uevents d @ [e]\<rparr>)"
proof (cases "find (\<lambda>e. ue_key e = key) (db_uevents d)")
  case None
  show thesis
    by (rule that(2) [of "fst (enqueue_user_event now d u c type source key payload p)"])
      (simp_all add: enqueue_user_event_def take_id_def Let_def None)
next
  case (Some e)
  then show thesis by (intro that(1)) (simp_all add: enqueue_user_event_def)
qed

lemma call_keeps_outbox:
  assumes "outbox_ok m d" "0 \<le> m"
  shows "outbox_ok m (snd (run_event_call m (now, call) d))"
proof (cases call)
  case (Enqueue u c type source key payload p)
  show ?thesis
    by (rule enqueue_cases [of key d now u c type source payload p])
      (use assms Enqueue in \<open>auto simp: outbox_ok_def find_None_iff less_SucI\<close>)
next
  case (Claim who)
  let ?rows = "snd (claim_event m now who (db_uevents d))"
  have keys: "map ue_key ?rows = map ue_key (db_uevents d)"
    by (auto simp: claim_event_def map_upd_where hold_event_def split: option.splits)
  have bound: "\<forall>r\<in>set ?rows. 0 \<le> ue_attempts r \<and> ue_attempts r \<le> m"
    by (rule events.claim_bound) (use assms in \<open>auto simp: outbox_ok_def\<close>)
  have ids: "map ue_id ?rows = map ue_id (db_uevents d)" by (rule events.claim_ids)
  then have "set (map ue_id ?rows) = set (map ue_id (db_uevents d))" by simp
  then have "ue_id ` set ?rows = ue_id ` set (db_uevents d)" by simp
  then have "\<forall>e\<in>set ?rows. ue_id e < db_next d" using assms(1) unfolding outbox_ok_def by (metis imageE imageI)
  moreover have "distinct (map ue_id ?rows)" "distinct (map ue_key ?rows)"
    using assms(1) unfolding ids keys by (simp_all add: outbox_ok_def)
  ultimately show ?thesis
    using Claim bound by (cases "claim_event m now who (db_uevents d)") (simp add: outbox_ok_def)
next
  case (Finish i status err)
  with assms show ?thesis
    by (auto simp: outbox_ok_def finish_event_def map_upd_where in_set_upd_where)
next
  case (Retry i err)
  with assms show ?thesis
    by (auto simp: outbox_ok_def retry_event_def map_upd_where in_set_upd_where fail_event_def split: option.splits)
qed

text \<open>A call adds at most one to the attempts of an event, exactly one if it claims it, and no call
  lowers them.\<close>

lemma call_attempts:
  assumes "outbox_ok m d" "0 \<le> m" "run_event_call m (now, call) d = (found, d')"
  shows "attempts_of i (db_uevents d) + (if found = Some i then 1 else 0) \<le> attempts_of i (db_uevents d')"
proof (cases call)
  case (Enqueue u c type source key payload p)
  have "attempts_of i (db_uevents d) \<le> attempts_of i (db_uevents (snd (enqueue_user_event now d u c type source key payload p)))"
    by (rule enqueue_cases [of key d now u c type source payload p])
      (auto simp: attempts_of_def row_by_append split: option.split)
  with Enqueue assms(3) show ?thesis by auto
next
  case (Finish k status err)
  with assms(3) show ?thesis
    by (auto simp: finish_event_def attempts_of_def row_by_upd_where split: option.splits)
next
  case (Retry k err)
  with assms(3) show ?thesis
    by (auto simp: retry_event_def attempts_of_def row_by_upd_where fail_event_def split: option.splits)
next
  case (Claim who)
  obtain f rows' where run: "claim_event m now who (db_uevents d) = (f, rows')" by (cases "claim_event m now who (db_uevents d)")
  show ?thesis
  proof (cases f)
    case None
    with Claim run assms(3) show ?thesis by (auto simp: claim_event_def split: option.splits)
  next
    case (Some e')
    from run Some obtain e where e: "e \<in> set (db_uevents d)" "e' = hold_event now e"
      "rows' = upd_where (\<lambda>q. ue_id q = ue_id e) (hold_event now) (db_uevents d)"
      by (auto elim: events.claim_someE)
    have rows: "row_by ue_id i rows' = map_option (\<lambda>q. if ue_id q = ue_id e then hold_event now q else q)
        (row_by ue_id i (db_uevents d))"
      unfolding e(3) by (rule row_by_upd_where) (simp add: hold_event_def)
    have found: "found = Some (ue_id e)" "db_uevents d' = rows'"
      using Claim run Some assms(3) e(2) by (auto simp: hold_event_def)
    have "row_by ue_id (ue_id e) (db_uevents d) = Some e"
      using assms(1) e(1) by (intro row_by_distinct) (simp_all add: outbox_ok_def)
    with rows found show ?thesis
      by (auto simp: attempts_of_def hold_event_def split: option.splits dest: row_by_Some)
  qed
qed

lemma calls_attempts:
  assumes "outbox_ok m d" "0 \<le> m" "run_event_calls m cs d = (claims, d')"
  shows "attempts_of i (db_uevents d) + int (length (filter (\<lambda>c. c = Some i) claims)) \<le> attempts_of i (db_uevents d')
    \<and> outbox_ok m d'"
  using assms
proof (induction cs arbitrary: d claims)
  case Nil
  then show ?case by simp
next
  case (Cons c cs)
  obtain now call where c: "c = (now, call)" by (cases c)
  obtain found d1 where r1: "run_event_call m c d = (found, d1)" by (cases "run_event_call m c d")
  obtain rest where r2: "run_event_calls m cs d1 = (rest, d')" "claims = found # rest"
    using Cons.prems(3) r1 by (auto split: prod.splits)
  have "outbox_ok m d1" using call_keeps_outbox [OF Cons.prems(1,2), of now call] r1 c by simp
  from Cons.IH [OF this Cons.prems(2) r2(1)] call_attempts [OF Cons.prems(1,2), of now call found d1 i] r1 c r2(2)
  show ?case by auto
qed

section \<open>Canonical messages\<close>

lemma bex_upd_where: "r \<in> set rows \<Longrightarrow> p r \<Longrightarrow> Q (f r) \<Longrightarrow> \<exists>q\<in>set (upd_where p f rows). Q q"
  by (auto simp: upd_where_def)

lemma contains_self: "contains s s"
  by (cases s) simp_all

lemma ensure_app_completion_turn_url:
  assumes "get_or_null (ue_payload e) ''app_url'' = JStr url" "py_strip url \<noteq> []"
  shows "\<exists>turn d'. ensure_app_completion_turn now d e c b key = Inr (turn, d') \<and>
    (\<exists>m\<in>set (db_messages d'). contains url (mg_content m)) \<and> db_uevents d' = db_uevents d"
proof (cases "\<exists>m\<in>set (event_messages d key). contains url (mg_content m)")
  case True
  then have "\<exists>m\<in>set (db_messages d). contains url (mg_content m)" by (auto simp: event_messages_def)
  with True assms show ?thesis by (simp add: ensure_app_completion_turn_def Let_def)
next
  case False
  let ?ms = "event_messages d key"
  let ?k = "if ?ms = [] then key else key @ '':trusted-link''"
  have d1: "\<exists>grp d1. (case ?ms of m # _ \<Rightarrow> (case mg_group m of Some g \<Rightarrow> (g, d) | None \<Rightarrow> take_id d) | [] \<Rightarrow> take_id d) =
      (grp, d1) \<and> db_messages d1 = db_messages d \<and> db_uevents d1 = db_uevents d"
    by (auto simp: take_id_def split: list.splits option.splits)
  then obtain grp d1 where d1: "(case ?ms of m # _ \<Rightarrow> (case mg_group m of Some g \<Rightarrow> (g, d) | None \<Rightarrow> take_id d) | [] \<Rightarrow> take_id d) =
      (grp, d1)" "db_messages d1 = db_messages d" "db_uevents d1 = db_uevents d" by blast
  show ?thesis
  proof (cases "find (\<lambda>m. mg_key m = Some ?k) ?ms")
    case None
    with False assms d1 show ?thesis
      by (simp add: ensure_app_completion_turn_def Let_def take_id_def contains_self)
  next
    case (Some f)
    from find_SomeD [OF Some] have "f \<in> set (db_messages d)" by (simp add: event_messages_def)
    with Some False assms d1 show ?thesis
      by (simp add: ensure_app_completion_turn_def Let_def bex_upd_where [of f] contains_self)
  qed
qed

section \<open>Properties\<close>

text \<open>However the workers and the services interleave their calls, no event is claimed more often than the
  configured maximum over its whole life, and event identifiers and idempotency keys stay unique.\<close>

theorem event_claims_are_bounded:
  assumes "outbox_ok m d" "0 \<le> m" "run_event_calls m cs d = (claims, d')"
  shows "int (length (filter (\<lambda>c. c = Some i) claims)) \<le> m \<and> outbox_ok m d'"
proof -
  from calls_attempts [OF assms, of i] have
    n: "attempts_of i (db_uevents d) + int (length (filter (\<lambda>c. c = Some i) claims)) \<le> attempts_of i (db_uevents d')"
    and ok: "outbox_ok m d'" by auto
  have "0 \<le> attempts_of i (db_uevents d)" "attempts_of i (db_uevents d') \<le> m"
    using assms(1,2) ok by (auto simp: attempts_of_def outbox_ok_def split: option.split dest!: row_by_Some)
  with n ok show ?thesis by linarith
qed

definition sample_event_calls :: "(instant \<times> event_call) list" where
  "sample_event_calls =
     [(0, Enqueue 1 None ''schedule.triggered'' ''s'' ''k'' [] None), (1, Claim None), (2, Retry 1 ''x''),
      (seconds 10, Claim None), (seconds 10, Claim None)]"

theorem event_claims_are_bounded_witness:
  "int (length (filter (\<lambda>c. c = Some 1) (fst (run_event_calls 2 sample_event_calls empty_db)))) \<le> 2 \<and>
   filter (\<lambda>c. c = Some 1) (fst (run_event_calls 2 sample_event_calls empty_db)) = [Some 1, Some 1]"
proof
  have ok: "outbox_ok 2 empty_db" by (simp add: outbox_ok_def empty_db_def)
  show "int (length (filter (\<lambda>c. c = Some 1) (fst (run_event_calls 2 sample_event_calls empty_db)))) \<le> 2"
    using event_claims_are_bounded [OF ok _ surjective_pairing] by simp
  show "filter (\<lambda>c. c = Some 1) (fst (run_event_calls 2 sample_event_calls empty_db)) = [Some 1, Some 1]"
    by code_simp
qed

text \<open>What a call may not do while a worker holds an event: finish it or fail it.\<close>

fun settles :: "uuid \<Rightarrow> event_call \<Rightarrow> bool" where
  "settles i (Finish k status err) = (k = i)"
| "settles i (Retry k err) = (k = i)"
| "settles i _ = False"

lemma call_spares_held:
  assumes "outbox_ok m d" "row_by ue_id i (db_uevents d) = Some h" "\<not> event_eligible t h" "\<not> settles i call"
    and run: "run_event_call m (t, call) d = (found, d')"
  shows "found \<noteq> Some i \<and> row_by ue_id i (db_uevents d') = Some h"
proof (cases call)
  case (Enqueue u c type source key payload p)
  with run assms(2) show ?thesis
    by (cases rule: enqueue_cases [of key d t u c type source payload p]) (auto simp: row_by_append)
next
  case (Claim who)
  obtain f rows where cl: "claim_event m t who (db_uevents d) = (f, rows)" by (cases "claim_event m t who (db_uevents d)")
  show ?thesis
  proof (cases f)
    case None
    with Claim run cl assms(2) show ?thesis by (auto simp: claim_event_def split: option.splits)
  next
    case (Some e')
    with cl obtain e where e: "e \<in> set (db_uevents d)" "event_eligible t e" "e' = hold_event t e"
      "rows = upd_where (\<lambda>q. ue_id q = ue_id e) (hold_event t) (db_uevents d)"
      by (auto elim: events.claim_someE)
    have "ue_id e \<noteq> i"
    proof
      assume "ue_id e = i"
      with assms(1,2) e(1) have "e = h" by (auto simp: outbox_ok_def dest: row_by_distinct)
      with e(2) assms(3) show False by simp
    qed
    moreover from this have "row_by ue_id i rows = Some h"
      unfolding e(4) using row_by_Some [OF assms(2)] by (subst row_by_upd_where) (auto simp: hold_event_def assms(2))
    ultimately show ?thesis using Claim run cl Some e(3) by (auto simp: hold_event_def)
  qed
next
  case (Finish k status err)
  with run assms(2,4) row_by_Some [OF assms(2)] show ?thesis
    by (auto simp: finish_event_def row_by_upd_where)
next
  case (Retry k err)
  with run assms(2,4) row_by_Some [OF assms(2)] show ?thesis
    by (auto simp: retry_event_def row_by_upd_where fail_event_def split: option.splits)
qed

lemma calls_spare_held:
  assumes "outbox_ok m d" "0 \<le> m" "row_by ue_id i (db_uevents d) = Some h"
    and "\<forall>c\<in>set cs. \<not> event_eligible (fst c) h \<and> \<not> settles i (snd c)" "run_event_calls m cs d = (claims, d')"
  shows "Some i \<notin> set claims \<and> row_by ue_id i (db_uevents d') = Some h"
  using assms(1,3,4,5)
proof (induction cs arbitrary: d claims)
  case (Cons c cs)
  obtain t call where c: "c = (t, call)" by (cases c)
  obtain found d1 where r1: "run_event_call m c d = (found, d1)" by (cases "run_event_call m c d")
  obtain rest where r2: "run_event_calls m cs d1 = (rest, d')" "claims = found # rest"
    using Cons.prems(4) r1 by (auto split: prod.splits)
  have "outbox_ok m d1" using call_keeps_outbox [OF Cons.prems(1) assms(2), of t call] r1 c by simp
  moreover have s: "found \<noteq> Some i \<and> row_by ue_id i (db_uevents d1) = Some h"
    using call_spares_held [OF Cons.prems(1,2)] Cons.prems(3) r1 c by auto
  ultimately show ?case using Cons.IH [OF _ _ _ r2(1)] Cons.prems(3) r2(2) by auto
qed simp

text \<open>C17. A claim takes, of the eligible events with attempts left (of the one asked for, if it asks for one), one with
  the earliest due time. For two minutes from then no claim in any sequence of calls, by any worker and for any
  event, gets that event again, and its row stays as it is: other events may be enqueued, claimed,
  finished and failed meanwhile, as long as this one is neither finished nor failed.\<close>

theorem event_claim_is_fifo_and_exclusive:
  assumes "run_event_call m (now, Claim who) d = (Some i, d1)" "outbox_ok m d" "0 \<le> m"
    and "run_event_calls m cs d1 = (claims, d')" "\<forall>(t, call)\<in>set cs. t < now + minutes 2 \<and> \<not> settles i call"
  shows "Some i \<notin> set claims \<and> (\<exists>e\<in>set (db_uevents d). ue_id e = i \<and> event_eligible now e \<and> ue_attempts e < m \<and>
    (\<forall>q\<in>set (db_uevents d). event_eligible now q \<and> ue_attempts q < m \<and> (who = None \<or> who = Some (ue_id q)) \<longrightarrow>
      (ue_next e, ue_created e) \<le> (ue_next q, ue_created q)) \<and>
    row_by ue_id i (db_uevents d') = Some (hold_event now e))"
proof -
  obtain f rows where cl: "claim_event m now who (db_uevents d) = (f, rows)" by (cases "claim_event m now who (db_uevents d)")
  with assms(1) obtain e' where f: "f = Some e'" "i = ue_id e'" "d1 = set_events d rows" by auto
  obtain e where e: "e \<in> set (db_uevents d)" "event_eligible now e" "ue_attempts e < m" "e' = hold_event now e"
    "\<And>q. q \<in> set (db_uevents d) \<Longrightarrow> event_eligible now q \<Longrightarrow> ue_attempts q < m \<Longrightarrow> who = None \<or> who = Some (ue_id q) \<Longrightarrow>
      (ue_next e, ue_created e) \<le> (ue_next q, ue_created q)"
    by (rule events.claim_someE [OF cl [unfolded f(1)]]) blast
  have ok1: "outbox_ok m d1" using call_keeps_outbox [OF assms(2,3), of now "Claim who"] assms(1) by simp
  have "e' \<in> set (db_uevents d1)" using events.claimed_in [OF cl [unfolded f(1)]] f(3) by simp
  then have row: "row_by ue_id i (db_uevents d1) = Some (hold_event now e)"
    using ok1 f(2) e(4) by (simp add: outbox_ok_def row_by_distinct)
  have "\<forall>c\<in>set cs. \<not> event_eligible (fst c) (hold_event now e) \<and> \<not> settles i (snd c)"
    using assms(5) events.held_lease by fastforce
  from calls_spare_held [OF ok1 assms(3) row this assms(4)] e f(2) show ?thesis
    by (intro conjI bexI [of _ e]) (auto simp: hold_event_def)
qed

definition sample_events_db :: db where
  "sample_events_db = snd (enqueue_user_event 5
     (snd (enqueue_user_event 3 empty_db 1 None ''schedule.triggered'' ''s'' ''k1'' [] None))
     1 None ''schedule.triggered'' ''s'' ''k2'' [] None)"

theorem event_claim_is_fifo_and_exclusive_witness:
  "\<exists>i claims d1 d'. run_event_call 3 (6, Claim None) sample_events_db = (Some i, d1) \<and>
     run_event_calls 3 [(6, Claim None), (7, Retry 2 ''x''), (8, Claim None), (9, Claim (Some i))] d1 = (claims, d') \<and> Some i \<notin> set claims"
proof -
  let ?d1 = "snd (run_event_call 3 (6, Claim None) sample_events_db)"
  let ?cs = "[(6, Claim None), (7, Retry 2 ''x''), (8, Claim None), (9, Claim (Some 1))]"
  have c1: "run_event_call 3 (6, Claim None) sample_events_db = (Some 1, ?d1)" by code_simp
  have ok: "outbox_ok 3 sample_events_db" by code_simp
  have "\<forall>(t, call)\<in>set ?cs. t < 6 + minutes 2 \<and> \<not> settles 1 call" by code_simp
  from event_claim_is_fifo_and_exclusive [OF c1 ok _ surjective_pairing this] c1 show ?thesis by (metis prod.collapse zero_le_numeral)
qed

text \<open>When the agent fails, the turn of a finished build is the canonical message, which is persisted.\<close>

lemma generate_turn_falls_back:
  assumes "ue_type e = ''app.build.completed''" "get_or_null (ue_payload e) ''app_url'' = JStr url" "py_strip url \<noteq> []"
    and "\<And>ready d. isl (fst (de_agent env e c ch ready (event_message_key e) d))"
  shows "\<exists>turn note' d'. generate_turn env now d e c ch note ready = (Inr (turn, note'), d') \<and>
    (\<exists>m\<in>set (db_messages d'). contains url (mg_content m))"
proof -
  let ?run = "if de_provider env then de_agent env e c ch ready (event_message_key e) d
    else (Inl ''The event agent model provider is not configured'', d)"
  from assms(4) [of ready d] obtain m d1 where gen: "?run = (Inl m, d1)"
    by (cases "de_agent env e c ch ready (event_message_key e) d"; cases "de_provider env") (auto simp: isl_def)
  from ensure_app_completion_turn_url [OF assms(2,3), of now d1 c "map_option cc_id ch" "event_message_key e"] obtain turn d2 where
    "ensure_app_completion_turn now d1 e c (map_option cc_id ch) (event_message_key e) = Inr (turn, d2)"
    "\<exists>m\<in>set (db_messages d2). contains url (mg_content m)" by blast
  then show ?thesis unfolding generate_turn_def gen using assms(1) by (auto simp: Let_def)
qed


definition sample_env :: dispatch_env where
  "sample_env = \<lparr>de_types = AGENT_EVENT_TYPES, de_max = 3, de_provider = True, de_linq_enabled = False,
     de_linq_client = False, de_agent = (\<lambda>_ _ _ _ _ d. (Inl ''model outage'', d)),
     de_deliver = (\<lambda>_ _ _ d. (None, d))\<rparr>"

definition finished_db :: db where
  "finished_db = snd (enqueue_user_event 5
     (empty_db\<lparr>db_users := [\<lparr>us_id = 0, us_phone = None, us_name = None, us_opted_out = None, us_phone_verified = None, us_first_seen = 0, us_last_seen = 0\<rparr>]\<rparr>)
     0 None ''app.build.completed'' ''generated_app'' ''k'' [(''app_url'', JStr ''https://x/a'')] None)"


end
