(* ===== verification/App_Manifest.thy ===== *)
theory App_Manifest
  imports App_Access
begin

text \<open>
  The data contract of a code app: the capabilities a manifest may ask for
  (\<open>generated_app_contract.py\<close>), the validation of a manifest, and the validation of a record
  against it (\<open>_validate_manifest\<close>, \<open>_entity_fields\<close>, \<open>_validate_entity_data\<close> of
  \<open>services/generated_apps_v2.py\<close>). A stored record that validates is \<open>conforms\<close>.
\<close>

definition DOT_REMINDER_CREATE_CAPABILITY :: string where
  "DOT_REMINDER_CREATE_CAPABILITY = ''dot.reminder.create''"

definition SUPPORTED_GENERATED_APP_CAPABILITIES :: "string list" where
  "SUPPORTED_GENERATED_APP_CAPABILITIES = [DOT_REMINDER_CREATE_CAPABILITY]"

definition MAX_MANIFEST_BYTES :: int where
  "MAX_MANIFEST_BYTES = 64000"

definition MAX_RECORD_BYTES :: int where
  "MAX_RECORD_BYTES = 16000"

section \<open>Capabilities\<close>

datatype capability_error = GeneratedAppCapabilityError

fun str_items :: "json list \<Rightarrow> string list option" where
  "str_items [] = Some []"
| "str_items (JStr s # xs) = map_option (\<lambda>ys. s # ys) (str_items xs)"
| "str_items (_ # xs) = None"

definition parse_generated_app_capabilities :: "obj \<Rightarrow> capability_error + string list" where
  "parse_generated_app_capabilities manifest =
     (case get_default manifest ''capabilities'' (JArr []) of
        JArr raw \<Rightarrow>
          if length SUPPORTED_GENERATED_APP_CAPABILITIES < length raw then Inl GeneratedAppCapabilityError
          else (case str_items raw of
                  None \<Rightarrow> Inl GeneratedAppCapabilityError
                | Some names \<Rightarrow>
                    if \<not> distinct names then Inl GeneratedAppCapabilityError
                    else if \<not> set names \<subseteq> set SUPPORTED_GENERATED_APP_CAPABILITIES
                    then Inl GeneratedAppCapabilityError
                    else Inr names)
      | _ \<Rightarrow> Inl GeneratedAppCapabilityError)"

definition capabilities_of :: "obj \<Rightarrow> app_error + string list" where
  "capabilities_of manifest =
     (case parse_generated_app_capabilities manifest of
        Inl _ \<Rightarrow> Inl CodeAppValidation | Inr names \<Rightarrow> Inr names)"

section \<open>Sizes\<close>

definition require_json_size :: "json \<Rightarrow> int \<Rightarrow> app_error + unit" where
  "require_json_size v max_bytes = (if max_bytes < json_size v then Inl CodeAppValidation else Inr ())"

section \<open>Entities and fields\<close>

text \<open>\<open>^[a-z][a-z0-9_]{0,63}$\<close> with \<open>fullmatch\<close>.\<close>

definition is_identifier :: "string \<Rightarrow> bool" where
  "is_identifier s =
     (case s of [] \<Rightarrow> False
      | c # cs \<Rightarrow> is_lower c \<and> (\<forall>x\<in>set cs. is_lower x \<or> is_digit x \<or> x = CHR ''_'') \<and> length cs \<le> 63)"

fun entity_name :: "json \<Rightarrow> app_error + string" where
  "entity_name (JStr s) = (if is_identifier s then Inr s else Inl CodeAppValidation)"
| "entity_name _ = Inl CodeAppValidation"

fun as_object :: "json \<Rightarrow> app_error + obj" where
  "as_object (JObj ob) = Inr ob"
| "as_object _ = Inl CodeAppValidation"

type_synonym fields = "(string \<times> obj) list"

definition entity_fields :: "obj \<Rightarrow> app_error + fields" where
  "entity_fields definition =
     (case get_default definition ''fields'' (JObj []) of
        JObj raw \<Rightarrow>
          foldR (\<lambda>(name, value) result.
            bindR (entity_name (JStr name)) (\<lambda>clean_name.
            bindR (as_object value) (\<lambda>ob. Inr (AList.update clean_name ob result)))) raw []
      | JArr raw \<Rightarrow>
          foldR (\<lambda>value result.
            bindR (as_object value) (\<lambda>ob.
            bindR (entity_name (get_or_null ob ''name'')) (\<lambda>name.
              if name \<in> fst ` set result then Inl CodeAppValidation
              else Inr (AList.update name ob result)))) raw []
      | _ \<Rightarrow> Inl CodeAppValidation)"

definition field_types :: "string list" where
  "field_types = [''string'', ''text'', ''number'', ''integer'', ''money'', ''currency'', ''boolean'',
     ''date'', ''datetime'', ''email'', ''url'', ''enum'', ''relation'', ''object'', ''array'']"

text \<open>\<open>value not in {..}\<close>: a list or a dict is not hashable.\<close>

fun check_field_type :: "json \<Rightarrow> app_error + unit" where
  "check_field_type (JStr s) = (if s \<in> set field_types then Inr () else Inl CodeAppValidation)"
| "check_field_type (JArr _) = Inl UncaughtTypeError"
| "check_field_type (JObj _) = Inl UncaughtTypeError"
| "check_field_type _ = Inl CodeAppValidation"

definition equals_one :: "json \<Rightarrow> bool" where
  "equals_one v \<longleftrightarrow> v = JInt 1 \<or> v = JBool True \<or> v = JFloat ''1.0''"

definition validate_entity_definition :: "json \<Rightarrow> string list \<Rightarrow> app_error + string list" where
  "validate_entity_definition value seen =
     bindR (as_object value) (\<lambda>ob.
     bindR (entity_name (get_or_null ob ''name'')) (\<lambda>name.
       if name \<in> set seen then Inl CodeAppValidation
       else bindR (entity_fields ob) (\<lambda>fields.
         if 64 < length fields then Inl CodeAppValidation
         else bindR (foldR (\<lambda>(_, definition) u. check_field_type (get_or_null definition ''type'')) fields ())
                (\<lambda>_. Inr (seen @ [name])))))"

definition validate_manifest :: "json \<Rightarrow> app_error + unit" where
  "validate_manifest manifest =
     bindR (as_object manifest) (\<lambda>m.
       if \<not> equals_one (get_or_null m ''schema_version'') then Inl CodeAppValidation
       else bindR (capabilities_of m) (\<lambda>_.
            bindR (require_json_size manifest MAX_MANIFEST_BYTES) (\<lambda>_.
              case get_default m ''entities'' (JArr []) of
                JArr entities \<Rightarrow>
                  if 24 < length entities then Inl CodeAppValidation
                  else bindR (foldR validate_entity_definition entities []) (\<lambda>_. Inr ())
              | _ \<Rightarrow> Inl CodeAppValidation)))"

section \<open>Records\<close>

text \<open>
  \<open>manifest.get("entities", [])\<close> of a validated manifest: a list of objects. (Anything else would
  raise in the loop over it; \<open>_validate_manifest\<close> has run on every manifest that reaches it.)
\<close>

definition manifest_entities :: "obj \<Rightarrow> obj list" where
  "manifest_entities m =
     (case get_default m ''entities'' (JArr []) of
        JArr xs \<Rightarrow> map dict_or_empty (filter is_dict xs) | _ \<Rightarrow> [])"

definition is_iso_date :: "string \<Rightarrow> bool" where
  "is_iso_date s \<longleftrightarrow> length s = 10 \<and> s ! 4 = CHR ''-'' \<and> s ! 7 = CHR ''-'' \<and>
     (\<forall>i\<in>{0, 1, 2, 3, 5, 6, 8, 9}. is_digit (s ! i))"

fun is_number :: "json \<Rightarrow> bool" where
  "is_number (JInt i) = True"
| "is_number (JFloat f) = True"
| "is_number _ = False"

fun is_int :: "json \<Rightarrow> bool" where
  "is_int (JInt i) = True"
| "is_int _ = False"

fun is_bool :: "json \<Rightarrow> bool" where
  "is_bool (JBool b) = True"
| "is_bool _ = False"

definition field_value_ok :: "string \<Rightarrow> json \<Rightarrow> bool option" where
  "field_value_ok kind value =
     map_of [(''string'', is_str value), (''text'', is_str value), (''number'', is_number value),
       (''integer'', is_int value), (''money'', is_number value), (''currency'', is_str value),
       (''boolean'', is_bool value), (''email'', is_str value), (''url'', is_str value),
       (''enum'', is_str value), (''relation'', is_str value), (''object'', is_dict value),
       (''array'', is_list value),
       (''date'', (case value of JStr s \<Rightarrow> is_iso_date s | _ \<Rightarrow> False)),
       (''datetime'', is_str value)] kind"

definition validate_field_value :: "json \<Rightarrow> json \<Rightarrow> app_error + unit" where
  "validate_field_value kind value =
     (if value = JNull then Inr ()
      else case kind of
             JStr k \<Rightarrow>
               (case field_value_ok k value of
                  None \<Rightarrow> Inl UncaughtKeyError
                | Some ok \<Rightarrow> if \<not> ok then Inl CodeAppValidation else Inr ())
           | _ \<Rightarrow> Inl UncaughtKeyError)"

text \<open>The body of the loop over \<open>data.items()\<close>.\<close>

definition check_data_item :: "fields \<Rightarrow> string \<times> json \<Rightarrow> app_error + string \<times> json" where
  "check_data_item fdefs item =
     (case item of (name, value) \<Rightarrow>
        bindR (some_or UncaughtKeyError (map_of fdefs name)) (\<lambda>field.
        bindR (some_or UncaughtKeyError (map_of field ''type'')) (\<lambda>kind.
        bindR (validate_field_value kind value) (\<lambda>_. Inr (name, value)))))"

definition validate_entity_data :: "obj \<Rightarrow> string \<Rightarrow> obj \<Rightarrow> app_error + obj" where
  "validate_entity_data manifest entity data =
     (case find (\<lambda>item. get_or_null item ''name'' = JStr entity) (manifest_entities manifest) of
        None \<Rightarrow> Inl CodeAppValidation
      | Some definition \<Rightarrow>
          bindR (entity_fields definition) (\<lambda>fields.
            if \<exists>k\<in>fst ` set data. k \<notin> fst ` set fields then Inl CodeAppValidation
            else if \<exists>(name, field)\<in>set fields. get_or_null field ''required'' = JBool True
                      \<and> get_or_null data name = JNull
            then Inl CodeAppValidation
            else bindR (mapR (check_data_item fields) data) (\<lambda>clean.
                 bindR (require_json_size (JObj clean) MAX_RECORD_BYTES) (\<lambda>_. Inr clean))))"

definition conforms :: "obj \<Rightarrow> data_row \<Rightarrow> bool" where
  "conforms manifest r \<longleftrightarrow> validate_entity_data manifest (dr_entity r) (dr_data r) = Inr (dr_data r)"

section \<open>Lemmas\<close>

lemma require_json_size_Inr [result_simps]:
  "require_json_size v n = Inr u \<longleftrightarrow> json_size v \<le> n"
  by (auto simp: require_json_size_def not_le)

text \<open>Validation never rewrites a record: the clean data are the data.\<close>

lemma mapR_same: "(\<And>x y. x \<in> set xs \<Longrightarrow> f x = Inr y \<Longrightarrow> y = x) \<Longrightarrow> mapR f xs = Inr ys \<Longrightarrow> ys = xs"
  by (induction xs arbitrary: ys) (auto simp: result_simps)

lemma validate_entity_data_same:
  assumes "validate_entity_data manifest entity data = Inr clean"
  shows "clean = data"
proof -
  from assms obtain fdefs where "mapR (check_data_item fdefs) data = Inr clean"
    by (auto simp: validate_entity_data_def result_simps split: option.splits if_splits)
  then show ?thesis
    by (rule mapR_same [rotated]) (auto simp: check_data_item_def result_simps split: prod.splits)
qed

lemma validate_entity_data_size:
  assumes "validate_entity_data manifest entity data = Inr clean"
  shows "json_size (JObj clean) \<le> MAX_RECORD_BYTES"
  using assms by (auto simp: validate_entity_data_def result_simps split: option.splits if_splits)

lemma conforms_iff:
  "conforms manifest r \<longleftrightarrow> (\<exists>c. validate_entity_data manifest (dr_entity r) (dr_data r) = Inr c)"
  using validate_entity_data_same by (fastforce simp: conforms_def)

text \<open>A required field of a conforming record is present and not null.\<close>

lemma validate_entity_data_required:
  assumes "validate_entity_data manifest entity data = Inr clean"
  shows "\<exists>definition fdefs.
    find (\<lambda>item. get_or_null item ''name'' = JStr entity) (manifest_entities manifest) = Some definition \<and>
    entity_fields definition = Inr fdefs \<and> fst ` set data \<subseteq> fst ` set fdefs \<and>
    (\<forall>(name, field)\<in>set fdefs. get_or_null field ''required'' = JBool True \<longrightarrow>
       get_or_null clean name \<noteq> JNull)"
  using assms validate_entity_data_same [OF assms]
  by (auto simp: validate_entity_data_def result_simps split: option.splits if_splits)

text \<open>The only capability a manifest can be granted is the reminder.\<close>

lemma capabilities_of_Inr:
  "capabilities_of m = Inr names \<Longrightarrow> names = [] \<or> names = [DOT_REMINDER_CREATE_CAPABILITY]"
proof -
  assume "capabilities_of m = Inr names"
  then have "distinct names" "set names \<subseteq> {DOT_REMINDER_CREATE_CAPABILITY}"
    by (auto simp: capabilities_of_def parse_generated_app_capabilities_def
        SUPPORTED_GENERATED_APP_CAPABILITIES_def split: json.splits if_splits option.splits sum.splits)
  then show ?thesis by (cases names; cases "tl names") auto
qed

end
