(* ===== verification/App_Journal.thy ===== *)
theory App_Journal
  imports App_Manifest
begin

text \<open>
  The idempotency journal of a generated app (\<open>services/generated_apps_v2.py\<close>): the hash of a
  request, the lookup of an event by its key, the replay of its stored response, and the mutation
  rate limit, which counts the events of the last minute.

  The contract every journaled mutation keeps is the locale \<open>journaled\<close>: a request whose key is in
  the journal is answered from it and changes nothing, any other request that succeeds appends one
  event that answers its repetitions. The lemmas a client needs (a repetition returns the first
  answer, a different request under the key is refused) are proved once in it; the data mutations,
  the reminder and the rollback interpret it in their own theories.
\<close>

definition MAX_RECORDS_PER_APP :: int where
  "MAX_RECORDS_PER_APP = 10000"

definition MAX_DATA_BYTES_PER_APP :: int where
  "MAX_DATA_BYTES_PER_APP = 10000000"

definition MAX_MUTATIONS_PER_ACTOR_MINUTE :: int where
  "MAX_MUTATIONS_PER_ACTOR_MINUTE = 120"

definition MAX_MUTATIONS_PER_APP_MINUTE :: int where
  "MAX_MUTATIONS_PER_APP_MINUTE = 600"

section \<open>Requests\<close>

definition idempotency_request_hash :: "(string \<Rightarrow> string) \<Rightarrow> string \<Rightarrow> obj \<Rightarrow> app_error + string" where
  "idempotency_request_hash sha operation request =
     (if json_finite (JObj request)
      then Inr (sha (json_dumps (JObj [(''operation'', JStr operation), (''request'', JObj request)])))
      else Inl CodeAppValidation)"

definition is_sha256_hex :: "string \<Rightarrow> bool" where
  "is_sha256_hex s \<longleftrightarrow> length s = 64 \<and>
     (\<forall>c\<in>set s. is_digit c \<or> (97 \<le> code_point c \<and> code_point c \<le> 102))"

definition validated_request_hash :: "string option \<Rightarrow> app_error + string option" where
  "validated_request_hash value =
     (case value of None \<Rightarrow> Inr None
      | Some s \<Rightarrow> if is_sha256_hex s then Inr (Some s) else Inl CodeAppValidation)"

definition event_by_key :: "db \<Rightarrow> uuid \<Rightarrow> string \<Rightarrow> app_error + event_row option" where
  "event_by_key d app_id key =
     bindR (text_value (JStr key) 160) (\<lambda>k.
       Inr (find (\<lambda>e. ev_app e = app_id \<and> ev_key e = k) (db_events d)))"

definition replay_response :: "event_row \<Rightarrow> string \<Rightarrow> string \<Rightarrow> app_error + event_response" where
  "replay_response e operation request_hash =
     (if ev_operation e \<noteq> Some operation \<or> ev_hash e \<noteq> Some request_hash then Inl CodeAppConflict
      else Inr (ev_response e))"

definition stored_record_from_event :: "event_row \<Rightarrow> string \<Rightarrow> string \<Rightarrow> app_error + stored_record" where
  "stored_record_from_event e operation request_hash =
     bindR (replay_response e operation request_hash) (\<lambda>response.
       case response of RecordResponse r \<Rightarrow> Inr r | _ \<Rightarrow> Inl CodeAppConflict)"

definition stored_rollback_from_event ::
  "event_row \<Rightarrow> app_row \<Rightarrow> string \<Rightarrow> app_error + stored_rollback" where
  "stored_rollback_from_event e app request_hash =
     bindR (replay_response e ''deployment.rollback'' request_hash) (\<lambda>response.
       case response of
         RollbackResponse r \<Rightarrow> if sb_app r \<noteq> ga_id app then Inl CodeAppConflict else Inr r
       | _ \<Rightarrow> Inl CodeAppConflict)"

definition stored_task_from_event :: "event_row \<Rightarrow> string \<Rightarrow> string \<Rightarrow> app_error + stored_task" where
  "stored_task_from_event e operation request_hash =
     bindR (replay_response e operation request_hash) (\<lambda>response.
       case response of TaskResponse t \<Rightarrow> Inr t | _ \<Rightarrow> Inl CodeAppConflict)"

definition enforce_mutation_rate_limit ::
  "instant \<Rightarrow> db \<Rightarrow> uuid \<Rightarrow> app_actor \<Rightarrow> app_error + unit" where
  "enforce_mutation_rate_limit now d app_id actor =
     (if ac_user actor = None \<and> ac_session actor = None then Inl CodeAppAuthorization
      else case find (\<lambda>a. ga_id a = app_id \<and> ga_status a = AppActive) (db_apps d) of
             None \<Rightarrow> Inl CodeAppNotFound
           | Some _ \<Rightarrow>
               let mine = (\<lambda>e. if ac_user actor \<noteq> None then ev_user e = ac_user actor
                              else ev_session e = ac_session actor);
                   recent = (\<lambda>e. ev_app e = app_id \<and> now - minutes 1 \<le> ev_created e)
               in if MAX_MUTATIONS_PER_ACTOR_MINUTE \<le> count_where (\<lambda>e. recent e \<and> mine e) (db_events d)
                  then Inl CodeAppRateLimit
                  else if MAX_MUTATIONS_PER_APP_MINUTE \<le> count_where recent (db_events d)
                  then Inl CodeAppRateLimit
                  else Inr ())"

text \<open>
  The shape most mutations share: replay a key the journal knows, else take the app row under the
  rate limit, look the key up again (a concurrent request may have committed while this one waited
  for the lock) and run the body.
\<close>

definition journaled_mutation ::
  "instant \<Rightarrow> db \<Rightarrow> uuid \<Rightarrow> app_actor \<Rightarrow> string \<Rightarrow> (event_row \<Rightarrow> app_error + 'a) \<Rightarrow> (app_error + 'a) \<Rightarrow>
   app_error + 'a" where
  "journaled_mutation now d app_id actor key replay body =
     bindR (event_by_key d app_id key) (\<lambda>existing.
       case existing of
         Some e \<Rightarrow> replay e
       | None \<Rightarrow>
           bindR (enforce_mutation_rate_limit now d app_id actor) (\<lambda>_.
           bindR (event_by_key d app_id key) (\<lambda>existing.
             case existing of Some e \<Rightarrow> replay e | None \<Rightarrow> body)))"

definition active_manifest :: "db \<Rightarrow> uuid \<Rightarrow> app_error + obj" where
  "active_manifest d app_id =
     bindR (code_app d app_id) (\<lambda>_.
       case find_deployment d app_id of
         None \<Rightarrow> Inl CodeAppConflict
       | Some dp \<Rightarrow>
           (case find_revision d (dp_active dp) of
              None \<Rightarrow> Inl CodeAppConflict
            | Some rv \<Rightarrow> Inr (rv_manifest rv)))"

section \<open>Lemmas\<close>

definition journal_event :: "db \<Rightarrow> uuid \<Rightarrow> string \<Rightarrow> event_row option" where
  "journal_event d app_id k = find (\<lambda>e. ev_app e = app_id \<and> ev_key e = k) (db_events d)"

lemma event_by_key_clean:
  "text_value (JStr key) 160 = Inr k \<Longrightarrow> event_by_key d app_id k = Inr (journal_event d app_id k)"
  unfolding event_by_key_def journal_event_def by (simp only: text_value_idem bindR_simps)

lemma event_by_key_Inr:
  "event_by_key d app_id key = Inr e \<longleftrightarrow>
     (\<exists>k. text_value (JStr key) 160 = Inr k \<and> e = journal_event d app_id k)"
  by (cases "text_value (JStr key) 160")
    (auto simp: event_by_key_def journal_event_def simp del: text_value.simps)

lemma journal_event_Some:
  "journal_event d a k = Some e \<Longrightarrow> e \<in> set (db_events d) \<and> ev_app e = a \<and> ev_key e = k"
  by (auto simp: journal_event_def dest: find_SomeD)

lemma replay_response_Inr [result_simps]:
  "replay_response e op h = Inr r \<longleftrightarrow> ev_operation e = Some op \<and> ev_hash e = Some h \<and> r = ev_response e"
  by (auto simp: replay_response_def)

lemma enforce_mutation_rate_limit_Inr:
  "enforce_mutation_rate_limit now d app_id actor = Inr u \<Longrightarrow>
   (ac_user actor \<noteq> None \<or> ac_session actor \<noteq> None) \<and>
   count_where (\<lambda>e. (ev_app e = app_id \<and> now - minutes 1 \<le> ev_created e) \<and>
     (if ac_user actor \<noteq> None then ev_user e = ac_user actor else ev_session e = ac_session actor))
     (db_events d) < MAX_MUTATIONS_PER_ACTOR_MINUTE \<and>
   count_where (\<lambda>e. ev_app e = app_id \<and> now - minutes 1 \<le> ev_created e) (db_events d)
     < MAX_MUTATIONS_PER_APP_MINUTE"
  unfolding enforce_mutation_rate_limit_def Let_def
  by (cases "ac_user actor = None") (simp_all add: not_le split: if_splits option.splits)

lemma journaled_mutation_hit:
  assumes "text_value (JStr key) 160 = Inr k" "journal_event d a k = Some e"
  shows "journaled_mutation now d a actor key replay body = replay e"
  using assms by (simp add: journaled_mutation_def event_by_key_def journal_event_def)

lemma journaled_mutation_miss:
  assumes "text_value (JStr key) 160 = Inr k" "journal_event d a k = None"
  shows "journaled_mutation now d a actor key replay body =
    bindR (enforce_mutation_rate_limit now d a actor) (\<lambda>_. body)"
  using assms by (simp add: journaled_mutation_def event_by_key_def journal_event_def)

lemma active_manifest_Inr [result_simps]:
  "active_manifest d a = Inr m \<longleftrightarrow>
     (\<exists>app dp rv. code_app d a = Inr app \<and> find_deployment d a = Some dp \<and>
        find_revision d (dp_active dp) = Some rv \<and> m = rv_manifest rv)"
  by (auto simp: active_manifest_def result_simps split: option.splits)

section \<open>The contract of a journaled mutation\<close>

text \<open>
  What the journal answers under a key: the operation, the hash and the response of its event. (The
  record an event points to is reset when the record is deleted, so the whole event is not stable.)
\<close>

definition journal_answer ::
  "db \<Rightarrow> uuid \<Rightarrow> string \<Rightarrow> (string option \<times> string option \<times> event_response) option" where
  "journal_answer d app_id k =
     map_option (\<lambda>e. (ev_operation e, ev_hash e, ev_response e)) (journal_event d app_id k)"

lemma journal_answer_Some:
  "journal_answer d a k = Some (op, h, r) \<longleftrightarrow>
     (\<exists>e. journal_event d a k = Some e \<and> ev_operation e = op \<and> ev_hash e = h \<and> ev_response e = r)"
  by (auto simp: journal_answer_def)

lemma journal_answer_None: "journal_answer d a k = None \<longleftrightarrow> journal_event d a k = None"
  by (simp add: journal_answer_def)

text \<open>Appending an event never changes what the journal already answers.\<close>

lemma journal_answer_append:
  assumes "db_events d' = db_events d @ es" "journal_answer d a k \<noteq> None"
  shows "journal_answer d' a k = journal_answer d a k"
proof -
  from assms(2) obtain e where "journal_event d a k = Some e" by (auto simp: journal_answer_None)
  then have "journal_event d' a k = Some e"
    unfolding journal_event_def assms(1) by (rule find_append_Some)
  with \<open>journal_event d a k = Some e\<close> show ?thesis by (simp add: journal_answer_def)
qed

lemma journal_answer_forget:
  assumes "db_events d' = upd_where p (\<lambda>e. e\<lparr>ev_record := None\<rparr>) (db_events d) @ es"
    and "journal_answer d a k \<noteq> None"
  shows "journal_answer d' a k = journal_answer d a k"
proof -
  from assms(2) obtain e where e: "journal_event d a k = Some e" by (auto simp: journal_answer_None)
  then have "find (\<lambda>e. ev_app e = a \<and> ev_key e = k) (upd_where p (\<lambda>e. e\<lparr>ev_record := None\<rparr>) (db_events d))
      = Some (if p e then e\<lparr>ev_record := None\<rparr> else e)"
    unfolding journal_event_def by (subst find_upd_where) auto
  then have "journal_event d' a k = Some (if p e then e\<lparr>ev_record := None\<rparr> else e)"
    unfolding journal_event_def assms(1) by (rule find_append_Some)
  with e show ?thesis by (simp add: journal_answer_def)
qed

text \<open>
  \<open>op x now d\<close> runs the mutation with arguments \<open>x\<close>; \<open>gate\<close> is the part of it that authorises the
  caller, \<open>request\<close> the key and the hash of the request, \<open>operation\<close> its name in the journal, and
  \<open>answer\<close> reads a result back from a stored response. \<open>shown\<close> is what a client sees of a result.
\<close>

locale journaled =
  fixes op :: "'x \<Rightarrow> instant \<Rightarrow> db \<Rightarrow> app_error + ('r \<times> db)"
    and gate :: "'x \<Rightarrow> instant \<Rightarrow> db \<Rightarrow> bool"
    and app_of :: "'x \<Rightarrow> uuid"
    and request :: "'x \<Rightarrow> app_error + (string \<times> string)"
    and operation :: string
    and answer :: "'x \<Rightarrow> event_response \<Rightarrow> app_error + 'r"
    and shown :: "'r \<Rightarrow> 's"
  assumes hit: "\<lbrakk>gate x now d; request x = Inr (k, h); journal_event d (app_of x) k = Some e\<rbrakk> \<Longrightarrow>
      op x now d =
        bindR (replay_response e operation h) (\<lambda>r. bindR (answer x r) (\<lambda>a. Inr (a, d)))"
    and success: "op x now d = Inr (r, d') \<Longrightarrow> gate x now d \<and> (\<exists>k h. request x = Inr (k, h))"
    and miss: "\<lbrakk>op x now d = Inr (r, d'); request x = Inr (k, h); journal_event d (app_of x) k = None\<rbrakk> \<Longrightarrow>
      \<exists>response a. journal_answer d' (app_of x) k = Some (Some operation, Some h, response) \<and>
        answer x response = Inr a \<and> shown a = shown r"
begin

lemma miss_answer:
  assumes "op x now d = Inr (r, d')" "request x = Inr (k, h)" "journal_answer d (app_of x) k = None"
  obtains response a where "journal_answer d' (app_of x) k = Some (Some operation, Some h, response)"
    "answer x response = Inr a" "shown a = shown r"
  using miss [OF assms(1,2)] assms(3) by (auto simp: journal_answer_None)

lemma miss_known:
  assumes "op x now d = Inr (r, d')" "request x = Inr (k, h)" "journal_answer d (app_of x) k = None"
  shows "journal_answer d' (app_of x) k \<noteq> None"
  by (rule miss_answer [OF assms]) simp

text \<open>A journal that answers the request answers it without a change of state.\<close>

lemma answered:
  assumes "gate x now d" "request x = Inr (k, h)"
    and "journal_answer d (app_of x) k = Some (Some operation, Some h, response)"
    and "answer x response = Inr a"
  shows "op x now d = Inr (a, d)"
proof -
  from assms(3) obtain e where e: "journal_event d (app_of x) k = Some e"
      "ev_operation e = Some operation" "ev_hash e = Some h" "ev_response e = response"
    by (auto simp: journal_answer_Some)
  from hit [OF assms(1,2) e(1)] e assms(4) show ?thesis by (simp add: replay_response_def)
qed

text \<open>A repetition of a successful request shows the first result, in any later state whose
  journal still answers the key as it did.\<close>

lemma repetition:
  assumes first: "op x now d = Inr (r, d')" and req: "request x = Inr (k, h)"
    and fresh: "journal_answer d (app_of x) k = None"
    and kept: "journal_answer d'' (app_of x) k = journal_answer d' (app_of x) k"
    and allowed: "gate x now' d''"
  shows "\<exists>a. op x now' d'' = Inr (a, d'') \<and> shown a = shown r"
  using miss_answer [OF first req fresh] answered [OF allowed req] kept by metis

lemma key_reuse:
  assumes "gate x now d" "request x = Inr (k, h)" "journal_answer d (app_of x) k = Some (op', h', r)"
    and "op' \<noteq> Some operation \<or> h' \<noteq> Some h"
  shows "op x now d = Inl CodeAppConflict"
proof -
  from assms(3) obtain e where e: "journal_event d (app_of x) k = Some e"
      "ev_operation e = op'" "ev_hash e = h'"
    by (auto simp: journal_answer_Some)
  with assms(4) have "replay_response e operation h = Inl CodeAppConflict"
    by (auto simp: replay_response_def)
  with hit [OF assms(1,2) e(1)] show ?thesis by simp
qed

lemma hit_keeps_state:
  assumes "op x now d = Inr (r, d')" "request x = Inr (k, h)" "journal_answer d (app_of x) k \<noteq> None"
  shows "d' = d"
proof -
  from assms(3) obtain e where e: "journal_event d (app_of x) k = Some e"
    by (auto simp: journal_answer_None)
  from success [OF assms(1)] have "gate x now d" by simp
  from hit [OF this assms(2) e] assms(1)
  have "bindR (replay_response e operation h) (\<lambda>r. bindR (answer x r) (\<lambda>a. Inr (a, d))) = Inr (r, d')"
    by simp
  then show ?thesis by (auto simp: bindR_Inr)
qed

end

end
