(* ===== verification/App_Builds.thy ===== *)
theory App_Builds
  imports User_Events App_Journal
begin

text \<open>
  The build queue of generated apps (\<open>services/generated_apps_v2.py\<close>): creating an app with its first
  build, queueing a revision, claiming the next build under a lease, settling a build that failed, and
  ending one whose lease was abandoned too often. A job is fenced by its worker and its attempt: only
  the claim that is current can settle it (\<open>_claimed_job\<close>).

  \<open>public_id\<close> and \<open>raw\<close> are the results of \<open>secrets.token_urlsafe\<close>; \<open>loads\<close> is \<open>json.loads\<close>,
  \<open>None\<close> when it raises. The uniqueness violations the code handles at commit time (the index on live
  jobs of an app, the one on idempotency keys) cannot happen in one transaction after the checks before.
\<close>

definition MAX_BUILD_REQUEST_BYTES :: int where
  "MAX_BUILD_REQUEST_BYTES = 1000000"

definition MAX_ACTIVE_CODE_APPS_PER_USER :: int where
  "MAX_ACTIVE_CODE_APPS_PER_USER = 20"

definition MAX_LIVE_BUILDS_PER_USER :: int where
  "MAX_LIVE_BUILDS_PER_USER = 3"

definition MAX_BUILD_ATTEMPTS :: int where
  "MAX_BUILD_ATTEMPTS = 3"

section \<open>Checks\<close>

definition locked_owned_conversation :: "db \<Rightarrow> uuid \<Rightarrow> uuid \<Rightarrow> uuid \<Rightarrow> app_error + conv_row" where
  "locked_owned_conversation d conversation_id user_id requester =
     (case find_conv d conversation_id of
        None \<Rightarrow> Inl CodeAppValidation
      | Some c \<Rightarrow>
          if cv_user c \<noteq> user_id then Inl CodeAppValidation
          else if cv_kind c \<noteq> GroupConv
          then (if requester \<noteq> user_id then Inl CodeAppAuthorization else Inr c)
          else if cv_owner_source c = Some ''unclaimed'' then Inl CodeAppAuthorization
          else
            let memberships = filter (\<lambda>m. cm_conv m = cv_id c \<and>
                    cm_user m \<in> {Some user_id, Some requester} \<and> cm_status m = ''active'') (db_members d)
            in if \<not> (\<exists>m\<in>set memberships. cm_user m = Some user_id \<and> cm_role m = GroupOwner)
               then Inl CodeAppAuthorization
               else if \<not> (\<exists>m\<in>set memberships. cm_user m = Some requester) then Inl CodeAppAuthorization
               else Inr c)"

definition job_live :: "job_row \<Rightarrow> bool" where
  "job_live j \<longleftrightarrow> jb_status j = Queued \<or> jb_status j = Claimed"

definition ensure_no_live_build :: "db \<Rightarrow> uuid \<Rightarrow> app_error + unit" where
  "ensure_no_live_build d app_id =
     (if \<exists>j\<in>set (db_jobs d). jb_app j = app_id \<and> job_live j then Inl CodeAppConflict else Inr ())"

definition live_builds_of :: "db \<Rightarrow> uuid \<Rightarrow> int" where
  "live_builds_of d user_id =
     count_where (\<lambda>j. job_live j \<and>
       (case find_app d (jb_app j) of None \<Rightarrow> False | Some a \<Rightarrow> ga_user a = user_id)) (db_jobs d)"

definition active_code_apps_of :: "db \<Rightarrow> uuid \<Rightarrow> int" where
  "active_code_apps_of d user_id =
     count_where (\<lambda>a. ga_user a = user_id \<and> ga_status a = AppActive \<and> ga_runtime a = CodeRuntime) (db_apps d)"

definition enforce_user_app_build_quota :: "db \<Rightarrow> uuid \<Rightarrow> bool \<Rightarrow> app_error + unit" where
  "enforce_user_app_build_quota d user_id creating =
     (if find_user d user_id = None then Inl CodeAppNotFound
      else if creating \<and> MAX_ACTIVE_CODE_APPS_PER_USER \<le> active_code_apps_of d user_id
      then Inl CodeAppValidation
      else if MAX_LIVE_BUILDS_PER_USER \<le> live_builds_of d user_id then Inl CodeAppRateLimit
      else Inr ())"

definition build_by_idempotency_key :: "db \<Rightarrow> string \<Rightarrow> job_row option" where
  "build_by_idempotency_key d key = find (\<lambda>j. jb_key j = Some key) (db_jobs d)"

definition validate_build_replay :: "job_row \<Rightarrow> string \<Rightarrow> app_error + unit" where
  "validate_build_replay j h = (if jb_hash j \<noteq> Some h then Inl CodeAppConflict else Inr ())"

text \<open>The part of a text after the first occurrence of a marker, \<open>str.partition\<close>.\<close>

fun after_marker :: "string \<Rightarrow> string \<Rightarrow> string option" where
  "after_marker marker [] = (if marker = [] then Some [] else None)"
| "after_marker marker (c # cs) =
     (if take (length marker) (c # cs) = marker then Some (drop (length marker) (c # cs))
      else after_marker marker cs)"

definition replay_created_build :: "db \<Rightarrow> job_row \<Rightarrow> string \<Rightarrow> app_error + (app_row \<times> job_row \<times> string)" where
  "replay_created_build d j h =
     bindR (validate_build_replay j h) (\<lambda>_.
     bindR (some_or CodeAppConflict (find_app d (jb_app j))) (\<lambda>app.
       Inr (app, j, case after_marker ''#handoff='' (jb_url j) of None \<Rightarrow> [] | Some t \<Rightarrow> t)))"

fun generated_app_access_mode :: "json \<Rightarrow> app_error + access_mode" where
  "generated_app_access_mode (JStr s) = some_or CodeAppValidation (access_mode_of s)"
| "generated_app_access_mode _ = Inl CodeAppValidation"

definition optional_key :: "string option \<Rightarrow> app_error + string option" where
  "optional_key key =
     (case key of None \<Rightarrow> Inr None | Some s \<Rightarrow> bindR (text_value (JStr s) 160) (\<lambda>k. Inr (Some k)))"

text \<open>\<open>_validated_request_hash(h) or _idempotency_request_hash(..)\<close>.\<close>

definition request_hash_or ::
  "(string \<Rightarrow> string) \<Rightarrow> string option \<Rightarrow> string \<Rightarrow> obj \<Rightarrow> app_error + string" where
  "request_hash_or sha given operation request =
     bindR (validated_request_hash given) (\<lambda>g.
       case g of Some h \<Rightarrow> Inr h | None \<Rightarrow> idempotency_request_hash sha operation request)"

definition or_text :: "string option \<Rightarrow> string \<Rightarrow> string" where
  "or_text s d = (case s of None \<Rightarrow> d | Some x \<Rightarrow> if x = [] then d else x)"

fun non_empty_object :: "json \<Rightarrow> app_error + obj" where
  "non_empty_object (JObj ob) = (if ob = [] then Inl CodeAppValidation else Inr ob)"
| "non_empty_object _ = Inl CodeAppValidation"

section \<open>Creating an app\<close>

record create_app_args =
  ca_user :: uuid
  ca_conv :: uuid
  ca_requester :: "uuid option"
  ca_title :: string
  ca_descr :: string
  ca_request :: json
  ca_access :: json
  ca_provider :: "string option"
  ca_url :: "string option"
  ca_key :: "string option"
  ca_base_url :: "string option"
  ca_hash :: "string option"

definition new_job ::
  "instant \<Rightarrow> uuid \<Rightarrow> uuid \<Rightarrow> uuid option \<Rightarrow> obj \<Rightarrow> string option \<Rightarrow> string \<Rightarrow> string option \<Rightarrow> string \<Rightarrow> job_row" where
  "new_job now jid app_id base request provider url key h =
     \<lparr>jb_id = jid, jb_app = app_id, jb_base = base, jb_result_rev = None, jb_status = Queued,
      jb_request = request, jb_key = key, jb_hash = (if key \<noteq> None then Some h else None), jb_result = [],
      jb_provider = provider, jb_url = url, jb_attempts = 0, jb_claimed_by = None, jb_lease = None,
      jb_error = None, jb_created = now, jb_started = None, jb_completed = None, jb_updated = now\<rparr>"

definition rstrip_slash :: "string \<Rightarrow> string" where
  "rstrip_slash s = rev (dropWhile (\<lambda>c. c = CHR ''/'') (rev s))"

text \<open>The rows a fresh creation writes: the app, its owner's membership, the first job and a ticket.\<close>

definition insert_code_app ::
  "(string \<Rightarrow> string) \<Rightarrow> instant \<Rightarrow> string \<Rightarrow> string \<Rightarrow> db \<Rightarrow> create_app_args \<Rightarrow> access_mode \<Rightarrow> string option \<Rightarrow>
   string \<Rightarrow> string \<Rightarrow> string \<Rightarrow> obj \<Rightarrow> app_error + (app_row \<times> job_row \<times> string \<times> db)" where
  "insert_code_app sha now public_id raw d args mode key h title descr request =
     (case take_id d of (aid, d1) \<Rightarrow> case take_id d1 of (mid, d2) \<Rightarrow> case take_id d2 of (jid, d3) \<Rightarrow>
       let app = \<lparr>ga_id = aid, ga_user = ca_user args, ga_conv = ca_conv args, ga_public = public_id,
                  ga_title = title, ga_descr = descr, ga_template = ''code_app'', ga_theme = ''dot'',
                  ga_access = mode, ga_status = AppActive, ga_version = 0, ga_runtime = CodeRuntime,
                  ga_created = now, ga_updated = now\<rparr>;
           job = new_job now jid aid None request (ca_provider args)
                   (or_text (ca_url args) (''/a/'' @ public_id)) key h;
           d4 = d3\<lparr>db_apps := db_apps d3 @ [app],
                   db_memberships := db_memberships d3 @
                     [\<lparr>ms_id = mid, ms_app = aid, ms_user = ca_user args, ms_role = Owner, ms_created = now\<rparr>]\<rparr>
       in bindR (issue_access_ticket sha now raw (d4\<lparr>db_jobs := db_jobs d4 @ [job]\<rparr>) aid (ca_user args)
                   (if mode = CollaborativeLink then None else Some (ca_user args))
                   (role_str (if mode = CollaborativeLink then Member else Owner))
                   MAX_ACCESS_TICKET_TTL_SECONDS) (\<lambda>(ticket, d5).
            let job' = (case ca_base_url args of
                  None \<Rightarrow> job
                | Some base \<Rightarrow> job\<lparr>jb_url := rstrip_slash base @ ''/a/'' @ public_id @ ''#handoff='' @ ticket\<rparr>)
            in Inr (app, job', ticket, d5\<lparr>db_jobs := upd_where (\<lambda>j. jb_id j = jid) (\<lambda>_. job') (db_jobs d5)\<rparr>)))"

definition create_code_app_build ::
  "(string \<Rightarrow> string) \<Rightarrow> instant \<Rightarrow> string \<Rightarrow> string \<Rightarrow> db \<Rightarrow> create_app_args \<Rightarrow>
   app_error + (app_row \<times> job_row \<times> string \<times> db)" where
  "create_code_app_build sha now public_id raw d args =
     bindR (generated_app_access_mode (ca_access args)) (\<lambda>requested.
     bindR (optional_key (ca_key args)) (\<lambda>key.
     let requester = (case ca_requester args of None \<Rightarrow> ca_user args | Some u \<Rightarrow> u) in
     bindR (locked_owned_conversation d (ca_conv args) (ca_user args) requester) (\<lambda>conversation.
     let mode = (if cv_kind conversation = GroupConv then CollaborativeLink else requested) in
     bindR (request_hash_or sha (ca_hash args) ''app.create''
       [(''user_id'', JStr (str_uuid (ca_user args))), (''conversation_id'', JStr (str_uuid (ca_conv args))),
        (''requester_user_id'', JStr (str_uuid requester)), (''title'', JStr (ca_title args)),
        (''description'', JStr (ca_descr args)), (''request'', ca_request args),
        (''access_mode'', JStr (access_mode_str mode)), (''delivery_provider'', opt_str (ca_provider args)),
        (''app_url'', opt_str (ca_url args)), (''app_base_url'', opt_str (ca_base_url args))]) (\<lambda>h.
     case (case key of None \<Rightarrow> None | Some k \<Rightarrow> build_by_idempotency_key d k) of
       Some j \<Rightarrow> bindR (replay_created_build d j h) (\<lambda>(app, job, ticket). Inr (app, job, ticket, d))
     | None \<Rightarrow>
         bindR (text_value (JStr (ca_title args)) 120) (\<lambda>title.
         bindR (optional_text (JStr (ca_descr args)) 500) (\<lambda>descr.
         bindR (non_empty_object (ca_request args)) (\<lambda>request.
         bindR (require_json_size (JObj request) MAX_BUILD_REQUEST_BYTES) (\<lambda>_.
         bindR (enforce_user_app_build_quota d (ca_user args) True) (\<lambda>_.
           insert_code_app sha now public_id raw d args mode key h title descr request)))))))))"

section \<open>Queueing a revision\<close>

definition queue_code_app_revision ::
  "(string \<Rightarrow> string) \<Rightarrow> instant \<Rightarrow> db \<Rightarrow> uuid \<Rightarrow> uuid \<Rightarrow> json \<Rightarrow> string option \<Rightarrow> string option \<Rightarrow>
   string option \<Rightarrow> string option \<Rightarrow> app_error + (job_row \<times> db)" where
  "queue_code_app_revision sha now d user_id app_id request0 provider url key0 given =
     bindR (non_empty_object request0) (\<lambda>request.
     bindR (require_json_size (JObj request) MAX_BUILD_REQUEST_BYTES) (\<lambda>_.
     bindR (optional_key key0) (\<lambda>key.
     bindR (request_hash_or sha given ''app.revise''
       [(''user_id'', JStr (str_uuid user_id)), (''app_id'', JStr (str_uuid app_id)),
        (''request'', JObj request), (''delivery_provider'', opt_str provider),
        (''app_url'', opt_str url)]) (\<lambda>h.
     bindR (locked_code_app d app_id) (\<lambda>app.
     bindR (authorize_user_for_locked_app d app user_id) (\<lambda>actor.
     if ac_role actor \<notin> {Owner, Editor} then Inl CodeAppAuthorization
     else case (case key of None \<Rightarrow> None | Some k \<Rightarrow> build_by_idempotency_key d k) of
       Some j \<Rightarrow> bindR (validate_build_replay j h) (\<lambda>_. Inr (j, d))
     | None \<Rightarrow>
         bindR (ensure_no_live_build d app_id) (\<lambda>_.
         bindR (enforce_user_app_build_quota d user_id False) (\<lambda>_.
           case take_id d of (jid, d1) \<Rightarrow>
             let j = new_job now jid app_id (map_option dp_active (find_deployment d app_id)) request provider
                       (or_text url (''/a/'' @ ga_public app)) key h
             in Inr (j, d1\<lparr>db_jobs := db_jobs d1 @ [j]\<rparr>)))))))))"

section \<open>Settling\<close>

definition duration_ms :: "instant \<Rightarrow> instant \<Rightarrow> int" where
  "duration_ms started finished = (if finished \<le> started then 0 else total_ms (finished - started))"

definition build_purpose :: "obj \<Rightarrow> string \<Rightarrow> string" where
  "build_purpose request fallback =
     (case get_default request ''blueprint'' (JObj request) of
        JObj blueprint \<Rightarrow>
          (case get_or_null blueprint ''purpose'' of JStr p \<Rightarrow> take 500 p | _ \<Rightarrow> fallback)
      | _ \<Rightarrow> fallback)"

definition build_failed_payload :: "instant \<Rightarrow> app_row \<Rightarrow> job_row \<Rightarrow> string \<Rightarrow> string \<Rightarrow> bool \<Rightarrow> obj" where
  "build_failed_payload now app j url failure_code retryable =
     [(''app_id'', JStr (str_uuid (ga_id app))), (''public_id'', JStr (ga_public app)),
      (''title'', JStr (ga_title app)), (''app_url'', JStr url), (''description'', JStr (ga_descr app)),
      (''purpose'', JStr (build_purpose (jb_request j) (ga_descr app))),
      (''build_job_id'', JStr (str_uuid (jb_id j))), (''duration_ms'', JInt (duration_ms (jb_created j) now)),
      (''failure_code'', JStr failure_code), (''retryable'', JBool retryable)]"

definition failed_event_key :: "uuid \<Rightarrow> string" where
  "failed_event_key job_id = ''app-build-failed:'' @ str_uuid job_id"

definition enqueue_build_failed :: "instant \<Rightarrow> db \<Rightarrow> app_row \<Rightarrow> job_row \<Rightarrow> string \<Rightarrow> string \<Rightarrow> bool \<Rightarrow> db" where
  "enqueue_build_failed now d app j url failure_code retryable =
     snd (enqueue_user_event now d (ga_user app) (Some (ga_conv app)) ''app.build.failed''
       ''generated_app_builder'' (failed_event_key (jb_id j))
       (build_failed_payload now app j url failure_code retryable) (jb_provider j))"

definition set_job :: "job_row \<Rightarrow> db \<Rightarrow> db" where
  "set_job j d = d\<lparr>db_jobs := upd_where (\<lambda>q. jb_id q = jb_id j) (\<lambda>_. j) (db_jobs d)\<rparr>"

definition LEASE_EXHAUSTED :: string where
  "LEASE_EXHAUSTED = ''build_worker_lease_exhausted''"

definition exhausted_job :: "instant \<Rightarrow> job_row \<Rightarrow> job_row" where
  "exhausted_job now j =
     j\<lparr>jb_status := Failed, jb_claimed_by := None, jb_lease := None, jb_completed := Some now,
       jb_updated := now,
       jb_error := Some (json_dumps (JObj
         [(''code'', JStr LEASE_EXHAUSTED),
          (''message'', JStr ''The app builder stopped before settling this build too many times''),
          (''retryable'', JBool False)])),
       jb_result :=
         [(''build_metadata'', JObj [(''abandoned_claims'', JInt (jb_attempts j))]),
          (''retryable'', JBool False), (''requeued'', JBool False), (''failure_code'', JStr LEASE_EXHAUSTED)]\<rparr>"

definition terminalize_exhausted_build_claim :: "instant \<Rightarrow> job_row \<Rightarrow> db \<Rightarrow> db" where
  "terminalize_exhausted_build_claim now j d =
     (let d1 = set_job (exhausted_job now j) d in
      case find_app d1 (jb_app j) of
        None \<Rightarrow> d1
      | Some app \<Rightarrow> enqueue_build_failed now d1 app j (jb_url j) LEASE_EXHAUSTED False)"

section \<open>Claiming\<close>

definition build_eligible :: "instant \<Rightarrow> job_row \<Rightarrow> bool" where
  "build_eligible now j \<longleftrightarrow>
     jb_status j = Queued \<or>
     (jb_status j = Claimed \<and> (case jb_lease j of None \<Rightarrow> False | Some t \<Rightarrow> t < now))"

definition held_build :: "instant \<Rightarrow> string \<Rightarrow> int \<Rightarrow> job_row \<Rightarrow> job_row" where
  "held_build now worker lease_seconds j =
     j\<lparr>jb_status := Claimed, jb_claimed_by := Some worker, jb_attempts := jb_attempts j + 1,
       jb_started := (case jb_started j of None \<Rightarrow> Some now | Some t \<Rightarrow> Some t),
       jb_lease := Some (now + seconds (max 15 (min lease_seconds 900))), jb_updated := now\<rparr>"

definition eligible_count :: "instant \<Rightarrow> db \<Rightarrow> nat" where
  "eligible_count now d = length (filter (build_eligible now) (db_jobs d))"

lemma enqueue_jobs [simp]: "db_jobs (snd (enqueue_user_event now d u c ty s key pl p)) = db_jobs d"
  by (auto simp: enqueue_user_event_def take_id_def Let_def split: option.split)

lemma terminalize_jobs:
  "db_jobs (terminalize_exhausted_build_claim now j d) =
     upd_where (\<lambda>q. jb_id q = jb_id j) (\<lambda>_. exhausted_job now j) (db_jobs d)"
  by (auto simp: terminalize_exhausted_build_claim_def Let_def set_job_def enqueue_build_failed_def
      exhausted_job_def split: option.split)

lemma exhausted_not_eligible [simp]: "\<not> build_eligible t (exhausted_job now j)"
  by (simp add: build_eligible_def exhausted_job_def)

lemma filter_upd_less:
  assumes "r \<in> set rows" "p r" "q r" "\<And>r. \<not> q (f r)"
  shows "length (filter q (upd_where p f rows)) < length (filter q rows)"
proof -
  have le: "length (filter q (upd_where p f xs)) \<le> length (filter q xs)" for xs
    by (induction xs) (auto simp: assms(4))
  from assms(1) obtain xs ys where "rows = xs @ r # ys" by (meson split_list)
  with le [of xs] le [of ys] assms(2-4) show ?thesis by simp
qed

lemma terminalize_measure:
  assumes "least_by jb_created (filter (build_eligible now) (db_jobs d)) = Some j"
  shows "eligible_count now (terminalize_exhausted_build_claim now j d) < eligible_count now d"
  unfolding eligible_count_def terminalize_jobs
  by (rule filter_upd_less [of j]) (use least_by_Some [OF assms] in auto)

text \<open>The loop of \<open>claim_next_build\<close>, one reading of the clock for all its turns: it ends, because every
  turn that does not return makes an eligible job ineligible.\<close>

function claim_loop :: "instant \<Rightarrow> string \<Rightarrow> int \<Rightarrow> db \<Rightarrow> job_row option \<times> db" where
  "claim_loop now worker lease_seconds d =
     (case least_by jb_created (filter (build_eligible now) (db_jobs d)) of
        None \<Rightarrow> (None, d)
      | Some j \<Rightarrow>
          if MAX_BUILD_ATTEMPTS \<le> jb_attempts j
          then claim_loop now worker lease_seconds (terminalize_exhausted_build_claim now j d)
          else (Some (held_build now worker lease_seconds j), set_job (held_build now worker lease_seconds j) d))"
  by pat_completeness auto
termination
  by (relation "measure (\<lambda>(now, w, l, d). eligible_count now d)") (auto dest: terminalize_measure)

declare claim_loop.simps [simp del]

record claimed_build =
  cl_job :: uuid
  cl_app :: uuid
  cl_base :: "uuid option"
  cl_request :: obj
  cl_attempt :: int

definition claim_next_build :: "instant \<Rightarrow> db \<Rightarrow> string \<Rightarrow> int \<Rightarrow> app_error + (claimed_build option \<times> db)" where
  "claim_next_build now d worker_id lease_seconds =
     bindR (text_value (JStr worker_id) 120) (\<lambda>worker.
       case claim_loop now worker lease_seconds d of
         (None, d1) \<Rightarrow> Inr (None, d1)
       | (Some j, d1) \<Rightarrow>
           Inr (Some \<lparr>cl_job = jb_id j, cl_app = jb_app j, cl_base = jb_base j, cl_request = jb_request j,
                      cl_attempt = jb_attempts j\<rparr>, d1))"

section \<open>Failing\<close>

definition claimed_job :: "db \<Rightarrow> uuid \<Rightarrow> string \<Rightarrow> int \<Rightarrow> app_error + job_row" where
  "claimed_job d job_id worker_id expected_attempt =
     (if expected_attempt < 1 then Inl CodeAppConflict
      else some_or CodeAppConflict
        (find (\<lambda>j. jb_id j = job_id \<and> jb_status j = Claimed \<and> jb_claimed_by j = Some worker_id \<and>
                jb_attempts j = expected_attempt) (db_jobs d)))"

definition safe_failure :: "(string \<Rightarrow> json option) \<Rightarrow> string \<Rightarrow> string \<times> bool option" where
  "safe_failure loads raw_error =
     (case loads raw_error of
        Some (JObj parsed) \<Rightarrow>
          ((case get_or_null parsed ''code'' of
              JStr c \<Rightarrow> if length c \<le> 64 then c else ''build_failed'' | _ \<Rightarrow> ''build_failed''),
           (case get_or_null parsed ''retryable'' of JBool b \<Rightarrow> Some b | _ \<Rightarrow> None))
      | _ \<Rightarrow> (''build_failed'', None))"

definition fail_build ::
  "(string \<Rightarrow> json option) \<Rightarrow> instant \<Rightarrow> db \<Rightarrow> uuid \<Rightarrow> string \<Rightarrow> int \<Rightarrow> string \<Rightarrow> string option \<Rightarrow> obj \<Rightarrow> bool \<Rightarrow>
   app_error + (job_row \<times> db)" where
  "fail_build loads now d job_id worker_id expected_attempt err url metadata retryable =
     bindR (claimed_job d job_id worker_id expected_attempt) (\<lambda>j.
     bindR (text_value (JStr err) 4000) (\<lambda>clean_error.
     bindR (some_or CodeAppNotFound (find_app d (jb_app j))) (\<lambda>app.
       let (code, parsed) = safe_failure loads err;
           safe_retryable = (case parsed of None \<Rightarrow> retryable | Some b \<Rightarrow> b);
           should_retry = (safe_retryable \<and> jb_attempts j < MAX_BUILD_ATTEMPTS);
           j1 = j\<lparr>jb_error := Some clean_error, jb_lease := None, jb_updated := now,
                  jb_result := [(''build_metadata'', JObj metadata), (''retryable'', JBool safe_retryable),
                    (''requeued'', JBool should_retry), (''failure_code'', JStr code)]\<rparr>
       in if should_retry
          then let j2 = j1\<lparr>jb_status := Queued, jb_claimed_by := None, jb_completed := None\<rparr>
               in Inr (j2, set_job j2 d)
          else let j2 = j1\<lparr>jb_status := Failed, jb_completed := Some now\<rparr>
               in Inr (j2, enqueue_build_failed now (set_job j2 d) app j2 (or_text url (jb_url j2)) code
                             safe_retryable))))"

section \<open>The invariant of the queue\<close>

text \<open>
  Every job has at most three attempts; a claimed one has a worker, a lease and an attempt; a settled
  one a completion time; an app has at most one live job, and an idempotency key at most one job.
\<close>

definition job_ok :: "job_row \<Rightarrow> bool" where
  "job_ok j \<longleftrightarrow> 0 \<le> jb_attempts j \<and> jb_attempts j \<le> MAX_BUILD_ATTEMPTS \<and>
     (jb_status j = Claimed \<longrightarrow> jb_claimed_by j \<noteq> None \<and> jb_lease j \<noteq> None \<and> 1 \<le> jb_attempts j) \<and>
     (\<not> job_live j \<longrightarrow> jb_completed j \<noteq> None)"

definition jobs_ok :: "db \<Rightarrow> bool" where
  "jobs_ok d \<longleftrightarrow> distinct (map jb_id (db_jobs d)) \<and>
     (\<forall>j\<in>set (db_jobs d). jb_id j < db_next d \<and> jb_app j < db_next d \<and> job_ok j) \<and>
     distinct (map jb_app (filter job_live (db_jobs d))) \<and>
     distinct (map jb_key (filter (\<lambda>j. jb_key j \<noteq> None) (db_jobs d)))"

lemma jobs_ok_cong:
  assumes "db_jobs d' = db_jobs d" "db_next d \<le> db_next d'" "jobs_ok d"
  shows "jobs_ok d'"
  using assms(2,3) less_le_trans [of _ "db_next d" "db_next d'"] unfolding jobs_ok_def assms(1) by blast

lemma set_job_simps [simp]:
  "db_next (set_job j d) = db_next d" "db_apps (set_job j d) = db_apps d" "db_convs (set_job j d) = db_convs d"
  "db_uevents (set_job j d) = db_uevents d" "db_records (set_job j d) = db_records d"
  "db_revisions (set_job j d) = db_revisions d" "db_deployments (set_job j d) = db_deployments d"
  "db_jobs (set_job j d) = upd_where (\<lambda>q. jb_id q = jb_id j) (\<lambda>_. j) (db_jobs d)"
  by (simp_all add: set_job_def)

lemma job_unique: "jobs_ok d \<Longrightarrow> i \<in> set (db_jobs d) \<Longrightarrow> j \<in> set (db_jobs d) \<Longrightarrow> jb_id i = jb_id j \<Longrightarrow> i = j"
  by (auto simp: jobs_ok_def distinct_map inj_on_def)

lemma set_job_split:
  assumes "jobs_ok d" "j \<in> set (db_jobs d)" "jb_id j' = jb_id j"
  shows "\<exists>xs ys. db_jobs d = xs @ j # ys \<and> db_jobs (set_job j' d) = xs @ j' # ys"
proof -
  have "distinct (map jb_id (db_jobs d))" using assms(1) by (simp add: jobs_ok_def)
  have "\<exists>xs ys. db_jobs d = xs @ j # ys \<and> upd_where (\<lambda>q. jb_id q = jb_id j') (\<lambda>_. j') (db_jobs d) = xs @ j' # ys"
    by (rule upd_where_one [OF \<open>distinct (map jb_id (db_jobs d))\<close> assms(2)]) (simp_all add: assms(3))
  then show ?thesis by simp
qed

text \<open>Rewriting a job in place, without giving it a new app or key and without reviving it, keeps the
  invariant.\<close>

lemma jobs_ok_set_job:
  assumes ok: "jobs_ok d" and j: "j \<in> set (db_jobs d)" and same: "jb_id j' = jb_id j" "jb_app j' = jb_app j" "jb_key j' = jb_key j"
    and live: "job_live j' \<Longrightarrow> job_live j" and new: "job_ok j'"
  shows "jobs_ok (set_job j' d)"
proof -
  from set_job_split [OF ok j same(1)] obtain xs ys where
    x: "db_jobs d = xs @ j # ys" "db_jobs (set_job j' d) = xs @ j' # ys" by blast
  have d: "distinct (map jb_id (xs @ j # ys))"
    and b: "\<forall>i\<in>set (xs @ j # ys). jb_id i < db_next d \<and> jb_app i < db_next d \<and> job_ok i"
    and l: "distinct (map jb_app (filter job_live (xs @ j # ys)))"
    and k: "distinct (map jb_key (filter (\<lambda>j. jb_key j \<noteq> None) (xs @ j # ys)))"
    using ok unfolding x(1) [symmetric] jobs_ok_def by blast+
  have "distinct (map jb_id (xs @ j' # ys))" using d same(1) by simp
  moreover have "\<forall>i\<in>set (xs @ j' # ys). jb_id i < db_next d \<and> jb_app i < db_next d \<and> job_ok i"
    using b same new by simp
  moreover have "distinct (map jb_app (filter job_live (xs @ j' # ys)))"
    using l live same(2) by (cases "job_live j'"; cases "job_live j") auto
  moreover have "distinct (map jb_key (filter (\<lambda>j. jb_key j \<noteq> None) (xs @ j' # ys)))"
    using k same(3) by (cases "jb_key j") auto
  ultimately show ?thesis unfolding jobs_ok_def x(2) by simp
qed

lemma jobs_ok_append:
  assumes ok: "jobs_ok d" and d': "db_jobs d' = db_jobs d @ [j]" "db_next d \<le> jb_id j" "jb_id j < db_next d'"
      "jb_app j < db_next d'" and new: "job_ok j"
    and app: "\<forall>i\<in>set (db_jobs d). job_live i \<longrightarrow> jb_app i \<noteq> jb_app j"
    and key: "jb_key j = None \<or> (\<forall>i\<in>set (db_jobs d). jb_key i \<noteq> jb_key j)"
  shows "jobs_ok d'"
proof -
  have old: "distinct (map jb_id (db_jobs d))" "\<forall>i\<in>set (db_jobs d). jb_id i < db_next d \<and> jb_app i < db_next d \<and> job_ok i"
    "distinct (map jb_app (filter job_live (db_jobs d)))"
    "distinct (map jb_key (filter (\<lambda>j. jb_key j \<noteq> None) (db_jobs d)))"
    using ok by (simp_all add: jobs_ok_def)
  have le: "db_next d \<le> db_next d'" using d' by simp
  have "\<forall>i\<in>set (db_jobs d @ [j]). jb_id i < db_next d' \<and> jb_app i < db_next d' \<and> job_ok i"
    using old(2) new d'(3,4) le by (simp add: ball_Un) (metis less_le_trans)
  moreover have "jb_id j \<notin> jb_id ` set (db_jobs d)" using old(2) d'(2) by fastforce
  moreover have "distinct (map jb_app (filter job_live (db_jobs d @ [j])))"
    using old(3) app by auto
  moreover have "distinct (map jb_key (filter (\<lambda>j. jb_key j \<noteq> None) (db_jobs d @ [j])))"
    using old(4) key by auto
  ultimately show ?thesis using old(1) unfolding jobs_ok_def d'(1) by simp
qed

lemma job_ok_new [simp]: "job_ok (new_job now i a b r p u k h)"
  by (simp add: job_ok_def new_job_def job_live_def MAX_BUILD_ATTEMPTS_def)

lemma job_ok_exhausted: "job_ok j \<Longrightarrow> job_ok (exhausted_job now j)"
  by (simp add: job_ok_def exhausted_job_def job_live_def)

lemma job_ok_held: "job_ok j \<Longrightarrow> jb_attempts j < MAX_BUILD_ATTEMPTS \<Longrightarrow> job_ok (held_build now w l j)"
  by (simp add: job_ok_def held_build_def job_live_def)

lemma enqueue_next: "db_next d \<le> db_next (snd (enqueue_user_event now d u c ty s key pl p))"
  by (auto simp: enqueue_user_event_def take_id_def Let_def split: option.split)

lemma terminalize_next: "db_next d \<le> db_next (terminalize_exhausted_build_claim now j d)"
  using enqueue_next [of "set_job (exhausted_job now j) d"]
  by (auto simp: terminalize_exhausted_build_claim_def Let_def enqueue_build_failed_def split: option.split)

lemma terminalize_jobs_ok:
  assumes "jobs_ok d" "j \<in> set (db_jobs d)"
  shows "jobs_ok (terminalize_exhausted_build_claim now j d)"
proof -
  have "job_ok j" using assms by (simp add: jobs_ok_def)
  have "jobs_ok (set_job (exhausted_job now j) d)"
    by (rule jobs_ok_set_job [OF assms])
      (use job_ok_exhausted [OF \<open>job_ok j\<close>] in \<open>simp_all add: exhausted_job_def job_live_def\<close>)
  moreover have "db_jobs (terminalize_exhausted_build_claim now j d) = db_jobs (set_job (exhausted_job now j) d)"
    by (simp add: terminalize_jobs exhausted_job_def)
  moreover have "db_next (set_job (exhausted_job now j) d) \<le> db_next (terminalize_exhausted_build_claim now j d)"
    using terminalize_next [of d now j] by simp
  ultimately show ?thesis by (blast intro: jobs_ok_cong)
qed

section \<open>What a claim does\<close>

definition failure_recorded :: "db \<Rightarrow> job_row \<Rightarrow> bool" where
  "failure_recorded d j \<longleftrightarrow>
     find_app d (jb_app j) = None \<or> failed_event_key (jb_id j) \<in> ue_key ` set (db_uevents d)"

definition claim_change ::
  "instant \<Rightarrow> string \<Rightarrow> int \<Rightarrow> job_row option \<Rightarrow> db \<Rightarrow> job_row \<Rightarrow> job_row \<Rightarrow> bool" where
  "claim_change now w l res d' q q' \<longleftrightarrow>
     q' = q \<or>
     (build_eligible now q \<and> MAX_BUILD_ATTEMPTS \<le> jb_attempts q \<and> q' = exhausted_job now q \<and> failure_recorded d' q) \<or>
     (build_eligible now q \<and> jb_attempts q < MAX_BUILD_ATTEMPTS \<and> q' = held_build now w l q \<and> res = Some q')"

lemma enqueue_keys:
  "ue_key ` set (db_uevents (snd (enqueue_user_event now d u c ty s key pl p))) = insert key (ue_key ` set (db_uevents d))"
  by (rule enqueue_cases [of key d now u c ty s pl p]) (auto dest!: find_SomeD)

lemma enqueue_other [simp]:
  "db_apps (snd (enqueue_user_event now d u c ty s key pl p)) = db_apps d"
  "db_records (snd (enqueue_user_event now d u c ty s key pl p)) = db_records d"
  "db_revisions (snd (enqueue_user_event now d u c ty s key pl p)) = db_revisions d"
  "db_deployments (snd (enqueue_user_event now d u c ty s key pl p)) = db_deployments d"
  "db_events (snd (enqueue_user_event now d u c ty s key pl p)) = db_events d"
  by (auto simp: enqueue_user_event_def take_id_def Let_def split: option.split)

lemma terminalize_other [simp]:
  "db_apps (terminalize_exhausted_build_claim now j d) = db_apps d"
  "db_records (terminalize_exhausted_build_claim now j d) = db_records d"
  "db_revisions (terminalize_exhausted_build_claim now j d) = db_revisions d"
  "db_deployments (terminalize_exhausted_build_claim now j d) = db_deployments d"
  "ue_key ` set (db_uevents d) \<subseteq> ue_key ` set (db_uevents (terminalize_exhausted_build_claim now j d))"
  "failure_recorded (terminalize_exhausted_build_claim now j d) j"
  by (auto simp: terminalize_exhausted_build_claim_def Let_def enqueue_build_failed_def enqueue_keys
      failure_recorded_def split: option.split)

lemma failure_recorded_mono:
  "failure_recorded d j \<Longrightarrow> db_apps d' = db_apps d \<Longrightarrow> ue_key ` set (db_uevents d) \<subseteq> ue_key ` set (db_uevents d') \<Longrightarrow>
   failure_recorded d' j"
  by (auto simp: failure_recorded_def)

lemma claim_loop_effect:
  assumes "jobs_ok d" "claim_loop now w l d = (res, d')"
  shows "jobs_ok d' \<and> db_apps d' = db_apps d \<and> ue_key ` set (db_uevents d) \<subseteq> ue_key ` set (db_uevents d') \<and>
    list_all2 (claim_change now w l res d') (db_jobs d) (db_jobs d') \<and>
    (res = None \<longrightarrow> (\<forall>q\<in>set (db_jobs d'). \<not> build_eligible now q)) \<and>
    (\<forall>r. res = Some r \<longrightarrow> (\<exists>j\<in>set (db_jobs d). build_eligible now j \<and> jb_attempts j < MAX_BUILD_ATTEMPTS \<and>
       r = held_build now w l j \<and> r \<in> set (db_jobs d') \<and>
       (\<forall>q\<in>set (db_jobs d). build_eligible now q \<and> jb_attempts q < MAX_BUILD_ATTEMPTS \<longrightarrow> jb_created j \<le> jb_created q)))"
  using assms
proof (induction now w l d rule: claim_loop.induct)
  case (1 now w l d)
  let ?el = "filter (build_eligible now) (db_jobs d)"
  show ?case
  proof (cases "least_by jb_created ?el")
    case None
    then have "?el = []" by simp
    moreover have "res = None" "d' = d" using None 1(3) by (auto simp: claim_loop.simps [of now w l d])
    ultimately show ?thesis
      using 1(2) by (auto simp: filter_empty_conv claim_change_def intro!: list.rel_refl)
  next
    case (Some j)
    from least_by_Some [OF Some] have j: "j \<in> set (db_jobs d)" "build_eligible now j"
      and old: "\<And>q. q \<in> set (db_jobs d) \<Longrightarrow> build_eligible now q \<Longrightarrow> jb_created j \<le> jb_created q" by auto
    have jok: "job_ok j" using 1(2) j(1) by (simp add: jobs_ok_def)
    show ?thesis
    proof (cases "MAX_BUILD_ATTEMPTS \<le> jb_attempts j")
      case False
      then have r: "res = Some (held_build now w l j)" "d' = set_job (held_build now w l j) d"
        using Some 1(3) by (auto simp: claim_loop.simps [of now w l d])
      have keep: "jb_id (held_build now w l j) = jb_id j" "jb_app (held_build now w l j) = jb_app j"
        "jb_key (held_build now w l j) = jb_key j" "job_live j"
        using j(2) by (auto simp: held_build_def build_eligible_def job_live_def)
      from set_job_split [OF 1(2) j(1) keep(1)] obtain xs ys where
        x: "db_jobs d = xs @ j # ys" "db_jobs d' = xs @ held_build now w l j # ys" using r(2) by blast
      have "jobs_ok d'" unfolding r(2)
        by (rule jobs_ok_set_job [OF 1(2) j(1) keep(1-3)]) (use keep(4) jok False in \<open>simp_all add: job_ok_held\<close>)
      moreover have "list_all2 (claim_change now w l res d') (db_jobs d) (db_jobs d')"
        unfolding x using j(2) False r(1)
        by (intro list_all2_appendI) (auto simp: claim_change_def intro!: list.rel_refl)
      ultimately show ?thesis using r x j False old by auto
    next
      case True
      let ?d1 = "terminalize_exhausted_build_claim now j d"
      have run: "claim_loop now w l ?d1 = (res, d')"
        using Some True 1(3) by (simp add: claim_loop.simps [of now w l d])
      have ok1: "jobs_ok ?d1" by (rule terminalize_jobs_ok [OF 1(2) j(1)])
      from 1(1) [OF Some True ok1 run] have
        ih: "jobs_ok d'" "db_apps d' = db_apps d" "ue_key ` set (db_uevents ?d1) \<subseteq> ue_key ` set (db_uevents d')"
          "list_all2 (claim_change now w l res d') (db_jobs ?d1) (db_jobs d')"
          "res = None \<longrightarrow> (\<forall>q\<in>set (db_jobs d'). \<not> build_eligible now q)"
        and ihr: "\<And>r. res = Some r \<Longrightarrow> \<exists>i\<in>set (db_jobs ?d1). build_eligible now i \<and> jb_attempts i < MAX_BUILD_ATTEMPTS \<and>
          r = held_build now w l i \<and> r \<in> set (db_jobs d') \<and>
          (\<forall>q\<in>set (db_jobs ?d1). build_eligible now q \<and> jb_attempts q < MAX_BUILD_ATTEMPTS \<longrightarrow> jb_created i \<le> jb_created q)"
        by simp_all
      have "jb_id (exhausted_job now j) = jb_id j" by (simp add: exhausted_job_def)
      from set_job_split [OF 1(2) j(1) this] obtain xs ys where x: "db_jobs d = xs @ j # ys"
        "db_jobs ?d1 = xs @ exhausted_job now j # ys" by (auto simp: terminalize_jobs exhausted_job_def)
      have rec: "failure_recorded d' j"
        by (rule failure_recorded_mono [OF terminalize_other(6) _ ih(3)]) (simp add: ih(2))
      have change: "list_all2 (claim_change now w l res d') (db_jobs d) (db_jobs d')"
      proof -
        from ih(4) obtain us e vs where u: "db_jobs d' = us @ e # vs"
          "list_all2 (claim_change now w l res d') xs us" "claim_change now w l res d' (exhausted_job now j) e"
          "list_all2 (claim_change now w l res d') ys vs"
          unfolding x(2) by (auto simp: list_all2_append1 list_all2_Cons1)
        have "e = exhausted_job now j" using u(3) by (auto simp: claim_change_def)
        then have "claim_change now w l res d' j e" using j(2) True rec by (simp add: claim_change_def)
        with u show ?thesis unfolding x(1) by (simp add: list_all2_appendI)
      qed
      have sub: "q \<in> set (db_jobs d)" if "q \<in> set (db_jobs ?d1)" "build_eligible now q" for q
        using that x by auto
      have sup: "q \<in> set (db_jobs ?d1)" if "q \<in> set (db_jobs d)" "jb_attempts q < MAX_BUILD_ATTEMPTS" for q
        using that x True by auto
      have keys: "ue_key ` set (db_uevents d) \<subseteq> ue_key ` set (db_uevents d')"
        using terminalize_other(5) ih(3) by (rule subset_trans)
      show ?thesis using ih(1,2,5) keys change ihr sub sup by (intro conjI) (assumption+, blast)
    qed
  qed
qed

section \<open>The other operations keep the invariant\<close>

definition claim_of :: "job_row \<Rightarrow> claimed_build" where
  "claim_of j = \<lparr>cl_job = jb_id j, cl_app = jb_app j, cl_base = jb_base j, cl_request = jb_request j,
     cl_attempt = jb_attempts j\<rparr>"

lemma claim_next_build_Inr:
  assumes "claim_next_build now d w l = Inr (res, d')"
  shows "\<exists>worker r. text_value (JStr w) 120 = Inr worker \<and> claim_loop now worker l d = (r, d') \<and> res = map_option claim_of r"
proof -
  from assms obtain worker where w: "text_value (JStr w) 120 = Inr worker"
    by (auto simp: claim_next_build_def bindR_Inr)
  obtain r d1 where c: "claim_loop now worker l d = (r, d1)" by (cases "claim_loop now worker l d")
  from assms show ?thesis
    by (cases r) (simp_all add: claim_next_build_def w c claim_of_def)
qed

lemma claim_next_build_ok:
  assumes "claim_next_build now d w l = Inr (res, d')" "jobs_ok d"
  shows "jobs_ok d'"
  using claim_next_build_Inr [OF assms(1)] claim_loop_effect [OF assms(2)] by blast

lemma claimed_job_Inr [result_simps]:
  "claimed_job d i w n = Inr j \<longleftrightarrow> 1 \<le> n \<and>
     find (\<lambda>j. jb_id j = i \<and> jb_status j = Claimed \<and> jb_claimed_by j = Some w \<and> jb_attempts j = n) (db_jobs d) = Some j"
  by (auto simp: claimed_job_def result_simps not_less)

lemma claimed_jobD:
  "claimed_job d i w n = Inr j \<Longrightarrow> j \<in> set (db_jobs d) \<and> jb_id j = i \<and> jb_status j = Claimed \<and>
     jb_claimed_by j = Some w \<and> jb_attempts j = n \<and> 1 \<le> n"
  by (auto simp: claimed_job_Inr dest: find_SomeD)

text \<open>A failed attempt: the job is queued again or it is settled with its event.\<close>

lemma fail_build_Inr:
  assumes "fail_build loads now d i w n err url md retryable = Inr (j', d')"
  obtains j app where "claimed_job d i w n = Inr j" "find_app d (jb_app j) = Some app"
    "jb_id j' = jb_id j" "jb_app j' = jb_app j" "jb_key j' = jb_key j" "jb_attempts j' = jb_attempts j"
    "db_jobs d' = db_jobs (set_job j' d)" "db_next d \<le> db_next d'" "db_apps d' = db_apps d"
    "(jb_status j' = Queued \<and> jb_attempts j < MAX_BUILD_ATTEMPTS \<and> jb_lease j' = None \<and> d' = set_job j' d) \<or>
     (jb_status j' = Failed \<and> jb_completed j' = Some now \<and> failure_recorded d' j')"
    "jb_status j' = (if (case snd (safe_failure loads err) of None \<Rightarrow> retryable | Some b \<Rightarrow> b) \<and>
       jb_attempts j < MAX_BUILD_ATTEMPTS then Queued else Failed)"
proof -
  from assms obtain j app clean where j: "claimed_job d i w n = Inr j" and app: "find_app d (jb_app j) = Some app"
    and rest: "(let (code, parsed) = safe_failure loads err;
           safe_retryable = (case parsed of None \<Rightarrow> retryable | Some b \<Rightarrow> b);
           should_retry = (safe_retryable \<and> jb_attempts j < MAX_BUILD_ATTEMPTS);
           j1 = j\<lparr>jb_error := Some clean, jb_lease := None, jb_updated := now,
                  jb_result := [(''build_metadata'', JObj md), (''retryable'', JBool safe_retryable),
                    (''requeued'', JBool should_retry), (''failure_code'', JStr code)]\<rparr>
       in if should_retry
          then let j2 = j1\<lparr>jb_status := Queued, jb_claimed_by := None, jb_completed := None\<rparr>
               in Inr (j2, set_job j2 d)
          else let j2 = j1\<lparr>jb_status := Failed, jb_completed := Some now\<rparr>
               in Inr (j2, enqueue_build_failed now (set_job j2 d) app j2 (or_text url (jb_url j2)) code
                             safe_retryable)) = (Inr (j', d') :: app_error + _)"
    unfolding fail_build_def by (auto simp: bindR_Inr some_or_Inr simp del: claimed_job_Inr)
  have next_le: "db_next d \<le> db_next (enqueue_build_failed now (set_job q d) app q u c b)" for q u c b
    using enqueue_next [of "set_job q d"] by (simp add: enqueue_build_failed_def)
  obtain code parsed where sf: "safe_failure loads err = (code, parsed)" by (cases "safe_failure loads err")
  let ?sr = "case parsed of None \<Rightarrow> retryable | Some b \<Rightarrow> b"
  let ?again = "?sr \<and> jb_attempts j < MAX_BUILD_ATTEMPTS"
  let ?j1 = "j\<lparr>jb_error := Some clean, jb_lease := None, jb_updated := now,
      jb_result := [(''build_metadata'', JObj md), (''retryable'', JBool ?sr),
        (''requeued'', JBool ?again), (''failure_code'', JStr code)]\<rparr>"
  show thesis
  proof (cases ?again)
    case True
    let ?j2 = "?j1\<lparr>jb_status := Queued, jb_claimed_by := None, jb_completed := None\<rparr>"
    from rest True have e: "j' = ?j2" "d' = set_job ?j2 d" by (auto simp: Let_def sf)
    show thesis by (rule that [OF j app]) (use e True sf in simp_all)
  next
    case False
    let ?j2 = "?j1\<lparr>jb_status := Failed, jb_completed := Some now\<rparr>"
    from rest False have e: "j' = ?j2"
      "d' = enqueue_build_failed now (set_job ?j2 d) app ?j2 (or_text url (jb_url ?j2)) code ?sr"
      unfolding Let_def sf prod.case by auto
    have st: "(if (case snd (safe_failure loads err) of None \<Rightarrow> retryable | Some b \<Rightarrow> b) \<and>
        jb_attempts j < MAX_BUILD_ATTEMPTS then Queued else Failed) = Failed" using False sf by simp
    show thesis
      by (rule that [OF j app])
        (use e next_le [of ?j2] st in \<open>simp_all add: enqueue_build_failed_def failure_recorded_def enqueue_keys\<close>)
  qed
qed

lemma fail_build_ok:
  assumes "fail_build loads now d i w n err url md retryable = Inr (j', d')" "jobs_ok d"
  shows "jobs_ok d'"
proof -
  obtain j app where j: "claimed_job d i w n = Inr j" and same: "jb_id j' = jb_id j" "jb_app j' = jb_app j"
    "jb_key j' = jb_key j" "jb_attempts j' = jb_attempts j" and d': "db_jobs d' = db_jobs (set_job j' d)" "db_next d \<le> db_next d'"
    and st: "jb_status j' = Queued \<or> (jb_status j' = Failed \<and> jb_completed j' = Some now)"
    by (rule fail_build_Inr [OF assms(1)]) blast
  from claimed_jobD [OF j] assms(2) have jin: "j \<in> set (db_jobs d)" "job_live j" "job_ok j"
    by (auto simp: job_live_def jobs_ok_def)
  have "job_ok j'" using jin(3) st same(4) by (auto simp: job_ok_def job_live_def)
  then have "jobs_ok (set_job j' d)" using jin(2) by (intro jobs_ok_set_job [OF assms(2) jin(1) same(1-3)]) simp
  then show ?thesis using d' by (intro jobs_ok_cong [of d' "set_job j' d"]) simp_all
qed

lemma optional_keyed:
  "optional_key k0 = Inr k \<Longrightarrow> (case k of None \<Rightarrow> None | Some k \<Rightarrow> build_by_idempotency_key d k) = None \<Longrightarrow>
   k = None \<or> (\<forall>i\<in>set (db_jobs d). jb_key i \<noteq> k)"
  by (auto simp: build_by_idempotency_key_def find_None_iff split: option.splits)

lemma queue_code_app_revision_Inr:
  assumes "queue_code_app_revision sha now d u a request0 p url key0 given = Inr (j, d')"
  shows "(d' = d \<and> j \<in> set (db_jobs d)) \<or>
    (db_jobs d' = db_jobs d @ [j] \<and> db_next d' = db_next d + 1 \<and> jb_id j = db_next d \<and> jb_app j = a \<and> job_ok j \<and>
     job_live j \<and> jb_base j = map_option dp_active (find_deployment d a) \<and>
     (\<forall>i\<in>set (db_jobs d). job_live i \<longrightarrow> jb_app i \<noteq> a) \<and>
     (jb_key j = None \<or> (\<forall>i\<in>set (db_jobs d). jb_key i \<noteq> jb_key j)) \<and>
     db_apps d' = db_apps d \<and> db_deployments d' = db_deployments d \<and> db_records d' = db_records d \<and>
     db_revisions d' = db_revisions d \<and> find_app d a \<noteq> None \<and> live_builds_of d u < MAX_LIVE_BUILDS_PER_USER)"
proof -
  from assms obtain request k h app actor where
    k: "optional_key key0 = Inr k" and app: "find_app d a = Some app"
    and rest: "(case (case k of None \<Rightarrow> None | Some k \<Rightarrow> build_by_idempotency_key d k) of
       Some j \<Rightarrow> bindR (validate_build_replay j h) (\<lambda>_. Inr (j, d))
     | None \<Rightarrow>
         bindR (ensure_no_live_build d a) (\<lambda>_.
         bindR (enforce_user_app_build_quota d u False) (\<lambda>_.
           case take_id d of (jid, d1) \<Rightarrow>
             let j = new_job now jid a (map_option dp_active (find_deployment d a)) request p
                       (or_text url (''/a/'' @ ga_public app)) k h
             in Inr (j, d1\<lparr>db_jobs := db_jobs d1 @ [j]\<rparr>)))) = Inr (j, d')"
    unfolding queue_code_app_revision_def by (auto simp: bindR_Inr if_Inr_raise locked_code_app_Inr)
  show ?thesis
  proof (cases "case k of None \<Rightarrow> None | Some k \<Rightarrow> build_by_idempotency_key d k")
    case (Some q)
    then have "q \<in> set (db_jobs d)"
      by (auto simp: build_by_idempotency_key_def split: option.splits dest: find_SomeD)
    with rest Some show ?thesis by (auto simp: bindR_Inr)
  next
    case None
    from rest [unfolded None option.case] have
      "\<not> (\<exists>j\<in>set (db_jobs d). jb_app j = a \<and> job_live j)" "live_builds_of d u < MAX_LIVE_BUILDS_PER_USER"
      "j = new_job now (db_next d) a (map_option dp_active (find_deployment d a)) request p
                       (or_text url (''/a/'' @ ga_public app)) k h"
      "d' = d\<lparr>db_next := db_next d + 1, db_jobs := db_jobs d @ [j]\<rparr>"
      by (auto simp: bindR_Inr ensure_no_live_build_def enforce_user_app_build_quota_def take_id_def Let_def
          not_le split: if_splits)
    with optional_keyed [OF k None] app show ?thesis by (simp add: new_job_def job_live_def [of "_\<lparr>jb_id := _\<rparr>"]) (auto simp: job_live_def new_job_def job_ok_def MAX_BUILD_ATTEMPTS_def)
  qed
qed

lemma upd_where_last:
  "(\<forall>r\<in>set rows. \<not> p r) \<Longrightarrow> p q \<Longrightarrow> upd_where p f (rows @ [q]) = rows @ [f q]"
  by (simp add: upd_where_none)

lemma insert_code_app_Inr:
  assumes "insert_code_app sha now public raw d args mode key h title descr request = Inr (app, job, ticket, d')"
    and "\<forall>j\<in>set (db_jobs d). jb_id j < db_next d"
  shows "ga_id app = db_next d \<and> ga_user app = ca_user args \<and> ga_access app = mode \<and> ticket = raw \<and>
    db_apps d' = db_apps d @ [app] \<and> db_next d' = db_next d + 4 \<and> db_jobs d' = db_jobs d @ [job] \<and>
    jb_id job = db_next d + 2 \<and> jb_app job = db_next d \<and> jb_key job = key \<and> job_ok job \<and> jb_base job = None \<and>
    jb_status job = Queued \<and> ga_status app = AppActive \<and> ga_runtime app = CodeRuntime \<and>
    db_deployments d' = db_deployments d \<and> db_records d' = db_records d \<and> db_revisions d' = db_revisions d \<and>
    db_convs d' = db_convs d \<and> db_members d' = db_members d \<and> ga_conv app = ca_conv args \<and>
    jb_hash job = (if key = None then None else Some h) \<and>
    (\<exists>t. db_tickets d' = db_tickets d @ [t] \<and> tk_app t = ga_id app \<and> tk_hash t = sha raw \<and>
       tk_role t = (if mode = CollaborativeLink then Member else Owner) \<and>
       tk_principal t = (if mode = CollaborativeLink then None else Some (ca_user args)))"
proof -
  let ?n = "db_next d"
  let ?app = "\<lparr>ga_id = ?n, ga_user = ca_user args, ga_conv = ca_conv args, ga_public = public,
                  ga_title = title, ga_descr = descr, ga_template = ''code_app'', ga_theme = ''dot'',
                  ga_access = mode, ga_status = AppActive, ga_version = 0, ga_runtime = CodeRuntime,
                  ga_created = now, ga_updated = now\<rparr>"
  let ?job = "new_job now (?n + 2) ?n None request (ca_provider args) (or_text (ca_url args) (''/a/'' @ public)) key h"
  let ?d = "d\<lparr>db_next := ?n + 3, db_apps := db_apps d @ [?app],
      db_memberships := db_memberships d @
        [\<lparr>ms_id = ?n + 1, ms_app = ?n, ms_user = ca_user args, ms_role = Owner, ms_created = now\<rparr>],
      db_jobs := db_jobs d @ [?job]\<rparr>"
  let ?coll = "mode = CollaborativeLink"
  from assms(1) obtain d5 where
    t: "issue_access_ticket sha now raw ?d ?n (ca_user args) (if ?coll then None else Some (ca_user args))
          (role_str (if ?coll then Member else Owner)) MAX_ACCESS_TICKET_TTL_SECONDS = Inr (ticket, d5)"
    and app: "app = ?app"
    and job: "job = (case ca_base_url args of None \<Rightarrow> ?job
        | Some base \<Rightarrow> ?job\<lparr>jb_url := rstrip_slash base @ ''/a/'' @ public @ ''#handoff='' @ ticket\<rparr>)"
    and d': "d' = d5\<lparr>db_jobs := upd_where (\<lambda>j. jb_id j = ?n + 2) (\<lambda>_. job) (db_jobs d5)\<rparr>"
    unfolding insert_code_app_def take_id_def prod.case Let_def bindR_Inr
    by (cases "ca_base_url args") (auto simp: numeral_3_eq_3)
  have "persist_access_ticket sha now raw ?d ?n (ca_user args) (if ?coll then None else Some (ca_user args))
          (role_str (if ?coll then Member else Owner)) MAX_ACCESS_TICKET_TTL_SECONDS = Inr (ticket, d5)"
    using t unfolding issue_access_ticket_def bindR_Inr if_Inr_raise by blast
  then have d5: "ticket = raw" "db_next d5 = ?n + 4" "db_jobs d5 = db_jobs d @ [?job]" "db_apps d5 = db_apps d @ [?app]"
    "db_deployments d5 = db_deployments d" "db_records d5 = db_records d" "db_revisions d5 = db_revisions d"
    "db_convs d5 = db_convs d" "db_members d5 = db_members d"
    "\<exists>t. db_tickets d5 = db_tickets d @ [t] \<and> tk_app t = ?n \<and> tk_hash t = sha raw \<and>
       tk_role t = (if ?coll then Member else Owner) \<and> tk_principal t = (if ?coll then None else Some (ca_user args))"
    unfolding persist_access_ticket_Inr role_of_str by auto
  have j: "jb_id ?job = ?n + 2" "jb_id job = ?n + 2" "jb_app job = ?n" "jb_key job = key" "jb_base job = None"
    "jb_status job = Queued" "job_ok job" "jb_hash job = (if key = None then None else Some h)"
    unfolding job by (simp_all add: new_job_def job_ok_def job_live_def MAX_BUILD_ATTEMPTS_def split: option.split)
  have "\<forall>j\<in>set (db_jobs d). jb_id j \<noteq> ?n + 2" using assms(2) by fastforce
  then have jobs: "upd_where (\<lambda>j. jb_id j = ?n + 2) (\<lambda>_. job) (db_jobs d @ [?job]) = db_jobs d @ [job]"
    using j(1) by (rule upd_where_last)
  show ?thesis using d5 j jobs by (simp add: app d')
qed

lemma create_code_app_build_Inr:
  assumes "create_code_app_build sha now public raw d args = Inr (app, job, ticket, d')"
  shows "d' = d \<or> (\<exists>c mode key h title descr request.
    locked_owned_conversation d (ca_conv args) (ca_user args)
      (case ca_requester args of None \<Rightarrow> ca_user args | Some u \<Rightarrow> u) = Inr c \<and>
    (cv_kind c = GroupConv \<longrightarrow> mode = CollaborativeLink) \<and> optional_key (ca_key args) = Inr key \<and>
    (case key of None \<Rightarrow> None | Some k \<Rightarrow> build_by_idempotency_key d k) = None \<and>
    active_code_apps_of d (ca_user args) < MAX_ACTIVE_CODE_APPS_PER_USER \<and>
    live_builds_of d (ca_user args) < MAX_LIVE_BUILDS_PER_USER \<and>
    insert_code_app sha now public raw d args mode key h title descr request = Inr (app, job, ticket, d'))"
proof -
  let ?req = "case ca_requester args of None \<Rightarrow> ca_user args | Some u \<Rightarrow> u"
  from assms obtain requested key c h where
    key: "optional_key (ca_key args) = Inr key"
    and c: "locked_owned_conversation d (ca_conv args) (ca_user args) ?req = Inr c"
    and rest: "(case (case key of None \<Rightarrow> None | Some k \<Rightarrow> build_by_idempotency_key d k) of
       Some j \<Rightarrow> bindR (replay_created_build d j h) (\<lambda>(app, job, ticket). Inr (app, job, ticket, d))
     | None \<Rightarrow>
         bindR (text_value (JStr (ca_title args)) 120) (\<lambda>title.
         bindR (optional_text (JStr (ca_descr args)) 500) (\<lambda>descr.
         bindR (non_empty_object (ca_request args)) (\<lambda>request.
         bindR (require_json_size (JObj request) MAX_BUILD_REQUEST_BYTES) (\<lambda>_.
         bindR (enforce_user_app_build_quota d (ca_user args) True) (\<lambda>_.
           insert_code_app sha now public raw d args
             (if cv_kind c = GroupConv then CollaborativeLink else requested) key h title descr request)))))) =
       Inr (app, job, ticket, d')"
    unfolding create_code_app_build_def Let_def bindR_Inr by blast
  show ?thesis
  proof (cases "case key of None \<Rightarrow> None | Some k \<Rightarrow> build_by_idempotency_key d k")
    case (Some q)
    with rest show ?thesis by (auto simp: bindR_Inr)
  next
    case None
    from rest [unfolded None option.case] obtain title descr request where
      "enforce_user_app_build_quota d (ca_user args) True = Inr ()"
      and ins: "insert_code_app sha now public raw d args
         (if cv_kind c = GroupConv then CollaborativeLink else requested) key h title descr request = Inr (app, job, ticket, d')"
      unfolding bindR_Inr by auto
    then have q: "active_code_apps_of d (ca_user args) < MAX_ACTIVE_CODE_APPS_PER_USER"
      "live_builds_of d (ca_user args) < MAX_LIVE_BUILDS_PER_USER"
      by (auto simp: enforce_user_app_build_quota_def not_le split: if_splits)
    have "cv_kind c = GroupConv \<longrightarrow> (if cv_kind c = GroupConv then CollaborativeLink else requested) = CollaborativeLink"
      by simp
    with key c None q ins show ?thesis by blast
  qed
qed

lemma create_code_app_build_ok:
  assumes "create_code_app_build sha now public raw d args = Inr (app, job, ticket, d')" "jobs_ok d"
  shows "jobs_ok d'"
  using create_code_app_build_Inr [OF assms(1)]
proof (elim disjE exE conjE)
  assume "d' = d"
  with assms(2) show ?thesis by simp
next
  fix c mode key h title descr request
  assume key: "optional_key (ca_key args) = Inr key"
    and none: "(case key of None \<Rightarrow> None | Some k \<Rightarrow> build_by_idempotency_key d k) = None"
    and ins: "insert_code_app sha now public raw d args mode key h title descr request = Inr (app, job, ticket, d')"
  have b: "\<forall>j\<in>set (db_jobs d). jb_id j < db_next d \<and> jb_app j < db_next d" using assms(2) by (simp add: jobs_ok_def)
  then have "\<forall>j\<in>set (db_jobs d). jb_id j < db_next d" by simp
  note i = insert_code_app_Inr [OF ins this]
  have "\<forall>i\<in>set (db_jobs d). job_live i \<longrightarrow> jb_app i \<noteq> jb_app job" using b i by auto
  with i optional_keyed [OF key none] show ?thesis
    by (intro jobs_ok_append [OF assms(2), of d' job]) auto
qed

lemma queue_code_app_revision_ok:
  assumes "queue_code_app_revision sha now d u a request0 p url key0 given = Inr (j, d')" "jobs_ok d"
    and "\<forall>app\<in>set (db_apps d). ga_id app < db_next d"
  shows "jobs_ok d'"
proof (cases "d' = d")
  case True
  with assms(2) show ?thesis by simp
next
  case False
  with queue_code_app_revision_Inr [OF assms(1)] have
    new: "db_jobs d' = db_jobs d @ [j]" "db_next d' = db_next d + 1" "jb_id j = db_next d" "jb_app j = a" "job_ok j"
      "\<forall>i\<in>set (db_jobs d). job_live i \<longrightarrow> jb_app i \<noteq> a"
      "jb_key j = None \<or> (\<forall>i\<in>set (db_jobs d). jb_key i \<noteq> jb_key j)" and a: "find_app d a \<noteq> None"
    by simp_all
  from a assms(3) have "a < db_next d" by (auto dest: row_by_Some)
  with new show ?thesis by (intro jobs_ok_append [OF assms(2) new(1)]) simp_all
qed

section \<open>Fencing\<close>

text \<open>A claim is current while its job is claimed by its worker at its attempt.\<close>

definition claim_current :: "db \<Rightarrow> uuid \<times> string \<times> int \<Rightarrow> bool" where
  "claim_current d c = (case c of (i, w, n) \<Rightarrow>
     1 \<le> n \<and> (\<exists>j\<in>set (db_jobs d). jb_id j = i \<and> jb_status j = Claimed \<and> jb_claimed_by j = Some w \<and> jb_attempts j = n))"

text \<open>
  The contract of a settlement, which \<open>fail_build\<close> and \<open>complete_build\<close> keep: it needs a current
  claim and ends it, so a claim settles at most once.
\<close>

locale settlement =
  fixes settle :: "'x \<Rightarrow> instant \<Rightarrow> db \<Rightarrow> app_error + ('r \<times> db)"
    and token :: "'x \<Rightarrow> uuid \<times> string \<times> int"
  assumes settle_needs: "settle x now d = Inr (r, d') \<Longrightarrow> claim_current d (token x)"
    and settle_ends: "jobs_ok d \<Longrightarrow> settle x now d = Inr (r, d') \<Longrightarrow> \<not> claim_current d' (token x)"
    and settle_refuses: "\<not> claim_current d (token x) \<Longrightarrow> settle x now d = Inl CodeAppConflict"
begin

lemma settles_once:
  assumes "jobs_ok d" "settle x now d = Inr (r, d')" "token y = token x"
  shows "settle y now' d' = Inl CodeAppConflict"
  using settle_ends [OF assms(1,2)] settle_refuses [of d' y] assms(3) by simp

lemma stale_refused:
  assumes "jobs_ok d" "token x = (i, w, n)" "j \<in> set (db_jobs d)" "jb_id j = i" "jb_attempts j \<noteq> n"
  shows "settle x now d = Inl CodeAppConflict"
proof (rule settle_refuses)
  have "q = j" if "q \<in> set (db_jobs d)" "jb_id q = i" for q
    using job_unique [OF assms(1) that(1) assms(3)] that(2) assms(4) by simp
  with assms(2,5) show "\<not> claim_current d (token x)" by (auto simp: claim_current_def)
qed

end

lemma claim_current_iff: "claim_current d (i, w, n) \<longleftrightarrow> (\<exists>j. claimed_job d i w n = Inr j)"
  by (cases "find (\<lambda>j. jb_id j = i \<and> jb_status j = Claimed \<and> jb_claimed_by j = Some w \<and> jb_attempts j = n) (db_jobs d)")
    (auto simp: claim_current_def claimed_job_Inr find_None_iff dest: find_SomeD)

lemma claimed_job_stale: "\<not> claim_current d (i, w, n) \<Longrightarrow> claimed_job d i w n = Inl CodeAppConflict"
  by (cases "claimed_job d i w n") (auto simp: claim_current_iff claimed_job_def some_or_Inl split: if_splits)

text \<open>Rewriting the claimed job to one that is not claimed ends its claim.\<close>

lemma claim_ends:
  assumes "jobs_ok d" "claimed_job d i w n = Inr j" "jb_id j' = jb_id j" "jb_status j' \<noteq> Claimed"
    "db_jobs d' = db_jobs (set_job j' d)"
  shows "\<not> claim_current d' (i, w, n)"
  using claimed_jobD [OF assms(2)] assms(3-5)
  by (auto simp: claim_current_def in_set_upd_where split: if_splits)

interpretation failing: settlement
  "\<lambda>(i, w, n, err, url, md, retryable) now d. fail_build loads now d i w n err url md retryable"
  "\<lambda>(i, w, n, err, url, md, retryable). (i, w, n)"
  for loads
proof (unfold_locales, goal_cases)
  case (1 x now d r d')
  obtain i w n err url md retryable where x: "x = (i, w, n, err, url, md, retryable)" by (cases x)
  with 1 show ?case by (auto elim: fail_build_Inr simp: claim_current_iff)
next
  case (2 d x now r d')
  obtain i w n err url md retryable where x: "x = (i, w, n, err, url, md, retryable)" by (cases x)
  from 2(2) x have "fail_build loads now d i w n err url md retryable = Inr (r, d')" by simp
  then obtain j where "claimed_job d i w n = Inr j" "jb_id r = jb_id j" "jb_status r \<noteq> Claimed"
    "db_jobs d' = db_jobs (set_job r d)" by (rule fail_build_Inr) auto
  from claim_ends [OF 2(1) this] show ?case by (simp add: x)
next
  case (3 d x now)
  then show ?case by (cases x) (simp add: fail_build_def claimed_job_stale)
qed

end
