(* ===== verification/App_Records.thy ===== *)
theory App_Records
  imports App_Journal
begin

text \<open>
  The data operations of a generated app (\<open>list_data_records\<close>, \<open>create_data_record\<close>,
  \<open>update_data_record\<close>, \<open>delete_data_record\<close> of \<open>services/generated_apps_v2.py\<close>): each
  re-authorises the actor, answers a known idempotency key from the journal, checks rate, schema and
  storage, writes the row (an update and a deletion only at the expected version) and journals it.

  The three mutations interpret the contract \<open>journaled\<close>; \<open>data_step\<close> is one successful call of any of
  them.
\<close>

section \<open>Operations\<close>

text \<open>\<open>GeneratedAppDataRecord | StoredDataRecord\<close>, and what the API renders of both.\<close>

datatype record_result = LiveRecord data_row | StoredRecord stored_record

definition record_snapshot :: "data_row \<Rightarrow> stored_record" where
  "record_snapshot r =
     \<lparr>sr_id = dr_id r, sr_entity = dr_entity r, sr_data = dr_data r, sr_version = dr_version r,
      sr_created = dr_created r, sr_updated = dr_updated r\<rparr>"

primrec shown_record :: "record_result \<Rightarrow> stored_record" where
  "shown_record (LiveRecord r) = record_snapshot r"
| "shown_record (StoredRecord s) = s"

definition replay_record :: "string \<Rightarrow> string \<Rightarrow> db \<Rightarrow> event_row \<Rightarrow> app_error + (record_result \<times> db)" where
  "replay_record operation h d e =
     bindR (stored_record_from_event e operation h) (\<lambda>s. Inr (StoredRecord s, d))"

definition app_bytes :: "db \<Rightarrow> uuid \<Rightarrow> int" where
  "app_bytes d app_id = sum_where (\<lambda>r. dr_app r = app_id) dr_bytes (db_records d)"

definition enforce_app_storage_limit :: "db \<Rightarrow> uuid \<Rightarrow> int \<Rightarrow> app_error + unit" where
  "enforce_app_storage_limit d app_id added =
     (if added \<le> 0 then Inr ()
      else if MAX_DATA_BYTES_PER_APP < app_bytes d app_id + added then Inl CodeAppValidation
      else Inr ())"

definition add_data_event ::
  "instant \<Rightarrow> db \<Rightarrow> uuid \<Rightarrow> data_row \<Rightarrow> app_actor \<Rightarrow> string \<Rightarrow> string \<Rightarrow> string \<Rightarrow> string \<Rightarrow> app_error + db" where
  "add_data_event now d app_id r actor type operation h key =
     bindR (text_value (JStr key) 160) (\<lambda>k.
       case take_id d of (eid, d1) \<Rightarrow>
         Inr (d1\<lparr>db_events := db_events d1 @
           [\<lparr>ev_id = eid, ev_app = app_id, ev_record = Some (dr_id r), ev_entity = Some (dr_entity r),
             ev_type = type, ev_user = ac_user actor, ev_session = ac_session actor, ev_key = k,
             ev_operation = Some operation, ev_hash = Some h,
             ev_response = RecordResponse (record_snapshot r),
             ev_payload = [(''record_id'', JStr (str_uuid (dr_id r))), (''version'', JInt (dr_version r)),
                           (''data'', JObj (dr_data r))],
             ev_created = now\<rparr>]\<rparr>))"

definition list_data_records ::
  "instant \<Rightarrow> db \<Rightarrow> uuid \<Rightarrow> app_actor \<Rightarrow> string \<Rightarrow> int \<Rightarrow> int \<Rightarrow> app_error + (data_row list \<times> int)" where
  "list_data_records now d app_id actor0 entity limit offset =
     bindR (reauthorize_actor now d app_id actor0) (\<lambda>actor.
     bindR (entity_name (JStr entity)) (\<lambda>clean_entity.
       let n = nat (max 1 (min limit 100)); k = nat (max 0 offset);
           rows = filter (\<lambda>r. dr_app r = app_id \<and> dr_entity r = clean_entity) (db_records d)
       in Inr (take n (drop k (sort_key (\<lambda>r. (dr_created r, dr_id r)) rows)), int (length rows))))"

definition create_request ::
  "(string \<Rightarrow> string) \<Rightarrow> string \<Rightarrow> json \<Rightarrow> string \<Rightarrow> app_error + (string \<times> obj \<times> string \<times> string)" where
  "create_request sha entity data key =
     bindR (entity_name (JStr entity)) (\<lambda>clean_entity.
     bindR (as_object data) (\<lambda>ob.
     bindR (text_value (JStr key) 160) (\<lambda>k.
     bindR (idempotency_request_hash sha ''records.create''
              [(''entity'', JStr clean_entity), (''data'', JObj ob)]) (\<lambda>h.
       Inr (clean_entity, ob, k, h)))))"

definition insert_record ::
  "instant \<Rightarrow> db \<Rightarrow> uuid \<Rightarrow> app_actor \<Rightarrow> string \<Rightarrow> obj \<Rightarrow> string \<Rightarrow> string \<Rightarrow>
   app_error + (record_result \<times> db)" where
  "insert_record now d app_id actor entity data k h =
     bindR (active_manifest d app_id) (\<lambda>manifest.
     bindR (validate_entity_data manifest entity data) (\<lambda>clean.
       let bytes = json_size (JObj clean) in
       if MAX_RECORDS_PER_APP \<le> count_where (\<lambda>r. dr_app r = app_id) (db_records d)
       then Inl CodeAppValidation
       else bindR (enforce_app_storage_limit d app_id bytes) (\<lambda>_.
         case take_id d of (rid, d1) \<Rightarrow>
           let r = \<lparr>dr_id = rid, dr_app = app_id, dr_entity = entity, dr_data = clean,
                    dr_bytes = bytes, dr_version = 1, dr_created_by = ac_user actor,
                    dr_updated_by = ac_user actor, dr_created = now, dr_updated = now\<rparr>;
               d2 = d1\<lparr>db_records := db_records d1 @ [r]\<rparr>
           in bindR (add_data_event now d2 app_id r actor ''app.data.created'' ''records.create'' h k)
                (\<lambda>d3. Inr (LiveRecord r, d3)))))"

definition create_data_record ::
  "(string \<Rightarrow> string) \<Rightarrow> instant \<Rightarrow> db \<Rightarrow> uuid \<Rightarrow> app_actor \<Rightarrow> string \<Rightarrow> json \<Rightarrow> string \<Rightarrow>
   app_error + (record_result \<times> db)" where
  "create_data_record sha now d app_id actor0 entity data key =
     bindR (reauthorize_actor now d app_id actor0) (\<lambda>actor.
     bindR (require_write actor) (\<lambda>_.
     bindR (create_request sha entity data key) (\<lambda>(clean_entity, ob, k, h).
       journaled_mutation now d app_id actor k (replay_record ''records.create'' h d)
         (insert_record now d app_id actor clean_entity ob k h))))"

text \<open>\<open>merged\<close>: a null removes the field, any other value sets it.\<close>

definition merge_data :: "obj \<Rightarrow> obj \<Rightarrow> obj" where
  "merge_data current data =
     foldl (\<lambda>m (k, v). if v = JNull then AList.delete k m else AList.update k v m) current data"

definition update_request ::
  "(string \<Rightarrow> string) \<Rightarrow> uuid \<Rightarrow> int \<Rightarrow> json \<Rightarrow> string \<Rightarrow> app_error + (obj \<times> string \<times> string)" where
  "update_request sha record_id expected data key =
     bindR (as_object data) (\<lambda>ob.
     bindR (text_value (JStr key) 160) (\<lambda>k.
     bindR (idempotency_request_hash sha ''records.update''
              [(''record_id'', JStr (str_uuid record_id)), (''expected_version'', JInt expected),
               (''data'', JObj ob)]) (\<lambda>h.
       Inr (ob, k, h))))"

definition find_record :: "db \<Rightarrow> uuid \<Rightarrow> uuid \<Rightarrow> data_row option" where
  "find_record d app_id record_id =
     find (\<lambda>r. dr_id r = record_id \<and> dr_app r = app_id) (db_records d)"

definition change_record ::
  "instant \<Rightarrow> db \<Rightarrow> uuid \<Rightarrow> app_actor \<Rightarrow> uuid \<Rightarrow> int \<Rightarrow> obj \<Rightarrow> string \<Rightarrow> string \<Rightarrow>
   app_error + (record_result \<times> db)" where
  "change_record now d app_id actor record_id expected data k h =
     bindR (active_manifest d app_id) (\<lambda>manifest.
     bindR (some_or CodeAppNotFound (find_record d app_id record_id)) (\<lambda>current.
     bindR (validate_entity_data manifest (dr_entity current) (merge_data (dr_data current) data)) (\<lambda>clean.
       let bytes = json_size (JObj clean) in
       bindR (enforce_app_storage_limit d app_id (max 0 (bytes - dr_bytes current))) (\<lambda>_.
         let here = (\<lambda>r. dr_id r = record_id \<and> dr_app r = app_id \<and> dr_version r = expected);
             set = (\<lambda>r. r\<lparr>dr_data := clean, dr_bytes := bytes, dr_version := dr_version r + 1,
                        dr_updated_by := ac_user actor, dr_updated := now\<rparr>)
         in case find here (db_records d) of
              None \<Rightarrow> Inl CodeAppConflict
            | Some r \<Rightarrow>
                bindR (add_data_event now (d\<lparr>db_records := upd_where here set (db_records d)\<rparr>) app_id
                         (set r) actor ''app.data.updated'' ''records.update'' h k)
                  (\<lambda>d2. Inr (LiveRecord (set r), d2))))))"

definition update_data_record ::
  "(string \<Rightarrow> string) \<Rightarrow> instant \<Rightarrow> db \<Rightarrow> uuid \<Rightarrow> uuid \<Rightarrow> app_actor \<Rightarrow> int \<Rightarrow> json \<Rightarrow> string \<Rightarrow>
   app_error + (record_result \<times> db)" where
  "update_data_record sha now d app_id record_id actor0 expected data key =
     bindR (reauthorize_actor now d app_id actor0) (\<lambda>actor.
     bindR (require_write actor) (\<lambda>_.
     bindR (update_request sha record_id expected data key) (\<lambda>(ob, k, h).
       journaled_mutation now d app_id actor k (replay_record ''records.update'' h d)
         (change_record now d app_id actor record_id expected ob k h))))"

definition delete_request ::
  "(string \<Rightarrow> string) \<Rightarrow> uuid \<Rightarrow> int \<Rightarrow> string \<Rightarrow> app_error + (string \<times> string)" where
  "delete_request sha record_id expected key =
     bindR (text_value (JStr key) 160) (\<lambda>k.
     bindR (idempotency_request_hash sha ''records.delete''
              [(''record_id'', JStr (str_uuid record_id)), (''expected_version'', JInt expected)]) (\<lambda>h.
       Inr (k, h)))"

text \<open>
  Deleting the row resets the reference of its events (\<open>ON DELETE SET NULL\<close>); the deletion's own
  event is a tombstone that keeps the last data.
\<close>

definition delete_data_record ::
  "(string \<Rightarrow> string) \<Rightarrow> instant \<Rightarrow> db \<Rightarrow> uuid \<Rightarrow> uuid \<Rightarrow> app_actor \<Rightarrow> int \<Rightarrow> string \<Rightarrow>
   app_error + (unit \<times> db)" where
  "delete_data_record sha now d app_id record_id actor0 expected key =
     bindR (reauthorize_actor now d app_id actor0) (\<lambda>actor.
     bindR (require_write actor) (\<lambda>_.
     bindR (delete_request sha record_id expected key) (\<lambda>(k, h).
     bindR (event_by_key d app_id k) (\<lambda>existing.
       case existing of
         Some e \<Rightarrow> bindR (replay_response e ''records.delete'' h) (\<lambda>_. Inr ((), d))
       | None \<Rightarrow>
           bindR (some_or CodeAppNotFound (find_record d app_id record_id)) (\<lambda>st.
           bindR (enforce_mutation_rate_limit now d app_id actor) (\<lambda>_.
           bindR (event_by_key d app_id k) (\<lambda>existing.
             case existing of
               Some e \<Rightarrow> bindR (replay_response e ''records.delete'' h) (\<lambda>_. Inr ((), d))
             | None \<Rightarrow>
                 let here = (\<lambda>r. dr_id r = record_id \<and> dr_app r = app_id \<and> dr_version r = expected) in
                 if find here (db_records d) = None then Inl CodeAppConflict
                 else case take_id d of (eid, d1) \<Rightarrow>
                   Inr ((), d1\<lparr>
                     db_records := delete_where here (db_records d1),
                     db_events := upd_where (\<lambda>e. ev_record e = Some record_id)
                         (\<lambda>e. e\<lparr>ev_record := None\<rparr>) (db_events d1) @
                       [\<lparr>ev_id = eid, ev_app = app_id, ev_record = None, ev_entity = Some (dr_entity st),
                         ev_type = ''app.data.deleted'', ev_user = ac_user actor,
                         ev_session = ac_session actor, ev_key = k,
                         ev_operation = Some ''records.delete'', ev_hash = Some h,
                         ev_response = DeletedResponse (dr_id st),
                         ev_payload = [(''tombstone'', JBool True),
                           (''record_id'', JStr (str_uuid (dr_id st))), (''entity'', JStr (dr_entity st)),
                           (''version'', JInt (dr_version st)), (''data'', JObj (dr_data st))],
                         ev_created = now\<rparr>]\<rparr>))))))))"

section \<open>Successful calls\<close>

lemma enforce_app_storage_limit_Inr [result_simps]:
  "enforce_app_storage_limit d a n = Inr u \<longleftrightarrow> n \<le> 0 \<or> app_bytes d a + n \<le> MAX_DATA_BYTES_PER_APP"
  by (auto simp: enforce_app_storage_limit_def not_le)

definition data_event ::
  "instant \<Rightarrow> db \<Rightarrow> uuid \<Rightarrow> data_row \<Rightarrow> app_actor \<Rightarrow> string \<Rightarrow> string \<Rightarrow> string \<Rightarrow> string \<Rightarrow> event_row" where
  "data_event now d app_id r actor type operation h k =
     \<lparr>ev_id = db_next d, ev_app = app_id, ev_record = Some (dr_id r), ev_entity = Some (dr_entity r),
      ev_type = type, ev_user = ac_user actor, ev_session = ac_session actor, ev_key = k,
      ev_operation = Some operation, ev_hash = Some h,
      ev_response = RecordResponse (record_snapshot r),
      ev_payload = [(''record_id'', JStr (str_uuid (dr_id r))), (''version'', JInt (dr_version r)),
                    (''data'', JObj (dr_data r))],
      ev_created = now\<rparr>"

lemma add_data_event_Inr:
  assumes "text_value (JStr k) 160 = Inr k"
  shows "add_data_event now d a r actor type operation h k = Inr d' \<longleftrightarrow>
     d' = d\<lparr>db_next := db_next d + 1,
            db_events := db_events d @ [data_event now d a r actor type operation h k]\<rparr>"
  unfolding add_data_event_def assms by (auto simp: take_id_def data_event_def)

definition may_write :: "instant \<Rightarrow> db \<Rightarrow> uuid \<Rightarrow> app_actor \<Rightarrow> bool" where
  "may_write now d app_id actor0 \<longleftrightarrow>
     (case reauthorize_actor now d app_id actor0 of Inl _ \<Rightarrow> False | Inr a \<Rightarrow> ac_role a \<noteq> Viewer)"

lemma may_write_iff:
  "may_write now d a actor0 \<longleftrightarrow> (\<exists>actor. reauthorize_actor now d a actor0 = Inr actor \<and> ac_role actor \<noteq> Viewer)"
  by (auto simp: may_write_def split: sum.splits)

lemma request_key_clean:
  "create_request sha entity data key = Inr (e, ob, k, h) \<Longrightarrow> text_value (JStr k) 160 = Inr k"
  "update_request sha i expected data key = Inr (ob, k, h) \<Longrightarrow> text_value (JStr k) 160 = Inr k"
  "delete_request sha i expected key = Inr (k, h) \<Longrightarrow> text_value (JStr k) 160 = Inr k"
  by (auto simp: create_request_def update_request_def delete_request_def bindR_Inr
      simp del: text_value.simps intro: text_value_idem)

lemma find_record_Some:
  "find_record d a i = Some r \<Longrightarrow> r \<in> set (db_records d) \<and> dr_id r = i \<and> dr_app r = a"
  by (auto simp: find_record_def dest: find_SomeD)

text \<open>What a successful insertion did.\<close>

lemma insert_record_Inr:
  assumes "insert_record now d a actor entity data k h = Inr (res, d')" "text_value (JStr k) 160 = Inr k"
  obtains manifest r where
    "active_manifest d a = Inr manifest"
    "r = \<lparr>dr_id = db_next d, dr_app = a, dr_entity = entity, dr_data = data,
          dr_bytes = json_size (JObj data), dr_version = 1, dr_created_by = ac_user actor,
          dr_updated_by = ac_user actor, dr_created = now, dr_updated = now\<rparr>"
    "conforms manifest r" "dr_bytes r \<le> MAX_RECORD_BYTES"
    "count_where (\<lambda>r. dr_app r = a) (db_records d) < MAX_RECORDS_PER_APP"
    "app_bytes d a + dr_bytes r \<le> MAX_DATA_BYTES_PER_APP"
    "res = LiveRecord r"
    "d' = d\<lparr>db_next := db_next d + 2, db_records := db_records d @ [r],
            db_events := db_events d @ [data_event now (d\<lparr>db_next := db_next d + 1\<rparr>) a r actor
              ''app.data.created'' ''records.create'' h k]\<rparr>"
proof -
  let ?r = "\<lparr>dr_id = db_next d, dr_app = a, dr_entity = entity, dr_data = data,
          dr_bytes = json_size (JObj data), dr_version = 1, dr_created_by = ac_user actor,
          dr_updated_by = ac_user actor, dr_created = now, dr_updated = now\<rparr>"
  from assms(1) obtain manifest clean d3 where m: "active_manifest d a = Inr manifest"
    and v: "validate_entity_data manifest entity data = Inr clean"
    and c: "count_where (\<lambda>r. dr_app r = a) (db_records d) < MAX_RECORDS_PER_APP"
    and b: "json_size (JObj clean) \<le> 0 \<or> app_bytes d a + json_size (JObj clean) \<le> MAX_DATA_BYTES_PER_APP"
    and e: "add_data_event now (d\<lparr>db_next := db_next d + 1,
        db_records := db_records d @ [?r\<lparr>dr_data := clean, dr_bytes := json_size (JObj clean)\<rparr>]\<rparr>) a
        (?r\<lparr>dr_data := clean, dr_bytes := json_size (JObj clean)\<rparr>) actor
        ''app.data.created'' ''records.create'' h k = Inr d'"
    and res: "res = LiveRecord (?r\<lparr>dr_data := clean, dr_bytes := json_size (JObj clean)\<rparr>)"
    by (auto simp: insert_record_def result_simps take_id_def Let_def simp del: active_manifest_Inr
        split: if_splits)
  from v have clean: "clean = data" by (rule validate_entity_data_same)
  show thesis
  proof (rule that [OF m refl _ _ c])
    show "conforms manifest ?r" using v by (simp add: conforms_def clean)
    show "dr_bytes ?r \<le> MAX_RECORD_BYTES" using validate_entity_data_size [OF v] clean by simp
    show "app_bytes d a + dr_bytes ?r \<le> MAX_DATA_BYTES_PER_APP"
      using b json_size_obj_pos [of data] clean by auto
    show "res = LiveRecord ?r" using res clean by simp
    show "d' = d\<lparr>db_next := db_next d + 2, db_records := db_records d @ [?r],
            db_events := db_events d @ [data_event now (d\<lparr>db_next := db_next d + 1\<rparr>) a ?r actor
              ''app.data.created'' ''records.create'' h k]\<rparr>"
      using e clean by (simp add: add_data_event_Inr [OF assms(2)] data_event_def)
  qed
qed

text \<open>What a successful update did, when record identifiers are unique: the row found at the
  expected version is the one that was read.\<close>

definition changed_row :: "instant \<Rightarrow> app_actor \<Rightarrow> obj \<Rightarrow> data_row \<Rightarrow> data_row" where
  "changed_row now actor data r =
     (let m = merge_data (dr_data r) data in
      r\<lparr>dr_data := m, dr_bytes := json_size (JObj m), dr_version := dr_version r + 1,
        dr_updated_by := ac_user actor, dr_updated := now\<rparr>)"

lemma changed_row_simps [simp]:
  "dr_id (changed_row now actor data r) = dr_id r"
  "dr_app (changed_row now actor data r) = dr_app r"
  "dr_entity (changed_row now actor data r) = dr_entity r"
  "dr_version (changed_row now actor data r) = dr_version r + 1"
  "dr_data (changed_row now actor data r) = merge_data (dr_data r) data"
  "dr_bytes (changed_row now actor data r) = json_size (JObj (merge_data (dr_data r) data))"
  by (simp_all add: changed_row_def Let_def)

lemma change_record_Inr:
  assumes "change_record now d a actor i expected data k h = Inr (res, d')"
    and "text_value (JStr k) 160 = Inr k" "distinct (map dr_id (db_records d))"
  obtains manifest r xs ys where
    "active_manifest d a = Inr manifest" "find_record d a i = Some r"
    "dr_version r = expected"
    "db_records d = xs @ r # ys"
    "conforms manifest (changed_row now actor data r)"
    "dr_bytes (changed_row now actor data r) \<le> MAX_RECORD_BYTES"
    "max 0 (dr_bytes (changed_row now actor data r) - dr_bytes r) = 0 \<or>
     app_bytes d a + dr_bytes (changed_row now actor data r) - dr_bytes r \<le> MAX_DATA_BYTES_PER_APP"
    "res = LiveRecord (changed_row now actor data r)"
    "d' = d\<lparr>db_next := db_next d + 1, db_records := xs @ changed_row now actor data r # ys,
            db_events := db_events d @ [data_event now d a (changed_row now actor data r) actor
              ''app.data.updated'' ''records.update'' h k]\<rparr>"
proof -
  let ?here = "\<lambda>r. dr_id r = i \<and> dr_app r = a \<and> dr_version r = expected"
  from assms(1) obtain manifest r clean q where m: "active_manifest d a = Inr manifest"
    and r: "find_record d a i = Some r"
    and v: "validate_entity_data manifest (dr_entity r) (merge_data (dr_data r) data) = Inr clean"
    and b: "max 0 (json_size (JObj clean) - dr_bytes r) \<le> 0 \<or>
        app_bytes d a + max 0 (json_size (JObj clean) - dr_bytes r) \<le> MAX_DATA_BYTES_PER_APP"
    and q: "find ?here (db_records d) = Some q"
    and res: "res = LiveRecord (q\<lparr>dr_data := clean, dr_bytes := json_size (JObj clean),
        dr_version := dr_version q + 1, dr_updated_by := ac_user actor, dr_updated := now\<rparr>)"
    and e: "add_data_event now (d\<lparr>db_records := upd_where ?here (\<lambda>r. r\<lparr>dr_data := clean,
        dr_bytes := json_size (JObj clean), dr_version := dr_version r + 1,
        dr_updated_by := ac_user actor, dr_updated := now\<rparr>) (db_records d)\<rparr>) a
        (q\<lparr>dr_data := clean, dr_bytes := json_size (JObj clean),
        dr_version := dr_version q + 1, dr_updated_by := ac_user actor, dr_updated := now\<rparr>) actor
        ''app.data.updated'' ''records.update'' h k = Inr d'"
    by (auto simp: change_record_def result_simps Let_def simp del: active_manifest_Inr
        split: option.splits)
  from v have clean: "clean = merge_data (dr_data r) data" by (rule validate_entity_data_same)
  from find_record_Some [OF r] have rin: "r \<in> set (db_records d)" "dr_id r = i" "dr_app r = a" by auto
  from find_SomeD [OF q] have qin: "q \<in> set (db_records d)" "?here q" by auto
  have [simp]: "q = r" using row_by_distinct [OF assms(3)] rin qin by (metis option.inject)
  have ver: "dr_version r = expected" using qin by simp
  let ?f = "\<lambda>r. r\<lparr>dr_data := clean, dr_bytes := json_size (JObj clean), dr_version := dr_version r + 1,
        dr_updated_by := ac_user actor, dr_updated := now\<rparr>"
  have f: "?f r = changed_row now actor data r" by (simp add: changed_row_def clean Let_def)
  obtain xs ys where xs: "db_records d = xs @ r # ys"
    "upd_where ?here ?f (db_records d) = xs @ ?f r # ys"
    using upd_where_one [OF assms(3) rin(1), of ?here ?f] qin by fastforce
  show thesis
  proof (rule that [OF m r ver xs(1)])
    show "conforms manifest (changed_row now actor data r)" using v clean by (simp add: conforms_def)
    show "dr_bytes (changed_row now actor data r) \<le> MAX_RECORD_BYTES"
      using validate_entity_data_size [OF v] clean by simp
    show "max 0 (dr_bytes (changed_row now actor data r) - dr_bytes r) = 0 \<or>
       app_bytes d a + dr_bytes (changed_row now actor data r) - dr_bytes r \<le> MAX_DATA_BYTES_PER_APP"
      using b clean by (auto simp: max_def split: if_splits)
    show "res = LiveRecord (changed_row now actor data r)" using res f by simp
    show "d' = d\<lparr>db_next := db_next d + 1, db_records := xs @ changed_row now actor data r # ys,
            db_events := db_events d @ [data_event now d a (changed_row now actor data r) actor
              ''app.data.updated'' ''records.update'' h k]\<rparr>"
      using e xs(2) f by (simp add: add_data_event_Inr [OF assms(2)] data_event_def)
  qed
qed

text \<open>A successful call either replays its key, and changes nothing, or it writes.\<close>

lemma journaled_mutation_Inr:
  assumes "journaled_mutation now d a actor k replay body = Inr (res, d')" "text_value (JStr k) 160 = Inr k"
  shows "(\<exists>e. journal_event d a k = Some e \<and> replay e = Inr (res, d')) \<or>
    (journal_event d a k = None \<and> enforce_mutation_rate_limit now d a actor = Inr () \<and> body = Inr (res, d'))"
proof (cases "journal_event d a k")
  case None
  with assms show ?thesis by (auto simp: journaled_mutation_miss result_simps)
next
  case (Some e)
  with assms show ?thesis by (simp add: journaled_mutation_hit)
qed

lemma replay_record_same: "replay_record op h d e = Inr (res, d') \<Longrightarrow> d' = d"
  by (auto simp: replay_record_def result_simps)

lemma create_data_record_Inr:
  assumes "create_data_record sha now d a act entity data key = Inr (res, d')"
  shows "d' = d \<or> (\<exists>actor e ob k h. reauthorize_actor now d a act = Inr actor \<and> ac_role actor \<noteq> Viewer \<and>
    create_request sha entity data key = Inr (e, ob, k, h) \<and> text_value (JStr k) 160 = Inr k \<and>
    journal_event d a k = None \<and> enforce_mutation_rate_limit now d a actor = Inr () \<and>
    insert_record now d a actor e ob k h = Inr (res, d'))"
proof -
  from assms obtain actor e ob k h where a: "reauthorize_actor now d a act = Inr actor" "ac_role actor \<noteq> Viewer"
    and req: "create_request sha entity data key = Inr (e, ob, k, h)"
    and m: "journaled_mutation now d a actor k (replay_record ''records.create'' h d)
        (insert_record now d a actor e ob k h) = Inr (res, d')"
    by (auto simp: create_data_record_def result_simps)
  from journaled_mutation_Inr [OF m request_key_clean(1) [OF req]] a req
  show ?thesis using request_key_clean(1) [OF req] replay_record_same by blast
qed

lemma update_data_record_Inr:
  assumes "update_data_record sha now d a i act expected data key = Inr (res, d')"
  shows "d' = d \<or> (\<exists>actor ob k h. reauthorize_actor now d a act = Inr actor \<and> ac_role actor \<noteq> Viewer \<and>
    update_request sha i expected data key = Inr (ob, k, h) \<and> text_value (JStr k) 160 = Inr k \<and>
    journal_event d a k = None \<and> enforce_mutation_rate_limit now d a actor = Inr () \<and>
    change_record now d a actor i expected ob k h = Inr (res, d'))"
proof -
  from assms obtain actor ob k h where a: "reauthorize_actor now d a act = Inr actor" "ac_role actor \<noteq> Viewer"
    and req: "update_request sha i expected data key = Inr (ob, k, h)"
    and m: "journaled_mutation now d a actor k (replay_record ''records.update'' h d)
        (change_record now d a actor i expected ob k h) = Inr (res, d')"
    by (auto simp: update_data_record_def result_simps)
  from journaled_mutation_Inr [OF m request_key_clean(2) [OF req]] a req
  show ?thesis using request_key_clean(2) [OF req] replay_record_same by blast
qed

definition tombstone ::
  "instant \<Rightarrow> db \<Rightarrow> uuid \<Rightarrow> data_row \<Rightarrow> app_actor \<Rightarrow> string \<Rightarrow> string \<Rightarrow> event_row" where
  "tombstone now d app_id r actor h k =
     \<lparr>ev_id = db_next d, ev_app = app_id, ev_record = None, ev_entity = Some (dr_entity r),
      ev_type = ''app.data.deleted'', ev_user = ac_user actor, ev_session = ac_session actor,
      ev_key = k, ev_operation = Some ''records.delete'', ev_hash = Some h,
      ev_response = DeletedResponse (dr_id r),
      ev_payload = [(''tombstone'', JBool True), (''record_id'', JStr (str_uuid (dr_id r))),
        (''entity'', JStr (dr_entity r)), (''version'', JInt (dr_version r)), (''data'', JObj (dr_data r))],
      ev_created = now\<rparr>"

lemma delete_data_record_Inr:
  assumes "delete_data_record sha now d a i act expected key = Inr (u, d')"
  shows "d' = d \<or> (\<exists>actor k h r. reauthorize_actor now d a act = Inr actor \<and> ac_role actor \<noteq> Viewer \<and>
    delete_request sha i expected key = Inr (k, h) \<and> text_value (JStr k) 160 = Inr k \<and>
    journal_event d a k = None \<and> enforce_mutation_rate_limit now d a actor = Inr () \<and>
    find_record d a i = Some r \<and>
    (\<exists>q\<in>set (db_records d). dr_id q = i \<and> dr_app q = a \<and> dr_version q = expected) \<and>
    d' = d\<lparr>db_next := db_next d + 1,
      db_records := delete_where (\<lambda>r. dr_id r = i \<and> dr_app r = a \<and> dr_version r = expected) (db_records d),
      db_events := upd_where (\<lambda>e. ev_record e = Some i) (\<lambda>e. e\<lparr>ev_record := None\<rparr>) (db_events d) @
        [tombstone now d a r actor h k]\<rparr>)"
proof -
  from assms obtain actor k h where a: "reauthorize_actor now d a act = Inr actor" "ac_role actor \<noteq> Viewer"
    and req: "delete_request sha i expected key = Inr (k, h)"
    by (auto simp: delete_data_record_def result_simps)
  from request_key_clean(3) [OF req] have k: "text_value (JStr k) 160 = Inr k" .
  have w: "require_write actor = Inr ()" using a(2) by (simp add: result_simps)
  note run = assms [unfolded delete_data_record_def a(1) bindR_simps w req prod.case event_by_key_clean [OF k]]
  show ?thesis
  proof (cases "journal_event d a k")
    case (Some e)
    with run show ?thesis by (simp add: result_simps)
  next
    case None
    with run obtain r where r: "find_record d a i = Some r"
      and l: "enforce_mutation_rate_limit now d a actor = Inr ()"
      and q: "find (\<lambda>r. dr_id r = i \<and> dr_app r = a \<and> dr_version r = expected) (db_records d) \<noteq> None"
      and d': "d' = d\<lparr>db_next := db_next d + 1,
      db_records := delete_where (\<lambda>r. dr_id r = i \<and> dr_app r = a \<and> dr_version r = expected) (db_records d),
      db_events := upd_where (\<lambda>e. ev_record e = Some i) (\<lambda>e. e\<lparr>ev_record := None\<rparr>) (db_events d) @
        [tombstone now d a r actor h k]\<rparr>"
      by (auto simp: bindR_Inr some_or_Inr if_Inr_raise Let_def take_id_def tombstone_def)
    show ?thesis using a req k None r l q d' by (auto simp: find_None_iff)
  qed
qed

section \<open>Steps and invariants\<close>

inductive data_step :: "(string \<Rightarrow> string) \<Rightarrow> db \<Rightarrow> db \<Rightarrow> bool" for sha where
  step_create: "create_data_record sha now d a act entity data key = Inr (res, d') \<Longrightarrow> data_step sha d d'"
| step_update: "update_data_record sha now d a i act expected data key = Inr (res, d') \<Longrightarrow> data_step sha d d'"
| step_delete: "delete_data_record sha now d a i act expected key = Inr (u, d') \<Longrightarrow> data_step sha d d'"

text \<open>What the record tables always satisfy: unique identifiers from the supply, the stored size is the
  size of the stored data, and the three quotas.\<close>

definition row_ok :: "db \<Rightarrow> data_row \<Rightarrow> bool" where
  "row_ok d r \<longleftrightarrow> dr_id r < db_next d \<and> 1 \<le> dr_version r \<and>
     dr_bytes r = json_size (JObj (dr_data r)) \<and> dr_bytes r \<le> MAX_RECORD_BYTES"

definition data_ok :: "db \<Rightarrow> bool" where
  "data_ok d \<longleftrightarrow> distinct (map dr_id (db_records d)) \<and> (\<forall>r\<in>set (db_records d). row_ok d r) \<and>
     (\<forall>a. app_bytes d a \<le> MAX_DATA_BYTES_PER_APP \<and>
          count_where (\<lambda>r. dr_app r = a) (db_records d) \<le> MAX_RECORDS_PER_APP)"

text \<open>Every record validates against the manifest its app is deployed with.\<close>

definition schema_ok :: "db \<Rightarrow> bool" where
  "schema_ok d \<longleftrightarrow> (\<forall>r\<in>set (db_records d). \<forall>m. active_manifest d (dr_app r) = Inr m \<longrightarrow> conforms m r)"

text \<open>
  How records may evolve: a record of the later state is new, or it is a record of the earlier one
  that kept its app and entity, and that is unchanged unless its version grew.
\<close>

definition records_evolve :: "db \<Rightarrow> db \<Rightarrow> bool" where
  "records_evolve d d' \<longleftrightarrow> db_next d \<le> db_next d' \<and>
     (\<forall>r'\<in>set (db_records d'). db_next d \<le> dr_id r' \<or>
        (\<exists>r\<in>set (db_records d). dr_id r = dr_id r' \<and> dr_app r = dr_app r' \<and> dr_entity r = dr_entity r' \<and>
           (r' = r \<or> dr_version r < dr_version r')))"

lemma records_evolve_refl [simp]: "records_evolve d d"
  by (auto simp: records_evolve_def)

lemma records_evolve_same: "db_records d' = db_records d \<Longrightarrow> db_next d \<le> db_next d' \<Longrightarrow> records_evolve d d'"
  by (auto simp: records_evolve_def)

lemma records_evolve_trans:
  assumes "records_evolve d d'" "records_evolve d' d''"
  shows "records_evolve d d''"
  unfolding records_evolve_def
proof (intro conjI ballI)
  show "db_next d \<le> db_next d''" using assms by (auto simp: records_evolve_def)
  fix r'' assume "r'' \<in> set (db_records d'')"
  then consider "db_next d' \<le> dr_id r''" | r' where "r' \<in> set (db_records d')" "dr_id r' = dr_id r''"
      "dr_app r' = dr_app r''" "dr_entity r' = dr_entity r''" "r'' = r' \<or> dr_version r' < dr_version r''"
    using assms(2) by (auto simp: records_evolve_def)
  then show "db_next d \<le> dr_id r'' \<or>
        (\<exists>r\<in>set (db_records d). dr_id r = dr_id r'' \<and> dr_app r = dr_app r'' \<and> dr_entity r = dr_entity r'' \<and>
           (r'' = r \<or> dr_version r < dr_version r''))"
  proof cases
    case 1
    with assms(1) show ?thesis by (auto simp: records_evolve_def)
  next
    case 2
    with assms(1) consider "db_next d \<le> dr_id r'" | r where "r \<in> set (db_records d)" "dr_id r = dr_id r'"
      "dr_app r = dr_app r'" "dr_entity r = dr_entity r'" "r' = r \<or> dr_version r < dr_version r'"
      by (auto simp: records_evolve_def)
    then show ?thesis
    proof cases
      case 1
      with 2 show ?thesis by simp
    next
      case (2 r)
      with \<open>dr_id r' = dr_id r''\<close> \<open>dr_app r' = dr_app r''\<close> \<open>dr_entity r' = dr_entity r''\<close>
        \<open>r'' = r' \<or> dr_version r' < dr_version r''\<close>
      show ?thesis by (intro disjI2 bexI [of _ r]) auto
    qed
  qed
qed

lemma app_bytes_simps [simp]:
  "db_records d' = xs @ r # ys \<Longrightarrow> app_bytes d' a =
     sum_where (\<lambda>r. dr_app r = a) dr_bytes xs + (if dr_app r = a then dr_bytes r else 0) +
     sum_where (\<lambda>r. dr_app r = a) dr_bytes ys"
  by (simp add: app_bytes_def)

lemma active_manifest_cong:
  assumes "db_apps d' = db_apps d" "db_deployments d' = db_deployments d" "db_revisions d' = db_revisions d"
  shows "active_manifest d' a = active_manifest d a"
  unfolding active_manifest_def code_app_def assms ..

lemma insert_record_keeps:
  assumes ins: "insert_record now d a actor e ob k h = Inr (res, d')" and k: "text_value (JStr k) 160 = Inr k"
  shows "data_ok d \<Longrightarrow> data_ok d'" "schema_ok d \<Longrightarrow> schema_ok d'" "data_ok d \<Longrightarrow> records_evolve d d'"
proof -
  obtain manifest r where
    m: "active_manifest d a = Inr manifest" and r: "conforms manifest r" "dr_bytes r \<le> MAX_RECORD_BYTES"
      "dr_id r = db_next d" "dr_app r = a" "dr_version r = 1" "dr_bytes r = json_size (JObj (dr_data r))"
    and q: "count_where (\<lambda>r. dr_app r = a) (db_records d) < MAX_RECORDS_PER_APP"
      "app_bytes d a + dr_bytes r \<le> MAX_DATA_BYTES_PER_APP"
    and d': "db_next d' = db_next d + 2" "db_records d' = db_records d @ [r]"
      "db_apps d' = db_apps d" "db_deployments d' = db_deployments d" "db_revisions d' = db_revisions d"
    by (rule insert_record_Inr [OF ins k]) simp
  show "data_ok d'" if ok: "data_ok d"
  proof -
    have "dr_id r \<notin> dr_id ` set (db_records d)"
      using ok r(3) by (auto simp: data_ok_def row_ok_def)
    with ok r d' q show ?thesis by (auto simp: data_ok_def row_ok_def app_bytes_def)
  qed
  show "schema_ok d'" if "schema_ok d"
    using that m r(1,4) d' active_manifest_cong [OF d'(3-5)] by (auto simp: schema_ok_def)
  show "records_evolve d d'"
    using r(3) d' by (auto simp: records_evolve_def)
qed

lemma change_record_keeps:
  assumes ok: "data_ok d"
    and ch: "change_record now d a actor i expected ob k h = Inr (res, d')" and k: "text_value (JStr k) 160 = Inr k"
  shows "data_ok d'" "schema_ok d \<Longrightarrow> schema_ok d'" "records_evolve d d'"
proof -
  from ok have dist: "distinct (map dr_id (db_records d))" by (simp add: data_ok_def)
  obtain manifest r xs ys where
    m: "active_manifest d a = Inr manifest" and r: "find_record d a i = Some r"
    and xs: "db_records d = xs @ r # ys" and c: "conforms manifest (changed_row now actor ob r)"
    and b: "dr_bytes (changed_row now actor ob r) \<le> MAX_RECORD_BYTES"
      "max 0 (dr_bytes (changed_row now actor ob r) - dr_bytes r) = 0 \<or>
       app_bytes d a + dr_bytes (changed_row now actor ob r) - dr_bytes r \<le> MAX_DATA_BYTES_PER_APP"
    and d': "db_next d' = db_next d + 1" "db_records d' = xs @ changed_row now actor ob r # ys"
      "db_apps d' = db_apps d" "db_deployments d' = db_deployments d" "db_revisions d' = db_revisions d"
    by (rule change_record_Inr [OF ch k dist]) simp
  from find_record_Some [OF r] have ra: "dr_app r = a" by simp
  let ?n = "dr_bytes (changed_row now actor ob r)"
  have bytes: "app_bytes d' b = app_bytes d b + (if b = a then ?n - dr_bytes r else 0)" for b
    using xs d'(2) ra by (simp del: changed_row_simps(6))
  have "app_bytes d b \<le> MAX_DATA_BYTES_PER_APP" for b using ok by (simp add: data_ok_def)
  then have total: "app_bytes d' b \<le> MAX_DATA_BYTES_PER_APP" for b
    using b(2) unfolding bytes by (cases "b = a") (auto simp: max_def split: if_splits intro: order_trans
        [of _ "app_bytes d a"])
  have count: "count_where (\<lambda>r. dr_app r = b) (db_records d') = count_where (\<lambda>r. dr_app r = b) (db_records d)" for b
    using xs d'(2) by simp
  have rows: "\<forall>q\<in>set (db_records d'). row_ok d' q"
  proof -
    have "\<forall>q\<in>set (xs @ r # ys). row_ok d q" using ok xs by (simp add: data_ok_def)
    moreover have "row_ok d q \<Longrightarrow> row_ok d' q" for q using d'(1) by (auto simp: row_ok_def)
    moreover have "row_ok d r \<Longrightarrow> row_ok d' (changed_row now actor ob r)"
      using d'(1) b(1) by (auto simp: row_ok_def)
    ultimately show ?thesis using d'(2) by auto
  qed
  show "data_ok d'"
    using dist rows total count ok xs d'(2) by (simp add: data_ok_def)
  show "schema_ok d'" if "schema_ok d"
    using that m c xs ra d'(2) active_manifest_cong [OF d'(3-5)] by (auto simp: schema_ok_def)
  show "records_evolve d d'"
    using xs d'(1,2) by (auto simp: records_evolve_def)
qed

lemma delete_rows_keeps:
  assumes ok: "data_ok d"
    and d': "db_next d' = db_next d + 1" "db_records d' = delete_where p (db_records d)"
      "db_apps d' = db_apps d" "db_deployments d' = db_deployments d" "db_revisions d' = db_revisions d"
  shows "data_ok d'" "schema_ok d \<Longrightarrow> schema_ok d'" "records_evolve d d'"
proof -
  have rows: "\<forall>r\<in>set (db_records d). row_ok d r" using ok by (simp add: data_ok_def)
  have pos: "0 \<le> dr_bytes r" if "r \<in> set (db_records d)" for r
    using rows that json_size_obj_pos [of "dr_data r"] by (force simp: row_ok_def)
  have quota: "app_bytes d a \<le> MAX_DATA_BYTES_PER_APP \<and>
      count_where (\<lambda>r. dr_app r = a) (db_records d) \<le> MAX_RECORDS_PER_APP" for a
    using ok by (simp add: data_ok_def)
  have le: "app_bytes d' a \<le> app_bytes d a" for a
    unfolding app_bytes_def d'(2) by (rule sum_where_delete_le) (simp add: pos)
  have "app_bytes d' a \<le> MAX_DATA_BYTES_PER_APP \<and>
      count_where (\<lambda>r. dr_app r = a) (db_records d') \<le> MAX_RECORDS_PER_APP" for a
    using quota [of a] le [of a] count_where_delete_le [of "\<lambda>r. dr_app r = a" p "db_records d"] d'(2)
    by simp
  moreover have "distinct (map dr_id (db_records d'))"
    using ok by (simp add: data_ok_def d'(2) delete_where_def distinct_map_filter)
  ultimately show "data_ok d'"
    using ok rows d'(1,2) unfolding data_ok_def
    by (auto simp: in_set_delete_where row_ok_def intro: less_SucI)
  show "schema_ok d'" if "schema_ok d"
    using that d'(2) active_manifest_cong [OF d'(3-5)] by (auto simp: schema_ok_def in_set_delete_where)
  show "records_evolve d d'"
    using d'(1,2) by (auto simp: records_evolve_def in_set_delete_where)
qed

lemma data_step_keeps:
  assumes "data_step sha d d'" "data_ok d"
  shows "data_ok d' \<and> (schema_ok d \<longrightarrow> schema_ok d') \<and> records_evolve d d'"
  using assms
proof cases
  case (step_create now a act entity data key res)
  from create_data_record_Inr [OF this] insert_record_keeps assms(2) show ?thesis
    by (metis records_evolve_refl)
next
  case (step_update now a i act expected data key res)
  from update_data_record_Inr [OF this] change_record_keeps [OF assms(2)] assms(2) show ?thesis
    by (metis records_evolve_refl)
next
  case (step_delete now a i act expected key u)
  from delete_data_record_Inr [OF this] show ?thesis
  proof (elim disjE exE conjE)
    assume "d' = d"
    with assms(2) show ?thesis by simp
  next
    fix actor k h r
    assume "d' = d\<lparr>db_next := db_next d + 1,
      db_records := delete_where (\<lambda>r. dr_id r = i \<and> dr_app r = a \<and> dr_version r = expected) (db_records d),
      db_events := upd_where (\<lambda>e. ev_record e = Some i) (\<lambda>e. e\<lparr>ev_record := None\<rparr>) (db_events d) @
        [tombstone now d a r actor h k]\<rparr>"
    with delete_rows_keeps [OF assms(2), of d'] show ?thesis by simp
  qed
qed

section \<open>The mutations are journaled\<close>

type_synonym create_args = "uuid \<times> app_actor \<times> string \<times> json \<times> string"
type_synonym update_args = "uuid \<times> uuid \<times> app_actor \<times> int \<times> json \<times> string"
type_synonym delete_args = "uuid \<times> uuid \<times> app_actor \<times> int \<times> string"

definition record_answer :: "event_response \<Rightarrow> app_error + record_result" where
  "record_answer response = (case response of RecordResponse s \<Rightarrow> Inr (StoredRecord s) | _ \<Rightarrow> Inl CodeAppConflict)"

definition create_key :: "(string \<Rightarrow> string) \<Rightarrow> string \<Rightarrow> json \<Rightarrow> string \<Rightarrow> app_error + (string \<times> string)" where
  "create_key sha entity data key = bindR (create_request sha entity data key) (\<lambda>(_, _, k, h). Inr (k, h))"

definition update_key ::
  "(string \<Rightarrow> string) \<Rightarrow> uuid \<Rightarrow> int \<Rightarrow> json \<Rightarrow> string \<Rightarrow> app_error + (string \<times> string)" where
  "update_key sha i expected data key =
     bindR (update_request sha i expected data key) (\<lambda>(_, k, h). Inr (k, h))"

lemma replay_record_eq:
  "replay_record op h d e = bindR (replay_response e op h) (\<lambda>r. bindR (record_answer r) (\<lambda>a. Inr (a, d)))"
  by (cases "replay_response e op h")
    (auto simp: replay_record_def stored_record_from_event_def record_answer_def split: event_response.splits)

lemma journal_answer_new:
  assumes "journal_event d a k = None" "db_events d' = db_events d @ [e]" "ev_app e = a" "ev_key e = k"
  shows "journal_answer d' a k = Some (ev_operation e, ev_hash e, ev_response e)"
  using assms by (simp add: journal_answer_def journal_event_def find_append_None)

lemma data_event_simps [simp]:
  "ev_app (data_event now d a r actor t op h k) = a" "ev_key (data_event now d a r actor t op h k) = k"
  "ev_operation (data_event now d a r actor t op h k) = Some op"
  "ev_hash (data_event now d a r actor t op h k) = Some h"
  "ev_response (data_event now d a r actor t op h k) = RecordResponse (record_snapshot r)"
  "ev_created (data_event now d a r actor t op h k) = now"
  "ev_user (data_event now d a r actor t op h k) = ac_user actor"
  "ev_session (data_event now d a r actor t op h k) = ac_session actor"
  by (simp_all add: data_event_def)

lemma insert_record_event:
  assumes "insert_record now d a actor e ob k h = Inr (res, d')" "text_value (JStr k) 160 = Inr k"
  shows "\<exists>ev r. db_events d' = db_events d @ [ev] \<and> res = LiveRecord r \<and>
    ev = data_event now (d\<lparr>db_next := db_next d + 1\<rparr>) a r actor ''app.data.created'' ''records.create'' h k"
  by (rule insert_record_Inr [OF assms]) auto

lemma change_record_event:
  assumes "change_record now d a actor i expected ob k h = Inr (res, d')" "text_value (JStr k) 160 = Inr k"
  shows "\<exists>ev r. db_events d' = db_events d @ [ev] \<and> res = LiveRecord r \<and>
    ev = data_event now d a r actor ''app.data.updated'' ''records.update'' h k"
  using assms(1)
  by (auto simp: change_record_def result_simps Let_def add_data_event_Inr [OF assms(2)] data_event_def
      simp del: active_manifest_Inr split: option.splits)

interpretation create: journaled
  "\<lambda>(a, act, entity, data, key) now d. create_data_record sha now d a act entity data key"
  "\<lambda>(a, act, entity, data, key) now d. may_write now d a act"
  "\<lambda>(a, act, entity, data, key). a"
  "\<lambda>(a, act, entity, data, key). create_key sha entity data key"
  "''records.create''" "\<lambda>_. record_answer" shown_record
  for sha
proof (unfold_locales, goal_cases)
  case (1 x now d k h e)
  obtain a act entity data key where x: "x = (a, act, entity, data, key)" by (cases x)
  from 1 x obtain actor c ob where a: "reauthorize_actor now d a act = Inr actor" "ac_role actor \<noteq> Viewer"
    and req: "create_request sha entity data key = Inr (c, ob, k, h)"
    by (auto simp: may_write_iff create_key_def bindR_Inr)
  from 1 x show ?case
    by (simp add: create_data_record_def a require_write_ok req replay_record_eq
        journaled_mutation_hit [OF request_key_clean(1) [OF req]])
next
  case (2 x now d r d')
  then show ?case
    by (cases x) (auto simp: create_data_record_def may_write_iff create_key_def result_simps)
next
  case (3 x now d r d' k h)
  obtain a act entity data key where x: "x = (a, act, entity, data, key)" by (cases x)
  from 3 x obtain actor e ob where reauth: "reauthorize_actor now d a act = Inr actor"
    and req: "create_request sha entity data key = Inr (e, ob, k, h)"
    and m: "journaled_mutation now d a actor k (replay_record ''records.create'' h d)
        (insert_record now d a actor e ob k h) = Inr (r, d')"
    by (auto simp: create_data_record_def create_key_def result_simps)
  note k = request_key_clean(1) [OF req]
  from journaled_mutation_Inr [OF m k] 3(3) x insert_record_event [OF _ k] show ?case
    by (fastforce simp: journal_answer_new record_answer_def)
qed

interpretation update: journaled
  "\<lambda>(a, i, act, expected, data, key) now d. update_data_record sha now d a i act expected data key"
  "\<lambda>(a, i, act, expected, data, key) now d. may_write now d a act"
  "\<lambda>(a, i, act, expected, data, key). a"
  "\<lambda>(a, i, act, expected, data, key). update_key sha i expected data key"
  "''records.update''" "\<lambda>_. record_answer" shown_record
  for sha
proof (unfold_locales, goal_cases)
  case (1 x now d k h e)
  obtain a i act expected data key where x: "x = (a, i, act, expected, data, key)" by (cases x)
  from 1 x obtain actor ob where a: "reauthorize_actor now d a act = Inr actor" "ac_role actor \<noteq> Viewer"
    and req: "update_request sha i expected data key = Inr (ob, k, h)"
    by (auto simp: may_write_iff update_key_def bindR_Inr)
  from 1 x show ?case
    by (simp add: update_data_record_def a require_write_ok req replay_record_eq
        journaled_mutation_hit [OF request_key_clean(2) [OF req]])
next
  case (2 x now d r d')
  then show ?case
    by (cases x) (auto simp: update_data_record_def may_write_iff update_key_def result_simps)
next
  case (3 x now d r d' k h)
  obtain a i act expected data key where x: "x = (a, i, act, expected, data, key)" by (cases x)
  from 3 x obtain actor ob where reauth: "reauthorize_actor now d a act = Inr actor"
    and req: "update_request sha i expected data key = Inr (ob, k, h)"
    and m: "journaled_mutation now d a actor k (replay_record ''records.update'' h d)
        (change_record now d a actor i expected ob k h) = Inr (r, d')"
    by (auto simp: update_data_record_def update_key_def result_simps)
  note k = request_key_clean(2) [OF req]
  from journaled_mutation_Inr [OF m k] 3(3) x change_record_event [OF _ k] show ?case
    by (fastforce simp: journal_answer_new record_answer_def)
qed

interpretation delete: journaled
  "\<lambda>(a, i, act, expected, key) now d. delete_data_record sha now d a i act expected key"
  "\<lambda>(a, i, act, expected, key) now d. may_write now d a act"
  "\<lambda>(a, i, act, expected, key). a"
  "\<lambda>(a, i, act, expected, key). delete_request sha i expected key"
  "''records.delete''" "\<lambda>_ _. Inr ()" "\<lambda>_. ()"
  for sha
proof (unfold_locales, goal_cases)
  case (1 x now d k h e)
  obtain a i act expected key where x: "x = (a, i, act, expected, key)" by (cases x)
  from 1 x obtain actor where a: "reauthorize_actor now d a act = Inr actor" "ac_role actor \<noteq> Viewer"
    and req: "delete_request sha i expected key = Inr (k, h)"
    by (auto simp: may_write_iff)
  from 1 x show ?case
    by (simp add: delete_data_record_def a require_write_ok req event_by_key_clean
        [OF request_key_clean(3) [OF req]])
next
  case (2 x now d r d')
  then show ?case
    by (cases x) (auto simp: delete_data_record_def may_write_iff result_simps)
next
  case (3 x now d r d' k h)
  obtain a i act expected key where x: "x = (a, i, act, expected, key)" by (cases x)
  have new: "journal_answer d' a k = Some (Some ''records.delete'', Some h, DeletedResponse (dr_id q))"
    if "journal_event d a k = None" "db_events d' = upd_where p (\<lambda>e. e\<lparr>ev_record := None\<rparr>) (db_events d) @
      [tombstone now d a q actor h k]" for p q actor
  proof -
    have "find (\<lambda>e. ev_app e = a \<and> ev_key e = k) (upd_where p (\<lambda>e. e\<lparr>ev_record := None\<rparr>) (db_events d)) = None"
      using that(1) by (subst find_upd_where) (simp_all add: journal_event_def)
    with that(2) show ?thesis
      by (simp add: journal_answer_def journal_event_def find_append_None tombstone_def)
  qed
  from 3 x have "journal_event d a k = None" "d' \<noteq> d \<or> d' = d" by auto
  from 3 x have run: "delete_data_record sha now d a i act expected key = Inr (r, d')"
    and req: "delete_request sha i expected key = Inr (k, h)" and none: "journal_event d a k = None"
    by auto
  obtain actor where a: "reauthorize_actor now d a act = Inr actor" "ac_role actor \<noteq> Viewer"
    using run by (auto simp: delete_data_record_def result_simps)
  from run [unfolded delete_data_record_def a(1) bindR_simps require_write_ok [OF a(2)] req prod.case
      event_by_key_clean [OF request_key_clean(3) [OF req]] none option.case]
  obtain q where "db_events d' = upd_where (\<lambda>e. ev_record e = Some i) (\<lambda>e. e\<lparr>ev_record := None\<rparr>) (db_events d) @
      [tombstone now d a q actor h k]"
    by (auto simp: bindR_Inr some_or_Inr if_Inr_raise Let_def take_id_def tombstone_def)
  from new [OF none this] x show ?case by simp
qed

section \<open>Runs\<close>

abbreviation data_steps :: "(string \<Rightarrow> string) \<Rightarrow> db \<Rightarrow> db \<Rightarrow> bool" where
  "data_steps sha \<equiv> (data_step sha)\<^sup>*\<^sup>*"

lemma data_step_events:
  assumes "data_step sha d d'"
  shows "\<exists>p es. db_events d' = upd_where p (\<lambda>e. e\<lparr>ev_record := None\<rparr>) (db_events d) @ es"
proof -
  have none: "upd_where (\<lambda>_. False) f xs = xs" for f :: "event_row \<Rightarrow> event_row" and xs
    by (simp add: upd_where_none)
  have same: ?thesis if "\<exists>es. db_events d' = db_events d @ es"
    using that none by metis
  have id: ?thesis if "d' = d" by (rule same) (simp add: that)
  from assms show ?thesis
  proof cases
    case (step_create now a act entity data key res)
    from create_data_record_Inr [OF this] show ?thesis
      by (elim disjE exE conjE) (use id same insert_record_event in blast)+
  next
    case (step_update now a i act expected data key res)
    from update_data_record_Inr [OF this] show ?thesis
      by (elim disjE exE conjE) (use id same change_record_event in blast)+
  next
    case (step_delete now a i act expected key u)
    from delete_data_record_Inr [OF this] show ?thesis
    proof (elim disjE exE conjE)
      assume "d' = d" then show ?thesis by (rule id)
    next
      fix actor k h r
      assume "d' = d\<lparr>db_next := db_next d + 1,
      db_records := delete_where (\<lambda>r. dr_id r = i \<and> dr_app r = a \<and> dr_version r = expected) (db_records d),
      db_events := upd_where (\<lambda>e. ev_record e = Some i) (\<lambda>e. e\<lparr>ev_record := None\<rparr>) (db_events d) @
        [tombstone now d a r actor h k]\<rparr>"
      then have "db_events d' = upd_where (\<lambda>e. ev_record e = Some i) (\<lambda>e. e\<lparr>ev_record := None\<rparr>) (db_events d) @
        [tombstone now d a r actor h k]" by simp
      then show ?thesis by blast
    qed
  qed
qed

lemma data_steps_journal:
  "data_steps sha d d' \<Longrightarrow> journal_answer d a k \<noteq> None \<Longrightarrow> journal_answer d' a k = journal_answer d a k"
proof (induction rule: rtranclp_induct)
  case base
  show ?case ..
next
  case (step y z)
  from data_step_events [OF step.hyps(2)] obtain p es where
    "db_events z = upd_where p (\<lambda>e. e\<lparr>ev_record := None\<rparr>) (db_events y) @ es" by blast
  from journal_answer_forget [OF this] step show ?case by simp
qed

lemma data_steps_keep:
  "data_steps sha d d' \<Longrightarrow> data_ok d \<Longrightarrow> data_ok d' \<and> (schema_ok d \<longrightarrow> schema_ok d') \<and> records_evolve d d'"
proof (induction rule: rtranclp_induct)
  case base
  then show ?case by simp
next
  case (step y z)
  with data_step_keeps [OF step.hyps(2)] show ?case using records_evolve_trans by blast
qed

text \<open>A record that left version \<open>v\<close> never shows version \<open>v\<close> again.\<close>

lemma version_gone:
  assumes "data_ok d" "records_evolve d d'" "r \<in> set (db_records d)" "r' \<in> set (db_records d')"
    "dr_id r' = dr_id r"
  shows "dr_version r \<le> dr_version r'"
proof -
  from assms(1,3) have "dr_id r < db_next d" by (auto simp: data_ok_def row_ok_def)
  with assms(2,4,5) obtain q where q: "q \<in> set (db_records d)" "dr_id q = dr_id r" "r' = q \<or> dr_version q < dr_version r'"
    by (fastforce simp: records_evolve_def)
  from assms(1) have "distinct (map dr_id (db_records d))" by (simp add: data_ok_def)
  from this q(1,2) assms(3) have "q = r" by (auto simp: distinct_map inj_on_def)
  with q(3) show ?thesis by auto
qed

lemma fresh_update_version:
  assumes "data_ok d" "change_record now d a actor i expected ob k h = Inr (res, d')" "text_value (JStr k) 160 = Inr k"
  shows "\<exists>r\<in>set (db_records d'). dr_id r = i \<and> dr_version r = expected + 1"
proof -
  from assms(1) have dist: "distinct (map dr_id (db_records d))" by (simp add: data_ok_def)
  obtain r xs ys where r: "find_record d a i = Some r" and v: "dr_version r = expected"
    and d': "db_records d' = xs @ changed_row now actor ob r # ys"
    by (rule change_record_Inr [OF assms(2,3) dist]) simp
  from find_record_Some [OF r] v d' show ?thesis
    by (intro bexI [of _ "changed_row now actor ob r"]) simp_all
qed

text \<open>The version an update or a deletion names is the version a row has before it.\<close>

lemma update_needs_version:
  assumes "update_data_record sha now d a i act expected data key = Inr (res, d')" "d' \<noteq> d"
  shows "\<exists>r\<in>set (db_records d). dr_id r = i \<and> dr_version r = expected"
proof -
  from update_data_record_Inr [OF assms(1)] assms(2) obtain actor ob k h where
    "change_record now d a actor i expected ob k h = Inr (res, d')" by blast
  then obtain r where "find (\<lambda>r. dr_id r = i \<and> dr_app r = a \<and> dr_version r = expected) (db_records d) = Some r"
    by (auto simp: change_record_def bindR_Inr Let_def split: option.splits)
  then show ?thesis by (auto dest: find_SomeD)
qed

lemma delete_needs_version:
  assumes "delete_data_record sha now d a i act expected key = Inr (u, d')" "d' \<noteq> d"
  shows "\<exists>r\<in>set (db_records d). dr_id r = i \<and> dr_version r = expected"
  using delete_data_record_Inr [OF assms(1)] assms(2) by blast

end
