(* ===== verification/App_Deploy.thy ===== *)
theory App_Deploy
  imports App_Builds App_Records
begin

text \<open>
  Publishing a build (\<open>services/generated_apps_v2.py\<close>): the promotion gate a compiled artifact has to
  pass, the check of the live records against a new schema, the seed records of a first deployment,
  \<open>promote_revision\<close> (a compare-and-swap of the deployment pointer), \<open>complete_build\<close>, the owner's
  rollback, and the owner's request for a revision of what is deployed.
\<close>

definition MAX_BUILD_ARTIFACT_BYTES :: int where
  "MAX_BUILD_ARTIFACT_BYTES = 4000000"

definition MAX_REVISION_CONTEXT_BYTES :: int where
  "MAX_REVISION_CONTEXT_BYTES = 768000"

definition MAX_SEED_DATA_BYTES :: int where
  "MAX_SEED_DATA_BYTES = 128000"

section \<open>The promotion gate\<close>

fun non_blank :: "json \<Rightarrow> bool" where
  "non_blank (JStr s) = (py_strip s \<noteq> [])"
| "non_blank _ = False"

definition bundle_digest :: "(string \<Rightarrow> string) \<Rightarrow> json \<Rightarrow> json \<Rightarrow> string option" where
  "bundle_digest sha javascript css =
     (case (javascript, css) of
        (JStr j, JStr c) \<Rightarrow> Some (sha (j @ [CHR 0x00] @ c))
      | _ \<Rightarrow> None)"

definition stage_passed :: "obj \<Rightarrow> string \<Rightarrow> bool" where
  "stage_passed results stage =
     (case get_or_null results stage of
        JObj r \<Rightarrow> get_or_null r ''status'' = JStr ''passed''
      | _ \<Rightarrow> False)"

definition real_browser_ready :: "obj \<Rightarrow> bool" where
  "real_browser_ready results =
     (case get_or_null results ''browser_smoke'' of
        JObj smoke \<Rightarrow>
          (case get_or_null smoke ''real_browser'' of
             JObj browser \<Rightarrow> get_or_null browser ''ready'' = JBool True
           | _ \<Rightarrow> False)
      | _ \<Rightarrow> False)"

definition validate_promotable_compiled_artifact ::
  "(string \<Rightarrow> string) \<Rightarrow> obj option \<Rightarrow> string \<Rightarrow> app_error + unit" where
  "validate_promotable_compiled_artifact sha artifact0 sdk_version =
     bindR (some_or CodeAppValidation artifact0) (\<lambda>artifact.
     bindR (as_object (get_or_null artifact ''browser_bundle'')) (\<lambda>bundle.
       let javascript = get_or_null bundle ''javascript''; css = get_or_null bundle ''css'';
           digest = get_or_null bundle ''sha256''
       in if get_or_null bundle ''format'' \<noteq> JStr ''iife'' \<or> \<not> non_blank javascript \<or> \<not> is_str css \<or>
             \<not> (case digest of JStr h \<Rightarrow> is_sha256_hex h | _ \<Rightarrow> False) \<or>
             \<not> non_blank (get_or_null bundle ''static_html'')
          then Inl CodeAppValidation
          else if Some digest \<noteq> map_option JStr (bundle_digest sha javascript css) then Inl CodeAppValidation
          else if get_or_null bundle ''sdk_version'' \<noteq> JStr sdk_version \<or>
                  get_or_null artifact ''sdk_version'' \<noteq> JStr sdk_version
          then Inl CodeAppValidation
          else bindR (as_object (get_or_null artifact ''test_results'')) (\<lambda>results.
            if \<not> (\<forall>stage\<in>set [''policy'', ''typescript_compile'', ''browser_smoke'']. stage_passed results stage)
            then Inl CodeAppValidation
            else if \<not> real_browser_ready results then Inl CodeAppValidation
            else Inr ())))"

section \<open>Live records and seed records\<close>

text \<open>A validation error of a record becomes the incompatibility error, of the same class; any other
  exception passes.\<close>

definition validate_existing_records_for_manifest :: "db \<Rightarrow> uuid \<Rightarrow> obj \<Rightarrow> app_error + unit" where
  "validate_existing_records_for_manifest d app_id manifest =
     foldR (\<lambda>r _. bindR (validate_entity_data manifest (dr_entity r) (dr_data r)) (\<lambda>_. Inr ()))
       (filter (\<lambda>r. dr_app r = app_id) (db_records d)) ()"

definition seed_record ::
  "instant \<Rightarrow> uuid \<Rightarrow> uuid \<Rightarrow> obj \<Rightarrow> string \<Rightarrow> json \<Rightarrow> db \<Rightarrow> app_error + db" where
  "seed_record now app_id user_id manifest entity raw d =
     (case raw of
        JObj ob \<Rightarrow>
          bindR (validate_entity_data manifest entity ob) (\<lambda>clean.
          bindR (enforce_app_storage_limit d app_id (json_size (JObj clean))) (\<lambda>_.
            case take_id d of (rid, d1) \<Rightarrow>
              Inr (d1\<lparr>db_records := db_records d1 @
                [\<lparr>dr_id = rid, dr_app = app_id, dr_entity = entity, dr_data = clean,
                  dr_bytes = json_size (JObj clean), dr_version = 1, dr_created_by = Some user_id,
                  dr_updated_by = Some user_id, dr_created = now, dr_updated = now\<rparr>]\<rparr>)))
      | _ \<Rightarrow> Inr d)"

definition seed_entity ::
  "instant \<Rightarrow> uuid \<Rightarrow> uuid \<Rightarrow> obj \<Rightarrow> obj \<Rightarrow> obj \<Rightarrow> db \<Rightarrow> app_error + db" where
  "seed_entity now app_id user_id manifest seed_data definition d =
     bindR (entity_name (get_or_null definition ''name'')) (\<lambda>entity.
       let candidates = (if get_or_null seed_data entity = JNull
                         then get_or_null seed_data (entity @ ''s'') else get_or_null seed_data entity)
       in case candidates of
            JArr rows \<Rightarrow> foldR (seed_record now app_id user_id manifest entity) (take 200 rows) d
          | _ \<Rightarrow> Inr d)"

definition seed_code_app_records ::
  "instant \<Rightarrow> db \<Rightarrow> uuid \<Rightarrow> uuid \<Rightarrow> obj \<Rightarrow> obj \<Rightarrow> app_error + db" where
  "seed_code_app_records now d app_id user_id manifest seed_data =
     bindR (validate_manifest (JObj manifest)) (\<lambda>_.
       foldR (seed_entity now app_id user_id manifest seed_data) (manifest_entities manifest) d)"

section \<open>Promotion\<close>

text \<open>\<open>expected\<close> is \<open>None\<close> for \<open>_UNSET\<close>, else the revision the caller says is active.\<close>

definition move_deployment ::
  "instant \<Rightarrow> db \<Rightarrow> uuid \<Rightarrow> uuid \<Rightarrow> uuid option option \<Rightarrow> app_error + db" where
  "move_deployment now d app_id revision_id expected =
     (let current = find_deployment d app_id;
          moved = (\<lambda>dp. dp\<lparr>dp_previous := Some (dp_active dp), dp_active := revision_id,
                           dp_version := dp_version dp + 1, dp_at := now\<rparr>)
      in if (case expected of None \<Rightarrow> False | Some e \<Rightarrow> map_option dp_active current \<noteq> e) then Inl CodeAppStaleBuild
         else case current of
           None \<Rightarrow> Inr (d\<lparr>db_deployments := db_deployments d @
               [\<lparr>dp_app = app_id, dp_active = revision_id, dp_previous = None, dp_version = 1, dp_at = now\<rparr>]\<rparr>)
         | Some dp \<Rightarrow>
             if dp_active dp = revision_id then Inr d
             else case expected of
               None \<Rightarrow> Inr (d\<lparr>db_deployments := upd_where (\<lambda>q. dp_app q = app_id) moved (db_deployments d)\<rparr>)
             | Some e \<Rightarrow>
                 let here = (\<lambda>q. dp_app q = app_id \<and> Some (dp_active q) = e)
                 in if find here (db_deployments d) = None then Inl CodeAppStaleBuild
                    else Inr (d\<lparr>db_deployments := upd_where here moved (db_deployments d)\<rparr>))"

definition revision_of_app :: "db \<Rightarrow> uuid \<Rightarrow> uuid \<Rightarrow> app_error + revision_row" where
  "revision_of_app d app_id revision_id =
     (case find_revision d revision_id of
        None \<Rightarrow> Inl CodeAppNotFound
      | Some rv \<Rightarrow> if rv_app rv \<noteq> app_id then Inl CodeAppNotFound else Inr rv)"

definition any_code_app :: "db \<Rightarrow> uuid \<Rightarrow> app_error + app_row" where
  "any_code_app d app_id =
     (case find_app d app_id of
        None \<Rightarrow> Inl CodeAppNotFound
      | Some app \<Rightarrow> if ga_runtime app \<noteq> CodeRuntime then Inl CodeAppNotFound else Inr app)"

text \<open>What the app row shows of its active revision.\<close>

definition show_revision :: "instant \<Rightarrow> revision_row \<Rightarrow> app_row \<Rightarrow> app_row" where
  "show_revision now rv app =
     app\<lparr>ga_version := rv_number rv, ga_title := rv_title rv, ga_descr := rv_descr rv, ga_updated := now\<rparr>"

text \<open>The seed records are written by a first deployment of an app without records, and count as consumed
  from then on.\<close>

definition consume_seed ::
  "instant \<Rightarrow> bool \<Rightarrow> app_row \<Rightarrow> revision_row \<Rightarrow> db \<Rightarrow> app_error + db" where
  "consume_seed now first_deployment app rv d =
     (if rv_seed_applied rv \<noteq> None then Inr d
      else bindR (if first_deployment \<and> count_where (\<lambda>r. dr_app r = ga_id app) (db_records d) = 0
                  then seed_code_app_records now d (ga_id app) (ga_user app) (rv_manifest rv) (rv_seed rv)
                  else Inr d) (\<lambda>d1.
             Inr (d1\<lparr>db_revisions := upd_where (\<lambda>r. rv_id r = rv_id rv)
               (\<lambda>r. r\<lparr>rv_seed_applied := Some now\<rparr>) (db_revisions d1)\<rparr>)))"

definition promote_revision ::
  "(string \<Rightarrow> string) \<Rightarrow> instant \<Rightarrow> db \<Rightarrow> uuid \<Rightarrow> uuid \<Rightarrow> uuid option option \<Rightarrow>
   app_error + (deployment_row \<times> db)" where
  "promote_revision sha now d app_id revision_id expected =
     bindR (revision_of_app d app_id revision_id) (\<lambda>rv.
     bindR (validate_promotable_compiled_artifact sha (Some (rv_artifact rv)) (rv_sdk rv)) (\<lambda>_.
     bindR (any_code_app d app_id) (\<lambda>app.
     bindR (move_deployment now d app_id revision_id expected) (\<lambda>d1.
     bindR (consume_seed now (find_deployment d app_id = None) app rv
              (d1\<lparr>db_apps := upd_where (\<lambda>a. ga_id a = app_id) (show_revision now rv) (db_apps d1)\<rparr>)) (\<lambda>d2.
     bindR (some_or CodeAppConflict (find_deployment d2 app_id)) (\<lambda>dp. Inr (dp, d2)))))))"

section \<open>Completing a build\<close>

record build_output =
  bo_manifest :: obj
  bo_sources :: obj
  bo_url :: string
  bo_sha :: string
  bo_sdk :: string
  bo_lock :: "obj option"
  bo_tests :: "obj option"
  bo_artifact :: "obj option"
  bo_app_url :: "string option"
  bo_handoff :: "string option"
  bo_metadata :: "obj option"

definition or_empty :: "obj option \<Rightarrow> obj" where
  "or_empty ob = (case ob of None \<Rightarrow> [] | Some x \<Rightarrow> x)"

definition check_build_output :: "(string \<Rightarrow> string) \<Rightarrow> build_output \<Rightarrow> app_error + unit" where
  "check_build_output sha b =
     bindR (validate_manifest (JObj (bo_manifest b))) (\<lambda>_.
     bindR (require_json_size (JObj (or_empty (bo_artifact b))) MAX_BUILD_ARTIFACT_BYTES) (\<lambda>_.
     bindR (require_json_size (JObj (or_empty (bo_lock b))) 64000) (\<lambda>_.
     bindR (require_json_size (JObj (or_empty (bo_tests b))) 128000) (\<lambda>_.
       if bo_sources b = [] then Inl CodeAppValidation
       else if \<not> is_sha256_hex (bo_sha b) then Inl CodeAppValidation
       else validate_promotable_compiled_artifact sha (bo_artifact b) (bo_sdk b)))))"

definition next_revision_number :: "db \<Rightarrow> uuid \<Rightarrow> int" where
  "next_revision_number d app_id =
     foldr max (map rv_number (filter (\<lambda>r. rv_app r = app_id) (db_revisions d))) 0 + 1"

definition new_revision ::
  "instant \<Rightarrow> db \<Rightarrow> job_row \<Rightarrow> app_row \<Rightarrow> build_output \<Rightarrow> app_error + revision_row" where
  "new_revision now d j app b =
     (let blueprint = dict_or_empty (get_or_null (jb_request j) ''blueprint'');
          metadata = dict_or_empty (get_or_null (jb_request j) ''app_metadata'')
      in bindR (text_value (py_or (get_or_null metadata ''title'')
                  (py_or (get_or_null blueprint ''title'') (JStr (ga_title app)))) 120) (\<lambda>title.
         bindR (optional_text
                  (if get_or_null metadata ''description'' \<noteq> JNull then get_or_null metadata ''description''
                   else get_default blueprint ''description'' (JStr (ga_descr app))) 500) (\<lambda>descr.
         let seed = dict_or_empty (get_or_null blueprint ''seed_data'') in
         bindR (require_json_size (JObj seed) MAX_SEED_DATA_BYTES) (\<lambda>_.
         bindR (text_value (JStr (bo_url b)) 4000) (\<lambda>url.
         bindR (text_value (JStr (bo_sdk b)) 64) (\<lambda>sdk.
           Inr \<lparr>rv_id = db_next d, rv_app = jb_app j, rv_number = next_revision_number d (jb_app j),
                rv_title = title, rv_descr = descr, rv_status = RevReady, rv_manifest = bo_manifest b,
                rv_seed = seed, rv_seed_applied = None, rv_sources = bo_sources b,
                rv_artifact = or_empty (bo_artifact b), rv_artifact_url = url, rv_artifact_sha = bo_sha b,
                rv_sdk = sdk, rv_lock = or_empty (bo_lock b), rv_tests = or_empty (bo_tests b),
                rv_created = now\<rparr>))))))"

text \<open>
  The telemetry of a build. A float is its \<open>repr\<close>; \<open>float(i)\<close> of an integer is written \<open>i.0\<close>, which is
  its \<open>repr\<close> below \<open>2 ^ 53\<close>.
\<close>

fun non_negative :: "json \<Rightarrow> bool" where
  "non_negative (JInt i) = (0 \<le> i)"
| "non_negative (JFloat f) = (f \<noteq> ''NaN'' \<and> (f = ''-0.0'' \<or> take 1 f \<noteq> ''-''))"
| "non_negative _ = False"

fun as_float :: "json \<Rightarrow> json" where
  "as_float (JInt i) = JFloat (str_int i @ ''.0'')"
| "as_float v = v"

definition safe_build_telemetry :: "obj option \<Rightarrow> obj option \<Rightarrow> obj option \<Rightarrow> obj" where
  "safe_build_telemetry artifact test_results build_metadata =
     (let own = dict_or_empty (get_or_null (or_empty artifact) ''provider_metadata'');
          provider = foldl (\<lambda>m (k, v). AList.update k v m) own
            (dict_or_empty (get_or_null (or_empty build_metadata) ''provider_metadata''));
          model = (case get_or_null provider ''model'' of
              JStr s \<Rightarrow> if length s \<le> 120 then [(''model'', JStr s)] else [] | _ \<Rightarrow> []);
          safe = filter (\<lambda>(k, v). k \<in> {''input_tokens'', ''output_tokens'', ''total_tokens''} \<and> is_int v \<and> non_negative v)
            (dict_or_empty (get_or_null provider ''token_usage''));
          tokens = (if safe = [] then [] else [(''token_usage'', JObj safe)]);
          cost = (if is_number (get_or_null provider ''cost_usd'') then get_or_null provider ''cost_usd''
                  else get_or_null (dict_or_empty (get_or_null (or_empty test_results) ''build_metrics'')) ''cost_usd'')
      in model @ tokens @ (if is_number cost \<and> non_negative cost then [(''cost_usd'', as_float cost)] else []))"

definition completed_event_key :: "uuid \<Rightarrow> string" where
  "completed_event_key job_id = ''app-build-completed:'' @ str_uuid job_id"

text \<open>The ticket of the link the owner is sent: for a group its members', never an owner's.\<close>

definition handoff_ticket ::
  "(string \<Rightarrow> string) \<Rightarrow> instant \<Rightarrow> string \<Rightarrow> db \<Rightarrow> app_row \<Rightarrow> app_error + (string \<times> db)" where
  "handoff_ticket sha now raw d app =
     (case find_conv d (ga_conv app) of
        Some c \<Rightarrow>
          if cv_kind c = GroupConv
          then issue_trusted_group_handoff_ticket sha now raw d app c MAX_ACCESS_TICKET_TTL_SECONDS
          else issue_access_ticket sha now raw d (ga_id app) (ga_user app)
                 (if ga_access app = CollaborativeLink then None else Some (ga_user app))
                 (role_str (if ga_access app = CollaborativeLink then Member else Owner))
                 MAX_ACCESS_TICKET_TTL_SECONDS
      | None \<Rightarrow>
          issue_access_ticket sha now raw d (ga_id app) (ga_user app)
            (if ga_access app = CollaborativeLink then None else Some (ga_user app))
            (role_str (if ga_access app = CollaborativeLink then Member else Owner))
            MAX_ACCESS_TICKET_TTL_SECONDS)"

definition succeeded_job :: "instant \<Rightarrow> revision_row \<Rightarrow> build_output \<Rightarrow> job_row \<Rightarrow> job_row" where
  "succeeded_job now rv b j =
     j\<lparr>jb_result_rev := Some (rv_id rv), jb_status := Succeeded, jb_error := None,
       jb_result := [(''revision_id'', JStr (str_uuid (rv_id rv))), (''artifact_sha256'', JStr (bo_sha b)),
         (''build_metadata'', JObj (or_empty (bo_metadata b)))],
       jb_completed := Some now, jb_lease := None, jb_updated := now\<rparr>"

definition completion_link ::
  "(string \<Rightarrow> string) \<Rightarrow> instant \<Rightarrow> string \<Rightarrow> db \<Rightarrow> app_row \<Rightarrow> job_row \<Rightarrow> build_output \<Rightarrow>
   app_error + (string \<times> job_row \<times> db)" where
  "completion_link sha now raw d app j b =
     (case bo_handoff b of
        None \<Rightarrow> Inr (or_text (bo_app_url b) (jb_url j), j, d)
      | Some base \<Rightarrow>
          bindR (handoff_ticket sha now raw d app) (\<lambda>(ticket, d1).
          bindR (text_value (JStr base) 4000) (\<lambda>clean.
            let url = clean @ ''#handoff='' @ ticket in Inr (url, j\<lparr>jb_url := url\<rparr>, d1))))"

definition build_completed_payload ::
  "instant \<Rightarrow> app_row \<Rightarrow> revision_row \<Rightarrow> job_row \<Rightarrow> string \<Rightarrow> build_output \<Rightarrow> obj" where
  "build_completed_payload now app rv j url b =
     [(''app_id'', JStr (str_uuid (ga_id app))), (''public_id'', JStr (ga_public app)),
      (''title'', JStr (ga_title app)), (''app_url'', JStr url), (''description'', JStr (ga_descr app)),
      (''purpose'', JStr (build_purpose (jb_request j) (ga_descr app))),
      (''revision_id'', JStr (str_uuid (rv_id rv))), (''build_job_id'', JStr (str_uuid (jb_id j))),
      (''duration_ms'', JInt (duration_ms (jb_created j) now))] @
     safe_build_telemetry (bo_artifact b) (bo_tests b) (bo_metadata b)"

definition complete_build ::
  "(string \<Rightarrow> string) \<Rightarrow> instant \<Rightarrow> string \<Rightarrow> db \<Rightarrow> uuid \<Rightarrow> string \<Rightarrow> int \<Rightarrow> build_output \<Rightarrow>
   app_error + (revision_row \<times> db)" where
  "complete_build sha now raw d job_id worker_id expected_attempt b =
     bindR (claimed_job d job_id worker_id expected_attempt) (\<lambda>j.
     bindR (check_build_output sha b) (\<lambda>_.
     bindR (locked_code_app d (jb_app j)) (\<lambda>app0.
     bindR (new_revision now d j app0 b) (\<lambda>rv.
     let d1 = d\<lparr>db_next := db_next d + 1, db_revisions := db_revisions d @ [rv]\<rparr> in
     bindR (validate_existing_records_for_manifest d1 (jb_app j) (bo_manifest b)) (\<lambda>_.
     bindR (promote_revision sha now d1 (jb_app j) (rv_id rv) (Some (jb_base j))) (\<lambda>(_, d2).
     let app = show_revision now rv app0
     in bindR (completion_link sha now raw d2 app (succeeded_job now rv b j) b) (\<lambda>(url, j1, d3).
          Inr (rv\<lparr>rv_seed_applied := Some now\<rparr>,
            snd (enqueue_user_event now (set_job j1 d3) (ga_user app) (Some (ga_conv app))
              ''app.build.completed'' ''generated_app_builder'' (completed_event_key (jb_id j))
              (build_completed_payload now app rv j1 url b) (jb_provider j))))))))))"

section \<open>What the owner sees and asks for\<close>

record owned_app =
  ow_app :: app_row
  ow_revision :: "revision_row option"
  ow_deployment :: "deployment_row option"
  ow_build :: "job_row option"
  ow_actor :: app_actor

definition latest_build :: "db \<Rightarrow> uuid \<Rightarrow> job_row option" where
  "latest_build d app_id = latest_by jb_created (filter (\<lambda>j. jb_app j = app_id) (db_jobs d))"

type_synonym bootstrap = "app_row \<times> revision_row option \<times> deployment_row option \<times> job_row option"

definition runtime_bootstrap_for_app :: "db \<Rightarrow> app_row \<Rightarrow> bootstrap" where
  "runtime_bootstrap_for_app d app =
     (let dp = find_deployment d (ga_id app) in
      (app, (case dp of None \<Rightarrow> None | Some p \<Rightarrow> find_revision d (dp_active p)), dp,
       latest_build d (ga_id app)))"

definition get_runtime_bootstrap :: "db \<Rightarrow> string \<Rightarrow> app_error + bootstrap" where
  "get_runtime_bootstrap d public_id =
     (case find (\<lambda>a. ga_public a = public_id \<and> ga_status a = AppActive) (db_apps d) of
        None \<Rightarrow> Inl CodeAppNotFound
      | Some app \<Rightarrow> Inr (runtime_bootstrap_for_app d app))"

definition get_owned_code_app :: "db \<Rightarrow> uuid \<Rightarrow> uuid \<Rightarrow> app_error + owned_app" where
  "get_owned_code_app d app_id user_id =
     bindR (locked_code_app d app_id) (\<lambda>app.
     bindR (authorize_user_for_locked_app d app user_id) (\<lambda>actor.
       if ac_role actor \<noteq> Owner then Inl CodeAppAuthorization
       else case runtime_bootstrap_for_app d app of (app, rv, dp, build) \<Rightarrow>
         Inr \<lparr>ow_app = app, ow_revision = rv, ow_deployment = dp, ow_build = build, ow_actor = actor\<rparr>))"

definition active_blueprint :: "db \<Rightarrow> uuid \<Rightarrow> uuid \<Rightarrow> obj" where
  "active_blueprint d app_id revision_id =
     (case latest_by jb_created (filter (\<lambda>j. jb_app j = app_id \<and> jb_result_rev j = Some revision_id) (db_jobs d)) of
        None \<Rightarrow> []
      | Some j \<Rightarrow> dict_or_empty (get_default (jb_request j) ''blueprint'' (JObj (jb_request j))))"

definition revision_context :: "revision_row \<Rightarrow> app_error + obj" where
  "revision_context rv =
     (let context = (\<lambda>seed sources.
            [(''revision_id'', JStr (str_uuid (rv_id rv))), (''revision_number'', JInt (rv_number rv)),
             (''manifest'', JObj (rv_manifest rv)), (''seed_data'', JObj seed), (''source_files'', JObj sources)]);
          fits = (\<lambda>c. json_size (JObj c) \<le> MAX_REVISION_CONTEXT_BYTES);
          omitted = [(''omitted'', JBool True),
            (''paths'', JArr (map JStr (take 64 (sort (map fst (rv_sources rv))))))]
      in if fits (context (rv_seed rv) (rv_sources rv)) then Inr (context (rv_seed rv) (rv_sources rv))
         else if fits (context (rv_seed rv) omitted) then Inr (context (rv_seed rv) omitted)
         else bindR (require_json_size (JObj (context [(''omitted'', JBool True)] omitted))
                MAX_REVISION_CONTEXT_BYTES) (\<lambda>_. Inr (context [(''omitted'', JBool True)] omitted)))"

record revise_args =
  re_request :: string
  re_title :: "string option"
  re_descr :: "string option"
  re_visual :: "string option"
  re_manifest :: "obj option"
  re_seed :: "obj option"
  re_provider :: "string option"
  re_url :: "string option"
  re_key :: "string option"
  re_hash :: "string option"

definition revision_blueprint ::
  "db \<Rightarrow> app_row \<Rightarrow> revision_row \<Rightarrow> revise_args \<Rightarrow> app_error + (string \<times> string \<times> obj)" where
  "revision_blueprint d app rv args =
     bindR (text_value (JStr (re_request args)) 4000) (\<lambda>change.
     let previous = active_blueprint d (ga_id app) (rv_id rv) in
     bindR (case re_title args of None \<Rightarrow> Inr (ga_title app) | Some t \<Rightarrow> text_value (JStr t) 120) (\<lambda>title.
     bindR (case re_descr args of None \<Rightarrow> Inr (ga_descr app) | Some t \<Rightarrow> optional_text (JStr t) 500) (\<lambda>descr.
     let manifest = (case re_manifest args of None \<Rightarrow> rv_manifest rv | Some m \<Rightarrow> m) in
     bindR (validate_manifest (JObj manifest)) (\<lambda>_.
     bindR (if re_manifest args = None then Inr ()
            else validate_existing_records_for_manifest d (ga_id app) manifest) (\<lambda>_.
     let seed = (case re_seed args of None \<Rightarrow> dict_or_empty (get_or_null previous ''seed_data'') | Some s \<Rightarrow> s);
         lead = (if descr = [] then title else descr)
     in bindR (require_json_size (JObj seed) MAX_SEED_DATA_BYTES) (\<lambda>_.
        bindR (case re_visual args of
                 Some v \<Rightarrow> text_value (JStr v) 1000
               | None \<Rightarrow> Inr (fallback_text (get_or_null previous ''visual_direction'')
                   ''purpose-native and mobile-first'' 1000)) (\<lambda>visual.
        bindR (revision_context rv) (\<lambda>base.
          Inr (title, descr,
            [(''title'', JStr title), (''description'', JStr descr),
             (''purpose'', JStr (fallback_text (get_or_null previous ''purpose'') lead 500)),
             (''layout'', JStr (fallback_text (get_or_null previous ''layout'') ''workspace'' 48)),
             (''accent'', JStr (fallback_text (get_or_null previous ''accent'') ''coral'' 16)),
             (''product_brief'', JStr (fallback_text (get_or_null previous ''product_brief'') lead 4000)),
             (''visual_direction'', JStr visual), (''manifest'', JObj manifest), (''seed_data'', JObj seed),
             (''revision_request'', JStr change), (''base_revision'', JObj base)])))))))))"

definition queue_owned_code_app_revision ::
  "(string \<Rightarrow> string) \<Rightarrow> instant \<Rightarrow> db \<Rightarrow> uuid \<Rightarrow> uuid \<Rightarrow> revise_args \<Rightarrow> app_error + (job_row \<times> db)" where
  "queue_owned_code_app_revision sha now d user_id app_id args =
     bindR (optional_key (re_key args)) (\<lambda>key.
     bindR (validated_request_hash (re_hash args)) (\<lambda>h.
     bindR (get_owned_code_app d app_id user_id) (\<lambda>owned.
     case (case (key, h) of (Some k, Some _) \<Rightarrow> build_by_idempotency_key d k | _ \<Rightarrow> None) of
       Some j \<Rightarrow> bindR (validate_build_replay j (or_text h [])) (\<lambda>_. Inr (j, d))
     | None \<Rightarrow>
         (case (ow_revision owned, ow_deployment owned) of
            (Some rv, Some _) \<Rightarrow>
              bindR (revision_blueprint d (ow_app owned) rv args) (\<lambda>(title, descr, blueprint).
                queue_code_app_revision sha now d user_id app_id
                  (JObj [(''blueprint'', JObj blueprint),
                    (''app_metadata'', JObj [(''title'', JStr title), (''description'', JStr descr)])])
                  (re_provider args) (re_url args) key h)
          | _ \<Rightarrow> Inl CodeAppConflict))))"

section \<open>Rolling back\<close>

datatype rollback_result = RolledBack owned_app | StoredRollbackResult stored_rollback

definition rollback_target :: "db \<Rightarrow> uuid \<Rightarrow> uuid \<Rightarrow> app_error + (revision_row \<times> revision_row)" where
  "rollback_target d app_id expected =
     (case find_deployment d app_id of
        None \<Rightarrow> Inl CodeAppConflict
      | Some dp \<Rightarrow>
          (case dp_previous dp of
             None \<Rightarrow> Inl CodeAppConflict
           | Some previous \<Rightarrow>
               if dp_active dp \<noteq> expected then Inl CodeAppConflict
               else if \<exists>j\<in>set (db_jobs d). jb_app j = app_id \<and> job_live j then Inl CodeAppConflict
               else (case (find_revision d (dp_active dp), find_revision d previous) of
                       (Some replaced, Some target) \<Rightarrow>
                         if rv_app target \<noteq> app_id \<or> rv_status target \<noteq> RevReady then Inl CodeAppConflict
                         else Inr (replaced, target)
                     | _ \<Rightarrow> Inl CodeAppConflict)))"

definition rollback_hash :: "(string \<Rightarrow> string) \<Rightarrow> uuid \<Rightarrow> app_error + string" where
  "rollback_hash sha expected =
     idempotency_request_hash sha ''deployment.rollback''
       [(''expected_active_revision_id'', JStr (str_uuid expected))]"

text \<open>The swap and its event. Without an idempotency key the event gets a key of its own, which the
  unique index on keys refuses when the journal has it already.\<close>

definition swap_back ::
  "(string \<Rightarrow> string) \<Rightarrow> instant \<Rightarrow> db \<Rightarrow> uuid \<Rightarrow> uuid \<Rightarrow> app_actor \<Rightarrow> uuid \<Rightarrow> string option \<Rightarrow> string \<Rightarrow>
   app_error + (rollback_result \<times> db)" where
  "swap_back sha now d app_id user_id actor expected key h =
     bindR (rollback_target d app_id expected) (\<lambda>(replaced, target).
     bindR (validate_existing_records_for_manifest d app_id (rv_manifest target)) (\<lambda>_.
     bindR (promote_revision sha now d app_id (rv_id target) None) (\<lambda>(dp, d1).
     bindR (some_or CodeAppNotFound (find_app d1 app_id)) (\<lambda>app.
       let event_key = (case key of None \<Rightarrow> ''app-rollback:'' @ str_int (dp_version dp) | Some k \<Rightarrow> k);
           response = \<lparr>sb_app = ga_id app, sb_public = ga_public app, sb_title = ga_title app,
             sb_active = rv_id target, sb_number = rv_number target, sb_version = dp_version dp,
             sb_reversible = (dp_previous dp \<noteq> None)\<rparr>
       in if journal_event d1 app_id event_key \<noteq> None then Inl UncaughtIntegrityError
          else case take_id d1 of (eid, d2) \<Rightarrow>
            let d3 = d2\<lparr>db_events := db_events d2 @
                [\<lparr>ev_id = eid, ev_app = app_id, ev_record = None, ev_entity = None,
                  ev_type = ''app.deployment.rolled_back'', ev_user = Some user_id, ev_session = None,
                  ev_key = event_key,
                  ev_operation = (if key = None then None else Some ''deployment.rollback''),
                  ev_hash = (if key = None then None else Some h),
                  ev_response = (if key = None then NoResponse else RollbackResponse response),
                  ev_payload = [(''from_revision_id'', JStr (str_uuid (rv_id replaced))),
                    (''from_revision_number'', JInt (rv_number replaced)),
                    (''to_revision_id'', JStr (str_uuid (rv_id target))),
                    (''to_revision_number'', JInt (rv_number target)),
                    (''deployment_version'', JInt (dp_version dp))],
                  ev_created = now\<rparr>]\<rparr>
            in Inr (RolledBack \<lparr>ow_app = app, ow_revision = find_revision d3 (rv_id target),
                     ow_deployment = Some dp, ow_build = latest_build d3 app_id, ow_actor = actor\<rparr>, d3)))))"

definition rollback_owned_code_app ::
  "(string \<Rightarrow> string) \<Rightarrow> instant \<Rightarrow> db \<Rightarrow> uuid \<Rightarrow> uuid \<Rightarrow> uuid \<Rightarrow> string option \<Rightarrow>
   app_error + (rollback_result \<times> db)" where
  "rollback_owned_code_app sha now d user_id app_id expected key0 =
     bindR (locked_code_app d app_id) (\<lambda>app.
     bindR (authorize_user_for_locked_app d app user_id) (\<lambda>actor.
     if ac_role actor \<noteq> Owner \<or> ga_user app \<noteq> user_id then Inl CodeAppAuthorization
     else
       bindR (optional_key key0) (\<lambda>key.
       bindR (rollback_hash sha expected) (\<lambda>h.
       bindR (case key of None \<Rightarrow> Inr None | Some k \<Rightarrow> event_by_key d app_id k) (\<lambda>existing.
         case existing of
           Some e \<Rightarrow> bindR (stored_rollback_from_event e app h) (\<lambda>s. Inr (StoredRollbackResult s, d))
         | None \<Rightarrow> swap_back sha now d app_id user_id actor expected key h)))))"

end
