(* ===== verification/App_Deploy_Facts.thy ===== *)
theory App_Deploy_Facts
  imports App_Deploy
begin

text \<open>
  What a successful promotion, completion and rollback did, and the invariant \<open>deploy_ok\<close> of the
  deployment pointers: revision numbers are unique per app, and whatever is or was deployed exists,
  belongs to its app and has passed the promotion gate.
\<close>

section \<open>Seed records\<close>

definition seed_rows_ok :: "uuid \<Rightarrow> obj \<Rightarrow> db \<Rightarrow> data_row list \<Rightarrow> bool" where
  "seed_rows_ok a manifest d rows \<longleftrightarrow>
     map dr_id rows = [db_next d ..< db_next d + length rows] \<and>
     (\<forall>r\<in>set rows. dr_app r = a \<and> conforms manifest r \<and> dr_version r = 1 \<and>
        dr_bytes r = json_size (JObj (dr_data r)) \<and> dr_bytes r \<le> MAX_RECORD_BYTES) \<and>
     (rows \<noteq> [] \<longrightarrow> app_bytes d a + sum_list (map dr_bytes rows) \<le> MAX_DATA_BYTES_PER_APP)"

definition seeded :: "uuid \<Rightarrow> obj \<Rightarrow> nat \<Rightarrow> db \<Rightarrow> db \<Rightarrow> bool" where
  "seeded a manifest n d d' \<longleftrightarrow>
     (\<exists>rows. length rows \<le> n \<and> seed_rows_ok a manifest d rows \<and>
        d' = d\<lparr>db_next := db_next d + length rows, db_records := db_records d @ rows\<rparr>)"

lemma seeded_refl [simp]: "seeded a manifest n d d"
  unfolding seeded_def by (rule exI [of _ "[]"]) (simp add: seed_rows_ok_def)

lemma seeded_mono: "seeded a manifest n d d' \<Longrightarrow> n \<le> m \<Longrightarrow> seeded a manifest m d d'"
  unfolding seeded_def using le_trans [of _ n m] by blast

lemma sum_where_all: "(\<forall>r\<in>set rows. p r) \<Longrightarrow> sum_where p f rows = sum_list (map f rows)"
  by (induction rows) simp_all

lemma seeded_trans:
  assumes "seeded a manifest n d d1" "seeded a manifest m d1 d2"
  shows "seeded a manifest (n + m) d d2"
proof -
  from assms obtain xs ys where
    x: "length xs \<le> n" "seed_rows_ok a manifest d xs"
      "d1 = d\<lparr>db_next := db_next d + length xs, db_records := db_records d @ xs\<rparr>"
    and y: "length ys \<le> m" "seed_rows_ok a manifest d1 ys"
      "d2 = d1\<lparr>db_next := db_next d1 + length ys, db_records := db_records d1 @ ys\<rparr>"
    unfolding seeded_def by blast
  have "app_bytes d1 a = app_bytes d a + sum_list (map dr_bytes xs)"
    using x(2,3) by (simp add: app_bytes_def seed_rows_ok_def sum_where_all)
  moreover have "[db_next d ..< db_next d + length xs] @ [db_next d + length xs ..< db_next d + length xs + length ys]
      = [db_next d ..< db_next d + (length xs + length ys)]"
    using upt_add_eq_append [of "db_next d" "db_next d + length xs" "length ys"] by (simp add: add.assoc)
  ultimately have "seed_rows_ok a manifest d (xs @ ys)"
    using x(2,3) y(2) unfolding seed_rows_ok_def by (cases "ys = []") auto
  then show ?thesis
    using x(1,3) y(1,3) unfolding seeded_def by (intro exI [of _ "xs @ ys"]) (simp add: add.assoc)
qed

lemma foldR_seeded:
  assumes "\<And>x s s'. x \<in> set xs \<Longrightarrow> f x s = Inr s' \<Longrightarrow> seeded a manifest k s s'"
  shows "foldR f xs d = Inr d' \<Longrightarrow> seeded a manifest (length xs * k) d d'"
  using assms
proof (induction xs arbitrary: d)
  case Nil
  then show ?case by simp
next
  case (Cons x xs)
  from Cons.prems(1) obtain d1 where d1: "f x d = Inr d1" "foldR f xs d1 = Inr d'" by (auto simp: bindR_Inr)
  have "seeded a manifest k d d1" by (rule Cons.prems(2) [OF _ d1(1)]) simp
  moreover have "seeded a manifest (length xs * k) d1 d'"
    by (rule Cons.IH [OF d1(2)]) (rule Cons.prems(2), simp_all)
  ultimately show ?case using seeded_trans by fastforce
qed

lemma seed_record_seeded:
  assumes "seed_record now a user manifest entity raw d = Inr d'"
  shows "seeded a manifest 1 d d'"
proof (cases raw)
  case (JObj ob)
  let ?row = "\<lparr>dr_id = db_next d, dr_app = a, dr_entity = entity, dr_data = ob,
      dr_bytes = json_size (JObj ob), dr_version = 1, dr_created_by = Some user,
      dr_updated_by = Some user, dr_created = now, dr_updated = now\<rparr>"
  from assms JObj obtain clean where v: "validate_entity_data manifest entity ob = Inr clean"
    and b: "json_size (JObj clean) \<le> 0 \<or> app_bytes d a + json_size (JObj clean) \<le> MAX_DATA_BYTES_PER_APP"
    and d': "d' = d\<lparr>db_next := db_next d + 1,
      db_records := db_records d @ [?row\<lparr>dr_data := clean, dr_bytes := json_size (JObj clean)\<rparr>]\<rparr>"
    by (auto simp: seed_record_def result_simps take_id_def)
  from v have clean: "clean = ob" by (rule validate_entity_data_same)
  have "seed_rows_ok a manifest d [?row]"
    using v b clean validate_entity_data_size [OF v] json_size_obj_pos [of ob]
    by (auto simp: seed_rows_ok_def conforms_def)
  then show ?thesis using d' clean unfolding seeded_def by (intro exI [of _ "[?row]"]) simp
qed (use assms in \<open>simp_all add: seed_record_def\<close>)

lemma seed_entity_seeded:
  assumes "seed_entity now a user manifest seed definition d = Inr d'"
  shows "seeded a manifest 200 d d'"
proof -
  from assms obtain entity where e: "(let candidates = (if get_or_null seed entity = JNull
                         then get_or_null seed (entity @ ''s'') else get_or_null seed entity)
       in case candidates of
            JArr rows \<Rightarrow> foldR (seed_record now a user manifest entity) (take 200 rows) d
          | _ \<Rightarrow> Inr d) = Inr d'"
    by (auto simp: seed_entity_def bindR_Inr)
  have rows: "seeded a manifest 200 d d'"
    if "foldR (seed_record now a user manifest entity) (take 200 rows) d = Inr d'" for rows
  proof -
    have "seeded a manifest (length (take 200 rows) * 1) d d'"
      by (rule foldR_seeded [OF _ that]) (rule seed_record_seeded)
    then show ?thesis by (rule seeded_mono) simp
  qed
  from e show ?thesis unfolding Let_def
    by (cases "if get_or_null seed entity = JNull then get_or_null seed (entity @ ''s'') else get_or_null seed entity")
      (simp_all add: rows)
qed

lemma validate_manifest_entities:
  assumes "validate_manifest (JObj manifest) = Inr u"
  shows "length (manifest_entities manifest) \<le> 24"
proof -
  from assms obtain entities where e: "get_default manifest ''entities'' (JArr []) = JArr entities" "length entities \<le> 24"
    by (auto simp: validate_manifest_def bindR_Inr not_less split: json.splits if_splits)
  have "length (filter is_dict entities) \<le> 24" using length_filter_le e(2) by (rule order_trans)
  with e(1) show ?thesis by (simp add: manifest_entities_def)
qed

text \<open>A first deployment writes at most 24 times 200 records, all of them valid.\<close>

lemma seed_code_app_records_seeded:
  assumes "seed_code_app_records now d a user manifest seed = Inr d'"
  shows "seeded a manifest 4800 d d'"
proof -
  from assms obtain u where u: "validate_manifest (JObj manifest) = Inr u"
    and f: "foldR (seed_entity now a user manifest seed) (manifest_entities manifest) d = Inr d'"
    by (auto simp: seed_code_app_records_def bindR_Inr)
  have "seeded a manifest (length (manifest_entities manifest) * 200) d d'"
    by (rule foldR_seeded [OF _ f]) (rule seed_entity_seeded)
  then show ?thesis by (rule seeded_mono) (use validate_manifest_entities [OF u] in simp)
qed

lemma validate_existing_Inr:
  "validate_existing_records_for_manifest d a manifest = Inr u \<longleftrightarrow>
     (\<forall>r\<in>set (db_records d). dr_app r = a \<longrightarrow> conforms manifest r)"
proof -
  have "foldR (\<lambda>r _. bindR (validate_entity_data manifest (dr_entity r) (dr_data r)) (\<lambda>_. Inr ())) rows () = Inr u
      \<longleftrightarrow> (\<forall>r\<in>set rows. conforms manifest r)" for rows and u :: unit
    by (induction rows) (auto simp: bindR_Inr conforms_iff)
  then show ?thesis by (auto simp: validate_existing_records_for_manifest_def)
qed

section \<open>Promotion\<close>

definition moved_deployments :: "instant \<Rightarrow> db \<Rightarrow> uuid \<Rightarrow> uuid \<Rightarrow> deployment_row list" where
  "moved_deployments now d a rid =
     (case find_deployment d a of
        None \<Rightarrow> db_deployments d @
          [\<lparr>dp_app = a, dp_active = rid, dp_previous = None, dp_version = 1, dp_at = now\<rparr>]
      | Some q \<Rightarrow>
          if dp_active q = rid then db_deployments d
          else upd_where (\<lambda>q. dp_app q = a)
            (\<lambda>q. q\<lparr>dp_previous := Some (dp_active q), dp_active := rid, dp_version := dp_version q + 1, dp_at := now\<rparr>)
            (db_deployments d))"

lemma distinct_same:
  "distinct (map key rows) \<Longrightarrow> p \<in> set rows \<Longrightarrow> q \<in> set rows \<Longrightarrow> key p = key q \<Longrightarrow> p = q"
  by (auto simp: distinct_map inj_on_def)

lemma upd_where_cong: "(\<And>r. r \<in> set rows \<Longrightarrow> p r = q r) \<Longrightarrow> upd_where p f rows = upd_where q f rows"
  by (induction rows) auto

text \<open>With one deployment per app the compare-and-swap cannot fail after the comparison before it.\<close>

lemma move_deployment_Inr:
  assumes "distinct (map dp_app (db_deployments d))"
  shows "move_deployment now d a rid ex = Inr d' \<longleftrightarrow>
    (\<forall>e. ex = Some e \<longrightarrow> map_option dp_active (find_deployment d a) = e) \<and>
    d' = d\<lparr>db_deployments := moved_deployments now d a rid\<rparr>"
proof (cases "find_deployment d a")
  case None
  then show ?thesis by (auto simp: move_deployment_def moved_deployments_def Let_def split: option.splits)
next
  case (Some q)
  from row_by_Some [OF Some] have q: "q \<in> set (db_deployments d)" "dp_app q = a" by simp_all
  have here: "dp_app p = a \<and> Some (dp_active p) = Some (dp_active q) \<longleftrightarrow> dp_app p = a"
    if "p \<in> set (db_deployments d)" for p
    using distinct_same [OF assms that q(1)] q(2) by auto
  have found: "find (\<lambda>p. dp_app p = a \<and> Some (dp_active p) = Some (dp_active q)) (db_deployments d) \<noteq> None"
    using q by (auto simp: find_None_iff)
  note same = upd_where_cong [OF here, of "db_deployments d"]
  show ?thesis
  proof (cases ex)
    case None
    with Some show ?thesis by (auto simp: move_deployment_def moved_deployments_def Let_def)
  next
    case (Some e)
    show ?thesis
    proof (cases "e = Some (dp_active q)")
      case True
      with Some \<open>find_deployment d a = Some q\<close> found same show ?thesis
        by (auto simp: move_deployment_def moved_deployments_def Let_def)
    next
      case False
      with Some \<open>find_deployment d a = Some q\<close> show ?thesis
        by (auto simp: move_deployment_def Let_def)
    qed
  qed
qed

text \<open>The tables a deployment does not write.\<close>

definition deploy_frame :: "db \<Rightarrow> db \<Rightarrow> bool" where
  "deploy_frame d d' \<longleftrightarrow> db_users d' = db_users d \<and> db_convs d' = db_convs d \<and> db_members d' = db_members d \<and>
     db_jobs d' = db_jobs d \<and> db_memberships d' = db_memberships d \<and> db_events d' = db_events d \<and>
     db_tickets d' = db_tickets d \<and> db_sessions d' = db_sessions d \<and> db_tasks d' = db_tasks d \<and>
     db_uevents d' = db_uevents d"

definition promotable :: "(string \<Rightarrow> string) \<Rightarrow> revision_row \<Rightarrow> bool" where
  "promotable sha rv \<longleftrightarrow> validate_promotable_compiled_artifact sha (Some (rv_artifact rv)) (rv_sdk rv) = Inr ()"

text \<open>What a promotion of revision \<open>rv\<close> to app \<open>app\<close> did: the pointer moved, the app shows the revision,
  and \<open>rows\<close> are the seed records it wrote.\<close>

definition promoted :: "instant \<Rightarrow> db \<Rightarrow> app_row \<Rightarrow> revision_row \<Rightarrow> data_row list \<Rightarrow> db \<Rightarrow> bool" where
  "promoted now d app rv rows d' \<longleftrightarrow>
     deploy_frame d d' \<and> db_next d' = db_next d + length rows \<and>
     db_deployments d' = moved_deployments now d (ga_id app) (rv_id rv) \<and>
     db_apps d' = upd_where (\<lambda>a. ga_id a = ga_id app) (show_revision now rv) (db_apps d) \<and>
     db_records d' = db_records d @ rows \<and>
     db_revisions d' = (if rv_seed_applied rv \<noteq> None then db_revisions d
       else upd_where (\<lambda>r. rv_id r = rv_id rv) (\<lambda>r. r\<lparr>rv_seed_applied := Some now\<rparr>) (db_revisions d)) \<and>
     length rows \<le> 4800 \<and> seed_rows_ok (ga_id app) (rv_manifest rv) d rows \<and>
     (rows \<noteq> [] \<longrightarrow> find_deployment d (ga_id app) = None \<and> rv_seed_applied rv = None \<and>
        (\<forall>r\<in>set (db_records d). dr_app r \<noteq> ga_id app))"

lemma revision_of_app_Inr [result_simps]:
  "revision_of_app d a i = Inr rv \<longleftrightarrow> find_revision d i = Some rv \<and> rv_app rv = a"
  by (auto simp: revision_of_app_def split: option.splits if_splits)

lemma any_code_app_Inr [result_simps]:
  "any_code_app d a = Inr app \<longleftrightarrow> find_app d a = Some app \<and> ga_runtime app = CodeRuntime"
  by (auto simp: any_code_app_def split: option.splits if_splits)

lemma consume_seed_Inr:
  assumes "consume_seed now fst_dep app rv d = Inr d'"
  obtains rows where "length rows \<le> 4800" "seed_rows_ok (ga_id app) (rv_manifest rv) d rows"
    "d' = d\<lparr>db_next := db_next d + length rows, db_records := db_records d @ rows,
      db_revisions := (if rv_seed_applied rv \<noteq> None then db_revisions d
       else upd_where (\<lambda>r. rv_id r = rv_id rv) (\<lambda>r. r\<lparr>rv_seed_applied := Some now\<rparr>) (db_revisions d))\<rparr>"
    "rows \<noteq> [] \<longrightarrow> fst_dep \<and> rv_seed_applied rv = None \<and> (\<forall>r\<in>set (db_records d). dr_app r \<noteq> ga_id app)"
proof (cases "rv_seed_applied rv")
  case (Some t)
  with assms show thesis by (intro that [of "[]"]) (simp_all add: consume_seed_def seed_rows_ok_def)
next
  case None
  with assms obtain d1 where
    d1: "(if fst_dep \<and> count_where (\<lambda>r. dr_app r = ga_id app) (db_records d) = 0
        then seed_code_app_records now d (ga_id app) (ga_user app) (rv_manifest rv) (rv_seed rv) else Inr d) = Inr d1"
    and d': "d' = d1\<lparr>db_revisions := upd_where (\<lambda>r. rv_id r = rv_id rv) (\<lambda>r. r\<lparr>rv_seed_applied := Some now\<rparr>) (db_revisions d1)\<rparr>"
    by (auto simp: consume_seed_def bindR_Inr)
  show thesis
  proof (cases "fst_dep \<and> count_where (\<lambda>r. dr_app r = ga_id app) (db_records d) = 0")
    case True
    with d1 have "seeded (ga_id app) (rv_manifest rv) 4800 d d1" by (simp add: seed_code_app_records_seeded)
    then obtain rows where "length rows \<le> 4800" "seed_rows_ok (ga_id app) (rv_manifest rv) d rows"
      "d1 = d\<lparr>db_next := db_next d + length rows, db_records := db_records d @ rows\<rparr>"
      unfolding seeded_def by blast
    then show thesis using True None d' by (intro that [of rows]) (simp_all add: count_where_zero)
  next
    case False
    with d1 have "d1 = d" by auto
    with None d' show thesis by (intro that [of "[]"]) (simp_all add: seed_rows_ok_def)
  qed
qed

lemma promote_revision_Inr:
  assumes "promote_revision sha now d a rid ex = Inr (dp, d')" "distinct (map dp_app (db_deployments d))"
  obtains rv app rows where "find_revision d rid = Some rv" "rv_id rv = rid" "rv_app rv = a" "promotable sha rv"
    "find_app d a = Some app" "ga_id app = a" "ga_runtime app = CodeRuntime"
    "\<forall>e. ex = Some e \<longrightarrow> map_option dp_active (find_deployment d a) = e"
    "promoted now d app rv rows d'" "find_deployment d' a = Some dp"
proof -
  from assms(1) obtain rv app d1 where rv: "find_revision d rid = Some rv" "rv_app rv = a" "promotable sha rv"
    and app: "find_app d a = Some app" "ga_runtime app = CodeRuntime"
    and mv: "move_deployment now d a rid ex = Inr d1"
    and seed: "consume_seed now (find_deployment d a = None) app rv
        (d1\<lparr>db_apps := upd_where (\<lambda>a'. ga_id a' = a) (show_revision now rv) (db_apps d1)\<rparr>) = Inr d'"
    and dp: "find_deployment d' a = Some dp"
    unfolding promote_revision_def bindR_Inr promotable_def revision_of_app_Inr any_code_app_Inr some_or_Inr
      sum.inject prod.inject
    by clarify (rule that, simp_all add: promotable_def)
  from row_by_Some [OF rv(1)] row_by_Some [OF app(1)] have ids: "rv_id rv = rid" "ga_id app = a" by simp_all
  from mv have ex: "\<forall>e. ex = Some e \<longrightarrow> map_option dp_active (find_deployment d a) = e"
    and d1: "d1 = d\<lparr>db_deployments := moved_deployments now d a rid\<rparr>"
    unfolding move_deployment_Inr [OF assms(2)] by blast+
  let ?d2 = "d1\<lparr>db_apps := upd_where (\<lambda>a'. ga_id a' = a) (show_revision now rv) (db_apps d1)\<rparr>"
  obtain rows where rows: "length rows \<le> 4800" "seed_rows_ok (ga_id app) (rv_manifest rv) ?d2 rows"
    "d' = ?d2\<lparr>db_next := db_next ?d2 + length rows, db_records := db_records ?d2 @ rows,
      db_revisions := (if rv_seed_applied rv \<noteq> None then db_revisions ?d2
       else upd_where (\<lambda>r. rv_id r = rv_id rv) (\<lambda>r. r\<lparr>rv_seed_applied := Some now\<rparr>) (db_revisions ?d2))\<rparr>"
    "rows \<noteq> [] \<longrightarrow> find_deployment d a = None \<and> rv_seed_applied rv = None \<and> (\<forall>r\<in>set (db_records ?d2). dr_app r \<noteq> ga_id app)"
    by (rule consume_seed_Inr [OF seed])
  have "seed_rows_ok a (rv_manifest rv) d rows"
    using rows(2) unfolding seed_rows_ok_def app_bytes_def by (auto simp: d1 ids)
  then have "promoted now d app rv rows d'"
    using rows(1,3,4) unfolding promoted_def deploy_frame_def by (simp add: d1 ids)
  then show thesis by (rule that [OF rv(1) ids(1) rv(2,3) app(1) ids(2) app(2) ex _ dp])
qed

section \<open>The invariant of deployments\<close>

definition revision_live :: "(string \<Rightarrow> string) \<Rightarrow> db \<Rightarrow> uuid \<Rightarrow> uuid \<Rightarrow> bool" where
  "revision_live sha d a i \<longleftrightarrow>
     (case find_revision d i of None \<Rightarrow> False
      | Some rv \<Rightarrow> rv_app rv = a \<and> promotable sha rv \<and> rv_seed_applied rv \<noteq> None)"

definition deployment_ok :: "(string \<Rightarrow> string) \<Rightarrow> db \<Rightarrow> deployment_row \<Rightarrow> bool" where
  "deployment_ok sha d dp \<longleftrightarrow> dp_app dp < db_next d \<and> 1 \<le> dp_version dp \<and>
     revision_live sha d (dp_app dp) (dp_active dp) \<and>
     (case dp_previous dp of None \<Rightarrow> True
      | Some p \<Rightarrow> p \<noteq> dp_active dp \<and> revision_live sha d (dp_app dp) p)"

definition deploy_ok :: "(string \<Rightarrow> string) \<Rightarrow> db \<Rightarrow> bool" where
  "deploy_ok sha d \<longleftrightarrow>
     distinct (map ga_id (db_apps d)) \<and> (\<forall>app\<in>set (db_apps d). ga_id app < db_next d) \<and>
     distinct (map rv_id (db_revisions d)) \<and>
     (\<forall>rv\<in>set (db_revisions d). rv_id rv < db_next d \<and> rv_app rv < db_next d) \<and>
     distinct (map (\<lambda>rv. (rv_app rv, rv_number rv)) (db_revisions d)) \<and>
     distinct (map dp_app (db_deployments d)) \<and> (\<forall>dp\<in>set (db_deployments d). deployment_ok sha d dp)"

lemma deploy_okD:
  assumes "deploy_ok sha d"
  shows "distinct (map ga_id (db_apps d))" "\<forall>app\<in>set (db_apps d). ga_id app < db_next d"
    "distinct (map rv_id (db_revisions d))"
    "\<forall>rv\<in>set (db_revisions d). rv_id rv < db_next d \<and> rv_app rv < db_next d"
    "distinct (map (\<lambda>rv. (rv_app rv, rv_number rv)) (db_revisions d))"
    "distinct (map dp_app (db_deployments d))" "\<forall>dp\<in>set (db_deployments d). deployment_ok sha d dp"
  using assms unfolding deploy_ok_def by blast+

text \<open>A step that leaves apps, revisions and deployments alone keeps the invariant.\<close>

lemma deploy_ok_cong:
  assumes "deploy_ok sha d" "db_apps d' = db_apps d" "db_revisions d' = db_revisions d"
    "db_deployments d' = db_deployments d" "db_next d \<le> db_next d'"
  shows "deploy_ok sha d'"
proof -
  note ok = deploy_okD [OF assms(1)]
  have "deployment_ok sha d dp \<Longrightarrow> deployment_ok sha d' dp" for dp
    using assms(3,5) by (auto simp: deployment_ok_def revision_live_def assms(3) split: option.splits)
  with ok assms(5) show ?thesis unfolding deploy_ok_def assms(2-4) by (auto intro: less_le_trans)
qed

lemma promoted_revisions:
  assumes "promoted now d app rv rows d'"
  shows "map rv_id (db_revisions d') = map rv_id (db_revisions d)"
    "map (\<lambda>r. (rv_app r, rv_number r)) (db_revisions d') = map (\<lambda>r. (rv_app r, rv_number r)) (db_revisions d)"
    "\<exists>p. db_revisions d' = upd_where p (\<lambda>r. r\<lparr>rv_seed_applied := Some now\<rparr>) (db_revisions d)"
proof -
  show p: "\<exists>p. db_revisions d' = upd_where p (\<lambda>r. r\<lparr>rv_seed_applied := Some now\<rparr>) (db_revisions d)"
  proof (cases "rv_seed_applied rv")
    case None
    with assms show ?thesis by (auto simp: promoted_def)
  next
    case (Some t)
    with assms have "db_revisions d' = db_revisions d" by (auto simp: promoted_def)
    then show ?thesis using upd_where_none [of "db_revisions d" "\<lambda>_. False"] by metis
  qed
  then show "map rv_id (db_revisions d') = map rv_id (db_revisions d)"
    "map (\<lambda>r. (rv_app r, rv_number r)) (db_revisions d') = map (\<lambda>r. (rv_app r, rv_number r)) (db_revisions d)"
    by (auto simp: map_upd_where)
qed

lemma promotable_seeded [simp]: "promotable sha (rv\<lparr>rv_seed_applied := t\<rparr>) = promotable sha rv"
  by (simp add: promotable_def)

lemma promoted_live:
  assumes "promoted now d app rv rows d'" "revision_live sha d a i"
  shows "revision_live sha d' a i"
proof -
  from promoted_revisions(3) [OF assms(1)] obtain p where
    p: "db_revisions d' = upd_where p (\<lambda>r. r\<lparr>rv_seed_applied := Some now\<rparr>) (db_revisions d)" ..
  have "find_revision d' i = map_option (\<lambda>r. if p r then r\<lparr>rv_seed_applied := Some now\<rparr> else r) (find_revision d i)"
    unfolding p by (rule row_by_upd_where) simp
  with assms(2) show ?thesis by (auto simp: revision_live_def split: option.splits)
qed

lemma promoted_new_live:
  assumes "promoted now d app rv rows d'" "find_revision d (rv_id rv) = Some rv" "promotable sha rv"
  shows "revision_live sha d' (rv_app rv) (rv_id rv)"
proof (cases "rv_seed_applied rv")
  case None
  with assms(1) have r: "db_revisions d' = upd_where (\<lambda>r. rv_id r = rv_id rv) (\<lambda>r. r\<lparr>rv_seed_applied := Some now\<rparr>) (db_revisions d)"
    by (simp add: promoted_def)
  have "find_revision d' (rv_id rv) = Some (rv\<lparr>rv_seed_applied := Some now\<rparr>)"
    unfolding r using assms(2) by (subst row_by_upd_where) simp_all
  with assms(3) show ?thesis by (simp add: revision_live_def)
next
  case (Some t)
  with assms show ?thesis by (auto simp: promoted_def revision_live_def)
qed

lemma promoted_deploy_ok:
  assumes ok: "deploy_ok sha d" and pr: "promoted now d app rv rows d'"
    and rv: "find_revision d (rv_id rv) = Some rv" "rv_app rv = ga_id app" "promotable sha rv"
    and app: "find_app d (ga_id app) = Some app"
  shows "deploy_ok sha d'"
proof -
  note ok' = deploy_okD [OF ok]
  have le: "db_next d \<le> db_next d'" using pr by (simp add: promoted_def)
  have apps: "map ga_id (db_apps d') = map ga_id (db_apps d)"
    using pr by (simp add: promoted_def map_upd_where show_revision_def)
  have old: "deployment_ok sha d' dp" if "dp \<in> set (db_deployments d)" for dp
    using ok'(7) that le promoted_live [OF pr, of sha] unfolding deployment_ok_def
    by (auto split: option.splits)
  have new: "revision_live sha d' (ga_id app) (rv_id rv)" using promoted_new_live [OF pr rv(1,3)] rv(2) by simp
  have a: "ga_id app < db_next d'" using ok'(2) row_by_Some [OF app] le by auto
  have deps: "db_deployments d' = moved_deployments now d (ga_id app) (rv_id rv)" using pr by (simp add: promoted_def)
  have "distinct (map dp_app (db_deployments d')) \<and> (\<forall>dp\<in>set (db_deployments d'). deployment_ok sha d' dp)"
  proof (cases "find_deployment d (ga_id app)")
    case None
    then have "ga_id app \<notin> dp_app ` set (db_deployments d)" by (simp add: row_by_None)
    with None ok'(6) old new a show ?thesis
      by (auto simp: deps moved_deployments_def deployment_ok_def)
  next
    case (Some q)
    from row_by_Some [OF Some] have q: "q \<in> set (db_deployments d)" "dp_app q = ga_id app" by simp_all
    show ?thesis
    proof (cases "dp_active q = rv_id rv")
      case True
      with Some ok'(6) old show ?thesis by (simp add: deps moved_deployments_def)
    next
      case False
      let ?f = "\<lambda>q. q\<lparr>dp_previous := Some (dp_active q), dp_active := rv_id rv, dp_version := dp_version q + 1, dp_at := now\<rparr>"
      have here: "deployment_ok sha d' (?f p)" if "p \<in> set (db_deployments d)" "dp_app p = ga_id app" for p
      proof -
        have "p = q" using distinct_same [OF ok'(6) that(1) q(1)] that(2) q(2) by simp
        with old [OF q(1)] False new q(2) show ?thesis by (auto simp: deployment_ok_def)
      qed
      from False Some have "db_deployments d' = upd_where (\<lambda>q. dp_app q = ga_id app) ?f (db_deployments d)"
        by (simp add: deps moved_deployments_def)
      with here old ok'(6) show ?thesis by (simp add: map_upd_where ball_upd_where)
    qed
  qed
  moreover have "\<forall>r\<in>set (db_revisions d'). rv_id r < db_next d' \<and> rv_app r < db_next d'"
    using promoted_revisions(3) [OF pr] ok'(4) le by (force simp: in_set_upd_where)
  moreover have "\<forall>app\<in>set (db_apps d'). ga_id app < db_next d'"
  proof -
    have "\<forall>i\<in>set (map ga_id (db_apps d')). i < db_next d'" unfolding apps using ok'(2) le by auto
    then show ?thesis by simp
  qed
  ultimately show ?thesis
    using ok' unfolding deploy_ok_def promoted_revisions(1,2) [OF pr] apps by blast
qed

section \<open>Records across a promotion\<close>

lemma promoted_data_ok:
  assumes pr: "promoted now d app rv rows d'" and ok: "data_ok d"
  shows "data_ok d'"
proof -
  let ?n = "db_next d" and ?a = "ga_id app"
  have d': "db_next d' = ?n + length rows" "db_records d' = db_records d @ rows" "length rows \<le> 4800"
    and new: "map dr_id rows = [?n ..< ?n + length rows]"
      "\<forall>r\<in>set rows. dr_app r = ?a \<and> dr_version r = 1 \<and> dr_bytes r = json_size (JObj (dr_data r)) \<and> dr_bytes r \<le> MAX_RECORD_BYTES"
      "rows \<noteq> [] \<longrightarrow> app_bytes d ?a + sum_list (map dr_bytes rows) \<le> MAX_DATA_BYTES_PER_APP"
      "rows \<noteq> [] \<longrightarrow> (\<forall>r\<in>set (db_records d). dr_app r \<noteq> ?a)"
    using pr by (auto simp: promoted_def seed_rows_ok_def)
  have old: "distinct (map dr_id (db_records d))" "\<forall>r\<in>set (db_records d). row_ok d r"
    "\<And>b. app_bytes d b \<le> MAX_DATA_BYTES_PER_APP" "\<And>b. count_where (\<lambda>r. dr_app r = b) (db_records d) \<le> MAX_RECORDS_PER_APP"
    using ok by (simp_all add: data_ok_def)
  have ids: "dr_id ` set rows = {?n ..< ?n + length rows}" using new(1) by (metis list.set_map set_upt)
  have "distinct (map dr_id rows)" using new(1) by simp
  moreover have "dr_id ` set (db_records d) \<inter> dr_id ` set rows = {}"
    using old(2) unfolding ids by (auto simp: row_ok_def)
  ultimately have "distinct (map dr_id (db_records d'))" using old(1) d'(2) by simp
  moreover have "\<forall>r\<in>set (db_records d'). row_ok d' r"
  proof
    fix r assume "r \<in> set (db_records d')"
    then consider "r \<in> set (db_records d)" | "r \<in> set rows" using d'(2) by auto
    then show "row_ok d' r"
    proof cases
      case 1
      with old(2) d'(1) show ?thesis by (auto simp: row_ok_def)
    next
      case 2
      then have "dr_id r \<in> {?n ..< ?n + length rows}" using ids by blast
      with 2 new(2) d'(1) show ?thesis by (auto simp: row_ok_def)
    qed
  qed
  moreover have "app_bytes d' b \<le> MAX_DATA_BYTES_PER_APP \<and>
      count_where (\<lambda>r. dr_app r = b) (db_records d') \<le> MAX_RECORDS_PER_APP" for b
  proof (cases "b = ?a \<and> rows \<noteq> []")
    case True
    then have "app_bytes d' b = app_bytes d ?a + sum_list (map dr_bytes rows)"
      using d'(2) new(2) by (simp add: app_bytes_def sum_where_all)
    moreover have "count_where (\<lambda>r. dr_app r = b) (db_records d') = int (length rows)"
      using True d'(2) new(2,4) by (simp add: count_where_def)
    ultimately show ?thesis using True new(3) d'(3) by (simp add: MAX_RECORDS_PER_APP_def)
  next
    case False
    then have "filter (\<lambda>r. dr_app r = b) rows = []" using new(2) by (auto simp: filter_empty_conv)
    with old(3,4) [of b] d'(2) show ?thesis by (simp add: app_bytes_def sum_where_def count_where_def)
  qed
  ultimately show ?thesis unfolding data_ok_def by blast
qed

text \<open>A promotion changes the deployed manifest of its app, and of no other.\<close>

lemma moved_other:
  assumes "b \<noteq> a"
  shows "row_by dp_app b (moved_deployments now d a rid) = find_deployment d b"
proof (cases "find_deployment d b")
  case None
  with assms show ?thesis
    by (auto simp: moved_deployments_def row_by_append row_by_upd_where split: option.splits)
next
  case (Some q)
  from row_by_Some [OF Some] have "dp_app q = b" by simp
  with Some assms show ?thesis
    by (auto simp: moved_deployments_def row_by_append row_by_upd_where split: option.splits)
qed

lemma moved_cong:
  assumes "db_deployments d' = db_deployments d"
  shows "moved_deployments now d' a rid = moved_deployments now d a rid"
  unfolding moved_deployments_def assms ..

lemma moved_here: "\<exists>dp. row_by dp_app a (moved_deployments now d a rid) = Some dp \<and> dp_active dp = rid"
proof (cases "find_deployment d a")
  case None
  then show ?thesis by (simp add: moved_deployments_def row_by_append)
next
  case (Some q)
  from row_by_Some [OF Some] have "dp_app q = a" by simp
  with Some show ?thesis by (simp add: moved_deployments_def row_by_upd_where)
qed

lemma promoted_manifest:
  assumes pr: "promoted now d app rv rows d'" and rv: "find_revision d (rv_id rv) = Some rv"
    and m: "active_manifest d' b = Inr m"
  shows "(b = ga_id app \<and> m = rv_manifest rv) \<or> (b \<noteq> ga_id app \<and> active_manifest d b = Inr m)"
proof -
  have apps: "find_app d' b = map_option (\<lambda>x. if ga_id x = ga_id app then show_revision now rv x else x) (find_app d b)"
    using pr by (simp add: promoted_def row_by_upd_where show_revision_def)
  from promoted_revisions(3) [OF pr] obtain p where
    p: "db_revisions d' = upd_where p (\<lambda>r. r\<lparr>rv_seed_applied := Some now\<rparr>) (db_revisions d)" ..
  have man: "map_option rv_manifest (find_revision d' i) = map_option rv_manifest (find_revision d i)" for i
    unfolding p by (subst row_by_upd_where) (auto simp: option.map_comp comp_def intro!: map_option_cong)
  have deps: "db_deployments d' = moved_deployments now d (ga_id app) (rv_id rv)" using pr by (simp add: promoted_def)
  from m obtain app' dp r where x: "find_app d' b = Some app'" "ga_status app' = AppActive" "ga_runtime app' = CodeRuntime"
    "find_deployment d' b = Some dp" "find_revision d' (dp_active dp) = Some r" "m = rv_manifest r"
    by (auto simp: result_simps)
  show ?thesis
  proof (cases "b = ga_id app")
    case True
    with x(4) moved_here [of "ga_id app" now d "rv_id rv"] have "dp_active dp = rv_id rv" by (auto simp: deps)
    with man [of "rv_id rv"] x(5,6) rv True show ?thesis by simp
  next
    case False
    with x(4) have "find_deployment d b = Some dp" by (simp add: deps moved_other)
    moreover from x(1-3) apps have "\<exists>y. find_app d b = Some y \<and> ga_status y = AppActive \<and> ga_runtime y = CodeRuntime"
      by (auto simp: show_revision_def split: if_splits)
    moreover from man [of "dp_active dp"] x(5,6) have "\<exists>q. find_revision d (dp_active dp) = Some q \<and> m = rv_manifest q"
      by (cases "find_revision d (dp_active dp)") auto
    ultimately show ?thesis using False by (auto simp: result_simps)
  qed
qed

lemma promoted_schema_ok:
  assumes pr: "promoted now d app rv rows d'" and rv: "find_revision d (rv_id rv) = Some rv"
    and live: "\<forall>r\<in>set (db_records d). dr_app r = ga_id app \<longrightarrow> conforms (rv_manifest rv) r" and ok: "schema_ok d"
  shows "schema_ok d'"
  unfolding schema_ok_def
proof (intro ballI allI impI)
  fix r m assume r: "r \<in> set (db_records d')" and m: "active_manifest d' (dr_app r) = Inr m"
  have rows: "db_records d' = db_records d @ rows" "\<forall>r\<in>set rows. dr_app r = ga_id app \<and> conforms (rv_manifest rv) r"
    using pr by (auto simp: promoted_def seed_rows_ok_def)
  from promoted_manifest [OF pr rv m] show "conforms m r"
    using r rows live ok by (auto simp: schema_ok_def)
qed

section \<open>Completion\<close>

lemma move_deployment_frame: "move_deployment now d a rid ex = Inr d' \<Longrightarrow> \<exists>ds. d' = d\<lparr>db_deployments := ds\<rparr>"
proof -
  have same: "\<exists>ds. d = d\<lparr>db_deployments := ds\<rparr>" by (rule exI [of _ "db_deployments d"]) simp
  assume "move_deployment now d a rid ex = Inr d'"
  then show ?thesis
    unfolding move_deployment_def Let_def using same by (auto split: if_splits option.splits)
qed

lemma promote_frame:
  assumes "promote_revision sha now d a rid ex = Inr (dp, d')"
  shows "deploy_frame d d' \<and> db_next d \<le> db_next d'"
proof -
  from assms obtain rv app d1 where mv: "move_deployment now d a rid ex = Inr d1"
    and seed: "consume_seed now (find_deployment d a = None) app rv
        (d1\<lparr>db_apps := upd_where (\<lambda>a'. ga_id a' = a) (show_revision now rv) (db_apps d1)\<rparr>) = Inr d'"
    unfolding promote_revision_def bindR_Inr by auto
  from move_deployment_frame [OF mv] obtain ds where "d1 = d\<lparr>db_deployments := ds\<rparr>" ..
  with seed show ?thesis by (elim consume_seed_Inr) (simp add: deploy_frame_def)
qed

lemma promote_apps:
  assumes "promote_revision sha now d a rid ex = Inr (dp, d')"
  shows "\<exists>rv. db_apps d' = upd_where (\<lambda>x. ga_id x = a) (show_revision now rv) (db_apps d)"
proof -
  from assms obtain rv app d1 where mv: "move_deployment now d a rid ex = Inr d1"
    and seed: "consume_seed now (find_deployment d a = None) app rv
        (d1\<lparr>db_apps := upd_where (\<lambda>a'. ga_id a' = a) (show_revision now rv) (db_apps d1)\<rparr>) = Inr d'"
    unfolding promote_revision_def bindR_Inr by auto
  from move_deployment_frame [OF mv] obtain ds where "d1 = d\<lparr>db_deployments := ds\<rparr>" ..
  with seed show ?thesis by (elim consume_seed_Inr) auto
qed

text \<open>The ticket of the completion link is a fresh one of the app; only a direct conversation's private
  app gives the owner's role, bound to the owner.\<close>

lemma handoff_ticket_Inr:
  assumes "handoff_ticket sha now raw d app = Inr (ticket, d')"
  obtains t where "ticket = raw" "d' = d\<lparr>db_next := db_next d + 1, db_tickets := db_tickets d @ [t]\<rparr>"
    "tk_app t = ga_id app" "tk_hash t = sha raw" "tk_count t = 0"
    "tk_role t = Owner \<longrightarrow> ga_access app = PrivateLink \<and> tk_principal t = Some (ga_user app) \<and>
       (\<forall>c. find_conv d (ga_conv app) = Some c \<longrightarrow> cv_kind c = DirectConv)"
proof -
  have own: "issue_access_ticket sha now raw d (ga_id app) (ga_user app)
        (if ga_access app = CollaborativeLink then None else Some (ga_user app))
        (role_str (if ga_access app = CollaborativeLink then Member else Owner)) MAX_ACCESS_TICKET_TTL_SECONDS =
        Inr (ticket, d') \<and> (\<forall>c. find_conv d (ga_conv app) = Some c \<longrightarrow> cv_kind c = DirectConv) \<or>
      (\<exists>c. issue_trusted_group_handoff_ticket sha now raw d app c MAX_ACCESS_TICKET_TTL_SECONDS = Inr (ticket, d'))"
  proof (cases "find_conv d (ga_conv app)")
    case None
    with assms show ?thesis by (simp add: handoff_ticket_def)
  next
    case (Some c)
    with assms show ?thesis by (cases "cv_kind c") (auto simp: handoff_ticket_def)
  qed
  then show thesis
  proof (elim disjE conjE exE)
    assume t: "issue_access_ticket sha now raw d (ga_id app) (ga_user app)
        (if ga_access app = CollaborativeLink then None else Some (ga_user app))
        (role_str (if ga_access app = CollaborativeLink then Member else Owner)) MAX_ACCESS_TICKET_TTL_SECONDS =
        Inr (ticket, d')" and c: "\<forall>c. find_conv d (ga_conv app) = Some c \<longrightarrow> cv_kind c = DirectConv"
    show thesis
    proof (cases "ga_access app")
      case PrivateLink
      with t c show thesis unfolding issue_access_ticket_def bindR_Inr if_Inr_raise persist_access_ticket_Inr
        by (elim exE conjE) (rule that, auto)
    next
      case CollaborativeLink
      with t c show thesis unfolding issue_access_ticket_def bindR_Inr if_Inr_raise persist_access_ticket_Inr
        by (elim exE conjE) (rule that, auto)
    qed
  next
    fix c assume "issue_trusted_group_handoff_ticket sha now raw d app c MAX_ACCESS_TICKET_TTL_SECONDS = Inr (ticket, d')"
    then show thesis unfolding issue_trusted_group_handoff_ticket_def if_Inr_raise persist_access_ticket_Inr
      by (elim exE conjE) (rule that, auto)
  qed
qed

lemma completion_link_Inr:
  assumes "completion_link sha now raw d app j b = Inr (url, j', d')"
  obtains u where "j' = j\<lparr>jb_url := u\<rparr>" "bo_handoff b = None \<longrightarrow> d' = d"
    "bo_handoff b \<noteq> None \<longrightarrow> (\<exists>base ticket. text_value (JStr base) 4000 = Inr base \<and>
       handoff_ticket sha now raw d app = Inr (ticket, d') \<and> url = base @ ''#handoff='' @ ticket)"
proof (cases "bo_handoff b")
  case None
  with assms show thesis by (intro that [of "jb_url j"]) (simp_all add: completion_link_def)
next
  case (Some base)
  with assms obtain ticket clean where t: "handoff_ticket sha now raw d app = Inr (ticket, d')"
    and c: "text_value (JStr base) 4000 = Inr clean" and url: "url = clean @ ''#handoff='' @ ticket" "j' = j\<lparr>jb_url := url\<rparr>"
    unfolding completion_link_def Some option.case Let_def bindR_Inr split_paired_Ex prod.case sum.inject prod.inject
    by (elim exE conjE) simp
  show thesis
    by (rule that [OF url(2)]) (use Some t text_value_idem [OF c] url(1) in auto)
qed

lemma complete_build_Inr:
  assumes "complete_build sha now raw d i w n b = Inr (res, d')"
  obtains j app rv dp d2 j1 d3 url where
    "claimed_job d i w n = Inr j" "check_build_output sha b = Inr ()" "locked_code_app d (jb_app j) = Inr app"
    "new_revision now d j app b = Inr rv"
    "\<forall>r\<in>set (db_records d). dr_app r = jb_app j \<longrightarrow> conforms (bo_manifest b) r"
    "promote_revision sha now (d\<lparr>db_next := db_next d + 1, db_revisions := db_revisions d @ [rv]\<rparr>)
       (jb_app j) (rv_id rv) (Some (jb_base j)) = Inr (dp, d2)"
    "completion_link sha now raw d2 (show_revision now rv app) (succeeded_job now rv b j) b = Inr (url, j1, d3)"
    "res = rv\<lparr>rv_seed_applied := Some now\<rparr>"
    "d' = snd (enqueue_user_event now (set_job j1 d3) (ga_user app) (Some (ga_conv app))
       ''app.build.completed'' ''generated_app_builder'' (completed_event_key (jb_id j))
       (build_completed_payload now (show_revision now rv app) rv j1 url b) (jb_provider j))"
proof -
  have same: "ga_user (show_revision now rv app) = ga_user app" "ga_conv (show_revision now rv app) = ga_conv app" for rv app
    by (simp_all add: show_revision_def)
  from assms show thesis
    unfolding complete_build_def Let_def bindR_Inr split_paired_Ex prod.case sum.inject prod.inject
      validate_existing_Inr same
    by (elim exE conjE) (rule that, (assumption | erule sym | simp)+)
qed

lemma new_revision_Inr:
  assumes "new_revision now d j app b = Inr rv"
  shows "rv_id rv = db_next d \<and> rv_app rv = jb_app j \<and> rv_number rv = next_revision_number d (jb_app j) \<and>
    rv_manifest rv = bo_manifest b \<and> rv_artifact rv = or_empty (bo_artifact b) \<and> rv_seed_applied rv = None \<and>
    rv_status rv = RevReady \<and> rv_title rv \<noteq> [] \<and> length (rv_title rv) \<le> 120"
  using assms text_value_bound unfolding new_revision_def Let_def bindR_Inr by auto

lemma foldr_max_ge: "x \<in> set xs \<Longrightarrow> x \<le> foldr max xs (b::int)"
  by (induction xs) auto

lemma next_revision_number_fresh:
  "r \<in> set (db_revisions d) \<Longrightarrow> rv_app r = a \<Longrightarrow> rv_number r < next_revision_number d a"
  using foldr_max_ge [of "rv_number r" "map rv_number (filter (\<lambda>r. rv_app r = a) (db_revisions d))" 0]
  by (simp add: next_revision_number_def)

text \<open>Adding a revision that is not deployed yet.\<close>

lemma added_find_revision:
  "find_revision d i = Some rv \<Longrightarrow> row_by rv_id i (db_revisions d @ rs) = Some rv"
  by (simp add: row_by_append)

lemma added_deploy_ok:
  assumes ok: "deploy_ok sha d" and rv: "rv_id rv = db_next d" "rv_app rv < db_next d"
      "rv_number rv = next_revision_number d (rv_app rv)"
  shows "deploy_ok sha (d\<lparr>db_next := db_next d + 1, db_revisions := db_revisions d @ [rv]\<rparr>)"
proof -
  note ok' = deploy_okD [OF ok]
  let ?d = "d\<lparr>db_next := db_next d + 1, db_revisions := db_revisions d @ [rv]\<rparr>"
  have "revision_live sha d a i \<Longrightarrow> revision_live sha ?d a i" for a i
    by (auto simp: revision_live_def row_by_append split: option.splits)
  then have "deployment_ok sha d dp \<Longrightarrow> deployment_ok sha ?d dp" for dp
    by (auto simp: deployment_ok_def split: option.splits)
  moreover have "rv_id rv \<notin> rv_id ` set (db_revisions d)" using ok'(4) rv(1) by auto
  moreover have "(rv_app rv, rv_number rv) \<notin> (\<lambda>r. (rv_app r, rv_number r)) ` set (db_revisions d)"
    using next_revision_number_fresh [of _ d "rv_app rv"] rv(3) by force
  ultimately show ?thesis
    using ok' rv(1,2) unfolding deploy_ok_def by (auto intro: less_SucI)
qed

lemma added_manifest:
  assumes "deploy_ok sha d"
    and "active_manifest (d\<lparr>db_next := n, db_revisions := db_revisions d @ [rv]\<rparr>) a = Inr m"
  shows "active_manifest d a = Inr m"
proof -
  from assms(2) obtain app dp r where x: "code_app d a = Inr app" "find_deployment d a = Some dp"
    "row_by rv_id (dp_active dp) (db_revisions d @ [rv]) = Some r" "m = rv_manifest r"
    by (auto simp: result_simps)
  from row_by_Some [OF x(2)] deploy_okD(7) [OF assms(1)] have "deployment_ok sha d dp" by blast
  then obtain q where "find_revision d (dp_active dp) = Some q"
    by (auto simp: deployment_ok_def revision_live_def split: option.splits)
  with x show ?thesis by (auto simp: result_simps row_by_append)
qed

lemma data_ok_cong:
  assumes "data_ok d" "db_records d' = db_records d" "db_next d \<le> db_next d'"
  shows "data_ok d'"
  using assms by (auto simp: data_ok_def row_ok_def app_bytes_def)

lemma schema_ok_cong:
  assumes "schema_ok d" "db_records d' = db_records d" "db_apps d' = db_apps d" "db_deployments d' = db_deployments d"
    "db_revisions d' = db_revisions d"
  shows "schema_ok d'"
  using assms active_manifest_cong [OF assms(3-5)] by (simp add: schema_ok_def)

text \<open>The state of an app service: the queue, the deployments and the records.\<close>

definition apps_ok :: "(string \<Rightarrow> string) \<Rightarrow> db \<Rightarrow> bool" where
  "apps_ok sha d \<longleftrightarrow> jobs_ok d \<and> deploy_ok sha d \<and> data_ok d \<and> schema_ok d"

lemma apps_ok_cong:
  assumes "apps_ok sha d" "db_records d' = db_records d" "db_apps d' = db_apps d" "db_deployments d' = db_deployments d"
    "db_revisions d' = db_revisions d" "db_next d \<le> db_next d'" "jobs_ok d'"
  shows "apps_ok sha d'"
  using assms schema_ok_cong [OF _ assms(2-5)] deploy_ok_cong [OF _ assms(3,5,4,6)] data_ok_cong [OF _ assms(2,6)]
  by (simp add: apps_ok_def)

lemma completion_link_frame:
  assumes "completion_link sha now raw d app j b = Inr (url, j', d')"
  shows "db_jobs d' = db_jobs d \<and> db_next d \<le> db_next d' \<and> db_records d' = db_records d \<and> db_apps d' = db_apps d \<and>
    db_deployments d' = db_deployments d \<and> db_revisions d' = db_revisions d \<and> db_events d' = db_events d \<and>
    db_uevents d' = db_uevents d \<and>
    jb_id j' = jb_id j \<and> jb_app j' = jb_app j \<and> jb_key j' = jb_key j \<and> jb_attempts j' = jb_attempts j \<and>
    jb_status j' = jb_status j \<and> jb_completed j' = jb_completed j \<and> jb_result_rev j' = jb_result_rev j"
proof (rule completion_link_Inr [OF assms])
  fix u assume j': "j' = j\<lparr>jb_url := u\<rparr>" and none: "bo_handoff b = None \<longrightarrow> d' = d"
    and some: "bo_handoff b \<noteq> None \<longrightarrow> (\<exists>base ticket. text_value (JStr base) 4000 = Inr base \<and>
       handoff_ticket sha now raw d app = Inr (ticket, d') \<and> url = base @ ''#handoff='' @ ticket)"
  show ?thesis
  proof (cases "bo_handoff b")
    case None
    with none j' show ?thesis by simp
  next
    case (Some base)
    with some obtain ticket where "handoff_ticket sha now raw d app = Inr (ticket, d')" by auto
    then show ?thesis using j' by (elim handoff_ticket_Inr) simp
  qed
qed

text \<open>The job of a completed build, whatever else the completion did.\<close>

lemma complete_build_jobs:
  assumes "complete_build sha now raw d i w n b = Inr (res, d')"
  shows "\<exists>j j1. claimed_job d i w n = Inr j \<and> jb_id j1 = jb_id j \<and> jb_app j1 = jb_app j \<and> jb_key j1 = jb_key j \<and>
    jb_attempts j1 = jb_attempts j \<and> jb_status j1 = Succeeded \<and> jb_completed j1 = Some now \<and>
    jb_result_rev j1 = Some (rv_id res) \<and> db_jobs d' = db_jobs (set_job j1 d) \<and> db_next d \<le> db_next d'"
proof (rule complete_build_Inr [OF assms])
  fix j app rv dp d2 j1 d3 url
  assume j: "claimed_job d i w n = Inr j"
    and pr: "promote_revision sha now (d\<lparr>db_next := db_next d + 1, db_revisions := db_revisions d @ [rv]\<rparr>)
       (jb_app j) (rv_id rv) (Some (jb_base j)) = Inr (dp, d2)"
    and link: "completion_link sha now raw d2 (show_revision now rv app) (succeeded_job now rv b j) b = Inr (url, j1, d3)"
    and res: "res = rv\<lparr>rv_seed_applied := Some now\<rparr>"
    and d': "d' = snd (enqueue_user_event now (set_job j1 d3) (ga_user app) (Some (ga_conv app))
       ''app.build.completed'' ''generated_app_builder'' (completed_event_key (jb_id j))
       (build_completed_payload now (show_revision now rv app) rv j1 url b) (jb_provider j))"
  from promote_frame [OF pr] completion_link_frame [OF link] have
    "db_jobs d3 = db_jobs d" "db_next d \<le> db_next d3" by (auto simp: deploy_frame_def)
  moreover have "db_next d3 \<le> db_next d'" unfolding d' using enqueue_next [of "set_job j1 d3"] by simp
  ultimately show ?thesis
    using j res completion_link_frame [OF link] unfolding d'
    by (intro exI [of _ j] exI [of _ j1]) (simp add: succeeded_job_def)
qed

lemma complete_build_jobs_ok:
  assumes "complete_build sha now raw d i w n b = Inr (res, d')" "jobs_ok d"
  shows "jobs_ok d'"
proof -
  from complete_build_jobs [OF assms(1)] obtain j j1 where j: "claimed_job d i w n = Inr j"
    and same: "jb_id j1 = jb_id j" "jb_app j1 = jb_app j" "jb_key j1 = jb_key j" "jb_attempts j1 = jb_attempts j"
    and st: "jb_status j1 = Succeeded" "jb_completed j1 = Some now"
    and d': "db_jobs d' = db_jobs (set_job j1 d)" "db_next d \<le> db_next d'" by blast
  from claimed_jobD [OF j] assms(2) have jin: "j \<in> set (db_jobs d)" "job_ok j" by (auto simp: jobs_ok_def)
  have "job_ok j1" "\<not> job_live j1" using jin(2) st same(4) by (auto simp: job_ok_def job_live_def)
  then have "jobs_ok (set_job j1 d)" by (intro jobs_ok_set_job [OF assms(2) jin(1) same(1-3)]) simp_all
  with d' show ?thesis by (intro jobs_ok_cong [of d' "set_job j1 d"]) simp_all
qed

interpretation completing: settlement
  "\<lambda>(i, w, n, raw, b) now d. complete_build sha now raw d i w n b"
  "\<lambda>(i, w, n, raw, b). (i, w, n)"
  for sha
proof (unfold_locales, goal_cases)
  case (1 x now d r d')
  obtain i w n raw b where x: "x = (i, w, n, raw, b)" by (cases x)
  with 1 complete_build_jobs show ?case by (fastforce simp: claim_current_iff)
next
  case (2 d x now r d')
  obtain i w n raw b where x: "x = (i, w, n, raw, b)" by (cases x)
  from 2(2) x have "complete_build sha now raw d i w n b = Inr (r, d')" by simp
  from complete_build_jobs [OF this] obtain j j1 where "claimed_job d i w n = Inr j" "jb_id j1 = jb_id j"
    "jb_status j1 \<noteq> Claimed" "db_jobs d' = db_jobs (set_job j1 d)" by auto
  from claim_ends [OF 2(1) this] show ?case by (simp add: x)
next
  case (3 d x now)
  then show ?case by (cases x) (simp add: complete_build_def claimed_job_stale)
qed

lemma moved_previous:
  assumes "find_deployment d a = q" "map_option dp_active q = base" "base \<noteq> Some rid"
    and "row_by dp_app a (moved_deployments now d a rid) = Some dp"
  shows "dp_previous dp = base \<and> dp_active dp = rid \<and>
    dp_version dp = (case q of None \<Rightarrow> 1 | Some q \<Rightarrow> dp_version q + 1) \<and> dp_at dp = now"
proof (cases q)
  case None
  with assms show ?thesis by (auto simp: moved_deployments_def row_by_append)
next
  case (Some p)
  with assms(1) have "dp_app p = a" by (auto dest: row_by_Some)
  with Some assms show ?thesis by (auto simp: moved_deployments_def row_by_upd_where)
qed

text \<open>What a completion left: every invariant, the new revision deployed over the revision the build
  started from, and the event of the completion.\<close>

lemma complete_build_effect:
  assumes run: "complete_build sha now raw d i w n b = Inr (res, d')" and ok: "apps_ok sha d"
  shows "apps_ok sha d' \<and> (\<exists>j dp. claimed_job d i w n = Inr j \<and> find_deployment d' (jb_app j) = Some dp \<and>
    dp_active dp = rv_id res \<and> dp_previous dp = jb_base j \<and>
    map_option dp_active (find_deployment d (jb_app j)) = jb_base j \<and>
    find_revision d' (rv_id res) = Some res \<and> rv_manifest res = bo_manifest b \<and> promotable sha res \<and>
    (\<forall>a. a \<noteq> jb_app j \<longrightarrow> find_deployment d' a = find_deployment d a) \<and>
    completed_event_key i \<in> ue_key ` set (db_uevents d') \<and>
    (\<exists>rows. db_records d' = db_records d @ rows \<and>
       (rows \<noteq> [] \<longrightarrow> jb_base j = None \<and> (\<forall>r\<in>set (db_records d). dr_app r \<noteq> jb_app j))) \<and>
    db_events d' = db_events d)"
proof (rule complete_build_Inr [OF run])
  fix j app rv dp d2 j1 d3 url
  let ?d1 = "d\<lparr>db_next := db_next d + 1, db_revisions := db_revisions d @ [rv]\<rparr>"
  assume j: "claimed_job d i w n = Inr j" and app: "locked_code_app d (jb_app j) = Inr app"
    and rv: "new_revision now d j app b = Inr rv"
    and live: "\<forall>r\<in>set (db_records d). dr_app r = jb_app j \<longrightarrow> conforms (bo_manifest b) r"
    and pr: "promote_revision sha now ?d1 (jb_app j) (rv_id rv) (Some (jb_base j)) = Inr (dp, d2)"
    and link: "completion_link sha now raw d2 (show_revision now rv app) (succeeded_job now rv b j) b = Inr (url, j1, d3)"
    and res: "res = rv\<lparr>rv_seed_applied := Some now\<rparr>"
    and d': "d' = snd (enqueue_user_event now (set_job j1 d3) (ga_user app) (Some (ga_conv app))
       ''app.build.completed'' ''generated_app_builder'' (completed_event_key (jb_id j))
       (build_completed_payload now (show_revision now rv app) rv j1 url b) (jb_provider j))"
  have okd: "jobs_ok d" "deploy_ok sha d" "data_ok d" "schema_ok d" using ok by (simp_all add: apps_ok_def)
  note r = new_revision_Inr [OF rv]
  from app have "find_app d (jb_app j) = Some app" by (simp add: result_simps)
  from row_by_Some [OF this] deploy_okD(2) [OF okd(2)] have ida: "jb_app j < db_next d" by auto
  have ok1: "deploy_ok sha ?d1" using r ida by (intro added_deploy_ok [OF okd(2)]) simp_all
  have fresh: "find_revision d (db_next d) = None" using deploy_okD(4) [OF okd(2)] by (auto simp: row_by_None)
  have frv: "find_revision ?d1 (rv_id rv) = Some rv" using r fresh by (simp add: row_by_append)
  have dist: "distinct (map dp_app (db_deployments ?d1))" using deploy_okD(6) [OF ok1] .
  obtain app' rows where ap: "find_app ?d1 (jb_app j) = Some app'" "ga_id app' = jb_app j"
    and base: "map_option dp_active (find_deployment d (jb_app j)) = jb_base j"
    and good: "promotable sha rv" and mv: "promoted now ?d1 app' rv rows d2" and dp: "find_deployment d2 (jb_app j) = Some dp"
    by (rule promote_revision_Inr [OF pr dist]) (use frv in auto)
  have ok2: "deploy_ok sha d2"
    by (rule promoted_deploy_ok [OF ok1 mv frv _ good]) (use r ap in simp_all)
  have data2: "data_ok d2" by (rule promoted_data_ok [OF mv]) (use okd(3) in \<open>auto simp: data_ok_cong\<close>)
  have "schema_ok ?d1" using okd(4) added_manifest [OF okd(2)] by (fastforce simp: schema_ok_def)
  then have schema2: "schema_ok d2" by (intro promoted_schema_ok [OF mv frv]) (use live r ap in simp_all)
  note lf = completion_link_frame [OF link]
  have same: "db_records d' = db_records d2" "db_apps d' = db_apps d2" "db_deployments d' = db_deployments d2"
    "db_revisions d' = db_revisions d2"
    unfolding d' using lf by simp_all
  have "db_next d3 \<le> db_next d'" unfolding d' using enqueue_next [of "set_job j1 d3"] by simp
  with lf have next_le: "db_next d2 \<le> db_next d'" by simp
  have "apps_ok sha d'"
    using complete_build_jobs_ok [OF run okd(1)] schema_ok_cong [OF schema2 same(1-4)]
      deploy_ok_cong [OF ok2 same(2,4,3) next_le] data_ok_cong [OF data2 same(1) next_le] by (simp add: apps_ok_def)
  moreover have deps: "db_deployments d2 = moved_deployments now d (jb_app j) (rv_id rv)"
    using mv ap(2) moved_cong [of ?d1 d] by (simp add: promoted_def)
  moreover have "jb_base j \<noteq> Some (rv_id rv)"
  proof
    assume b: "jb_base j = Some (rv_id rv)"
    with base obtain q where q: "find_deployment d (jb_app j) = Some q" "dp_active q = rv_id rv" by auto
    then have "deployment_ok sha d q" using deploy_okD(7) [OF okd(2)] row_by_Some by fast
    then have "find_revision d (rv_id rv) \<noteq> None" using q(2)
      by (auto simp: deployment_ok_def revision_live_def split: option.splits)
    with fresh r show False by simp
  qed
  ultimately have prev: "dp_previous dp = jb_base j" "dp_active dp = rv_id rv"
    using moved_previous [OF refl base, of "rv_id rv" now dp] dp by (simp_all add: deps)
  have "find_revision d2 (rv_id rv) = Some res"
  proof -
    have e: "db_revisions d2 = upd_where (\<lambda>r. rv_id r = rv_id rv) (\<lambda>r. r\<lparr>rv_seed_applied := Some now\<rparr>) (db_revisions ?d1)"
      using mv r by (simp add: promoted_def)
    show ?thesis unfolding e by (subst row_by_upd_where) (use frv res in simp_all)
  qed
  moreover have "completed_event_key i \<in> ue_key ` set (db_uevents d')"
    unfolding d' using claimed_jobD [OF j] by (simp add: enqueue_keys)
  moreover have "db_events d' = db_events d"
    unfolding d' using lf mv by (simp add: promoted_def deploy_frame_def set_job_def)
  moreover have "db_records d' = db_records d @ rows"
    "rows \<noteq> [] \<longrightarrow> jb_base j = None \<and> (\<forall>r\<in>set (db_records d). dr_app r \<noteq> jb_app j)"
    using mv base ap(2) same(1) by (auto simp: promoted_def)
  moreover have "\<forall>a. a \<noteq> jb_app j \<longrightarrow> find_deployment d' a = find_deployment d a"
    using moved_other by (simp add: same(3) deps)
  ultimately show ?thesis
    using \<open>apps_ok sha d'\<close> j dp prev base r good res same(3,4)
    by (intro conjI exI [of _ j] exI [of _ dp] exI [of _ rows]) simp_all
qed

text \<open>The outbox after a completion: the event of the build is appended, pending, unless it is there already.\<close>

definition reports_once :: "uuid \<Rightarrow> app_row \<Rightarrow> revision_row \<Rightarrow> uevent_row list \<Rightarrow> uevent_row list \<Rightarrow> bool" where
  "reports_once i app rv rows rows' \<longleftrightarrow>
     (if completed_event_key i \<in> ue_key ` set rows then rows' = rows
      else \<exists>e. rows' = rows @ [e] \<and> ue_key e = completed_event_key i \<and> ue_type e = ''app.build.completed'' \<and>
        ue_user e = ga_user app \<and> ue_conv e = Some (ga_conv app) \<and> ue_status e = EvPending \<and>
        get_or_null (ue_payload e) ''revision_id'' = JStr (str_uuid (rv_id rv)))"

lemma complete_build_reports:
  assumes run: "complete_build sha now raw d i w n b = Inr (rv, d')" and ok: "apps_ok sha d"
  shows "\<exists>j app. claimed_job d i w n = Inr j \<and> locked_code_app d (jb_app j) = Inr app \<and>
    reports_once i app rv (db_uevents d) (db_uevents d')"
proof (rule complete_build_Inr [OF run])
  fix j app rv0 dp d2 j1 d3 url
  let ?d1 = "d\<lparr>db_next := db_next d + 1, db_revisions := db_revisions d @ [rv0]\<rparr>"
  let ?payload = "build_completed_payload now (show_revision now rv0 app) rv0 j1 url b"
  assume j: "claimed_job d i w n = Inr j" and app: "locked_code_app d (jb_app j) = Inr app"
    and pr: "promote_revision sha now ?d1 (jb_app j) (rv_id rv0) (Some (jb_base j)) = Inr (dp, d2)"
    and link: "completion_link sha now raw d2 (show_revision now rv0 app) (succeeded_job now rv0 b j) b = Inr (url, j1, d3)"
    and res: "rv = rv0\<lparr>rv_seed_applied := Some now\<rparr>"
    and d': "d' = snd (enqueue_user_event now (set_job j1 d3) (ga_user app) (Some (ga_conv app))
       ''app.build.completed'' ''generated_app_builder'' (completed_event_key (jb_id j)) ?payload (jb_provider j))"
  have dist: "distinct (map dp_app (db_deployments ?d1))" using deploy_okD(6) [of sha d] ok by (simp add: apps_ok_def)
  obtain app' rv' rows where "promoted now ?d1 app' rv' rows d2"
    by (rule promote_revision_Inr [OF pr dist]) (rule that)
  then have same: "db_uevents (set_job j1 d3) = db_uevents d"
    using completion_link_frame [OF link] by (simp add: promoted_def deploy_frame_def set_job_def)
  have i: "jb_id j = i" using claimed_jobD [OF j] by simp
  have rid: "get_or_null ?payload ''revision_id'' = JStr (str_uuid (rv_id rv))"
    using res by (simp add: build_completed_payload_def get_or_null_def)
  have "reports_once i app rv (db_uevents d) (db_uevents d')"
  proof (rule enqueue_cases [of "completed_event_key i" "set_job j1 d3" now "ga_user app" "Some (ga_conv app)" "''app.build.completed''"
        "''generated_app_builder''" ?payload "jb_provider j"])
    fix e
    assume e: "find (\<lambda>e. ue_key e = completed_event_key i) (db_uevents (set_job j1 d3)) = Some e"
      and "enqueue_user_event now (set_job j1 d3) (ga_user app) (Some (ga_conv app)) ''app.build.completed''
        ''generated_app_builder'' (completed_event_key i) ?payload (jb_provider j) = (e, set_job j1 d3)"
    then have "db_uevents d' = db_uevents d" using d' i same by simp
    with find_SomeD [OF e] same show ?thesis by (auto simp: reports_once_def intro: rev_image_eqI)
  next
    fix e
    assume e: "find (\<lambda>e. ue_key e = completed_event_key i) (db_uevents (set_job j1 d3)) = None"
      "ue_key e = completed_event_key i" "ue_status e = EvPending" "ue_user e = ga_user app" "ue_type e = ''app.build.completed''"
      "ue_conv e = Some (ga_conv app)" "ue_payload e = ?payload"
      and q: "enqueue_user_event now (set_job j1 d3) (ga_user app) (Some (ga_conv app)) ''app.build.completed''
        ''generated_app_builder'' (completed_event_key i) ?payload (jb_provider j) =
        (e, (set_job j1 d3)\<lparr>db_next := db_next (set_job j1 d3) + 1, db_uevents := db_uevents (set_job j1 d3) @ [e]\<rparr>)"
    have "db_uevents d' = db_uevents d @ [e]" using d' i q same by simp
    moreover have "completed_event_key i \<notin> ue_key ` set (db_uevents d)" using e(1) same by (auto simp: find_None_iff)
    ultimately show ?thesis using e(2-7) rid by (simp add: reports_once_def)
  qed
  with j app show ?thesis by blast
qed

section \<open>Rolling back\<close>

lemma rollback_target_Inr:
  assumes "rollback_target d a e = Inr (replaced, target)"
  shows "\<exists>dp p. find_deployment d a = Some dp \<and> dp_previous dp = Some p \<and> dp_active dp = e \<and>
    find_revision d e = Some replaced \<and> find_revision d p = Some target \<and> rv_app target = a \<and> rv_id target = p \<and>
    rv_status target = RevReady \<and> (\<forall>j\<in>set (db_jobs d). jb_app j = a \<longrightarrow> \<not> job_live j)"
  using assms unfolding rollback_target_def
  by (auto split: option.splits if_splits dest: row_by_Some)

lemma swap_back_Inr:
  assumes "swap_back sha now d a u actor e key h = Inr (res, d')" "distinct (map dp_app (db_deployments d))"
  obtains replaced target dp p dp' app d1 ev where
    "find_deployment d a = Some dp" "dp_previous dp = Some p" "dp_active dp = e"
    "find_revision d p = Some target" "rv_id target = p" "rv_app target = a" "rv_status target = RevReady"
    "\<forall>r\<in>set (db_records d). dr_app r = a \<longrightarrow> conforms (rv_manifest target) r"
    "promote_revision sha now d a p None = Inr (dp', d1)"
    "find_app d1 a = Some app"
    "journal_event d1 a (ev_key ev) = None" "ev_app ev = a"
    "key = Some k \<longrightarrow> ev_key ev = k \<and> ev_operation ev = Some ''deployment.rollback'' \<and> ev_hash ev = Some h \<and>
       ev_response ev = RollbackResponse \<lparr>sb_app = a, sb_public = ga_public app, sb_title = ga_title app,
             sb_active = p, sb_number = rv_number target, sb_version = dp_version dp',
             sb_reversible = (dp_previous dp' \<noteq> None)\<rparr>"
    "d' = d1\<lparr>db_next := db_next d1 + 1, db_events := db_events d1 @ [ev]\<rparr>"
    "res = RolledBack \<lparr>ow_app = app, ow_revision = find_revision d1 p, ow_deployment = Some dp',
       ow_build = latest_build d1 a, ow_actor = actor\<rparr>"
proof -
  let ?resp = "\<lambda>app target dp'. \<lparr>sb_app = ga_id app, sb_public = ga_public app, sb_title = ga_title app,
             sb_active = rv_id target, sb_number = rv_number target, sb_version = dp_version dp',
             sb_reversible = (dp_previous dp' \<noteq> None)\<rparr>"
  let ?key = "\<lambda>dp'. case key of None \<Rightarrow> ''app-rollback:'' @ str_int (dp_version dp') | Some k \<Rightarrow> k"
  let ?ev = "\<lambda>replaced target dp' app d1. \<lparr>ev_id = db_next d1, ev_app = a, ev_record = None, ev_entity = None,
                  ev_type = ''app.deployment.rolled_back'', ev_user = Some u, ev_session = None,
                  ev_key = ?key dp',
                  ev_operation = (if key = None then None else Some ''deployment.rollback''),
                  ev_hash = (if key = None then None else Some h),
                  ev_response = (if key = None then NoResponse else RollbackResponse (?resp app target dp')),
                  ev_payload = [(''from_revision_id'', JStr (str_uuid (rv_id replaced))),
                    (''from_revision_number'', JInt (rv_number replaced)),
                    (''to_revision_id'', JStr (str_uuid (rv_id target))),
                    (''to_revision_number'', JInt (rv_number target)),
                    (''deployment_version'', JInt (dp_version dp'))],
                  ev_created = now\<rparr>"
  from assms(1) obtain replaced target dp' app d1 where
    t: "rollback_target d a e = Inr (replaced, target)"
    and live: "\<forall>r\<in>set (db_records d). dr_app r = a \<longrightarrow> conforms (rv_manifest target) r"
    and pr: "promote_revision sha now d a (rv_id target) None = Inr (dp', d1)"
    and app: "find_app d1 a = Some app" and none: "journal_event d1 a (?key dp') = None"
    and d': "d' = d1\<lparr>db_next := db_next d1 + 1, db_events := db_events d1 @ [?ev replaced target dp' app d1]\<rparr>"
    and res: "res = RolledBack \<lparr>ow_app = app, ow_revision = find_revision d1 (rv_id target), ow_deployment = Some dp',
       ow_build = latest_build d1 a, ow_actor = actor\<rparr>"
    unfolding swap_back_def Let_def bindR_Inr split_paired_Ex prod.case validate_existing_Inr if_Inr_raise
      some_or_Inr take_id_def sum.inject prod.inject
    by (auto simp: latest_build_def)
  from rollback_target_Inr [OF t] obtain dp p where
    x: "find_deployment d a = Some dp" "dp_previous dp = Some p" "dp_active dp = e"
      "find_revision d p = Some target" "rv_id target = p" "rv_app target = a" "rv_status target = RevReady" by blast
  from row_by_Some [OF app] have ga: "ga_id app = a" by simp
  show thesis
    by (rule that [where ev = "?ev replaced target dp' app d1", OF x live _ app _ _ _ d'])
      (use pr none res x(5) ga in simp_all)
qed

text \<open>A swap exchanges the two pointers and counts one more deployment; records, jobs and every other app
  stay as they are.\<close>

lemma swap_back_effect:
  assumes run: "swap_back sha now d a u actor e key h = Inr (res, d')" and ok: "apps_ok sha d"
  shows "apps_ok sha d' \<and> (\<exists>dp p dp'. find_deployment d a = Some dp \<and> dp_previous dp = Some p \<and> dp_active dp = e \<and>
    find_deployment d' a = Some dp' \<and> dp_active dp' = p \<and> dp_previous dp' = Some e \<and>
    dp_version dp' = dp_version dp + 1) \<and>
    (\<forall>b. b \<noteq> a \<longrightarrow> find_deployment d' b = find_deployment d b) \<and>
    db_records d' = db_records d \<and> db_jobs d' = db_jobs d \<and> (\<exists>ev. db_events d' = db_events d @ [ev])"
proof -
  have okd: "jobs_ok d" "deploy_ok sha d" "data_ok d" "schema_ok d" using ok by (simp_all add: apps_ok_def)
  note dist = deploy_okD(6) [OF okd(2)]
  obtain target dp p dp' app d1 ev where
    x: "find_deployment d a = Some dp" "dp_previous dp = Some p" "dp_active dp = e"
    and t: "find_revision d p = Some target" "rv_id target = p" "rv_app target = a"
    and live: "\<forall>r\<in>set (db_records d). dr_app r = a \<longrightarrow> conforms (rv_manifest target) r"
    and pr: "promote_revision sha now d a p None = Inr (dp', d1)"
    and d': "d' = d1\<lparr>db_next := db_next d1 + 1, db_events := db_events d1 @ [ev]\<rparr>"
    by (rule swap_back_Inr [OF run dist]) blast
  from deploy_okD(7) [OF okd(2)] row_by_Some [OF x(1)] have "deployment_ok sha d dp" by blast
  with x(2) have pe: "p \<noteq> dp_active dp" "rv_seed_applied target \<noteq> None" using t(1)
    by (auto simp: deployment_ok_def revision_live_def)
  obtain app' rows where ap: "find_app d a = Some app'" "ga_id app' = a" and good: "promotable sha target"
    and mv: "promoted now d app' target rows d1" and dp: "find_deployment d1 a = Some dp'"
    by (rule promote_revision_Inr [OF pr dist]) (use t in auto)
  have frv: "find_revision d (rv_id target) = Some target" using t by simp
  have ok1: "deploy_ok sha d1" by (rule promoted_deploy_ok [OF okd(2) mv frv _ good]) (use t ap in simp_all)
  have data1: "data_ok d1" by (rule promoted_data_ok [OF mv okd(3)])
  have schema1: "schema_ok d1" by (rule promoted_schema_ok [OF mv frv _ okd(4)]) (use live ap in simp)
  have "db_jobs d1 = db_jobs d" "db_next d \<le> db_next d1" using mv by (simp_all add: promoted_def deploy_frame_def)
  then have "jobs_ok d1" using jobs_ok_cong okd(1) by blast
  then have "apps_ok sha d1" using ok1 data1 schema1 by (simp add: apps_ok_def)
  then have "apps_ok sha d'"
    by (rule apps_ok_cong) (use \<open>jobs_ok d1\<close> jobs_ok_cong [of d' d1] in \<open>simp_all add: d'\<close>)
  moreover have deps: "db_deployments d1 = moved_deployments now d a p" using mv ap t by (simp add: promoted_def)
  moreover have "dp_previous dp' = Some e \<and> dp_active dp' = p \<and> dp_version dp' = dp_version dp + 1"
    using moved_previous [OF x(1), of "Some e" p now dp'] x pe(1) dp by (simp add: deps)
  moreover have "rows = []" using mv pe(2) by (auto simp: promoted_def)
  moreover from this have "db_records d1 = db_records d" "db_events d1 = db_events d"
    using mv by (simp_all add: promoted_def deploy_frame_def)
  moreover have "\<forall>b. b \<noteq> a \<longrightarrow> find_deployment d' b = find_deployment d b"
    using moved_other by (simp add: d' deps)
  ultimately show ?thesis
    using x dp \<open>db_jobs d1 = db_jobs d\<close>
    by (intro conjI exI [of _ dp] exI [of _ p] exI [of _ dp'] exI [of _ ev]) (simp_all add: d')
qed

lemma rollback_owned_Inr:
  assumes "rollback_owned_code_app sha now d u a e key0 = Inr (res, d')"
  shows "\<exists>app actor key h. locked_code_app d a = Inr app \<and> ga_user app = u \<and>
    authorize_user_for_locked_app d app u = Inr actor \<and> ac_role actor = Owner \<and> optional_key key0 = Inr key \<and>
    rollback_hash sha e = Inr h \<and>
    (d' = d \<or> swap_back sha now d a u actor e key h = Inr (res, d') \<and>
       (\<forall>k. key = Some k \<longrightarrow> journal_event d a k = None))"
proof -
  from assms obtain app actor key h existing where a: "locked_code_app d a = Inr app" "ga_user app = u"
    "authorize_user_for_locked_app d app u = Inr actor" "ac_role actor = Owner" "optional_key key0 = Inr key"
    "rollback_hash sha e = Inr h"
    and ex: "(case key of None \<Rightarrow> Inr None | Some k \<Rightarrow> event_by_key d a k) = Inr existing"
    and rest: "(case existing of
           Some e \<Rightarrow> bindR (stored_rollback_from_event e app h) (\<lambda>s. Inr (StoredRollbackResult s, d))
         | None \<Rightarrow> swap_back sha now d a u actor e key h) = Inr (res, d')"
    unfolding rollback_owned_code_app_def bindR_Inr if_Inr_raise by blast
  show ?thesis
  proof (cases existing)
    case None
    have "journal_event d a k = None" if "key = Some k" for k
    proof -
      from a(5) that have k: "text_value (JStr k) 160 = Inr k"
        by (auto simp: optional_key_def bindR_Inr text_value_idem split: option.splits)
      from ex that event_by_key_clean [OF k] None show ?thesis by simp
    qed
    with a rest None show ?thesis by fastforce
  next
    case (Some ev)
    with rest have "d' = d" by (auto simp: bindR_Inr)
    with a show ?thesis by blast
  qed
qed

lemma rollback_apps_ok:
  "rollback_owned_code_app sha now d u a e key0 = Inr (res, d') \<Longrightarrow> apps_ok sha d \<Longrightarrow> apps_ok sha d'"
  using rollback_owned_Inr swap_back_effect by fast

text \<open>Promoting a revision whose seed was consumed before changes the pointer and what the app shows, and nothing else.\<close>

lemma promote_again_frame:
  assumes "promote_revision sha now d a i ex = Inr (dp, d')" "find_revision d i = Some rv" "rv_seed_applied rv \<noteq> None"
  shows "\<exists>ds. d' = d\<lparr>db_apps := upd_where (\<lambda>x. ga_id x = a) (show_revision now rv) (db_apps d), db_deployments := ds\<rparr>"
proof -
  from assms(1,2) obtain app d1 where mv: "move_deployment now d a i ex = Inr d1"
    and seed: "consume_seed now (find_deployment d a = None) app rv
        (d1\<lparr>db_apps := upd_where (\<lambda>a'. ga_id a' = a) (show_revision now rv) (db_apps d1)\<rparr>) = Inr d'"
    unfolding promote_revision_def bindR_Inr revision_of_app_Inr by auto
  from move_deployment_frame [OF mv] obtain ds where "d1 = d\<lparr>db_deployments := ds\<rparr>" ..
  with seed assms(3) have "d' = d\<lparr>db_deployments := ds, db_apps := upd_where (\<lambda>x. ga_id x = a) (show_revision now rv) (db_apps d)\<rparr>"
    by (simp add: consume_seed_def)
  then show ?thesis by (intro exI [of _ ds]) simp
qed

lemma swap_back_frame:
  assumes run: "swap_back sha now d a u actor e key h = Inr (res, d')" and ok: "apps_ok sha d"
  shows "\<exists>dp p rv ev ds. find_deployment d a = Some dp \<and> dp_previous dp = Some p \<and> find_revision d p = Some rv \<and>
    d' = d\<lparr>db_next := db_next d + 1, db_apps := upd_where (\<lambda>x. ga_id x = a) (show_revision now rv) (db_apps d),
      db_deployments := ds, db_events := db_events d @ [ev]\<rparr>"
proof -
  have okd: "deploy_ok sha d" using ok by (simp add: apps_ok_def)
  obtain target dp p dp' d1 ev where x: "find_deployment d a = Some dp" "dp_previous dp = Some p" "find_revision d p = Some target"
    and pr: "promote_revision sha now d a p None = Inr (dp', d1)"
    and d': "d' = d1\<lparr>db_next := db_next d1 + 1, db_events := db_events d1 @ [ev]\<rparr>"
    by (rule swap_back_Inr [OF run deploy_okD(6) [OF okd]]) blast
  from deploy_okD(7) [OF okd] row_by_Some [OF x(1)] have "deployment_ok sha d dp" by blast
  with x(2,3) have "rv_seed_applied target \<noteq> None" by (auto simp: deployment_ok_def revision_live_def)
  from promote_again_frame [OF pr x(3) this] obtain ds where
    "d1 = d\<lparr>db_apps := upd_where (\<lambda>x. ga_id x = a) (show_revision now target) (db_apps d), db_deployments := ds\<rparr>" ..
  with x d' show ?thesis by (intro exI [of _ dp] exI [of _ p] exI [of _ target] exI [of _ ev] exI [of _ ds]) simp
qed

lemma show_again: "upd_where (\<lambda>x. ga_id x = a) (show_revision t rv) (upd_where (\<lambda>x. ga_id x = a) (show_revision t' rv') apps) =
  upd_where (\<lambda>x. ga_id x = a) (show_revision t rv) apps"
  by (simp add: upd_where_def show_revision_def)

end
