(* ===== verification/Dot_Samples.thy ===== *)
theory Dot_Samples
  imports App_Records
begin

text \<open>
  A small database the examples of the other theories run on: a user, a direct conversation, and a
  deployed code app of theirs whose manifest declares one entity and asks for the reminder.
\<close>

definition sample_manifest :: obj where
  "sample_manifest =
     [(''schema_version'', JInt 1),
      (''capabilities'', JArr [JStr ''dot.reminder.create'']),
      (''entities'', JArr [JObj
         [(''name'', JStr ''chores''),
          (''fields'', JObj [(''title'', JObj [(''type'', JStr ''string''), (''required'', JBool True)]),
                            (''done'', JObj [(''type'', JStr ''boolean'')])])]])]"

definition sample_app :: app_row where
  "sample_app = \<lparr>ga_id = 10, ga_user = 1, ga_conv = 5, ga_public = ''pub'', ga_title = ''Chores'',
     ga_descr = [], ga_template = ''blank'', ga_theme = ''paper'', ga_access = PrivateLink,
     ga_status = AppActive, ga_version = 1, ga_runtime = CodeRuntime, ga_created = 0, ga_updated = 0\<rparr>"

definition sample_revision :: revision_row where
  "sample_revision = \<lparr>rv_id = 11, rv_app = 10, rv_number = 1, rv_title = ''Chores'', rv_descr = [],
     rv_status = RevReady, rv_manifest = sample_manifest, rv_seed = [], rv_seed_applied = Some 0,
     rv_sources = [], rv_artifact = [], rv_artifact_url = ''u'', rv_artifact_sha = [], rv_sdk = ''1'',
     rv_lock = [], rv_tests = [], rv_created = 0\<rparr>"

definition sample_db :: db where
  "sample_db = empty_db\<lparr>db_next := 100,
     db_users := [\<lparr>us_id = 1, us_phone = Some ''+15550100'', us_name = None, us_opted_out = None, us_phone_verified = None, us_first_seen = 0, us_last_seen = 0\<rparr>],
     db_convs := [\<lparr>cv_id = 5, cv_user = 1, cv_kind = DirectConv, cv_title = None, cv_avatar = None,
       cv_mode = [], cv_owner_source = None, cv_status = ''active'', cv_created = 0, cv_updated = 0\<rparr>],
     db_apps := [sample_app], db_revisions := [sample_revision],
     db_deployments := [\<lparr>dp_app = 10, dp_active = 11, dp_previous = None, dp_version = 1, dp_at = 0\<rparr>]\<rparr>"

definition sample_owner :: app_actor where
  "sample_owner = \<lparr>ac_role = Owner, ac_user = Some 1, ac_session = None, ac_verified = True\<rparr>"

definition sample_data :: json where
  "sample_data = JObj [(''title'', JStr ''dishes''), (''done'', JBool False)]"

text \<open>The state after the owner created a record, and after they updated it.\<close>

definition created_db :: db where
  "created_db = snd (projr (create_data_record id 60 sample_db 10 sample_owner ''chores'' sample_data ''k1''))"

definition updated_db :: db where
  "updated_db = snd (projr (update_data_record id 70 created_db 10 100 sample_owner 1
     (JObj [(''done'', JBool True)]) ''k2''))"

lemma data_ok_sample: "data_ok sample_db"
  by (simp add: data_ok_def sample_db_def empty_db_def app_bytes_def
      MAX_DATA_BYTES_PER_APP_def MAX_RECORDS_PER_APP_def)

lemma created_run: "create_data_record id 60 sample_db 10 sample_owner ''chores'' sample_data ''k1'' =
   Inr (LiveRecord \<lparr>dr_id = 100, dr_app = 10, dr_entity = ''chores'', dr_data = [(''title'', JStr ''dishes''), (''done'', JBool False)],
     dr_bytes = 31, dr_version = 1, dr_created_by = Some 1, dr_updated_by = Some 1, dr_created = 60, dr_updated = 60\<rparr>, created_db)"
  by code_simp

lemma updated_run: "update_data_record id 70 created_db 10 100 sample_owner 1 (JObj [(''done'', JBool True)]) ''k2'' =
   Inr (LiveRecord \<lparr>dr_id = 100, dr_app = 10, dr_entity = ''chores'', dr_data = [(''title'', JStr ''dishes''), (''done'', JBool True)],
     dr_bytes = 30, dr_version = 2, dr_created_by = Some 1, dr_updated_by = Some 1, dr_created = 60, dr_updated = 70\<rparr>, updated_db)"
  by code_simp

end
