(* ===== verification/App_Access_Laws.thy ===== *)
theory App_Access_Laws
  imports App_Deploy_Facts Dot_Samples
begin

text \<open>
  The laws of access tickets and of owners: a ticket opens one bounded set of sessions, each with the
  ticket's role and never more; and the app of a group nobody has claimed has no owner who could
  administer it.
\<close>

section \<open>From a ticket to a session\<close>

lemma find_append_fresh: "(\<forall>x\<in>set xs. \<not> p x) \<Longrightarrow> p y \<Longrightarrow> find p (xs @ [y]) = Some y"
  by (induction xs) auto

text \<open>C23. A ticket an owner issues opens a session: redeemed under the app's public identifier at any time before it
  expires, which is after the requested time, but at least a minute and at most seven days, it gives a token that speaks for exactly
  the ticket's principal with exactly the ticket's role, as an actor who is never verified, until the session expires, which is
  after its own requested time, but at least five minutes and at most thirty days.\<close>

theorem ticket_opens_session:
  assumes "issue_access_ticket sha now raw d a issuer princ role ttl = Inr (ticket, d1)"
    and "role_of role = Some r" "find (\<lambda>x. ga_public x = p) (db_apps d) = Some app" "ga_id app = a" "distinct (map ga_id (db_apps d))"
    and "\<forall>t\<in>set (db_tickets d). tk_hash t \<noteq> sha raw" "\<forall>s\<in>set (db_sessions d). ss_hash s \<noteq> sha raw2"
    and "later < now + seconds (max 60 (min ttl MAX_ACCESS_TICKET_TTL_SECONDS))" "at < later + seconds (max 300 (min ttl2 (30 * 86400)))"
  shows "\<exists>s d2. redeem_access_ticket sha later raw2 d1 p ticket ttl2 = Inr (raw2, s, d2) \<and>
    authorize_session sha at d2 a raw2 =
      Inr \<lparr>ac_role = r, ac_user = princ, ac_session = Some (ss_id s), ac_verified = False\<rparr> \<and>
    db_sessions d2 = db_sessions d @ [s]"
proof -
  let ?t = "\<lparr>tk_id = db_next d, tk_app = a, tk_issuer = issuer, tk_principal = princ, tk_role = r,
                 tk_hash = sha raw,
                 tk_expires = now + seconds (max 60 (min ttl MAX_ACCESS_TICKET_TTL_SECONDS)),
                 tk_used = None, tk_last = None, tk_count = 0, tk_created = now\<rparr>"
  from assms(1,2) obtain app' where app': "find_app d a = Some app'" "ga_status app' = AppActive" and
    t: "ticket = raw" "d1 = d\<lparr>db_next := db_next d + 1, db_tickets := db_tickets d @ [?t]\<rparr>"
    unfolding issue_access_ticket_def bindR_Inr if_Inr_raise persist_access_ticket_Inr locked_active_app_Inr by auto
  from row_by_distinct [OF assms(5)] find_SomeD [OF assms(3)] assms(4) app' have same: "app = app'" by auto
  let ?s = "\<lparr>ss_id = db_next d1, ss_app = a, ss_user = princ, ss_role = r, ss_hash = sha raw2,
      ss_expires = later + seconds (max 300 (min ttl2 (30 * 86400))), ss_revoked = None, ss_created = later\<rparr>"
  let ?d2 = "d1\<lparr>db_next := db_next d1 + 1,
      db_tickets := upd_where (\<lambda>t. tk_id t = db_next d) (\<lambda>t. t\<lparr>tk_used := (case tk_used t of None \<Rightarrow> Some later | Some u \<Rightarrow> Some u),
        tk_last := Some later, tk_count := tk_count t + 1\<rparr>) (db_tickets d1),
      db_sessions := db_sessions d1 @ [?s]\<rparr>"
  have "ticket_live later ?t" using assms(8) by (simp add: ticket_live_def)
  then have ft: "find (\<lambda>t. tk_app t = ga_id app \<and> tk_hash t = sha ticket \<and> ticket_live later t) (db_tickets d1) = Some ?t"
    unfolding t by (simp, intro find_append_fresh) (use assms(4,6) in auto)
  have lim: "\<not> redemption_limit app \<le> tk_count ?t"
    by (simp add: redemption_limit_def MAX_PRIVATE_TICKET_REDEMPTIONS_def MAX_COLLABORATIVE_TICKET_REDEMPTIONS_def)
  have pub: "find (\<lambda>x. ga_public x = p) (db_apps d1) = Some app" and st: "\<not> ga_status app \<noteq> AppActive"
    using assms(3) t app' same by simp_all
  have red: "redeem_access_ticket sha later raw2 d1 p ticket ttl2 = Inr (raw2, ?s, ?d2)"
    unfolding redeem_access_ticket_def pub option.case if_not_P [OF st] ft if_not_P [OF lim]
    by (simp add: take_id_def assms(4) Let_def)
  have live: "session_live at ?s" using assms(9) by (simp add: session_live_def)
  have "find (\<lambda>s. ss_app s = a \<and> ss_hash s = sha raw2 \<and> session_live at s) (db_sessions ?d2) = Some ?s"
    using live assms(7) t by (simp, intro find_append_fresh) auto
  moreover have "locked_active_app ?d2 a = Inr app" using app' same t by (simp add: locked_active_app_Inr)
  ultimately have "authorize_session sha at ?d2 a raw2 =
      Inr \<lparr>ac_role = r, ac_user = princ, ac_session = Some (ss_id ?s), ac_verified = False\<rparr>"
    unfolding authorize_session_def by (simp add: session_actor_def assms(4))
  with red t show ?thesis by (intro exI [of _ ?s] exI [of _ ?d2]) simp
qed

definition ticket_db :: db where
  "ticket_db = snd (projr (issue_access_ticket (\<lambda>s. s) 10 ''tok'' sample_db 10 1 None ''member'' 60))"

theorem ticket_opens_session_witness:
  "\<exists>s d2. redeem_access_ticket (\<lambda>s. s) 20 ''ses'' ticket_db ''pub'' ''tok'' 60 = Inr (''ses'', s, d2) \<and> ss_role s = Member"
proof -
  have "issue_access_ticket (\<lambda>s. s) 10 ''tok'' sample_db 10 1 None ''member'' 60 = Inr (''tok'', ticket_db)" by code_simp
  moreover have "role_of ''member'' = Some Member" "find (\<lambda>x. ga_public x = ''pub'') (db_apps sample_db) = Some sample_app"
    by code_simp+
  ultimately have "\<exists>s d2. redeem_access_ticket (\<lambda>s. s) 20 ''ses'' ticket_db ''pub'' ''tok'' 60 = Inr (''ses'', s, d2) \<and>
    authorize_session (\<lambda>s. s) 30 d2 10 ''ses'' =
      Inr \<lparr>ac_role = Member, ac_user = None, ac_session = Some (ss_id s), ac_verified = False\<rparr> \<and>
    db_sessions d2 = db_sessions sample_db @ [s]"
    by (rule ticket_opens_session) (simp_all add: sample_app_def sample_db_def empty_db_def seconds_def)
  then show ?thesis
    by (elim exE conjE) (auto simp: authorize_session_def session_actor_def sample_db_def empty_db_def
      split: sum.splits option.splits if_splits)
qed

section \<open>Bounded redemption\<close>

text \<open>One ticket issued or redeemed; the label is the ticket that was redeemed.\<close>

inductive ticket_step :: "(string \<Rightarrow> string) \<Rightarrow> db \<Rightarrow> uuid option \<Rightarrow> db \<Rightarrow> bool" for sha where
  ts_issue: "issue_access_ticket sha now raw d a issuer princ role ttl = Inr (ticket, d') \<Longrightarrow> ticket_step sha d None d'"
| ts_handoff: "issue_trusted_group_handoff_ticket sha now raw d app c ttl = Inr (ticket, d') \<Longrightarrow> ticket_step sha d None d'"
| ts_redeem: "redeem_access_ticket sha now raw d p token ttl = Inr (tok, s, d') \<Longrightarrow>
    \<exists>app. find (\<lambda>a. ga_public a = p) (db_apps d) = Some app \<and>
      find (\<lambda>t. tk_app t = ga_id app \<and> tk_hash t = sha token \<and> ticket_live now t) (db_tickets d) = Some t \<Longrightarrow>
    ticket_step sha d (Some (tk_id t)) d'"

inductive ticket_run :: "(string \<Rightarrow> string) \<Rightarrow> db \<Rightarrow> uuid list \<Rightarrow> db \<Rightarrow> bool" for sha where
  tr_none: "ticket_run sha d [] d"
| tr_step: "ticket_run sha d used d1 \<Longrightarrow> ticket_step sha d1 c d2 \<Longrightarrow>
    ticket_run sha d (used @ (case c of None \<Rightarrow> [] | Some i \<Rightarrow> [i])) d2"

definition tickets_ok :: "db \<Rightarrow> bool" where
  "tickets_ok d \<longleftrightarrow> distinct (map ga_id (db_apps d)) \<and> distinct (map tk_id (db_tickets d)) \<and>
     (\<forall>t\<in>set (db_tickets d). tk_id t < db_next d \<and> 0 \<le> tk_count t)"

lemma issued_step:
  assumes "issue_access_ticket sha now raw d a issuer princ role ttl = Inr (ticket, d') \<or>
    issue_trusted_group_handoff_ticket sha now raw d app c ttl = Inr (ticket, d')"
  shows "\<exists>t. d' = d\<lparr>db_next := db_next d + 1, db_tickets := db_tickets d @ [t]\<rparr> \<and> tk_id t = db_next d \<and> tk_count t = 0"
  using assms unfolding issue_access_ticket_def issue_trusted_group_handoff_ticket_def bindR_Inr if_Inr_raise
    persist_access_ticket_Inr by auto

text \<open>What one step does to every ticket: it keeps its identifier and app, and its count grows by one
  exactly when it is the one redeemed, and then to at most the app's limit.\<close>

lemma ticket_step_effect:
  assumes "ticket_step sha d c d'" "tickets_ok d"
  shows "tickets_ok d' \<and> db_apps d' = db_apps d \<and> set_option c \<subseteq> tk_id ` set (db_tickets d) \<and>
    tk_id ` set (db_tickets d) \<subseteq> tk_id ` set (db_tickets d') \<and>
    (\<forall>t'\<in>set (db_tickets d'). (c \<noteq> Some (tk_id t') \<and> tk_id t' \<notin> tk_id ` set (db_tickets d)) \<or>
      (\<exists>t\<in>set (db_tickets d). tk_id t' = tk_id t \<and> tk_app t' = tk_app t \<and>
        tk_count t' = tk_count t + (if c = Some (tk_id t) then 1 else 0) \<and>
        (\<forall>app. c = Some (tk_id t) \<longrightarrow> find_app d (tk_app t) = Some app \<longrightarrow> tk_count t' \<le> redemption_limit app)))"
  using assms(1)
proof cases
  have new: ?thesis if "c = None" "d' = d\<lparr>db_next := db_next d + 1, db_tickets := db_tickets d @ [t]\<rparr>"
    "tk_id t = db_next d" "tk_count t = 0" for t
    using assms(2) that by (fastforce simp: tickets_ok_def)
  {
    case (ts_issue now raw a issuer princ role ttl ticket)
    with issued_step new show ?thesis by blast
  next
    case (ts_handoff now raw app x ttl ticket)
    with issued_step new show ?thesis by blast
  next
    case (ts_redeem now raw p token ttl tok s t)
    from ts_redeem(2) show ?thesis
    proof (rule redeem_access_ticket_Inr)
      fix app ticket
      assume app: "find (\<lambda>a. ga_public a = p) (db_apps d) = Some app"
        and f: "find (\<lambda>t. tk_app t = ga_id app \<and> tk_hash t = sha token \<and> ticket_live now t) (db_tickets d) = Some ticket"
        and lim: "tk_count ticket < redemption_limit app"
        and d': "d' = d\<lparr>db_next := db_next d + 1,
            db_tickets := upd_where (\<lambda>t. tk_id t = tk_id ticket)
              (\<lambda>t. t\<lparr>tk_used := (case tk_used t of None \<Rightarrow> Some now | Some u \<Rightarrow> Some u),
                    tk_last := Some now, tk_count := tk_count t + 1\<rparr>) (db_tickets d),
            db_sessions := db_sessions d @ [s]\<rparr>"
      from ts_redeem(3) app f have t: "t = ticket" by auto
      from find_SomeD [OF f] have tin: "ticket \<in> set (db_tickets d)" "tk_app ticket = ga_id app" by auto
      have fa: "find_app d (ga_id app) = Some app"
        using assms(2) find_SomeD [OF app] by (auto simp: tickets_ok_def row_by_distinct)
      have only: "q = ticket" if "q \<in> set (db_tickets d)" "tk_id q = tk_id ticket" for q
        using assms(2) that tin(1) by (auto simp: tickets_ok_def distinct_map inj_on_def)
      have ids: "map tk_id (db_tickets d') = map tk_id (db_tickets d)" unfolding d' by (simp add: map_upd_where)
      then have ids': "tk_id ` set (db_tickets d') = tk_id ` set (db_tickets d)" by (metis list.set_map)
      have "tickets_ok d'"
        using assms(2) ids unfolding tickets_ok_def by (fastforce simp: d' in_set_upd_where)
      moreover have "\<forall>t'\<in>set (db_tickets d'). \<exists>q\<in>set (db_tickets d). tk_id t' = tk_id q \<and> tk_app t' = tk_app q \<and>
          tk_count t' = tk_count q + (if c = Some (tk_id q) then 1 else 0) \<and>
          (\<forall>app. c = Some (tk_id q) \<longrightarrow> find_app d (tk_app q) = Some app \<longrightarrow> tk_count t' \<le> redemption_limit app)"
      proof
        fix t' assume "t' \<in> set (db_tickets d')"
        then obtain q where q: "q \<in> set (db_tickets d)" "t' = (if tk_id q = tk_id ticket
            then q\<lparr>tk_used := (case tk_used q of None \<Rightarrow> Some now | Some u \<Rightarrow> Some u),
                    tk_last := Some now, tk_count := tk_count q + 1\<rparr> else q)" by (auto simp: d' in_set_upd_where)
        show "\<exists>q\<in>set (db_tickets d). tk_id t' = tk_id q \<and> tk_app t' = tk_app q \<and>
          tk_count t' = tk_count q + (if c = Some (tk_id q) then 1 else 0) \<and>
          (\<forall>app. c = Some (tk_id q) \<longrightarrow> find_app d (tk_app q) = Some app \<longrightarrow> tk_count t' \<le> redemption_limit app)"
          by (rule bexI [OF _ q(1)]) (use q only [OF q(1)] fa tin lim ts_redeem(1) t in auto)
      qed
      ultimately show ?thesis using ts_redeem(1) t tin ids' by (auto simp: d')
    qed
  }
qed

text \<open>C24. No run of issues and redemptions, under any clock and any tokens, redeems a ticket more often than
  its app's limit: 12 times for a private app, 64 for a collaborative one.\<close>

theorem redemptions_are_bounded:
  assumes "ticket_run sha d used d'" "tickets_ok d" "t \<in> set (db_tickets d')" "tk_id t \<in> set used"
    "find_app d' (tk_app t) = Some app"
  shows "int (count_list used (tk_id t)) \<le> (if ga_access app = CollaborativeLink then 64 else 12)"
proof -
  have "tickets_ok d' \<and> set used \<subseteq> tk_id ` set (db_tickets d') \<and>
    (\<forall>t\<in>set (db_tickets d'). int (count_list used (tk_id t)) \<le> tk_count t \<and>
      (\<forall>app. tk_id t \<in> set used \<longrightarrow> find_app d' (tk_app t) = Some app \<longrightarrow> tk_count t \<le> redemption_limit app))"
    using assms(1,2)
  proof (induction rule: ticket_run.induct)
    case (tr_none d)
    then show ?case by (simp add: tickets_ok_def)
  next
    case (tr_step d used d1 c d2)
    let ?used = "used @ (case c of None \<Rightarrow> [] | Some i \<Rightarrow> [i])"
    from tr_step have ih: "tickets_ok d1" "set used \<subseteq> tk_id ` set (db_tickets d1)"
      "\<forall>t\<in>set (db_tickets d1). int (count_list used (tk_id t)) \<le> tk_count t \<and>
        (\<forall>app. tk_id t \<in> set used \<longrightarrow> find_app d1 (tk_app t) = Some app \<longrightarrow> tk_count t \<le> redemption_limit app)" by auto
    note e = ticket_step_effect [OF tr_step(2) ih(1)]
    have count: "int (count_list ?used k) = int (count_list used k) + (if c = Some k then 1 else 0)" for k
      by (cases c) auto
    have member: "k \<in> set ?used \<longleftrightarrow> k \<in> set used \<or> c = Some k" for k by (cases c) auto
    have "int (count_list ?used (tk_id t')) \<le> tk_count t' \<and>
      (\<forall>app. tk_id t' \<in> set ?used \<longrightarrow> find_app d2 (tk_app t') = Some app \<longrightarrow> tk_count t' \<le> redemption_limit app)"
      if t': "t' \<in> set (db_tickets d2)" for t'
    proof -
      from e t' consider "c \<noteq> Some (tk_id t')" "tk_id t' \<notin> tk_id ` set (db_tickets d1)"
        | t where "t \<in> set (db_tickets d1)" "tk_id t' = tk_id t" "tk_app t' = tk_app t"
          "tk_count t' = tk_count t + (if c = Some (tk_id t) then 1 else 0)"
          "\<forall>app. c = Some (tk_id t) \<longrightarrow> find_app d1 (tk_app t) = Some app \<longrightarrow> tk_count t' \<le> redemption_limit app" by blast
      then show ?thesis
      proof cases
        case 1
        then have "tk_id t' \<notin> set ?used" using ih(2) member by blast
        moreover from this have "count_list ?used (tk_id t') = 0" by (rule iffD2 [OF count_list_0_iff])
        moreover have "0 \<le> tk_count t'" using e t' by (simp add: tickets_ok_def)
        ultimately show ?thesis by simp
      next
        case (2 t)
        with ih(3) have "int (count_list used (tk_id t)) \<le> tk_count t"
          "\<forall>app. tk_id t \<in> set used \<longrightarrow> find_app d1 (tk_app t) = Some app \<longrightarrow> tk_count t \<le> redemption_limit app" by blast+
        with 2 e count member show ?thesis by auto
      qed
    qed
    moreover have "set ?used \<subseteq> tk_id ` set (db_tickets d2)" using ih(2) e by (cases c) auto
    ultimately show ?case using e by blast
  qed
  with assms(3-5) have "int (count_list used (tk_id t)) \<le> redemption_limit app" by force
  then show ?thesis
    unfolding redemption_limit_def MAX_PRIVATE_TICKET_REDEMPTIONS_def MAX_COLLABORATIVE_TICKET_REDEMPTIONS_def .
qed

definition redeemed_db :: db where
  "redeemed_db = snd (snd (projr (redeem_access_ticket (\<lambda>s. s) 20 ''ses'' ticket_db ''pub'' ''tok'' 60)))"

theorem redemptions_are_bounded_witness:
  "ticket_run (\<lambda>s. s) sample_db [100] redeemed_db \<and> int (count_list [100] (100::uuid)) \<le> 12"
proof -
  have issue: "issue_access_ticket (\<lambda>s. s) 10 ''tok'' sample_db 10 1 None ''member'' 60 = Inr (''tok'', ticket_db)" by code_simp
  have "ticket_run (\<lambda>s. s) sample_db [] ticket_db" using tr_step [OF tr_none ts_issue [OF issue]] by simp
  moreover have "ticket_step (\<lambda>s. s) ticket_db (Some 100) redeemed_db"
  proof -
    have "\<exists>tok s. redeem_access_ticket (\<lambda>s. s) 20 ''ses'' ticket_db ''pub'' ''tok'' 60 = Inr (tok, s, redeemed_db)"
    proof -
      have "\<not> isl (redeem_access_ticket (\<lambda>s. s) 20 ''ses'' ticket_db ''pub'' ''tok'' 60)" by code_simp
      then show ?thesis
        by (cases "redeem_access_ticket (\<lambda>s. s) 20 ''ses'' ticket_db ''pub'' ''tok'' 60") (auto simp: redeemed_db_def)
    qed
    then obtain tok s where r: "redeem_access_ticket (\<lambda>s. s) 20 ''ses'' ticket_db ''pub'' ''tok'' 60 = Inr (tok, s, redeemed_db)" by blast
    have "find (\<lambda>a. ga_public a = ''pub'') (db_apps ticket_db) = Some sample_app"
      "map_option tk_id (find (\<lambda>t. tk_app t = ga_id sample_app \<and> tk_hash t = ''tok'' \<and> ticket_live 20 t) (db_tickets ticket_db)) = Some 100"
      by code_simp+
    then show ?thesis using ts_redeem [OF r] by (auto simp: option.map_sel)
  qed
  ultimately have run: "ticket_run (\<lambda>s. s) sample_db [100] redeemed_db" using tr_step by fastforce
  have ok: "tickets_ok sample_db" by (simp add: tickets_ok_def sample_db_def empty_db_def)
  have t: "map tk_id (db_tickets redeemed_db) = [100]" "map tk_app (db_tickets redeemed_db) = [10]"
    and app: "find_app redeemed_db 10 = Some sample_app" by code_simp+
  then obtain x where x: "x \<in> set (db_tickets redeemed_db)" "tk_id x = 100" "tk_app x = 10" by (cases "db_tickets redeemed_db") auto
  from redemptions_are_bounded [OF run ok x(1)] x app run show ?thesis by (simp add: sample_app_def)
qed

section \<open>Unclaimed groups\<close>

text \<open>While nobody has claimed a group, its app has no owner: no user is authorised as one, whether
  recorded as the app's user or as an owning member, no ticket can be issued in an owner's name, and
  nobody can roll it back.\<close>

theorem unclaimed_group_app_has_no_owner:
  assumes "find_app d a = Some app" "unclaimed_group d app"
  shows "(\<forall>u act. authorize_user d a u = Inr act \<longrightarrow> ac_role act \<noteq> Owner) \<and>
    \<not> (\<exists>r. issue_access_ticket sha now raw d a issuer princ role ttl = Inr r) \<and>
    \<not> (\<exists>r. rollback_owned_code_app sha now d u a e key = Inr r)"
proof (intro conjI)
  have none: "ac_role act \<noteq> Owner" if "authorize_user_for_locked_app d app u = Inr act" for u act
    using authorize_user_owner [OF that] assms(2) by blast
  show "\<forall>u act. authorize_user d a u = Inr act \<longrightarrow> ac_role act \<noteq> Owner"
    using none assms(1) by (auto simp: authorize_user_def bindR_Inr locked_active_app_Inr)
  show "\<not> (\<exists>r. issue_access_ticket sha now raw d a issuer princ role ttl = Inr r)"
  proof
    assume "\<exists>r. issue_access_ticket sha now raw d a issuer princ role ttl = Inr r"
    then obtain act where "authorize_user_for_locked_app d app issuer = Inr act" "ac_role act = Owner"
      using assms(1) unfolding issue_access_ticket_def bindR_Inr if_Inr_raise locked_active_app_Inr by auto
    with none show False by blast
  qed
  show "\<not> (\<exists>r. rollback_owned_code_app sha now d u a e key = Inr r)"
  proof
    assume "\<exists>r. rollback_owned_code_app sha now d u a e key = Inr r"
    then obtain res d' where "rollback_owned_code_app sha now d u a e key = Inr (res, d')" by auto
    from rollback_owned_Inr [OF this] obtain act where "authorize_user_for_locked_app d app u = Inr act" "ac_role act = Owner"
      using assms(1) by (auto simp: locked_code_app_Inr)
    with none show False by blast
  qed
qed

definition unclaimed_db :: db where
  "unclaimed_db = sample_db\<lparr>db_convs := [\<lparr>cv_id = 5, cv_user = 1, cv_kind = GroupConv, cv_title = None, cv_avatar = None,
       cv_mode = [], cv_owner_source = Some ''unclaimed'', cv_status = ''active'', cv_created = 0, cv_updated = 0\<rparr>]\<rparr>"

theorem unclaimed_group_app_has_no_owner_witness:
  "\<not> (\<exists>r. issue_access_ticket (\<lambda>s. s) 10 ''tok'' unclaimed_db 10 1 None ''member'' 60 = Inr r)"
proof -
  have "find_app unclaimed_db 10 = Some sample_app" "unclaimed_group unclaimed_db sample_app" by code_simp+
  from unclaimed_group_app_has_no_owner [OF this] show ?thesis by blast
qed

end
