(* ===== verification/Dot_Text.thy ===== *)
theory Dot_Text
  imports Dot_Prelude
begin

text \<open>
  Text the services normalise: \<open>str.split()\<close>, \<open>" ".join(value.strip().split())\<close>, \<open>str.upper\<close> and
  \<open>str.isalnum\<close> on the code points 0 to 255. The two capitals that lie outside that range (of the micro
  sign and of y with diaeresis) are left as they are.
\<close>

section \<open>Words\<close>

text \<open>\<open>str.split()\<close>: the maximal runs of characters that are no white space.\<close>

fun py_split :: "string \<Rightarrow> string list" where
  "py_split [] = []"
| "py_split (c # cs) =
     (if py_isspace c then py_split cs
      else case cs of
        [] \<Rightarrow> [[c]]
      | x # _ \<Rightarrow> if py_isspace x then [c] # py_split cs
                 else (case py_split cs of [] \<Rightarrow> [[c]] | w # ws \<Rightarrow> (c # w) # ws))"

definition spaced :: "string \<Rightarrow> string" where
  "spaced s = join '' '' (py_split (py_strip s))"

definition is_space_free :: "string \<Rightarrow> bool" where
  "is_space_free w \<longleftrightarrow> w \<noteq> [] \<and> (\<forall>c\<in>set w. \<not> py_isspace c)"

lemma py_split_Cons:
  "\<not> py_isspace c \<Longrightarrow> cs \<noteq> [] \<Longrightarrow> py_split (c # cs) =
     (if py_isspace (hd cs) then [c] # py_split cs else case py_split cs of [] \<Rightarrow> [[c]] | w # ws \<Rightarrow> (c # w) # ws)"
  by (cases cs) simp_all

lemma py_split_words: "\<forall>w\<in>set (py_split s). is_space_free w"
proof (induction s)
  case Nil
  show ?case by simp
next
  case (Cons c cs)
  show ?case
  proof (cases "py_isspace c \<or> cs = []")
    case True
    with Cons show ?thesis by (auto simp: is_space_free_def)
  next
    case False
    then show ?thesis using Cons
      by (cases "py_split cs") (auto simp: py_split_Cons is_space_free_def simp del: py_split.simps(2))
  qed
qed

lemma space_is_space: "py_isspace CHR '' ''"
  by code_simp

lemma py_split_word: "is_space_free w \<Longrightarrow> py_split (w @ CHR '' '' # s) = w # py_split s"
proof (induction w)
  case (Cons c w)
  then show ?case
    using space_is_space by (cases w) (auto simp: is_space_free_def split: list.split)
qed (simp add: is_space_free_def)

lemma py_split_single: "is_space_free w \<Longrightarrow> py_split w = [w]"
proof (induction w)
  case (Cons c w)
  then show ?case by (cases w) (auto simp: is_space_free_def split: list.split)
qed (simp add: is_space_free_def)

lemma py_split_join: "\<forall>w\<in>set ws. is_space_free w \<Longrightarrow> py_split (join '' '' ws) = ws"
proof (induction ws)
  case (Cons w ws)
  show ?case
  proof (cases ws)
    case Nil
    then show ?thesis using Cons.prems py_split_single [of w] by simp
  next
    case (Cons v vs)
    have "py_split (join '' '' (w # ws)) = py_split (w @ CHR '' '' # join '' '' ws)" by (simp add: Cons)
    also have "\<dots> = w # py_split (join '' '' ws)" using Cons.prems py_split_word by simp
    also have "\<dots> = w # ws" using Cons.IH Cons.prems by simp
    finally show ?thesis .
  qed
qed simp

lemma py_split_dropWhile: "py_split (dropWhile py_isspace s) = py_split s"
  by (induction s) auto

lemma py_split_snoc: "py_isspace c \<Longrightarrow> py_split (s @ [c]) = py_split s"
proof (induction s)
  case (Cons x s)
  show ?case
  proof (cases "py_isspace x \<or> s = []")
    case True
    with Cons show ?thesis by auto
  next
    case False
    then show ?thesis using Cons by (simp add: py_split_Cons del: py_split.simps(2))
  qed
qed simp

lemma py_split_spaces: "\<forall>c\<in>set t. py_isspace c \<Longrightarrow> py_split (s @ t) = py_split s"
proof (induction t rule: rev_induct)
  case (snoc c t)
  then show ?case using py_split_snoc [of c "s @ t"] by simp
qed simp

lemma py_split_strip: "py_split (py_strip s) = py_split s"
proof -
  let ?r = "rev (dropWhile py_isspace s)"
  have "py_split (rev (dropWhile py_isspace ?r) @ rev (takeWhile py_isspace ?r)) = py_split (rev (dropWhile py_isspace ?r))"
    by (rule py_split_spaces) (auto dest: set_takeWhileD)
  then have "py_split (py_strip s) = py_split (rev (takeWhile py_isspace ?r @ dropWhile py_isspace ?r))"
    by (simp only: py_strip_def rev_append)
  then show ?thesis by (simp add: py_split_dropWhile)
qed

lemma spaced_idem [simp]: "spaced (spaced s) = spaced s"
  by (simp add: spaced_def py_split_strip py_split_join py_split_words)

section \<open>Letters\<close>

text \<open>
  \<open>str.upper\<close> letter by letter. The capitals of two letters, the micro sign (181) and y with diaeresis (255), lie outside the
  code points of the model: they stand for their capitals here, one letter each, alphanumeric and unchanged by a second
  \<open>upper\<close>, as the capitals are.
\<close>

definition upper_char :: "char \<Rightarrow> string" where
  "upper_char c =
     (let n = code_point c in
      if (97 \<le> n \<and> n \<le> 122) \<or> (224 \<le> n \<and> n \<le> 254 \<and> n \<noteq> 247) then [char_of (n - 32)]
      else if n = 223 then ''SS'' else [c])"

definition py_upper :: "string \<Rightarrow> string" where
  "py_upper s = concat (map upper_char s)"

definition lower_char :: "char \<Rightarrow> char" where
  "lower_char c =
     (let n = code_point c in
      if (65 \<le> n \<and> n \<le> 90) \<or> (192 \<le> n \<and> n \<le> 222 \<and> n \<noteq> 215) then char_of (n + 32) else c)"

definition py_lower :: "string \<Rightarrow> string" where
  "py_lower s = map lower_char s"

text \<open>\<open>str.isalnum\<close>: letters, digits and the numeric signs of the range (superscripts and fractions).\<close>

definition is_alnum_char :: "char \<Rightarrow> bool" where
  "is_alnum_char c =
     (let n = code_point c in
      (48 \<le> n \<and> n \<le> 57) \<or> (65 \<le> n \<and> n \<le> 90) \<or> (97 \<le> n \<and> n \<le> 122) \<or>
      n \<in> {170, 178, 179, 181, 185, 186, 188, 189, 190} \<or> (192 \<le> n \<and> n \<noteq> 215 \<and> n \<noteq> 247))"

definition py_isalnum :: "string \<Rightarrow> bool" where
  "py_isalnum s \<longleftrightarrow> s \<noteq> [] \<and> (\<forall>c\<in>set s. is_alnum_char c)"

lemma code_point_bounds: "0 \<le> code_point c" "code_point c < 256"
proof -
  have "code_point c = code_point c mod 256" unfolding code_point_def by (rule of_char_mod_256 [symmetric])
  then show "0 \<le> code_point c" "code_point c < 256" by (metis pos_mod_sign zero_less_numeral, metis pos_mod_bound zero_less_numeral)
qed

lemma code_point_char_of: "0 \<le> n \<Longrightarrow> n < 256 \<Longrightarrow> code_point (char_of n) = n"
  by (simp add: code_point_def)

lemma alnum_char_upper:
  assumes "is_alnum_char c" "x \<in> set (upper_char c)"
  shows "is_alnum_char x \<and> \<not> py_isspace x \<and> upper_char x = [x]"
proof -
  have cases: "(code_point x = code_point c - 32 \<and> ((97 \<le> code_point c \<and> code_point c \<le> 122) \<or> (224 \<le> code_point c \<and> code_point c \<noteq> 247 \<and> code_point c \<noteq> 255)))
      \<or> x = CHR ''S'' \<or> (x = c \<and> upper_char c = [c])"
    using assms(2) code_point_bounds [of c]
    by (auto simp: upper_char_def Let_def code_point_char_of split: if_splits)
  have "code_point CHR ''S'' = 83" by code_simp
  with cases assms(1) code_point_bounds [of c] show ?thesis
    by (elim disjE conjE) (auto simp: is_alnum_char_def py_isspace_def upper_char_def Let_def)
qed

lemma alnum_not_space: "is_alnum_char c \<Longrightarrow> \<not> py_isspace c"
  by (auto simp: is_alnum_char_def py_isspace_def Let_def)

lemma upper_char_twice:
  assumes "x \<in> set (upper_char c)"
  shows "upper_char x = [x]"
proof -
  have "(code_point x = code_point c - 32 \<and> ((97 \<le> code_point c \<and> code_point c \<le> 122) \<or> (224 \<le> code_point c \<and> code_point c \<noteq> 247 \<and> code_point c \<noteq> 255)))
      \<or> x = CHR ''S'' \<or> (x = c \<and> upper_char c = [c])"
    using assms code_point_bounds [of c]
    by (auto simp: upper_char_def Let_def code_point_char_of split: if_splits)
  moreover have "code_point CHR ''S'' = 83" by code_simp
  ultimately show ?thesis using code_point_bounds [of c]
    by (elim disjE conjE) (auto simp: upper_char_def Let_def)
qed

lemma py_upper_twice: "py_upper (py_upper s) = py_upper s"
proof -
  have "concat (map upper_char t) = t" if "\<forall>x\<in>set t. upper_char x = [x]" for t using that by (induction t) auto
  then show ?thesis using upper_char_twice by (simp add: py_upper_def)
qed

lemma py_upper_alnum:
  assumes "py_isalnum s"
  shows "py_isalnum (py_upper s)" "is_space_free (py_upper s)" "py_upper (py_upper s) = py_upper s"
proof -
  have u: "is_alnum_char x \<and> \<not> py_isspace x \<and> upper_char x = [x]" if "x \<in> set (py_upper s)" for x
    using that assms alnum_char_upper by (auto simp: py_upper_def py_isalnum_def)
  have ne: "upper_char c \<noteq> []" for c by (simp add: upper_char_def Let_def)
  then have "py_upper s \<noteq> []" using assms by (cases s) (auto simp: py_upper_def py_isalnum_def)
  then show "py_isalnum (py_upper s)" "is_space_free (py_upper s)" using u by (auto simp: py_isalnum_def is_space_free_def)
  have "concat (map upper_char t) = t" if "\<forall>x\<in>set t. upper_char x = [x]" for t using that by (induction t) auto
  then show "py_upper (py_upper s) = py_upper s" using u by (metis py_upper_def)
qed

lemma spaced_word: "is_space_free w \<Longrightarrow> spaced w = w"
  by (simp add: spaced_def py_split_strip py_split_single)

text \<open>\<open>^[a-z][a-z0-9_]{0,39}$\<close> with \<open>fullmatch\<close>.\<close>

definition is_short_identifier :: "string \<Rightarrow> bool" where
  "is_short_identifier s =
     (case s of [] \<Rightarrow> False
      | c # cs \<Rightarrow> is_lower c \<and> (\<forall>x\<in>set cs. is_lower x \<or> is_digit x \<or> x = CHR ''_'') \<and> length cs \<le> 39)"

end
