(* ===== verification/App_Policy.thy ===== *)
theory App_Policy
  imports Dot_Json Dot_Text
begin

text \<open>
  The source policy of the app builder (\<open>app_builder/policy.py\<close>) and the values it works on
  (\<open>app_builder/types.py\<close>): the checks generated source must pass before it is compiled. The regular
  expressions of the module are searched by a parameter, \<open>lint\<close>: the imports \<open>findall\<close> gives, where the
  pattern of a code first matches, whether a default export is found, and \<open>repr\<close> of a text.
\<close>

section \<open>Values\<close>

record issue =
  is_code :: string
  is_message :: string
  is_path :: "string option"

record source_file =
  sf_path :: string
  sf_contents :: string

record source =
  gs_files :: "source_file list"
  gs_entrypoint :: string
  gs_metadata :: obj

definition issue_dict :: "issue \<Rightarrow> json" where
  "issue_dict i =
     JObj ([(''code'', JStr (is_code i)), (''message'', JStr (is_message i))] @
       (case is_path i of None \<Rightarrow> [] | Some p \<Rightarrow> [(''path'', JStr p)]))"

definition file_dict :: "source_file \<Rightarrow> json" where
  "file_dict f = JObj [(''path'', JStr (sf_path f)), (''contents'', JStr (sf_contents f))]"

record lint =
  lt_imports :: "string \<Rightarrow> string list"
  lt_search :: "string \<Rightarrow> string \<Rightarrow> nat option"
  lt_default_export :: "string \<Rightarrow> bool"
  lt_repr :: "string \<Rightarrow> string"

section \<open>Paths\<close>

text \<open>\<open>PurePosixPath\<close>: empty parts and single dots vanish.\<close>

definition path_parts :: "string \<Rightarrow> string list" where
  "path_parts s = filter (\<lambda>p. p \<noteq> [] \<and> p \<noteq> ''.'') (split_on (CHR ''/'') s)"

definition is_absolute :: "string \<Rightarrow> bool" where
  "is_absolute s \<longleftrightarrow> s \<noteq> [] \<and> hd s = CHR ''/''"

definition path_suffix :: "string \<Rightarrow> string" where
  "path_suffix s =
     (case path_parts s of
        [] \<Rightarrow> []
      | ps \<Rightarrow> let name = last ps; ext = takeWhile (\<lambda>c. c \<noteq> CHR ''.'') (rev name)
              in if ext \<noteq> [] \<and> Suc (length ext) < length name then CHR ''.'' # rev ext else [])"

definition ALLOWED_SOURCE_SUFFIXES :: "string list" where
  "ALLOWED_SOURCE_SUFFIXES = [''.ts'', ''.tsx'']"

definition ALLOWED_IMPORTS :: "string list" where
  "ALLOWED_IMPORTS = [''@dot/app-runtime'', ''@dot/ui'', ''date-fns'', ''lucide-react'', ''motion/react'', ''react'', ''recharts'']"

definition starts_with :: "string \<Rightarrow> string \<Rightarrow> bool" where
  "starts_with p s \<longleftrightarrow> take (length p) s = p"

definition is_allowed_import :: "string \<Rightarrow> bool" where
  "is_allowed_import specifier \<longleftrightarrow> starts_with ''./'' specifier \<or> starts_with ''../'' specifier \<or> specifier \<in> set ALLOWED_IMPORTS"

definition newline :: char where
  "newline = char_of (10::int)"

definition source_location :: "string \<Rightarrow> string \<Rightarrow> nat \<Rightarrow> string" where
  "source_location path contents start =
     (let before_match = take start contents;
          line = length (filter (\<lambda>c. c = newline) before_match) + 1;
          column = length (takeWhile (\<lambda>c. c \<noteq> newline) (rev before_match)) + 1
      in path @ '':'' @ str_int (int line) @ '':'' @ str_int (int column))"

section \<open>Delimiters\<close>

datatype verdict = Balanced | Unbalanced | Unterminated

definition closer :: "char \<Rightarrow> char option" where
  "closer c = map_of [(CHR ''('', CHR '')''), (CHR ''['', CHR '']''), (CHR ''{'', CHR ''}'')] c"

definition opener :: "char \<Rightarrow> char option" where
  "opener c = map_of [(CHR '')'', CHR ''(''), (CHR '']'', CHR ''[''), (CHR ''}'', CHR ''{'')] c"

definition is_quote :: "char \<Rightarrow> bool" where
  "is_quote c \<longleftrightarrow> c = char_of (34::int) \<or> c = char_of (39::int) \<or> c = char_of (96::int)"

definition backslash :: char where
  "backslash = char_of (92::int)"

text \<open>The scan: the stack of open delimiters, the open quote, and whether the last character escapes.\<close>

fun delimiters :: "char list \<Rightarrow> char option \<Rightarrow> bool \<Rightarrow> string \<Rightarrow> verdict" where
  "delimiters stack quote escaped [] = (if quote \<noteq> None \<or> stack \<noteq> [] then Unterminated else Balanced)"
| "delimiters stack (Some q) escaped (c # cs) =
     (if escaped then delimiters stack (Some q) False cs
      else if c = backslash then delimiters stack (Some q) True cs
      else if c = q then delimiters stack None False cs
      else delimiters stack (Some q) False cs)"
| "delimiters stack None escaped (c # cs) =
     (if is_quote c then delimiters stack (Some c) escaped cs
      else if closer c \<noteq> None then delimiters (c # stack) None escaped cs
      else case opener c of
        None \<Rightarrow> delimiters stack None escaped cs
      | Some b \<Rightarrow> (case stack of [] \<Rightarrow> Unbalanced | t # ts \<Rightarrow> if t \<noteq> b then Unbalanced else delimiters ts None escaped cs))"

definition balanced_delimiter_issues :: "string \<Rightarrow> string \<Rightarrow> issue list" where
  "balanced_delimiter_issues v path =
     (case delimiters [] None False v of
        Balanced \<Rightarrow> []
      | Unbalanced \<Rightarrow> [\<lparr>is_code = ''invalid_typescript'', is_message = ''unbalanced delimiter'', is_path = Some path\<rparr>]
      | Unterminated \<Rightarrow> [\<lparr>is_code = ''invalid_typescript'', is_message = ''unterminated string or delimiter'', is_path = Some path\<rparr>])"

section \<open>The policy\<close>

definition FORBIDDEN_PATTERNS :: "string list" where
  "FORBIDDEN_PATTERNS = [''network_access'', ''dynamic_code'', ''dynamic_import'', ''unsafe_html'', ''browser_storage'',
     ''cookie_access'', ''service_worker'', ''direct_host_bridge'', ''beacon_access'', ''location_change'', ''node_runtime'',
     ''external_url'', ''css_import'', ''css_url'']"

definition DESIGN_CONTRACT_PATTERNS :: "(string \<times> string) list" where
  "DESIGN_CONTRACT_PATTERNS =
     [(''reserved_primary_action_marker'', ''data-dot-primary-action is SDK-reserved; use PrimaryWorkflowTrigger''),
      (''reserved_workflow_marker'', ''data-dot workflow markers are SDK-reserved; use WorkflowForm or PrimaryWorkflowTrigger''),
      (''custom_class_name'', ''className is not part of the generated-app design contract; use @dot/ui semantic props''),
      (''inline_style'', ''inline styles are not allowed; use @dot/ui semantic props''),
      (''embedded_style_element'', ''embedded style elements are not allowed; use @dot/ui''),
      (''unbranded_interactive_control'', ''native interactive controls must use the matching @dot/ui component''),
      (''imperative_element_creation'', ''imperative element creation can bypass the generated-app design contract''),
      (''raw_color_value'', ''raw color values are not allowed; use semantic accents or chartTokens''),
      (''raw_color_attribute'', ''visual color attributes must use currentColor, a Dot token, or chartTokens'')]"

definition located :: "lint \<Rightarrow> source_file \<Rightarrow> string \<times> string \<Rightarrow> issue list" where
  "located lt f rule =
     (case lt_search lt (fst rule) (sf_contents f) of
        None \<Rightarrow> []
      | Some start \<Rightarrow> [\<lparr>is_code = fst rule, is_message = snd rule, is_path = Some (source_location (sf_path f) (sf_contents f) start)\<rparr>])"

definition valid_source_path :: "string \<Rightarrow> bool" where
  "valid_source_path p \<longleftrightarrow> \<not> is_absolute p \<and> ''..'' \<notin> set (path_parts p) \<and> starts_with ''src/'' p \<and>
     path_suffix p \<in> set ALLOWED_SOURCE_SUFFIXES"

definition file_issues :: "lint \<Rightarrow> string list \<Rightarrow> source_file \<Rightarrow> issue list" where
  "file_issues lt seen f =
     (let p = sf_path f; at = (\<lambda>c m. \<lparr>is_code = c, is_message = m, is_path = Some p\<rparr>) in
      (if valid_source_path p then [] else [at ''invalid_source_path'' ''source files must be .ts or .tsx files below src/'']) @
      (if p \<in> set seen then [at ''duplicate_source_path'' ''file path is duplicated''] else []) @
      (if 256000 < utf8_size (sf_contents f) then [at ''file_too_large'' ''individual source files may be at most 256 KB''] else []) @
      (if path_suffix p = ''.css''
       then [at ''generated_css_not_allowed'' ''generated CSS is not allowed; compose the branded @dot/ui primitives''] else []) @
      map (\<lambda>s. at ''dependency_not_allowed'' (''dependency '' @ lt_repr lt s @ '' is not in the approved catalog''))
        (filter (\<lambda>s. \<not> is_allowed_import s) (lt_imports lt (sf_contents f))) @
      concat (map (\<lambda>c. located lt f (c, ''source contains forbidden capability: '' @ c)) FORBIDDEN_PATTERNS) @
      (if path_suffix p \<in> {''.ts'', ''.tsx''} then concat (map (located lt f) DESIGN_CONTRACT_PATTERNS) else []))"

fun files_issues :: "lint \<Rightarrow> string list \<Rightarrow> source_file list \<Rightarrow> issue list" where
  "files_issues lt seen [] = []"
| "files_issues lt seen (f # fs) = file_issues lt seen f @ files_issues lt (sf_path f # seen) fs"

definition entrypoint_issues :: "lint \<Rightarrow> source \<Rightarrow> issue list" where
  "entrypoint_issues lt src =
     (let e = gs_entrypoint src; at = (\<lambda>c m. \<lparr>is_code = c, is_message = m, is_path = Some e\<rparr>) in
      case find (\<lambda>f. sf_path f = e) (gs_files src) of
        None \<Rightarrow> [at ''missing_entrypoint'' ''entrypoint is not present in source files'']
      | Some f \<Rightarrow>
          (if lt_default_export lt (sf_contents f) then [] else [at ''missing_default_export'' ''entrypoint must have a default export'']) @
          balanced_delimiter_issues (sf_contents f) e)"

definition inspect_generated_source :: "lint \<Rightarrow> source \<Rightarrow> issue list" where
  "inspect_generated_source lt src =
     (let at = (\<lambda>c m. \<lparr>is_code = c, is_message = m, is_path = None\<rparr>) in
      if gs_files src = [] then [at ''missing_source'' ''build produced no source files'']
      else
        (if 32 < length (gs_files src) then [at ''too_many_files'' ''build may contain at most 32 files''] else []) @
        (if 512000 < sum_list (map (\<lambda>f. utf8_size (sf_contents f)) (gs_files src))
         then [at ''source_too_large'' ''source may be at most 512 KB''] else []) @
        files_issues lt [] (gs_files src) @ entrypoint_issues lt src)"

section \<open>What the scan accepts\<close>

text \<open>The delimiters outside string literals, or none when the text ends inside a literal.\<close>

fun code_brackets :: "char option \<Rightarrow> bool \<Rightarrow> string \<Rightarrow> string option" where
  "code_brackets quote escaped [] = (if quote = None then Some [] else None)"
| "code_brackets (Some q) escaped (c # cs) =
     (if escaped then code_brackets (Some q) False cs
      else if c = backslash then code_brackets (Some q) True cs
      else if c = q then code_brackets None False cs
      else code_brackets (Some q) False cs)"
| "code_brackets None escaped (c # cs) =
     (if is_quote c then code_brackets (Some c) escaped cs
      else if closer c \<noteq> None \<or> opener c \<noteq> None then map_option (\<lambda>ts. c # ts) (code_brackets None escaped cs)
      else code_brackets None escaped cs)"

text \<open>Well-nested words over the delimiters.\<close>

inductive nested :: "string \<Rightarrow> bool" where
  nested_Nil: "nested []"
| nested_pair: "closer c = Some d \<Longrightarrow> nested a \<Longrightarrow> nested b \<Longrightarrow> nested (c # a @ d # b)"

text \<open>A word that closes an open stack.\<close>

inductive closes :: "char list \<Rightarrow> string \<Rightarrow> bool" where
  closes_Nil: "nested a \<Longrightarrow> closes [] a"
| closes_Cons: "nested a \<Longrightarrow> closer c = Some d \<Longrightarrow> closes st b \<Longrightarrow> closes (c # st) (a @ d # b)"

lemma closer_opener: "opener d = Some c \<longleftrightarrow> closer c = Some d"
  by (auto simp: opener_def closer_def split: if_splits)

lemma opener_not_closer: "closer c \<noteq> None \<Longrightarrow> opener c = None"
  by (auto simp: opener_def closer_def split: if_splits)

lemma nested_append: "nested a \<Longrightarrow> nested b \<Longrightarrow> nested (a @ b)"
proof (induction a rule: nested.induct)
  case (nested_pair c d x y)
  then show ?case using nested.nested_pair [of c d x "y @ b"] by simp
qed simp

lemma closes_nested: "closes st b \<Longrightarrow> nested a \<Longrightarrow> closes st (a @ b)"
  by (induction rule: closes.induct) (metis closes.closes_Nil nested_append, metis append_assoc closes.closes_Cons nested_append)

lemma nested_head: "nested (c # ts) \<Longrightarrow> \<exists>d a b. closer c = Some d \<and> nested a \<and> nested b \<and> ts = a @ d # b"
  by (cases rule: nested.cases) auto

lemma closes_end: "closes st [] \<longleftrightarrow> st = []"
  by (auto intro: closes_Nil nested_Nil elim: closes.cases)

lemma closes_open:
  assumes "closer c = Some d"
  shows "closes st (c # ts) \<longleftrightarrow> closes (c # st) ts"
proof
  assume "closes st (c # ts)"
  then show "closes (c # st) ts"
  proof (cases rule: closes.cases)
    case closes_Nil
    then obtain d' a b where "closer c = Some d'" "nested a" "nested b" "ts = a @ d' # b" using nested_head by blast
    then show ?thesis using closes_Nil(1) closes.closes_Cons closes.closes_Nil by simp
  next
    case (closes_Cons a s d' st' b)
    show ?thesis
    proof (cases a)
      case Nil
      then have "closer c = None" using closes_Cons opener_not_closer [of c] closer_opener by (metis append_Nil list.inject option.distinct(1))
      with assms show ?thesis by simp
    next
      case (Cons x a')
      then have a: "nested (c # a')" "ts = a' @ d' # b" using closes_Cons by simp_all
      obtain d1 a1 a2 where n: "closer c = Some d1" "nested a1" "nested a2" "a' = a1 @ d1 # a2" using nested_head [OF a(1)] by blast
      have "closes st (a2 @ d' # b)" using closes_Cons n(3) closes.closes_Cons by blast
      then have "closes (c # st) (a1 @ d1 # (a2 @ d' # b))" using n closes.closes_Cons by blast
      then show ?thesis using a(2) n(4) by simp
    qed
  qed
next
  assume "closes (c # st) ts"
  then obtain a b where a: "nested a" "closes st b" "ts = a @ d # b" using assms by (auto elim: closes.cases)
  have "nested (c # a @ d # [])" using assms a(1) nested_pair nested_Nil by blast
  from closes_nested [OF a(2) this] show "closes st (c # ts)" using a(3) by simp
qed

lemma closes_close:
  assumes "opener c = Some b"
  shows "closes st (c # ts) \<longleftrightarrow> (\<exists>st'. st = b # st' \<and> closes st' ts)"
proof
  have no: "\<not> nested (c # xs)" for xs
  proof
    assume "nested (c # xs)"
    then obtain d where "closer c = Some d" using nested_head by blast
    then show False using opener_not_closer [of c] assms by simp
  qed
  assume "closes st (c # ts)"
  then show "\<exists>st'. st = b # st' \<and> closes st' ts"
  proof (cases rule: closes.cases)
    case closes_Nil
    then show ?thesis using no by simp
  next
    case (closes_Cons a s d st' y)
    show ?thesis
    proof (cases a)
      case Nil
      then have "c = d" "ts = y" using closes_Cons by simp_all
      moreover have "s = b" using closes_Cons(4) \<open>c = d\<close> assms closer_opener [of d s] by simp
      ultimately show ?thesis using closes_Cons by blast
    next
      case (Cons x a')
      then show ?thesis using closes_Cons no by simp
    qed
  qed
next
  assume "\<exists>st'. st = b # st' \<and> closes st' ts"
  then obtain st' where "st = b # st'" "closes st' ts" by blast
  moreover have "closer b = Some c" using assms closer_opener by simp
  ultimately show "closes st (c # ts)" using closes_Cons [OF nested_Nil, of b c st' ts] by simp
qed

lemma delimiters_closes:
  "delimiters st q e v = Balanced \<longleftrightarrow> (\<exists>ts. code_brackets q e v = Some ts \<and> closes st ts)"
proof (induction st q e v rule: delimiters.induct)
  case (1 st q e)
  then show ?case by (simp add: closes_end)
next
  case (2 st q e c cs)
  then show ?case by auto
next
  case (3 st e c cs)
  show ?case
  proof (cases "is_quote c")
    case True
    with 3 show ?thesis by simp
  next
    case nq: False
    show ?thesis
    proof (cases "closer c")
      case (Some d)
      then have "delimiters st None e (c # cs) = Balanced \<longleftrightarrow> (\<exists>ts. code_brackets None e cs = Some ts \<and> closes (c # st) ts)"
        using 3(2) nq by simp
      then show ?thesis using nq Some closes_open [OF Some] by auto
    next
      case nc: None
      show ?thesis
      proof (cases "opener c")
        case None
        with 3(3) nq nc show ?thesis by simp
      next
        case (Some b)
        have "delimiters st None e (c # cs) = Balanced \<longleftrightarrow> (\<exists>st'. st = b # st' \<and> delimiters st' None e cs = Balanced)"
          using nq nc Some by (cases st) auto
        also have "\<dots> \<longleftrightarrow> (\<exists>st'. st = b # st' \<and> (\<exists>ts. code_brackets None e cs = Some ts \<and> closes st' ts))"
          using 3(4) nq nc Some by (cases st) auto
        finally show ?thesis using nq nc Some closes_close [OF Some] by auto
      qed
    qed
  qed
qed

text \<open>C38. The delimiter scan accepts a text exactly when every string literal in it is closed and the brackets
  outside the literals are well nested.\<close>

theorem delimiters_accept_nested_code:
  "balanced_delimiter_issues v path = [] \<longleftrightarrow> (\<exists>ts. code_brackets None False v = Some ts \<and> nested ts)"
proof -
  have "closes [] ts \<longleftrightarrow> nested ts" for ts by (auto intro: closes_Nil elim: closes.cases)
  then show ?thesis using delimiters_closes [of "[]" None False v]
    by (auto simp: balanced_delimiter_issues_def split: verdict.splits)
qed

section \<open>What passing the policy means\<close>

lemma files_issues_Nil:
  assumes "files_issues lt seen fs = []"
  shows "distinct (map sf_path fs) \<and> (\<forall>f\<in>set fs. sf_path f \<notin> set seen \<and> valid_source_path (sf_path f) \<and>
    utf8_size (sf_contents f) \<le> 256000 \<and> (\<forall>s\<in>set (lt_imports lt (sf_contents f)). is_allowed_import s) \<and>
    (\<forall>c\<in>set FORBIDDEN_PATTERNS. lt_search lt c (sf_contents f) = None))"
  using assms
proof (induction fs arbitrary: seen)
  case (Cons f fs)
  have f: "file_issues lt seen f = []" "files_issues lt (sf_path f # seen) fs = []" using Cons.prems by simp_all
  note rest = Cons.IH [OF f(2)]
  have "sf_path f \<notin> set seen \<and> valid_source_path (sf_path f) \<and> utf8_size (sf_contents f) \<le> 256000 \<and>
      (\<forall>s\<in>set (lt_imports lt (sf_contents f)). is_allowed_import s) \<and> (\<forall>c\<in>set FORBIDDEN_PATTERNS. lt_search lt c (sf_contents f) = None)"
    using f(1) by (auto simp: file_issues_def Let_def filter_empty_conv located_def split: if_splits option.splits)
  then show ?case using rest by auto
qed simp

text \<open>Source the policy passes is one to thirty-two files of at most half a megabyte together, under distinct paths
  below \<open>src/\<close> with no step upwards, importing only the catalogue or relative files, matching no forbidden
  capability, with an entry point among them.\<close>

theorem policy_confines_source:
  assumes "inspect_generated_source lt src = []"
  shows "gs_files src \<noteq> [] \<and> length (gs_files src) \<le> 32 \<and> sum_list (map (\<lambda>f. utf8_size (sf_contents f)) (gs_files src)) \<le> 512000 \<and>
    distinct (map sf_path (gs_files src)) \<and> gs_entrypoint src \<in> sf_path ` set (gs_files src) \<and>
    (\<forall>f\<in>set (gs_files src). starts_with ''src/'' (sf_path f) \<and> ''..'' \<notin> set (path_parts (sf_path f)) \<and>
       (\<forall>s\<in>set (lt_imports lt (sf_contents f)). is_allowed_import s) \<and>
       (\<forall>c\<in>set FORBIDDEN_PATTERNS. lt_search lt c (sf_contents f) = None))"
proof -
  have p: "gs_files src \<noteq> []" "length (gs_files src) \<le> 32" "sum_list (map (\<lambda>f. utf8_size (sf_contents f)) (gs_files src)) \<le> 512000"
      "files_issues lt [] (gs_files src) = []" "entrypoint_issues lt src = []"
    using assms by (auto simp: inspect_generated_source_def Let_def split: if_splits)
  have "gs_entrypoint src \<in> sf_path ` set (gs_files src)"
  proof (cases "find (\<lambda>f. sf_path f = gs_entrypoint src) (gs_files src)")
    case None
    then show ?thesis using p(5) by (simp add: entrypoint_issues_def Let_def)
  next
    case (Some f)
    then show ?thesis using find_SomeD [OF Some] by force
  qed
  then show ?thesis using p files_issues_Nil [OF p(4)] by (auto simp: valid_source_path_def)
qed

definition plain_lint :: lint where
  "plain_lint = \<lparr>lt_imports = (\<lambda>_. [''react'', ''./list'']), lt_search = (\<lambda>_ _. None), lt_default_export = (\<lambda>_. True), lt_repr = (\<lambda>s. s)\<rparr>"

definition hello_source :: source where
  "hello_source = \<lparr>gs_files = [\<lparr>sf_path = ''src/App.tsx'', sf_contents = ''export default () => [f(1), 2]''\<rparr>],
     gs_entrypoint = ''src/App.tsx'', gs_metadata = []\<rparr>"

lemma hello_passes: "inspect_generated_source plain_lint hello_source = []"
  by code_simp

theorem policy_confines_source_witness:
  "gs_files hello_source \<noteq> [] \<and> length (gs_files hello_source) \<le> 32 \<and> gs_entrypoint hello_source \<in> sf_path ` set (gs_files hello_source)"
  using policy_confines_source [OF hello_passes] by blast

end
