(* ===== verification/App_Blueprint.thy ===== *)
theory App_Blueprint
  imports App_Manifest App_Policy
begin

text \<open>
  The contract an app is generated from (\<open>AppBlueprint.from_mapping\<close> of \<open>app_builder/types.py\<close>) and the
  interaction plan derived from its manifest (\<open>_acceptance_plan\<close> of \<open>app_builder/pipeline.py\<close>). The texts of the
  exceptions are kept, because a failed build stores them. Case folding is a parameter.
\<close>

section \<open>Exceptions of a build\<close>

text \<open>\<open>BlueprintValidationError\<close>, \<open>BuildRejectedError\<close>, \<open>TimeoutError\<close>, or another exception with its class and text.\<close>

datatype build_exn = InvalidBlueprint string | Rejected "issue list" | TimedOut | Raised string

section \<open>Texts\<close>

definition quote :: string where
  "quote = [char_of (39::int)]"

definition unhashable :: "string \<Rightarrow> string" where
  "unhashable cls = ''TypeError: unhashable type: '' @ quote @ cls @ quote"

text \<open>\<open>json.loads(canonical_json(v))\<close>: the same value with the keys of every object sorted.\<close>

fun resorted :: "json \<Rightarrow> json" where
  "resorted (JArr xs) = JArr (map resorted xs)"
| "resorted (JObj ob) = JObj (sort_key fst (map (\<lambda>kv. (fst kv, resorted (snd kv))) ob))"
| "resorted v = v"

definition canonical_json :: "json \<Rightarrow> string" where
  "canonical_json v = json_dumps v"

definition content_hash :: "(string \<Rightarrow> string) \<Rightarrow> json \<Rightarrow> string" where
  "content_hash sha v = sha (canonical_json v)"

fun blueprint_text :: "string \<Rightarrow> nat \<Rightarrow> json \<Rightarrow> build_exn + string" where
  "blueprint_text field max_length (JStr s) =
     (if py_strip s = [] then Inl (InvalidBlueprint (field @ '' must be a non-empty string''))
      else let normalized = join '' '' (py_split s) in
        if max_length < length normalized
        then Inl (InvalidBlueprint (field @ '' must be at most '' @ str_int (int max_length) @ '' characters''))
        else Inr normalized)"
| "blueprint_text field max_length _ = Inl (InvalidBlueprint (field @ '' must be a non-empty string''))"

definition blueprint_optional :: "string \<Rightarrow> nat \<Rightarrow> string \<Rightarrow> json \<Rightarrow> build_exn + string" where
  "blueprint_optional field max_length dflt v = (if v = JNull then Inr dflt else blueprint_text field max_length v)"

definition is_layout :: "string \<Rightarrow> bool" where
  "is_layout s =
     (case s of [] \<Rightarrow> False
      | c # cs \<Rightarrow> is_lower c \<and> (\<forall>x\<in>set cs. is_lower x \<or> is_digit x \<or> x = CHR ''_'') \<and> length cs \<le> 47)"

definition layout_of :: "json \<Rightarrow> build_exn + string" where
  "layout_of v =
     bindR (blueprint_optional ''layout'' 48 ''workspace'' v) (\<lambda>s.
       let layout = map (\<lambda>c. if c = CHR ''-'' \<or> c = CHR '' '' then CHR ''_'' else c) (py_lower s) in
       if is_layout layout then Inr layout else Inl (InvalidBlueprint ''layout must be a lowercase identifier''))"

definition ACCENTS :: "string list" where
  "ACCENTS = [''coral'', ''sage'', ''ocean'', ''plum'', ''sky'']"

definition LEGACY_ACCENTS :: "(string \<times> string) list" where
  "LEGACY_ACCENTS = [(''gold'', ''coral''), (''#e65f45'', ''coral''), (''#e7654b'', ''coral''), (''#5f8067'', ''sage''),
     (''#497a9d'', ''ocean''), (''#765779'', ''plum''), (''#5b88a8'', ''sky''), (''#a97824'', ''coral'')]"

definition accent_of :: "(string \<Rightarrow> string) \<Rightarrow> json \<Rightarrow> build_exn + string" where
  "accent_of casefold v =
     (let bad = InvalidBlueprint ''accent must be a supported Dot semantic accent'' in
      case v of
        JStr s \<Rightarrow>
          let accent = (case map_of LEGACY_ACCENTS (casefold s) of None \<Rightarrow> casefold s | Some a \<Rightarrow> a)
          in if accent \<in> set ACCENTS then Inr accent else Inl bad
      | JArr _ \<Rightarrow> Inl (Raised (unhashable ''list''))
      | JObj _ \<Rightarrow> Inl (Raised (unhashable ''dict''))
      | _ \<Rightarrow> Inl bad)"

fun blueprint_object :: "string \<Rightarrow> json \<Rightarrow> build_exn + obj" where
  "blueprint_object message (JObj ob) = Inr ob"
| "blueprint_object message _ = Inl (InvalidBlueprint message)"

text \<open>The text of the exception \<open>parse_generated_app_capabilities\<close> raises.\<close>

definition capability_message :: "obj \<Rightarrow> string" where
  "capability_message manifest =
     (case get_default manifest ''capabilities'' (JArr []) of
        JArr raw \<Rightarrow>
          if length SUPPORTED_GENERATED_APP_CAPABILITIES < length raw then ''Manifest capabilities must be a supported list''
          else (case str_items raw of
                  None \<Rightarrow> ''Manifest capabilities must be strings''
                | Some names \<Rightarrow> if \<not> distinct names then ''Manifest capabilities must be unique''
                                else ''Manifest requests an unsupported capability'')
      | _ \<Rightarrow> ''Manifest capabilities must be a supported list'')"

definition check_capabilities :: "obj \<Rightarrow> build_exn + unit" where
  "check_capabilities manifest =
     (case parse_generated_app_capabilities manifest of Inl _ \<Rightarrow> Inl (InvalidBlueprint (capability_message manifest)) | Inr _ \<Rightarrow> Inr ())"

definition within_chars :: "string \<Rightarrow> nat \<Rightarrow> obj \<Rightarrow> build_exn + unit" where
  "within_chars field n ob =
     (if n < length (canonical_json (JObj ob)) then Inl (InvalidBlueprint (field @ '' is too large'')) else Inr ())"

section \<open>The blueprint\<close>

record blueprint =
  bp_title :: string
  bp_description :: string
  bp_purpose :: string
  bp_layout :: string
  bp_accent :: string
  bp_brief :: string
  bp_direction :: string
  bp_request :: string
  bp_base :: obj
  bp_manifest :: obj
  bp_seed :: obj

definition from_mapping :: "(string \<Rightarrow> string) \<Rightarrow> obj \<Rightarrow> build_exn + blueprint" where
  "from_mapping casefold raw =
     (let data = dict_or_empty (resorted (JObj raw)); get = get_or_null data in
      bindR (blueprint_text ''title'' 120 (get ''title'')) (\<lambda>title.
      bindR (blueprint_optional ''description'' 500 title (get ''description'')) (\<lambda>description.
      bindR (blueprint_optional ''purpose'' 500 description (get ''purpose'')) (\<lambda>purpose.
      bindR (layout_of (get ''layout'')) (\<lambda>layout.
      bindR (accent_of casefold (get_default data ''accent'' (JStr ''coral''))) (\<lambda>accent.
      bindR (blueprint_object ''manifest must be an object'' (get_default data ''manifest'' (JObj []))) (\<lambda>manifest.
      bindR (check_capabilities manifest) (\<lambda>_.
      bindR (blueprint_object ''seed_data must be an object'' (get_default data ''seed_data'' (JObj []))) (\<lambda>seed.
      bindR (blueprint_optional ''product_brief'' 4000 purpose (get ''product_brief'')) (\<lambda>brief.
      bindR (blueprint_optional ''visual_direction'' 1000
        (''purpose-native, mobile-first, and composed within Dot'' @ quote @ ''s design system'') (get ''visual_direction'')) (\<lambda>direction.
      bindR (blueprint_optional ''revision_request'' 4000 [] (get ''revision_request'')) (\<lambda>request.
      bindR (blueprint_object ''base_revision must be an object'' (get_default data ''base_revision'' (JObj []))) (\<lambda>base.
      bindR (within_chars ''manifest'' 64000 manifest) (\<lambda>_.
      bindR (within_chars ''seed_data'' 128000 seed) (\<lambda>_.
      bindR (within_chars ''base_revision'' 768000 base) (\<lambda>_.
        Inr \<lparr>bp_title = title, bp_description = description, bp_purpose = purpose, bp_layout = layout, bp_accent = accent,
             bp_brief = brief, bp_direction = direction, bp_request = request, bp_base = base, bp_manifest = manifest,
             bp_seed = seed\<rparr>))))))))))))))))"

definition blueprint_dict :: "blueprint \<Rightarrow> obj" where
  "blueprint_dict bp =
     [(''title'', JStr (bp_title bp)), (''description'', JStr (bp_description bp)), (''purpose'', JStr (bp_purpose bp)),
      (''layout'', JStr (bp_layout bp)), (''accent'', JStr (bp_accent bp)), (''product_brief'', JStr (bp_brief bp)),
      (''visual_direction'', JStr (bp_direction bp)), (''revision_request'', JStr (bp_request bp)),
      (''base_revision'', JObj (bp_base bp)), (''manifest'', JObj (bp_manifest bp)), (''seed_data'', JObj (bp_seed bp))]"

section \<open>The acceptance plan\<close>

definition COMPUTED_ACCEPTANCE_FIELDS :: "string list" where
  "COMPUTED_ACCEPTANCE_FIELDS = [''created_at'', ''updated_at'', ''id'', ''version'']"

text \<open>A list or a dict as the kind of a field is no key of the table: the look-up raises.\<close>

definition acceptance_value :: "json \<Rightarrow> build_exn + json" where
  "acceptance_value kind =
     (case kind of
        JStr k \<Rightarrow>
          Inr (case map_of [(''number'', JInt 1), (''integer'', JInt 1), (''money'', JInt 1), (''boolean'', JBool True),
             (''date'', JStr ''2026-01-01''), (''datetime'', JStr ''2026-01-01T09:00:00Z''), (''object'', JObj []), (''array'', JArr [])] k of
             None \<Rightarrow> JStr ''test'' | Some v \<Rightarrow> v)
      | JArr _ \<Rightarrow> Inl (Raised (unhashable ''list''))
      | JObj _ \<Rightarrow> Inl (Raised (unhashable ''dict''))
      | _ \<Rightarrow> Inr (JStr ''test''))"

text \<open>The fields of an entity by name; a later item of a list replaces an earlier one of the same name.\<close>

definition plan_fields :: "json \<Rightarrow> obj" where
  "plan_fields fs =
     (case fs of
        JObj ob \<Rightarrow> ob
      | JArr xs \<Rightarrow> foldl (\<lambda>m item. case item of
            JObj f \<Rightarrow> (case get_or_null f ''name'' of JStr n \<Rightarrow> AList.update n item m | _ \<Rightarrow> m)
          | _ \<Rightarrow> m) [] xs
      | _ \<Rightarrow> [])"

definition exercised_fields :: "obj \<Rightarrow> obj" where
  "exercised_fields fs = filter (\<lambda>f. fst f \<notin> set COMPUTED_ACCEPTANCE_FIELDS \<and> is_dict (snd f)) fs"

definition list_step :: "string \<Rightarrow> json" where
  "list_step entity = JObj [(''operation'', JStr ''records.list''), (''entity'', JStr entity), (''required'', JBool False)]"

definition plan_create_step :: "string \<Rightarrow> obj \<Rightarrow> build_exn + json" where
  "plan_create_step entity defn =
     (let fs = plan_fields (get_default defn ''fields'' (JObj []));
          exercised = exercised_fields fs;
          needed = sort (map fst (filter (\<lambda>f. get_or_null (dict_or_empty (snd f)) ''required'' = JBool True) exercised))
      in bindR (mapR (\<lambda>f. bindR (acceptance_value (get_or_null (dict_or_empty (snd f)) ''type'')) (\<lambda>v. Inr (fst f, v))) exercised) (\<lambda>hints.
        Inr (JObj [(''operation'', JStr ''records.create''), (''entity'', JStr entity), (''required'', JBool True),
          (''event_type'', JStr ''submit''), (''field_hints'', JObj hints),
          (''required_payload_fields'', JArr (map JStr needed)),
          (''allowed_payload_fields'', JArr (map JStr (sort (map fst fs))))])))"

text \<open>\<open>for definition in entities if isinstance(entities, list)\<close>: what cannot be iterated raises, a text or an object gives nothing.\<close>

definition not_iterable :: "json \<Rightarrow> string option" where
  "not_iterable v =
     (case v of JNull \<Rightarrow> Some ''NoneType'' | JBool _ \<Rightarrow> Some ''bool'' | JInt _ \<Rightarrow> Some ''int'' | JFloat _ \<Rightarrow> Some ''float'' | _ \<Rightarrow> None)"

definition plan_entities :: "obj \<Rightarrow> build_exn + (string \<times> obj) list" where
  "plan_entities manifest =
     (let entities = get_default manifest ''entities'' (JArr []) in
      case not_iterable entities of
        Some cls \<Rightarrow> Inl (Raised (''TypeError: '' @ quote @ cls @ quote @ '' object is not iterable''))
      | None \<Rightarrow> Inr (case entities of
            JArr xs \<Rightarrow> concat (map (\<lambda>e. case e of
                JObj d \<Rightarrow> (case get_or_null d ''name'' of JStr n \<Rightarrow> [(n, d)] | _ \<Rightarrow> []) | _ \<Rightarrow> []) xs)
          | _ \<Rightarrow> []))"

definition acceptance_plan :: "blueprint \<Rightarrow> build_exn + json list" where
  "acceptance_plan bp =
     bindR (plan_entities (bp_manifest bp)) (\<lambda>named.
     bindR (mapR (\<lambda>(n, d). plan_create_step n d) named) (\<lambda>creates.
       Inr (map (\<lambda>(n, d). list_step n) named @ creates)))"

section \<open>Sorted objects\<close>

lemma map_of_filter: "map_of xs k = (case filter (\<lambda>x. fst x = k) xs of [] \<Rightarrow> None | x # _ \<Rightarrow> Some (snd x))"
  by (induction xs) auto

lemma map_of_sorted [simp]: "map_of (sort_key fst xs) k = map_of xs k"
  by (simp add: map_of_filter sort_key_stable)

lemma map_of_resorted [simp]: "map_of (map (\<lambda>kv. (fst kv, resorted (snd kv))) ob) k = map_option resorted (map_of ob k)"
  by (induction ob) auto

lemma resorted_idem [simp]: "resorted (resorted v) = resorted v"
proof (induction v rule: resorted.induct)
  case (2 ob)
  let ?g = "\<lambda>kv. (fst kv, resorted (snd kv))"
  let ?s = "sort_key fst (map ?g ob)"
  have "map ?g ?s = ?s" by (rule map_idI) (use 2 in auto)
  then show ?case by (simp add: sort_key_id_if_sorted)
qed auto

lemma resorted_get: "get_or_null (dict_or_empty (resorted (JObj ob))) k = resorted (get_or_null ob k)"
  by (simp add: get_or_null_def split: option.split)

lemma resorted_get_default:
  "get_default (dict_or_empty (resorted (JObj ob))) k d = (case map_of ob k of None \<Rightarrow> d | Some v \<Rightarrow> resorted v)"
  by (simp add: get_default_def split: option.split)

definition is_resorted :: "obj \<Rightarrow> bool" where
  "is_resorted ob \<longleftrightarrow> resorted (JObj ob) = JObj ob"

lemma is_resorted_get:
  "blueprint_object msg (get_default (dict_or_empty (resorted (JObj ob))) k (JObj [])) = Inr r \<Longrightarrow> is_resorted r"
proof -
  assume "blueprint_object msg (get_default (dict_or_empty (resorted (JObj ob))) k (JObj [])) = Inr r"
  then have "get_default (dict_or_empty (resorted (JObj ob))) k (JObj []) = JObj r" by (rule blueprint_object.elims) auto
  then have "JObj r = JObj [] \<or> (\<exists>v. JObj r = resorted v)"
    unfolding resorted_get_default by (cases "map_of ob k") (simp_all, metis)
  then show ?thesis unfolding is_resorted_def by (metis resorted_idem list.simps(8) resorted.simps(2) sort_key_simps(1))
qed

section \<open>Normal texts\<close>

definition normal_text :: "nat \<Rightarrow> string \<Rightarrow> bool" where
  "normal_text n s \<longleftrightarrow> s \<noteq> [] \<and> spaced s = s \<and> length s \<le> n"

lemma dropWhile_set_all: "(\<forall>x\<in>set (dropWhile p xs). p x) \<longleftrightarrow> (\<forall>x\<in>set xs. p x)"
  by (induction xs) auto

lemma py_split_Nil: "py_split s = [] \<longleftrightarrow> (\<forall>c\<in>set s. py_isspace c)"
  by (induction s) (auto split: list.split)

lemma strip_empty: "py_strip s = [] \<longleftrightarrow> py_split s = []"
  by (simp add: py_strip_def py_split_Nil dropWhile_set_all)

lemma blueprint_text_Inr:
  assumes "blueprint_text f n v = Inr t"
  shows "normal_text n t"
proof -
  from assms obtain s where s: "v = JStr s" "py_strip s \<noteq> []" "t = join '' '' (py_split s)" "length t \<le> n"
    by (rule blueprint_text.elims) (auto split: if_splits simp: Let_def)
  then have "t = spaced s" by (simp add: spaced_def py_split_strip)
  moreover from s(2) have "py_split s \<noteq> []" by (simp add: strip_empty)
  then have "t \<noteq> []" using py_split_words [of s] s(3)
    by (cases "py_split s"; cases "tl (py_split s)") (auto simp: is_space_free_def)
  ultimately show ?thesis using s(4) by (simp add: normal_text_def)
qed

lemma normal_join: "normal_text n t \<Longrightarrow> join '' '' (py_split t) = t \<and> py_strip t \<noteq> []"
  by (auto simp: normal_text_def spaced_def py_split_strip strip_empty)

lemma blueprint_text_normal: "normal_text n t \<Longrightarrow> blueprint_text f n (JStr t) = Inr t"
  using normal_join [of n t] by (auto simp: normal_text_def Let_def)

lemma normal_text_Nil [simp]: "\<not> normal_text n []"
  by (simp add: normal_text_def)

lemma normal_mono: "normal_text n t \<Longrightarrow> n \<le> m \<Longrightarrow> normal_text m t"
  by (auto simp: normal_text_def)

lemma blueprint_optional_Inr:
  "blueprint_optional f n d v = Inr t \<Longrightarrow> (v = JNull \<and> t = d) \<or> normal_text n t"
  by (auto simp: blueprint_optional_def split: if_splits dest: blueprint_text_Inr)

lemma blueprint_optional_normal: "normal_text n t \<Longrightarrow> blueprint_optional f n d (JStr t) = Inr t"
  by (simp add: blueprint_optional_def blueprint_text_normal del: blueprint_text.simps)

lemma is_layout_text: "is_layout l \<Longrightarrow> normal_text 48 l"
proof -
  assume "is_layout l"
  then have "\<forall>c\<in>set l. is_lower c \<or> is_digit c \<or> c = CHR ''_''" "l \<noteq> []" "length l \<le> 48"
    by (auto simp: is_layout_def split: list.splits)
  moreover have "\<not> py_isspace c" if "is_lower c \<or> is_digit c \<or> c = CHR ''_''" for c
  proof -
    have "\<not> py_isspace (CHR ''_'')" by code_simp
    with that show ?thesis by (auto simp: py_isspace_def is_lower_def is_digit_def Let_def)
  qed
  ultimately have "is_space_free l" by (auto simp: is_space_free_def)
  with \<open>length l \<le> 48\<close> \<open>l \<noteq> []\<close> show ?thesis by (simp add: normal_text_def spaced_word)
qed

lemma layout_char:
  assumes "is_lower c \<or> is_digit c \<or> c = CHR ''_''"
  shows "lower_char c = c" "c \<noteq> CHR ''-''" "c \<noteq> CHR '' ''"
proof -
  have "lower_char (CHR ''_'') = CHR ''_''" by code_simp
  with assms show "lower_char c = c" by (auto simp: lower_char_def is_lower_def is_digit_def Let_def)
  have "\<not> is_lower (CHR ''-'')" "\<not> is_digit (CHR ''-'')" "\<not> is_lower (CHR '' '')" "\<not> is_digit (CHR '' '')"
    by code_simp+
  with assms show "c \<noteq> CHR ''-''" "c \<noteq> CHR '' ''" by auto
qed

lemma layout_of_ok: "layout_of v = Inr l \<Longrightarrow> is_layout l"
  by (auto simp: layout_of_def bindR_Inr Let_def split: if_splits)

lemma layout_again:
  assumes "is_layout l"
  shows "layout_of (JStr l) = Inr l"
proof -
  from assms have "\<forall>c\<in>set l. is_lower c \<or> is_digit c \<or> c = CHR ''_''"
    by (auto simp: is_layout_def split: list.splits)
  with layout_char have "map (\<lambda>c. if c = CHR ''-'' \<or> c = CHR '' '' then CHR ''_'' else c) (py_lower l) = l"
    unfolding py_lower_def map_map by (intro map_idI) auto
  with assms show ?thesis
    by (simp add: layout_of_def blueprint_optional_normal [OF is_layout_text] Let_def)
qed

lemma accent_of_ok: "accent_of casefold v = Inr a \<Longrightarrow> a \<in> set ACCENTS"
  by (auto simp: accent_of_def Let_def split: json.splits if_splits)

lemma accent_again:
  assumes "a \<in> set ACCENTS" "\<forall>x\<in>set ACCENTS. casefold x = x"
  shows "accent_of casefold (JStr a) = Inr a"
proof -
  from assms(1) have "map_of LEGACY_ACCENTS a = None" by (auto simp: ACCENTS_def LEGACY_ACCENTS_def)
  with assms show ?thesis by (simp add: accent_of_def)
qed

section \<open>What an accepted blueprint is\<close>

definition blueprint_ok :: "blueprint \<Rightarrow> bool" where
  "blueprint_ok bp \<longleftrightarrow>
     normal_text 120 (bp_title bp) \<and> normal_text 500 (bp_description bp) \<and> normal_text 500 (bp_purpose bp) \<and>
     is_layout (bp_layout bp) \<and> bp_accent bp \<in> set ACCENTS \<and> normal_text 4000 (bp_brief bp) \<and>
     normal_text 1000 (bp_direction bp) \<and> (bp_request bp = [] \<or> normal_text 4000 (bp_request bp)) \<and>
     is_resorted (bp_manifest bp) \<and> is_resorted (bp_seed bp) \<and> is_resorted (bp_base bp) \<and>
     (\<exists>names. parse_generated_app_capabilities (bp_manifest bp) = Inr names) \<and>
     length (canonical_json (JObj (bp_manifest bp))) \<le> 64000 \<and> length (canonical_json (JObj (bp_seed bp))) \<le> 128000 \<and>
     length (canonical_json (JObj (bp_base bp))) \<le> 768000"

lemma blueprint_optional_ok:
  "blueprint_optional f n d v = Inr t \<Longrightarrow> normal_text m d \<Longrightarrow> m \<le> n \<Longrightarrow> normal_text n t"
  using blueprint_optional_Inr [of f n d v t] normal_mono [of m d n] by blast

lemma direction_normal:
  "normal_text 1000 (''purpose-native, mobile-first, and composed within Dot'' @ quote @ ''s design system'')"
  by code_simp

lemma from_mapping_ok:
  assumes "from_mapping casefold raw = Inr bp"
  shows "blueprint_ok bp"
proof -
  note [simp del] = resorted.simps
  let ?data = "dict_or_empty (resorted (JObj raw))"
  from assms obtain title description purpose layout accent manifest seed brief direction request base u x y z where
    t: "blueprint_text ''title'' 120 (get_or_null ?data ''title'') = Inr title"
    and d: "blueprint_optional ''description'' 500 title (get_or_null ?data ''description'') = Inr description"
    and p: "blueprint_optional ''purpose'' 500 description (get_or_null ?data ''purpose'') = Inr purpose"
    and l: "layout_of (get_or_null ?data ''layout'') = Inr layout"
    and a: "accent_of casefold (get_default ?data ''accent'' (JStr ''coral'')) = Inr accent"
    and m: "blueprint_object ''manifest must be an object'' (get_default ?data ''manifest'' (JObj [])) = Inr manifest"
    and c: "check_capabilities manifest = Inr u"
    and s: "blueprint_object ''seed_data must be an object'' (get_default ?data ''seed_data'' (JObj [])) = Inr seed"
    and b: "blueprint_optional ''product_brief'' 4000 purpose (get_or_null ?data ''product_brief'') = Inr brief"
    and v: "blueprint_optional ''visual_direction'' 1000
      (''purpose-native, mobile-first, and composed within Dot'' @ quote @ ''s design system'')
      (get_or_null ?data ''visual_direction'') = Inr direction"
    and r: "blueprint_optional ''revision_request'' 4000 [] (get_or_null ?data ''revision_request'') = Inr request"
    and bs: "blueprint_object ''base_revision must be an object'' (get_default ?data ''base_revision'' (JObj [])) = Inr base"
    and z: "within_chars ''manifest'' 64000 manifest = Inr x" "within_chars ''seed_data'' 128000 seed = Inr y"
      "within_chars ''base_revision'' 768000 base = Inr z"
    and bp: "bp = \<lparr>bp_title = title, bp_description = description, bp_purpose = purpose, bp_layout = layout, bp_accent = accent,
             bp_brief = brief, bp_direction = direction, bp_request = request, bp_base = base, bp_manifest = manifest,
             bp_seed = seed\<rparr>"
    unfolding from_mapping_def Let_def bindR_Inr sum.inject by blast
  have title: "normal_text 120 title" using t by (rule blueprint_text_Inr)
  have description: "normal_text 500 description" by (rule blueprint_optional_ok [OF d title]) simp
  have purpose: "normal_text 500 purpose" by (rule blueprint_optional_ok [OF p description]) simp
  have brief: "normal_text 4000 brief" by (rule blueprint_optional_ok [OF b purpose]) simp
  have direction: "normal_text 1000 direction" by (rule blueprint_optional_ok [OF v direction_normal]) simp
  have request: "request = [] \<or> normal_text 4000 request" using blueprint_optional_Inr [OF r] by auto
  have caps: "\<exists>names. parse_generated_app_capabilities manifest = Inr names"
    using c by (auto simp: check_capabilities_def split: sum.splits)
  have sizes: "length (canonical_json (JObj manifest)) \<le> 64000" "length (canonical_json (JObj seed)) \<le> 128000"
    "length (canonical_json (JObj base)) \<le> 768000"
    using z by (auto simp: within_chars_def split: if_splits)
  show ?thesis
    unfolding blueprint_ok_def bp blueprint.simps
    using title description purpose layout_of_ok [OF l] accent_of_ok [OF a] brief direction request caps sizes
      is_resorted_get [OF m] is_resorted_get [OF s] is_resorted_get [OF bs] by blast
qed

section \<open>The round trip\<close>

lemma dict_gets:
  "get_or_null (dict_or_empty (resorted (JObj (blueprint_dict bp)))) ''title'' = JStr (bp_title bp)"
  "get_or_null (dict_or_empty (resorted (JObj (blueprint_dict bp)))) ''description'' = JStr (bp_description bp)"
  "get_or_null (dict_or_empty (resorted (JObj (blueprint_dict bp)))) ''purpose'' = JStr (bp_purpose bp)"
  "get_or_null (dict_or_empty (resorted (JObj (blueprint_dict bp)))) ''layout'' = JStr (bp_layout bp)"
  "get_default (dict_or_empty (resorted (JObj (blueprint_dict bp)))) ''accent'' d = JStr (bp_accent bp)"
  "get_or_null (dict_or_empty (resorted (JObj (blueprint_dict bp)))) ''product_brief'' = JStr (bp_brief bp)"
  "get_or_null (dict_or_empty (resorted (JObj (blueprint_dict bp)))) ''visual_direction'' = JStr (bp_direction bp)"
  "get_or_null (dict_or_empty (resorted (JObj (blueprint_dict bp)))) ''revision_request'' = JStr (bp_request bp)"
  "get_default (dict_or_empty (resorted (JObj (blueprint_dict bp)))) ''base_revision'' d = resorted (JObj (bp_base bp))"
  "get_default (dict_or_empty (resorted (JObj (blueprint_dict bp)))) ''manifest'' d = resorted (JObj (bp_manifest bp))"
  "get_default (dict_or_empty (resorted (JObj (blueprint_dict bp)))) ''seed_data'' d = resorted (JObj (bp_seed bp))"
  unfolding resorted_get resorted_get_default by (simp_all add: blueprint_dict_def get_or_null_def del: resorted.simps(2))

text \<open>C39. 
  The dict form of an accepted blueprint is accepted again and gives the same blueprint, when it carries a
  revision request: texts are normalised once, defaults are filled in, and the canonical order of objects is
  stable. Without a revision request the dict form holds an empty text, which the constructor refuses.
\<close>

theorem blueprint_roundtrip:
  assumes "\<forall>a\<in>set ACCENTS. casefold a = a" "from_mapping casefold raw = Inr bp"
  shows "from_mapping casefold (blueprint_dict bp) =
    (if bp_request bp = [] then Inl (InvalidBlueprint ''revision_request must be a non-empty string'') else Inr bp)"
proof -
  from from_mapping_ok [OF assms(2)] have ok: "blueprint_ok bp" .
  note k = ok [unfolded blueprint_ok_def]
  have l: "layout_of (JStr (bp_layout bp)) = Inr (bp_layout bp)" using k layout_again by blast
  have a: "accent_of casefold (JStr (bp_accent bp)) = Inr (bp_accent bp)" using k accent_again assms(1) by blast
  have o: "resorted (JObj (bp_manifest bp)) = JObj (bp_manifest bp)" "resorted (JObj (bp_seed bp)) = JObj (bp_seed bp)"
    "resorted (JObj (bp_base bp)) = JObj (bp_base bp)"
    using k by (simp_all only: is_resorted_def)
  have c: "check_capabilities (bp_manifest bp) = Inr ()" using k by (auto simp: check_capabilities_def)
  have z: "within_chars ''manifest'' 64000 (bp_manifest bp) = Inr ()" "within_chars ''seed_data'' 128000 (bp_seed bp) = Inr ()"
    "within_chars ''base_revision'' 768000 (bp_base bp) = Inr ()"
    using k by (simp_all add: within_chars_def)
  have t: "blueprint_text ''title'' 120 (JStr (bp_title bp)) = Inr (bp_title bp)"
    "blueprint_optional ''description'' 500 d (JStr (bp_description bp)) = Inr (bp_description bp)"
    "blueprint_optional ''purpose'' 500 d (JStr (bp_purpose bp)) = Inr (bp_purpose bp)"
    "blueprint_optional ''product_brief'' 4000 d (JStr (bp_brief bp)) = Inr (bp_brief bp)"
    "blueprint_optional ''visual_direction'' 1000 d (JStr (bp_direction bp)) = Inr (bp_direction bp)" for d
    using k by (simp_all only: blueprint_text_normal blueprint_optional_normal)
  have r: "blueprint_optional ''revision_request'' 4000 d (JStr (bp_request bp)) =
      (if bp_request bp = [] then Inl (InvalidBlueprint ''revision_request must be a non-empty string'') else Inr (bp_request bp))" for d
    using k by (auto simp: blueprint_optional_normal) (simp add: blueprint_optional_def py_strip_def)
  show ?thesis
    unfolding from_mapping_def dict_gets Let_def o t l a c z r bindR_simps blueprint_object.simps by simp
qed

definition list_request :: obj where
  "list_request = [(''title'', JStr '' To  do''), (''layout'', JStr ''Side-bar''), (''accent'', JStr ''gold''),
     (''revision_request'', JStr ''Sort''), (''manifest'', JObj [(''schema_version'', JInt 1)]),
     (''base_revision'', JObj [(''b'', JInt 2), (''a'', JInt 1)])]"

definition list_blueprint :: blueprint where
  "list_blueprint = \<lparr>bp_title = ''To do'', bp_description = ''To do'', bp_purpose = ''To do'', bp_layout = ''side_bar'',
     bp_accent = ''coral'', bp_brief = ''To do'',
     bp_direction = ''purpose-native, mobile-first, and composed within Dot'' @ quote @ ''s design system'', bp_request = ''Sort'',
     bp_base = [(''a'', JInt 1), (''b'', JInt 2)], bp_manifest = [(''schema_version'', JInt 1)], bp_seed = []\<rparr>"

lemma list_data: "dict_or_empty (resorted (JObj list_request)) =
   [(''accent'', JStr ''gold''), (''base_revision'', JObj [(''a'', JInt 1), (''b'', JInt 2)]), (''layout'', JStr ''Side-bar''),
    (''manifest'', JObj [(''schema_version'', JInt 1)]), (''revision_request'', JStr ''Sort''), (''title'', JStr '' To  do'')]"
  by code_simp

lemma small_text: "normal_text 9 t \<Longrightarrow> normal_text 4000 t"
  by (erule normal_mono) simp

lemma small_object: "length (canonical_json (JObj ob)) \<le> 20 \<Longrightarrow> 20 \<le> n \<Longrightarrow> within_chars f n ob = Inr ()"
  by (simp add: within_chars_def)

lemma list_title: "blueprint_text ''title'' 120 (JStr '' To  do'') = Inr ''To do''"
  by code_simp

lemma list_layout: "layout_of (JStr ''Side-bar'') = Inr ''side_bar''"
  by code_simp

lemma list_accent: "accent_of py_lower (JStr ''gold'') = Inr ''coral''"
  by code_simp

lemma list_ask: "blueprint_optional ''revision_request'' 4000 [] (JStr ''Sort'') = Inr ''Sort''"
  by (intro blueprint_optional_normal small_text) code_simp

lemma list_base: "length (canonical_json (JObj [(''a'', JInt 1), (''b'', JInt 2)])) \<le> 20" "length (canonical_json (JObj [])) \<le> 20"
    "length (canonical_json (JObj [(''schema_version'', JInt 1)])) \<le> 20"
  by code_simp+

lemma list_capabilities: "check_capabilities [(''schema_version'', JInt 1)] = Inr ()"
  by code_simp

lemmas list_parts = list_title list_layout list_accent list_ask list_capabilities small_object [OF list_base(1)] small_object [OF list_base(2)] small_object [OF list_base(3)]

lemma list_accepted: "from_mapping py_lower list_request = Inr list_blueprint"
  unfolding from_mapping_def Let_def list_data
  by (simp add: get_or_null_def get_default_def list_parts list_blueprint_def blueprint_optional_def [of _ _ _ JNull] del: blueprint_text.simps)

theorem blueprint_roundtrip_witness:
  "from_mapping py_lower (blueprint_dict list_blueprint) = Inr list_blueprint"
proof -
  have "\<forall>a\<in>set ACCENTS. py_lower a = a" by code_simp
  from blueprint_roundtrip [OF this list_accepted] show ?thesis by (simp add: list_blueprint_def)
qed

end
