(* ===== verification/App_Build_Steps.thy ===== *)
theory App_Build_Steps
  imports App_Deploy_Facts
begin

text \<open>
  Runs of the operations on apps: one step is one successful call of the builder, of the app's owner or
  of its users. Every step keeps the queue, the deployments and the records sound, and the attempts of a
  job count the claims of it.
\<close>

section \<open>Steps\<close>

text \<open>One successful call, labelled with the job a worker claimed by it.\<close>

inductive app_step :: "(string \<Rightarrow> string) \<Rightarrow> db \<Rightarrow> uuid option \<Rightarrow> db \<Rightarrow> bool" for sha where
  as_create: "create_code_app_build sha now public raw d args = Inr (app, job, ticket, d') \<Longrightarrow> app_step sha d None d'"
| as_queue: "queue_code_app_revision sha now d u a request p url key h = Inr (j, d') \<Longrightarrow> app_step sha d None d'"
| as_revise: "queue_owned_code_app_revision sha now d u a revise = Inr (j, d') \<Longrightarrow> app_step sha d None d'"
| as_claim: "claim_next_build now d w l = Inr (res, d') \<Longrightarrow> app_step sha d (map_option cl_job res) d'"
| as_fail: "fail_build loads now d i w n err url md retryable = Inr (j, d') \<Longrightarrow> app_step sha d None d'"
| as_complete: "complete_build sha now raw d i w n b = Inr (rv, d') \<Longrightarrow> app_step sha d None d'"
| as_rollback: "rollback_owned_code_app sha now d u a e key = Inr (r, d') \<Longrightarrow> app_step sha d None d'"
| as_data: "data_step sha d d' \<Longrightarrow> app_step sha d None d'"

inductive app_run :: "(string \<Rightarrow> string) \<Rightarrow> db \<Rightarrow> uuid list \<Rightarrow> db \<Rightarrow> bool" for sha where
  ar_none: "app_run sha d [] d"
| ar_step: "app_run sha d claims d1 \<Longrightarrow> app_step sha d1 c d2 \<Longrightarrow>
    app_run sha d (claims @ (case c of None \<Rightarrow> [] | Some i \<Rightarrow> [i])) d2"

text \<open>A new app is not deployed, so adding it keeps everything.\<close>

lemma added_app_schema:
  assumes "deploy_ok sha d" "schema_ok d" "ga_id app = db_next d" "db_apps d' = db_apps d @ [app]"
    "db_records d' = db_records d" "db_deployments d' = db_deployments d" "db_revisions d' = db_revisions d"
  shows "schema_ok d'"
  unfolding schema_ok_def
proof (intro ballI allI impI)
  fix r m assume r: "r \<in> set (db_records d')" and m: "active_manifest d' (dr_app r) = Inr m"
  from m obtain app' dp rv where x: "find_app d' (dr_app r) = Some app'" "ga_status app' = AppActive"
    "ga_runtime app' = CodeRuntime" "find_deployment d (dr_app r) = Some dp" "find_revision d (dp_active dp) = Some rv"
    "m = rv_manifest rv"
    by (auto simp: result_simps assms(6,7))
  from row_by_Some [OF x(4)] deploy_okD(7) [OF assms(1)] have "dr_app r < db_next d"
    by (auto simp: deployment_ok_def)
  with x(1) assms(3) have "find_app d (dr_app r) = Some app'"
    by (auto simp: assms(4) row_by_append split: option.splits if_splits)
  with x have "active_manifest d (dr_app r) = Inr m" by (auto simp: result_simps)
  with assms(2,5) r show "conforms m r" by (simp add: schema_ok_def)
qed

lemma added_app_ok:
  assumes "apps_ok sha d" "jobs_ok d'" "ga_id app = db_next d" "db_next d < db_next d'" "db_apps d' = db_apps d @ [app]"
    "db_records d' = db_records d" "db_deployments d' = db_deployments d" "db_revisions d' = db_revisions d"
  shows "apps_ok sha d'"
proof -
  have okd: "deploy_ok sha d" "data_ok d" "schema_ok d" using assms(1) by (simp_all add: apps_ok_def)
  note ok = deploy_okD [OF okd(1)]
  have "deployment_ok sha d dp \<Longrightarrow> deployment_ok sha d' dp" for dp
    using assms(4) by (auto simp: deployment_ok_def revision_live_def assms(8) split: option.splits)
  moreover have "ga_id app \<notin> ga_id ` set (db_apps d)" using ok(2) assms(3) by auto
  ultimately have "deploy_ok sha d'"
    using ok assms(3,4) unfolding deploy_ok_def assms(5,7,8) by (auto intro: less_trans)
  then show ?thesis
    using assms(2) data_ok_cong [OF okd(2) assms(6)] added_app_schema [OF okd(1,3) assms(3,5-8)] assms(4)
    by (simp add: apps_ok_def)
qed

lemma create_apps_ok:
  assumes "create_code_app_build sha now public raw d args = Inr (app, job, ticket, d')" "apps_ok sha d"
  shows "apps_ok sha d'"
proof (cases "d' = d")
  case False
  have jobs: "jobs_ok d" using assms(2) by (simp add: apps_ok_def)
  then have ids: "\<forall>j\<in>set (db_jobs d). jb_id j < db_next d" by (simp add: jobs_ok_def)
  from create_code_app_build_Inr [OF assms(1)] False obtain mode key h title descr request where
    "insert_code_app sha now public raw d args mode key h title descr request = Inr (app, job, ticket, d')" by blast
  note i = insert_code_app_Inr [OF this ids]
  show ?thesis
    by (rule added_app_ok [OF assms(2) create_code_app_build_ok [OF assms(1) jobs]]) (use i in simp_all)
qed (use assms in simp)

lemma queue_apps_ok:
  assumes "queue_code_app_revision sha now d u a request p url key h = Inr (j, d')" "apps_ok sha d"
  shows "apps_ok sha d'"
proof (cases "d' = d")
  case False
  have ok: "jobs_ok d" "deploy_ok sha d" using assms(2) by (simp_all add: apps_ok_def)
  have "jobs_ok d'" using queue_code_app_revision_ok [OF assms(1) ok(1)] deploy_okD(2) [OF ok(2)] .
  with queue_code_app_revision_Inr [OF assms(1)] False show ?thesis
    by (intro apps_ok_cong [OF assms(2)]) simp_all
qed (use assms in simp)

lemma queue_owned_Inr:
  assumes "queue_owned_code_app_revision sha now d u a args = Inr (j, d')"
  shows "d' = d \<or> (\<exists>request p url key h. queue_code_app_revision sha now d u a request p url key h = Inr (j, d'))"
  using assms unfolding queue_owned_code_app_revision_def
  by (auto simp: bindR_Inr split: option.splits prod.splits)

lemma set_job_apps_ok:
  assumes "apps_ok sha d" "jobs_ok d'" "db_records d' = db_records d" "db_apps d' = db_apps d"
    "db_deployments d' = db_deployments d" "db_revisions d' = db_revisions d" "db_next d \<le> db_next d'"
  shows "apps_ok sha d'"
  by (rule apps_ok_cong [OF assms(1,3-7,2)])

text \<open>A claim, a failure and a data operation leave what is deployed alone.\<close>

definition apps_frame :: "db \<Rightarrow> db \<Rightarrow> bool" where
  "apps_frame d d' \<longleftrightarrow> db_apps d' = db_apps d \<and> db_deployments d' = db_deployments d \<and>
     db_revisions d' = db_revisions d \<and> db_next d \<le> db_next d'"

lemma claim_loop_frame:
  "claim_loop now w l d = (res, d') \<Longrightarrow> apps_frame d d' \<and> db_records d' = db_records d"
proof (induction now w l d rule: claim_loop.induct)
  case (1 now w l d)
  show ?case
  proof (cases "least_by jb_created (filter (build_eligible now) (db_jobs d))")
    case None
    with 1(2) show ?thesis by (simp add: claim_loop.simps [of now w l d] apps_frame_def)
  next
    case (Some j)
    show ?thesis
    proof (cases "MAX_BUILD_ATTEMPTS \<le> jb_attempts j")
      case True
      with 1(2) Some have "claim_loop now w l (terminalize_exhausted_build_claim now j d) = (res, d')"
        by (simp add: claim_loop.simps [of now w l d])
      from 1(1) [OF Some True this] terminalize_next [of d now j] show ?thesis
        by (auto simp: apps_frame_def)
    next
      case False
      with 1(2) Some show ?thesis by (auto simp: claim_loop.simps [of now w l d] apps_frame_def)
    qed
  qed
qed

lemma claim_frame:
  "claim_next_build now d w l = Inr (res, d') \<Longrightarrow> apps_frame d d' \<and> db_records d' = db_records d"
  using claim_next_build_Inr claim_loop_frame by fast

lemma fail_frame:
  assumes "fail_build loads now d i w n err url md retryable = Inr (j', d')"
  shows "apps_frame d d' \<and> db_records d' = db_records d"
proof -
  obtain code parsed where sf: "safe_failure loads err = (code, parsed)" by (cases "safe_failure loads err")
  have le: "db_next d \<le> db_next (snd (enqueue_user_event now (set_job q d) u c ty s key pl p))" for q u c ty s key pl p
    using enqueue_next [of "set_job q d"] by simp
  show ?thesis
    using assms unfolding fail_build_def Let_def sf prod.case
    by (auto simp: bindR_Inr some_or_Inr apps_frame_def enqueue_build_failed_def le split: if_splits
      simp del: claimed_job_Inr)
qed

lemma data_step_frame:
  assumes "data_step sha d d'" "data_ok d"
  shows "apps_frame d d' \<and> db_jobs d' = db_jobs d"
  using assms(1)
proof cases
  case (step_create now a act entity data key res)
  from create_data_record_Inr [OF this] show ?thesis
  proof (elim disjE exE conjE)
    fix actor e ob k h
    assume "text_value (JStr k) 160 = Inr k" "insert_record now d a actor e ob k h = Inr (res, d')"
    then show ?thesis by (elim insert_record_Inr) (simp_all add: apps_frame_def)
  qed (simp add: apps_frame_def)
next
  case (step_update now a i act expected data key res)
  from update_data_record_Inr [OF this] show ?thesis
  proof (elim disjE exE conjE)
    fix actor ob k h
    assume k: "text_value (JStr k) 160 = Inr k" and c: "change_record now d a actor i expected ob k h = Inr (res, d')"
    have "distinct (map dr_id (db_records d))" using assms(2) by (simp add: data_ok_def)
    with c k show ?thesis by (elim change_record_Inr) (simp_all add: apps_frame_def)
  qed (simp add: apps_frame_def)
next
  case (step_delete now a i act expected key u)
  from delete_data_record_Inr [OF this] show ?thesis
    by (elim disjE exE conjE) (simp_all add: apps_frame_def)
qed

section \<open>Every step keeps everything\<close>

lemma app_step_ok:
  assumes "app_step sha d c d'" "apps_ok sha d"
  shows "apps_ok sha d'"
proof -
  have ok: "jobs_ok d" "data_ok d" "schema_ok d" using assms(2) by (simp_all add: apps_ok_def)
  have frame: "apps_ok sha d'" if "apps_frame d d' \<and> db_records d' = db_records d" "jobs_ok d'"
    using set_job_apps_ok [OF assms(2) that(2)] that(1) by (simp add: apps_frame_def)
  from assms(1) show ?thesis
  proof cases
    case (as_create now public raw args app job ticket)
    from create_apps_ok [OF this(2) assms(2)] show ?thesis .
  next
    case (as_queue now u a request p url key h j)
    from queue_apps_ok [OF this(2) assms(2)] show ?thesis .
  next
    case (as_revise now u a revise j)
    from queue_owned_Inr [OF this(2)] assms(2) show ?thesis by (auto intro: queue_apps_ok)
  next
    case (as_claim now w l res)
    from frame [OF claim_frame [OF this(2)] claim_next_build_ok [OF this(2) ok(1)]] show ?thesis .
  next
    case (as_fail loads now i w n err url md retryable j)
    from frame [OF fail_frame [OF this(2)] fail_build_ok [OF this(2) ok(1)]] show ?thesis .
  next
    case (as_complete now raw i w n b rv)
    from complete_build_effect [OF this(2) assms(2)] show ?thesis by (rule conjunct1)
  next
    case (as_rollback now u a e key r)
    from rollback_apps_ok [OF this(2) assms(2)] show ?thesis .
  next
    case as_data
    note keeps = data_step_keeps [OF this(2) ok(2)] data_step_frame [OF this(2) ok(2)]
    have "deploy_ok sha d'"
      using assms(2) keeps deploy_ok_cong [of sha d d'] by (simp add: apps_ok_def apps_frame_def)
    moreover have "jobs_ok d'" using ok(1) keeps jobs_ok_cong [of d' d] by (simp add: apps_frame_def)
    ultimately show ?thesis using keeps ok(3) by (simp add: apps_ok_def)
  qed
qed

lemma app_run_ok: "app_run sha d claims d' \<Longrightarrow> apps_ok sha d \<Longrightarrow> apps_ok sha d'"
  by (induction rule: app_run.induct) (auto intro: app_step_ok)

section \<open>Attempts\<close>

text \<open>A step claims \<open>c\<close>: the attempts of that job grow by one, all others stay, and new jobs have
  identifiers from the supply.\<close>

definition counts_claim :: "uuid option \<Rightarrow> db \<Rightarrow> db \<Rightarrow> bool" where
  "counts_claim c d d' \<longleftrightarrow>
     jb_id ` set (db_jobs d) \<subseteq> jb_id ` set (db_jobs d') \<and> set_option c \<subseteq> jb_id ` set (db_jobs d) \<and>
     (\<forall>j'\<in>set (db_jobs d').
        (\<exists>j\<in>set (db_jobs d). jb_id j = jb_id j' \<and>
           jb_attempts j' = jb_attempts j + (if c = Some (jb_id j') then 1 else 0)) \<or>
        (db_next d \<le> jb_id j' \<and> 0 \<le> jb_attempts j' \<and> c \<noteq> Some (jb_id j')))"

lemma counts_same: "db_jobs d' = db_jobs d \<Longrightarrow> counts_claim None d d'"
  by (auto simp: counts_claim_def)

lemma counts_set:
  assumes "j \<in> set (db_jobs d)" "jb_id j' = jb_id j" "jb_attempts j' = jb_attempts j"
    "db_jobs d' = db_jobs (set_job j' d)"
  shows "counts_claim None d d'"
proof -
  have d': "db_jobs d' = upd_where (\<lambda>q. jb_id q = jb_id j) (\<lambda>_. j') (db_jobs d)" using assms(2,4) by simp
  have "map jb_id (db_jobs d') = map jb_id (db_jobs d)" unfolding d' by (rule map_upd_where) (simp add: assms(2))
  then have "jb_id ` set (db_jobs d') = jb_id ` set (db_jobs d)" by (metis list.set_map)
  moreover have "\<exists>i\<in>set (db_jobs d). jb_id i = jb_id q \<and> jb_attempts q = jb_attempts i" if "q \<in> set (db_jobs d')" for q
    using that assms(1-3) unfolding d' in_set_upd_where by auto
  ultimately show ?thesis by (simp add: counts_claim_def)
qed

lemma counts_new:
  assumes "db_jobs d' = db_jobs d @ [j]" "db_next d \<le> jb_id j" "job_ok j"
  shows "counts_claim None d d'"
  using assms by (auto simp: counts_claim_def job_ok_def)

lemma counts_claimed:
  assumes "claim_next_build now d w l = Inr (res, d')" "jobs_ok d"
  shows "counts_claim (map_option cl_job res) d d'"
proof -
  from claim_next_build_Inr [OF assms(1)] obtain worker r where
    run: "claim_loop now worker l d = (r, d')" and res: "res = map_option claim_of r" by blast
  from claim_loop_effect [OF assms(2) run] have ok: "jobs_ok d'"
    and all: "list_all2 (claim_change now worker l r d') (db_jobs d) (db_jobs d')"
    and some: "\<And>h. r = Some h \<Longrightarrow> \<exists>j\<in>set (db_jobs d). h = held_build now worker l j \<and> h \<in> set (db_jobs d')"
    by blast+
  have c: "map_option cl_job res = map_option jb_id r" by (simp add: res option.map_comp comp_def claim_of_def)
  have held: "jb_id (held_build now worker l j) = jb_id j" "jb_attempts (held_build now worker l j) = jb_attempts j + 1" for j
    by (simp_all add: held_build_def)
  have same: "jb_id q' = jb_id q" if "claim_change now worker l r d' q q'" for q q'
    using that by (auto simp: claim_change_def exhausted_job_def held)
  have "map jb_id (db_jobs d') = map jb_id (db_jobs d)"
    using all same by (auto simp: list_all2_conv_all_nth intro!: nth_equalityI)
  then have ids: "jb_id ` set (db_jobs d') = jb_id ` set (db_jobs d)" by (metis list.set_map)
  have "\<exists>j\<in>set (db_jobs d). jb_id j = jb_id q' \<and>
      jb_attempts q' = jb_attempts j + (if map_option jb_id r = Some (jb_id q') then 1 else 0)"
    if q': "q' \<in> set (db_jobs d')" for q'
  proof -
    from all q' obtain q where q: "q \<in> set (db_jobs d)" "claim_change now worker l r d' q q'"
      by (metis in_set_conv_nth list_all2_conv_all_nth)
    have "jb_attempts q' = jb_attempts q + 1" if "r = Some h" "jb_id h = jb_id q'" for h
    proof -
      from some [OF that(1)] obtain j where j: "j \<in> set (db_jobs d)" "h = held_build now worker l j" "h \<in> set (db_jobs d')" by blast
      have "h = q'" using job_unique [OF ok j(3) q'] that(2) by simp
      moreover have "j = q" using job_unique [OF assms(2) j(1) q(1)] j(2) same [OF q(2)] that(2) by (simp add: held)
      ultimately show ?thesis using j(2) held by blast
    qed
    moreover have "jb_attempts q' = jb_attempts q" if "map_option jb_id r \<noteq> Some (jb_id q')"
      using q(2) that by (auto simp: claim_change_def exhausted_job_def)
    ultimately show ?thesis using q same [OF q(2)] by (intro bexI [of _ q]) auto
  qed
  moreover have "set_option (map_option jb_id r) \<subseteq> jb_id ` set (db_jobs d)"
    using some held(1) by (cases r) force+
  ultimately show ?thesis unfolding counts_claim_def c ids by simp
qed

lemma app_step_counts:
  assumes "app_step sha d c d'" "apps_ok sha d"
  shows "counts_claim c d d'"
proof -
  have ok: "jobs_ok d" "data_ok d" using assms(2) by (simp_all add: apps_ok_def)
  then have ids: "\<forall>j\<in>set (db_jobs d). jb_id j < db_next d" by (simp add: jobs_ok_def)
  have queue: "counts_claim None d d'" if "queue_code_app_revision sha now d u a request p url key h = Inr (j, d')"
    for now u a request p url key h j
    using queue_code_app_revision_Inr [OF that] by (auto intro: counts_same counts_new)
  from assms(1) show ?thesis
  proof cases
    case (as_create now public raw args app job ticket)
    from create_code_app_build_Inr [OF this(2)] show ?thesis
    proof (elim disjE exE conjE)
      fix mode key h title descr request
      assume "insert_code_app sha now public raw d args mode key h title descr request = Inr (app, job, ticket, d')"
      note new = insert_code_app_Inr [OF this ids]
      show ?thesis unfolding as_create(1) by (rule counts_new [of d' d job]) (use new in simp_all)
    qed (simp add: as_create(1) counts_same)
  next
    case (as_queue now u a request p url key h j)
    with queue show ?thesis by blast
  next
    case (as_revise now u a revise j)
    from queue_owned_Inr [OF this(2)] queue counts_same [of d' d] show ?thesis unfolding as_revise(1) by blast
  next
    case (as_claim now w l res)
    with counts_claimed ok(1) show ?thesis by blast
  next
    case (as_fail loads now i w n err url md retryable j)
    from as_fail(2) show ?thesis
    proof (elim fail_build_Inr)
      fix q assume "claimed_job d i w n = Inr q" "jb_id j = jb_id q" "jb_attempts j = jb_attempts q"
        "db_jobs d' = db_jobs (set_job j d)"
      then show ?thesis unfolding as_fail(1) using claimed_jobD by (intro counts_set) blast+
    qed
  next
    case (as_complete now raw i w n b rv)
    from complete_build_jobs [OF this(2)] obtain q j where "claimed_job d i w n = Inr q" "jb_id j = jb_id q"
      "jb_attempts j = jb_attempts q" "db_jobs d' = db_jobs (set_job j d)" by blast
    then show ?thesis unfolding as_complete(1) using claimed_jobD by (intro counts_set) blast+
  next
    case (as_rollback now u a e key r)
    from rollback_owned_Inr [OF this(2)] swap_back_effect [OF _ assms(2)] have "db_jobs d' = db_jobs d" by fast
    then show ?thesis unfolding as_rollback(1) by (rule counts_same)
  next
    case as_data
    with data_step_frame ok(2) show ?thesis by (simp add: counts_same)
  qed
qed

text \<open>No run claims a job more often than it counts attempts of it.\<close>

lemma app_run_counts:
  assumes "app_run sha d claims d'" "apps_ok sha d"
  shows "set claims \<subseteq> jb_id ` set (db_jobs d') \<and>
    (\<forall>j\<in>set (db_jobs d'). int (count_list claims (jb_id j)) \<le> jb_attempts j)"
  using assms
proof (induction rule: app_run.induct)
  case (ar_none d)
  then show ?case by (simp add: apps_ok_def jobs_ok_def job_ok_def)
next
  case (ar_step d claims d1 c d2)
  from app_run_ok [OF ar_step(1,4)] have ok: "apps_ok sha d1" .
  then have fresh: "\<forall>j\<in>set (db_jobs d1). jb_id j < db_next d1" by (simp add: apps_ok_def jobs_ok_def)
  let ?claims = "claims @ (case c of None \<Rightarrow> [] | Some i \<Rightarrow> [i])"
  from app_step_counts [OF ar_step(2) ok] have m: "counts_claim c d1 d2" .
  from ar_step have ih: "set claims \<subseteq> jb_id ` set (db_jobs d1)"
    "\<forall>j\<in>set (db_jobs d1). int (count_list claims (jb_id j)) \<le> jb_attempts j" by auto
  have "int (count_list ?claims (jb_id j')) \<le> jb_attempts j'" if j': "j' \<in> set (db_jobs d2)" for j'
  proof -
    have step: "int (count_list ?claims k) = int (count_list claims k) + (if c = Some k then 1 else 0)" for k
      by (cases c) auto
    from m j' consider
      j where "j \<in> set (db_jobs d1)" "jb_id j = jb_id j'" "jb_attempts j' = jb_attempts j + (if c = Some (jb_id j') then 1 else 0)"
      | "db_next d1 \<le> jb_id j'" "0 \<le> jb_attempts j'" "c \<noteq> Some (jb_id j')"
      unfolding counts_claim_def by blast
    then show ?thesis
    proof cases
      case 1
      with ih(2) step show ?thesis by fastforce
    next
      case 2
      with fresh ih(1) have "jb_id j' \<notin> set claims" by fastforce
      with 2 step show ?thesis by simp
    qed
  qed
  moreover have "set ?claims \<subseteq> jb_id ` set (db_jobs d2)"
    using ih(1) m by (auto simp: counts_claim_def split: option.splits)
  ultimately show ?case by blast
qed

end
