(* ===== verification/Build_Samples.thy ===== *)
theory Build_Samples
  imports App_Deploy_Facts Dot_Samples
begin

text \<open>
  A run of the app builder for the examples: the owner of \<open>sample_db\<close>'s conversation creates an app, its
  build is claimed and completed, a revision is queued, claimed and completed, and rolled back. The
  digest is a constant of the right form.
\<close>

definition zeros :: string where
  "zeros = replicate 64 (CHR ''0'')"

definition zero_sha :: "string \<Rightarrow> string" where
  "zero_sha s = zeros"

definition start_db :: db where
  "start_db = sample_db\<lparr>db_apps := [], db_revisions := [], db_deployments := []\<rparr>"

definition sample_args :: create_app_args where
  "sample_args = \<lparr>ca_user = 1, ca_conv = 5, ca_requester = None, ca_title = ''Chores'', ca_descr = [],
     ca_request = JObj [(''purpose'', JStr ''chores'')], ca_access = JStr ''private_link'', ca_provider = None,
     ca_url = None, ca_key = Some ''c1'', ca_base_url = None, ca_hash = None\<rparr>"

definition passed_stage :: json where
  "passed_stage = JObj [(''status'', JStr ''passed'')]"

definition sample_artifact :: obj where
  "sample_artifact =
     [(''browser_bundle'', JObj [(''format'', JStr ''iife''), (''javascript'', JStr ''run()''), (''css'', JStr []),
         (''sha256'', JStr zeros), (''static_html'', JStr ''<p>''), (''sdk_version'', JStr ''1'')]),
      (''sdk_version'', JStr ''1''),
      (''test_results'', JObj [(''policy'', passed_stage), (''typescript_compile'', passed_stage),
         (''browser_smoke'', JObj [(''status'', JStr ''passed''), (''real_browser'', JObj [(''ready'', JBool True)])])])]"

definition sample_output :: build_output where
  "sample_output = \<lparr>bo_manifest = sample_manifest, bo_sources = [(''main.tsx'', JStr ''x'')], bo_url = ''u'',
     bo_sha = zeros, bo_sdk = ''1'', bo_lock = None, bo_tests = None, bo_artifact = Some sample_artifact,
     bo_app_url = None, bo_handoff = None, bo_metadata = None\<rparr>"

definition created_app_db :: db where
  "created_app_db = snd (snd (snd (projr (create_code_app_build zero_sha 1 ''pub'' ''tok'' start_db sample_args))))"

definition sample_rev :: "uuid \<Rightarrow> int \<Rightarrow> instant \<Rightarrow> revision_row" where
  "sample_rev i n t = \<lparr>rv_id = i, rv_app = 100, rv_number = n, rv_title = ''Chores'', rv_descr = [],
     rv_status = RevReady, rv_manifest = sample_manifest, rv_seed = [], rv_seed_applied = Some t,
     rv_sources = [(''main.tsx'', JStr ''x'')], rv_artifact = sample_artifact, rv_artifact_url = ''u'',
     rv_artifact_sha = zeros, rv_sdk = ''1'', rv_lock = [], rv_tests = [], rv_created = t\<rparr>"

definition done_job :: "uuid \<Rightarrow> uuid option \<Rightarrow> uuid \<Rightarrow> string \<Rightarrow> instant \<Rightarrow> job_row" where
  "done_job i base result key t = \<lparr>jb_id = i, jb_app = 100, jb_base = base, jb_result_rev = Some result,
     jb_status = Succeeded, jb_request = [(''purpose'', JStr ''chores'')], jb_key = Some key, jb_hash = Some zeros,
     jb_result = [(''revision_id'', JStr (str_uuid result)), (''artifact_sha256'', JStr zeros),
       (''build_metadata'', JObj [])],
     jb_provider = None, jb_url = ''/a/pub'', jb_attempts = 1, jb_claimed_by = Some ''w'', jb_lease = None,
     jb_error = None, jb_created = t, jb_started = Some (t + 1), jb_completed = Some (t + 2), jb_updated = t + 2\<rparr>"

definition busy_job :: "uuid \<Rightarrow> uuid option \<Rightarrow> string \<Rightarrow> instant \<Rightarrow> job_row" where
  "busy_job i base key t = \<lparr>jb_id = i, jb_app = 100, jb_base = base, jb_result_rev = None, jb_status = Claimed,
     jb_request = [(''purpose'', JStr ''chores'')], jb_key = Some key, jb_hash = Some zeros, jb_result = [],
     jb_provider = None, jb_url = ''/a/pub'', jb_attempts = 1, jb_claimed_by = Some ''w'',
     jb_lease = Some (t + 60000001), jb_error = None, jb_created = t, jb_started = Some (t + 1), jb_completed = None,
     jb_updated = t + 1\<rparr>"

definition done_event :: "uuid \<Rightarrow> uuid \<Rightarrow> uuid \<Rightarrow> instant \<Rightarrow> uevent_row" where
  "done_event i job result t = \<lparr>ue_id = i, ue_user = 1, ue_conv = Some 5, ue_type = ''app.build.completed'',
     ue_source = ''generated_app_builder'', ue_key = completed_event_key job,
     ue_payload = [(''app_id'', JStr (str_uuid 100)), (''public_id'', JStr ''pub''), (''title'', JStr ''Chores''),
       (''app_url'', JStr ''/a/pub''), (''description'', JStr []), (''purpose'', JStr ''chores''),
       (''revision_id'', JStr (str_uuid result)), (''build_job_id'', JStr (str_uuid job)), (''duration_ms'', JInt 0)],
     ue_provider = None, ue_status = EvPending, ue_attempts = 0, ue_next = t, ue_locked = None,
     ue_processed = None, ue_error = None, ue_created = t\<rparr>"

text \<open>The states after the first claim, after the first build, after the claim of the second, and after the second.\<close>

definition plain_app :: app_row where
  "plain_app = \<lparr>ga_id = 100, ga_user = 1, ga_conv = 5, ga_public = ''pub'', ga_title = ''Chores'', ga_descr = [],
     ga_template = ''code_app'', ga_theme = ''dot'', ga_access = PrivateLink, ga_status = AppActive,
     ga_version = 1, ga_runtime = CodeRuntime, ga_created = 1, ga_updated = 3\<rparr>"

definition claimed_app_db :: db where
  "claimed_app_db = start_db\<lparr>db_next := 104, db_apps := [plain_app\<lparr>ga_version := 0, ga_updated := 1\<rparr>],
     db_jobs := [busy_job 102 None ''c1'' 1],
     db_memberships := [\<lparr>ms_id = 101, ms_app = 100, ms_user = 1, ms_role = Owner, ms_created = 1\<rparr>],
     db_tickets := [\<lparr>tk_id = 103, tk_app = 100, tk_issuer = 1, tk_principal = Some 1, tk_role = Owner,
       tk_hash = zeros, tk_expires = 604800000001, tk_used = None, tk_last = None, tk_count = 0, tk_created = 1\<rparr>]\<rparr>"

definition built_app_db :: db where
  "built_app_db = claimed_app_db\<lparr>db_next := 106, db_apps := [plain_app],
     db_revisions := [sample_rev 104 1 3],
     db_deployments := [\<lparr>dp_app = 100, dp_active = 104, dp_previous = None, dp_version = 1, dp_at = 3\<rparr>],
     db_jobs := [done_job 102 None 104 ''c1'' 1], db_uevents := [done_event 105 102 104 3]\<rparr>"

definition reclaimed_app_db :: db where
  "reclaimed_app_db = built_app_db\<lparr>db_next := 107,
     db_jobs := [done_job 102 None 104 ''c1'' 1, busy_job 106 (Some 104) ''r1'' 4]\<rparr>"

definition rebuilt_app_db :: db where
  "rebuilt_app_db = reclaimed_app_db\<lparr>db_next := 109,
     db_apps := [plain_app\<lparr>ga_version := 2, ga_updated := 6\<rparr>],
     db_revisions := [sample_rev 104 1 3, sample_rev 107 2 6],
     db_deployments := [\<lparr>dp_app = 100, dp_active = 107, dp_previous = Some 104, dp_version = 2, dp_at = 6\<rparr>],
     db_jobs := [done_job 102 None 104 ''c1'' 1, done_job 106 (Some 104) 107 ''r1'' 4],
     db_uevents := [done_event 105 102 104 3, done_event 108 106 107 6]\<rparr>"

definition queued_app_db :: db where
  "queued_app_db = snd (projr (queue_code_app_revision zero_sha 4 built_app_db 1 100
     (JObj [(''purpose'', JStr ''chores'')]) None None (Some ''r1'') None))"

definition rolled_app_db :: db where
  "rolled_app_db = snd (projr (rollback_owned_code_app zero_sha 7 rebuilt_app_db 1 100 107 (Some ''b1'')))"

section \<open>The run\<close>

lemma Inr_snd: "\<not> isl x \<Longrightarrow> \<exists>r. x = Inr (r, snd (projr x))"
  by (cases x) (auto simp: surjective_pairing)

lemma start_ok: "apps_ok zero_sha start_db"
  by (simp add: apps_ok_def jobs_ok_def deploy_ok_def data_ok_def schema_ok_def start_db_def sample_db_def empty_db_def
      app_bytes_def MAX_DATA_BYTES_PER_APP_def MAX_RECORDS_PER_APP_def)

lemma created_app_run:
  "\<exists>app job ticket. create_code_app_build zero_sha 1 ''pub'' ''tok'' start_db sample_args = Inr (app, job, ticket, created_app_db)"
proof -
  have "\<not> isl (create_code_app_build zero_sha 1 ''pub'' ''tok'' start_db sample_args)" by code_simp
  then show ?thesis
    by (cases "create_code_app_build zero_sha 1 ''pub'' ''tok'' start_db sample_args") (auto simp: created_app_db_def)
qed

lemma claimed_app_run:
  "claim_next_build 2 created_app_db ''w'' 60 =
     Inr (Some \<lparr>cl_job = 102, cl_app = 100, cl_base = None, cl_request = [(''purpose'', JStr ''chores'')], cl_attempt = 1\<rparr>,
       claimed_app_db)"
  by code_simp

lemma built_app_run:
  "complete_build zero_sha 3 ''tok2'' claimed_app_db 102 ''w'' 1 sample_output = Inr (sample_rev 104 1 3, built_app_db)"
  by code_simp

lemma queued_app_run:
  "\<exists>j. queue_code_app_revision zero_sha 4 built_app_db 1 100 (JObj [(''purpose'', JStr ''chores'')]) None None (Some ''r1'') None =
     Inr (j, queued_app_db)"
  unfolding queued_app_db_def by (rule Inr_snd) code_simp

lemma reclaimed_app_run:
  "claim_next_build 5 queued_app_db ''w'' 60 =
     Inr (Some \<lparr>cl_job = 106, cl_app = 100, cl_base = Some 104, cl_request = [(''purpose'', JStr ''chores'')], cl_attempt = 1\<rparr>,
       reclaimed_app_db)"
  by code_simp

lemma rebuilt_app_run:
  "complete_build zero_sha 6 ''tok3'' reclaimed_app_db 106 ''w'' 1 sample_output = Inr (sample_rev 107 2 6, rebuilt_app_db)"
  by code_simp

lemma rolled_app_run:
  "\<exists>r. rollback_owned_code_app zero_sha 7 rebuilt_app_db 1 100 107 (Some ''b1'') = Inr (r, rolled_app_db)"
  unfolding rolled_app_db_def by (rule Inr_snd) code_simp

end
