(* ===== verification/App_Build_Laws.thy ===== *)
theory App_Build_Laws
  imports App_Build_Steps Build_Samples
begin

text \<open>
  The laws of building and publishing apps: whatever is deployed passed the gate and fits the records of
  its app; a build is claimed at most three times, oldest first, and settled at most once; a completed
  build replaces the revision it started from; a rollback is undone by another one; and a link sent to a
  group never carries an owner's authority.
\<close>

section \<open>Runs\<close>

text \<open>C2. In every state that a run of operations reaches, the active revision of every deployment exists,
  belongs to the app and has passed the promotion gate, every record of a live app is valid for the
  manifest that is deployed, an app has at most one live build, and a revision number is used once.\<close>

theorem runs_deploy_only_passed_builds:
  assumes "app_run sha d claims d'" "apps_ok sha d"
  shows "apps_ok sha d' \<and> (\<forall>dp\<in>set (db_deployments d'). \<exists>rv. find_revision d' (dp_active dp) = Some rv \<and>
    rv_app rv = dp_app dp \<and> validate_promotable_compiled_artifact sha (Some (rv_artifact rv)) (rv_sdk rv) = Inr () \<and>
    (\<forall>app. code_app d' (dp_app dp) = Inr app \<longrightarrow>
      (\<forall>r\<in>set (db_records d'). dr_app r = dp_app dp \<longrightarrow> conforms (rv_manifest rv) r)))"
proof (intro conjI ballI)
  show ok: "apps_ok sha d'" by (rule app_run_ok [OF assms])
  fix dp assume dp: "dp \<in> set (db_deployments d')"
  have ok': "deploy_ok sha d'" "schema_ok d'" using ok by (simp_all add: apps_ok_def)
  from deploy_okD(7) [OF ok'(1)] dp have "deployment_ok sha d' dp" by blast
  then obtain rv where rv: "find_revision d' (dp_active dp) = Some rv" "rv_app rv = dp_app dp" "promotable sha rv"
    by (auto simp: deployment_ok_def revision_live_def split: option.splits)
  have "find_deployment d' (dp_app dp) = Some dp" using deploy_okD(6) [OF ok'(1)] dp by (simp add: row_by_distinct)
  with rv(1) have "active_manifest d' (dp_app dp) = Inr (rv_manifest rv)" if "code_app d' (dp_app dp) = Inr app" for app
    using that by (simp add: active_manifest_def)
  with ok'(2) rv show "\<exists>rv. find_revision d' (dp_active dp) = Some rv \<and> rv_app rv = dp_app dp \<and>
      validate_promotable_compiled_artifact sha (Some (rv_artifact rv)) (rv_sdk rv) = Inr () \<and>
      (\<forall>app. code_app d' (dp_app dp) = Inr app \<longrightarrow>
        (\<forall>r\<in>set (db_records d'). dr_app r = dp_app dp \<longrightarrow> conforms (rv_manifest rv) r))"
    by (intro exI [of _ rv]) (auto simp: schema_ok_def promotable_def)
qed

lemma sample_run_claimed: "app_run zero_sha start_db [102] claimed_app_db"
proof -
  from created_app_run obtain app job ticket where
    "create_code_app_build zero_sha 1 ''pub'' ''tok'' start_db sample_args = Inr (app, job, ticket, created_app_db)" by blast
  from ar_step [OF ar_none as_create [OF this]] have "app_run zero_sha start_db [] created_app_db" by simp
  from ar_step [OF this as_claim [OF claimed_app_run]] show ?thesis by simp
qed

lemma sample_run_built: "app_run zero_sha start_db [102] built_app_db"
  using ar_step [OF sample_run_claimed as_complete [OF built_app_run]] by simp

lemma sample_run_reclaimed: "app_run zero_sha start_db [102, 106] reclaimed_app_db"
proof -
  from queued_app_run obtain j where
    "queue_code_app_revision zero_sha 4 built_app_db 1 100 (JObj [(''purpose'', JStr ''chores'')]) None None (Some ''r1'') None =
     Inr (j, queued_app_db)" by blast
  from ar_step [OF sample_run_built as_queue [OF this]] have "app_run zero_sha start_db [102] queued_app_db" by simp
  from ar_step [OF this as_claim [OF reclaimed_app_run]] show ?thesis by simp
qed

lemma sample_run_rebuilt: "app_run zero_sha start_db [102, 106] rebuilt_app_db"
  using ar_step [OF sample_run_reclaimed as_complete [OF rebuilt_app_run]] by simp

lemmas claimed_app_ok = app_run_ok [OF sample_run_claimed start_ok]
lemmas reclaimed_app_ok = app_run_ok [OF sample_run_reclaimed start_ok]
lemmas rebuilt_app_ok = app_run_ok [OF sample_run_rebuilt start_ok]

theorem runs_deploy_only_passed_builds_witness:
  "\<exists>rv. find_revision rebuilt_app_db 107 = Some rv \<and>
     validate_promotable_compiled_artifact zero_sha (Some (rv_artifact rv)) (rv_sdk rv) = Inr ()"
proof -
  have "db_deployments rebuilt_app_db = [\<lparr>dp_app = 100, dp_active = 107, dp_previous = Some 104, dp_version = 2, dp_at = 6\<rparr>]"
    by (simp add: rebuilt_app_db_def)
  with runs_deploy_only_passed_builds [OF sample_run_rebuilt start_ok] show ?thesis by auto
qed

text \<open>C4. No run of operations, by any number of workers, claims a build more than three times.\<close>

theorem builds_are_claimed_at_most_three_times:
  assumes "app_run sha d claims d'" "apps_ok sha d"
  shows "int (count_list claims i) \<le> 3"
proof (cases "i \<in> set claims")
  case True
  with app_run_counts [OF assms] obtain j where j: "j \<in> set (db_jobs d')" "int (count_list claims (jb_id j)) \<le> jb_attempts j"
    "jb_id j = i" by blast
  from app_run_ok [OF assms] j(1) have "job_ok j" by (simp add: apps_ok_def jobs_ok_def)
  with j show ?thesis by (simp add: job_ok_def MAX_BUILD_ATTEMPTS_def)
qed (simp add: count_list_0_iff)

theorem builds_are_claimed_at_most_three_times_witness:
  "app_run zero_sha start_db [102, 106] rebuilt_app_db \<and> int (count_list [102, 106] (106::uuid)) \<le> 3"
  using builds_are_claimed_at_most_three_times [OF sample_run_rebuilt start_ok, of 106] sample_run_rebuilt by blast

section \<open>Completing\<close>

text \<open>C3. A completed build deploys its revision over exactly the revision the build was started from, which
  becomes the one to go back to; the revision passed the gate and its manifest fits every record that was
  there; the deployments of other apps stay as they are. The completion is reported exactly once: one pending event of the build,
  to the owner and naming the revision, is appended to the outbox, and none if the outbox has the build's event already. A build
  whose base is no longer the active revision is therefore refused.\<close>

theorem completed_build_replaces_its_base:
  assumes "complete_build sha now raw d i w n b = Inr (rv, d')" "apps_ok sha d"
  shows "\<exists>j dp app. claimed_job d i w n = Inr j \<and> locked_code_app d (jb_app j) = Inr app \<and>
    map_option dp_active (find_deployment d (jb_app j)) = jb_base j \<and>
    find_deployment d' (jb_app j) = Some dp \<and> dp_active dp = rv_id rv \<and> dp_previous dp = jb_base j \<and>
    find_revision d' (rv_id rv) = Some rv \<and> rv_manifest rv = bo_manifest b \<and>
    validate_promotable_compiled_artifact sha (Some (rv_artifact rv)) (rv_sdk rv) = Inr () \<and>
    (\<forall>r\<in>set (db_records d). dr_app r = jb_app j \<longrightarrow> conforms (bo_manifest b) r) \<and>
    (\<forall>a. a \<noteq> jb_app j \<longrightarrow> find_deployment d' a = find_deployment d a) \<and>
    completed_event_key i \<in> ue_key ` set (db_uevents d') \<and> reports_once i app rv (db_uevents d) (db_uevents d')"
proof -
  from complete_build_effect [OF assms] obtain j dp where x: "claimed_job d i w n = Inr j"
    "find_deployment d' (jb_app j) = Some dp" "dp_active dp = rv_id rv" "dp_previous dp = jb_base j"
    "map_option dp_active (find_deployment d (jb_app j)) = jb_base j"
    "find_revision d' (rv_id rv) = Some rv" "rv_manifest rv = bo_manifest b" "promotable sha rv"
    "\<forall>a. a \<noteq> jb_app j \<longrightarrow> find_deployment d' a = find_deployment d a"
    "completed_event_key i \<in> ue_key ` set (db_uevents d')" by blast
  have "\<forall>r\<in>set (db_records d). dr_app r = jb_app j \<longrightarrow> conforms (bo_manifest b) r"
    by (rule complete_build_Inr [OF assms(1)]) (use x(1) in simp)
  moreover from complete_build_reports [OF assms] x(1) obtain app where
    "locked_code_app d (jb_app j) = Inr app" "reports_once i app rv (db_uevents d) (db_uevents d')" by auto
  ultimately show ?thesis using x by (intro exI [of _ j] exI [of _ dp] exI [of _ app]) (simp add: promotable_def)
qed

theorem completed_build_replaces_its_base_witness:
  "find_deployment reclaimed_app_db 100 = Some \<lparr>dp_app = 100, dp_active = 104, dp_previous = None, dp_version = 1, dp_at = 3\<rparr> \<and>
   (\<exists>j dp. claimed_job reclaimed_app_db 106 ''w'' 1 = Inr j \<and> jb_base j = Some 104 \<and>
     find_deployment rebuilt_app_db (jb_app j) = Some dp \<and> dp_active dp = 107 \<and> dp_previous dp = Some 104)"
proof -
  have "claimed_job reclaimed_app_db 106 ''w'' 1 = Inr (busy_job 106 (Some 104) ''r1'' 4)" by code_simp
  with completed_build_replaces_its_base [OF rebuilt_app_run reclaimed_app_ok] show ?thesis
    by (auto simp: busy_job_def sample_rev_def reclaimed_app_db_def built_app_db_def)
qed

text \<open>Once a claim is settled, by a completion or by a failure, every later settlement under the same
  claim is refused and nothing changes: two answers of one worker never both count.\<close>

theorem build_settles_at_most_once:
  assumes "complete_build sha now raw d i w n b = Inr (rv, d') \<or>
      fail_build loads now d i w n err url md retryable = Inr (j, d')"
    and "jobs_ok d"
  shows "complete_build sha later raw' d' i w n b' = Inl CodeAppConflict \<and>
    fail_build loads later d' i w n err' url' md' retryable' = Inl CodeAppConflict"
proof -
  have "\<not> claim_current d' (i, w, n)"
    using assms(1) completing.settle_ends [OF assms(2), of sha "(i, w, n, raw, b)" now rv d']
      failing.settle_ends [OF assms(2), of loads "(i, w, n, err, url, md, retryable)" now j d'] by auto
  then show ?thesis
    using completing.settle_refuses [of d' "(i, w, n, raw', b')" sha later]
      failing.settle_refuses [of d' "(i, w, n, err', url', md', retryable')" loads later] by simp
qed

theorem build_settles_at_most_once_witness:
  "complete_build zero_sha 9 ''tok4'' rebuilt_app_db 106 ''w'' 1 sample_output = Inl CodeAppConflict"
proof -
  have "jobs_ok reclaimed_app_db" using reclaimed_app_ok by (simp add: apps_ok_def)
  from build_settles_at_most_once [OF disjI1 [OF rebuilt_app_run] this] show ?thesis by blast
qed

text \<open>A claim fences the claims before it: once a worker has claimed a build again, completing it or
  failing it under an earlier attempt is refused, whoever the earlier worker was.\<close>

theorem superseded_claim_is_fenced:
  assumes "claim_next_build now d w l = Inr (Some c, d')" "jobs_ok d" "n < cl_attempt c"
  shows "complete_build sha later raw d' (cl_job c) w' n b = Inl CodeAppConflict \<and>
    fail_build loads later d' (cl_job c) w' n err url md retryable = Inl CodeAppConflict"
proof -
  from claim_next_build_Inr [OF assms(1)] obtain worker r where
    run: "claim_loop now worker l d = (Some r, d')" and c: "c = claim_of r" by (auto simp: eq_commute [of "Some c"])
  from claim_loop_effect [OF assms(2) run] have ok: "jobs_ok d'" and r: "r \<in> set (db_jobs d')" by auto
  have "jb_id r = cl_job c" "jb_attempts r \<noteq> n" using assms(3) c by (simp_all add: claim_of_def)
  then show ?thesis
    using completing.stale_refused [OF ok _ r, of "(cl_job c, w', n, raw, b)" "cl_job c" w' n sha later]
      failing.stale_refused [OF ok _ r, of "(cl_job c, w', n, err, url, md, retryable)" "cl_job c" w' n loads later]
    by simp
qed

theorem superseded_claim_is_fenced_witness:
  "complete_build zero_sha 9 ''tok4'' reclaimed_app_db 106 ''v'' 0 sample_output = Inl CodeAppConflict"
proof -
  have "jobs_ok queued_app_db"
    using queue_code_app_revision_ok app_run_ok [OF sample_run_built start_ok] queued_app_run deploy_okD(2)
    by (metis apps_ok_def)
  from superseded_claim_is_fenced [OF reclaimed_app_run this, of 0] show ?thesis by simp
qed

section \<open>Claiming\<close>

text \<open>A claim takes the oldest build that is queued or whose lease has run out and that has attempts left,
  gives it one more attempt and the worker's lease; builds that ran out of attempts on the way end as
  failed with an event in the outbox, and every other build stays as it is. Without a claim nothing is
  left to claim.\<close>

theorem claim_takes_oldest_build:
  assumes "claim_next_build now d w l = Inr (res, d')" "jobs_ok d"
  shows "(case res of None \<Rightarrow> \<forall>q\<in>set (db_jobs d'). \<not> build_eligible now q
     | Some c \<Rightarrow> \<exists>j\<in>set (db_jobs d). build_eligible now j \<and> jb_id j = cl_job c \<and> cl_attempt c = jb_attempts j + 1 \<and>
         cl_attempt c \<le> MAX_BUILD_ATTEMPTS \<and> (\<exists>worker. text_value (JStr w) 120 = Inr worker \<and> claim_current d' (cl_job c, worker, cl_attempt c)) \<and>
         (\<forall>q\<in>set (db_jobs d). build_eligible now q \<and> jb_attempts q < MAX_BUILD_ATTEMPTS \<longrightarrow> jb_created j \<le> jb_created q)) \<and>
    (\<forall>q'\<in>set (db_jobs d'). \<exists>q\<in>set (db_jobs d). jb_id q' = jb_id q \<and>
       (q' = q \<or> Some (jb_id q') = map_option cl_job res \<or>
        (MAX_BUILD_ATTEMPTS \<le> jb_attempts q \<and> q' = exhausted_job now q \<and> failure_recorded d' q)))"
proof -
  from claim_next_build_Inr [OF assms(1)] obtain worker r where w: "text_value (JStr w) 120 = Inr worker" and
    run: "claim_loop now worker l d = (r, d')" and res: "res = map_option claim_of r" by blast
  note e = claim_loop_effect [OF assms(2) run]
  show ?thesis
  proof (intro conjI ballI)
    fix q' assume "q' \<in> set (db_jobs d')"
    with e obtain q where "q \<in> set (db_jobs d)" "claim_change now worker l r d' q q'"
      by (metis in_set_conv_nth list_all2_conv_all_nth)
    then show "\<exists>q\<in>set (db_jobs d). jb_id q' = jb_id q \<and> (q' = q \<or> Some (jb_id q') = map_option cl_job res \<or>
        (MAX_BUILD_ATTEMPTS \<le> jb_attempts q \<and> q' = exhausted_job now q \<and> failure_recorded d' q))"
      by (intro bexI [of _ q]) (auto simp: claim_change_def res claim_of_def held_build_def exhausted_job_def)
  next
    show "case res of None \<Rightarrow> \<forall>q\<in>set (db_jobs d'). \<not> build_eligible now q
     | Some c \<Rightarrow> \<exists>j\<in>set (db_jobs d). build_eligible now j \<and> jb_id j = cl_job c \<and> cl_attempt c = jb_attempts j + 1 \<and>
         cl_attempt c \<le> MAX_BUILD_ATTEMPTS \<and> (\<exists>worker. text_value (JStr w) 120 = Inr worker \<and> claim_current d' (cl_job c, worker, cl_attempt c)) \<and>
         (\<forall>q\<in>set (db_jobs d). build_eligible now q \<and> jb_attempts q < MAX_BUILD_ATTEMPTS \<longrightarrow> jb_created j \<le> jb_created q)"
    proof (cases r)
      case None
      with e res show ?thesis by simp
    next
      case (Some h)
      with e obtain j where j: "j \<in> set (db_jobs d)" "build_eligible now j" "jb_attempts j < MAX_BUILD_ATTEMPTS"
        "h = held_build now worker l j" "h \<in> set (db_jobs d')"
        "\<forall>q\<in>set (db_jobs d). build_eligible now q \<and> jb_attempts q < MAX_BUILD_ATTEMPTS \<longrightarrow> jb_created j \<le> jb_created q" by blast
      have "0 \<le> jb_attempts j" using j(1) assms(2) by (simp add: jobs_ok_def job_ok_def)
      have "claim_current d' (jb_id h, worker, jb_attempts h)"
        using j(4,5) \<open>0 \<le> jb_attempts j\<close> unfolding claim_current_def prod.case
        by (intro conjI bexI [of _ h]) (simp_all add: held_build_def)
      moreover have "jb_id j = jb_id h" "jb_attempts h = jb_attempts j + 1" using j(4) by (simp_all add: held_build_def)
      ultimately show ?thesis using j w unfolding res Some option.map option.case
        by (intro bexI [of _ j]) (simp_all add: claim_of_def)
    qed
  qed
qed

theorem claim_takes_oldest_build_witness:
  "\<exists>j\<in>set (db_jobs queued_app_db). build_eligible 5 j \<and> jb_id j = 106 \<and> 1 = jb_attempts j + 1"
proof -
  have "jobs_ok queued_app_db"
    using queue_code_app_revision_ok app_run_ok [OF sample_run_built start_ok] queued_app_run deploy_okD(2)
    by (metis apps_ok_def)
  from claim_takes_oldest_build [OF reclaimed_app_run this] show ?thesis by auto
qed

section \<open>Failing\<close>

text \<open>C5. A failed attempt is never lost: the build is queued again, to be claimed by anyone at once, exactly
  when the failure may be retried (what the structured error says, else what the worker says) and an
  attempt is left; otherwise it is failed for good and the event for its owner is in the outbox. No
  other build changes.\<close>

theorem failed_attempt_is_retried_or_reported:
  assumes "fail_build loads now d i w n err url md retryable = Inr (j', d')"
  shows "let retry = (case snd (safe_failure loads err) of None \<Rightarrow> retryable | Some b \<Rightarrow> b) \<and> n < MAX_BUILD_ATTEMPTS in
    jb_id j' = i \<and> j' \<in> set (db_jobs d') \<and> jb_attempts j' = n \<and>
    (if retry then jb_status j' = Queued \<and> (\<forall>t. build_eligible t j')
     else jb_status j' = Failed \<and> jb_completed j' = Some now \<and> failed_event_key i \<in> ue_key ` set (db_uevents d')) \<and>
    (\<forall>q\<in>set (db_jobs d'). q = j' \<or> q \<in> set (db_jobs d))"
proof -
  obtain j app where j: "claimed_job d i w n = Inr j"
    and same: "find_app d (jb_app j) = Some app" "jb_id j' = jb_id j" "jb_app j' = jb_app j" "jb_attempts j' = jb_attempts j"
    "db_jobs d' = db_jobs (set_job j' d)" "db_apps d' = db_apps d"
    and out: "jb_status j' = Queued \<or> (jb_status j' = Failed \<and> jb_completed j' = Some now \<and> failure_recorded d' j')"
    and st: "jb_status j' = (if (case snd (safe_failure loads err) of None \<Rightarrow> retryable | Some b \<Rightarrow> b) \<and>
      jb_attempts j < MAX_BUILD_ATTEMPTS then Queued else Failed)"
    by (rule fail_build_Inr [OF assms]) auto
  note c = claimed_jobD [OF j]
  have "j' \<in> set (db_jobs d')" using c same(2,5) by (auto simp: in_set_upd_where)
  moreover have "\<forall>q\<in>set (db_jobs d'). q = j' \<or> q \<in> set (db_jobs d)" using same(5) by (auto simp: in_set_upd_where)
  ultimately show ?thesis
    using c st same out unfolding Let_def by (auto simp: failure_recorded_def build_eligible_def)
qed

definition failed_app_db :: db where
  "failed_app_db = snd (projr (fail_build (\<lambda>_. None) 6 reclaimed_app_db 106 ''w'' 1 ''boom'' None [] False))"

theorem failed_attempt_is_retried_or_reported_witness:
  "failed_event_key 106 \<in> ue_key ` set (db_uevents failed_app_db)"
proof -
  have "\<exists>j. fail_build (\<lambda>_. None) 6 reclaimed_app_db 106 ''w'' 1 ''boom'' None [] False = Inr (j, failed_app_db)"
    unfolding failed_app_db_def by (rule Inr_snd) code_simp
  then obtain j where "fail_build (\<lambda>_. None) 6 reclaimed_app_db 106 ''w'' 1 ''boom'' None [] False = Inr (j, failed_app_db)" ..
  from failed_attempt_is_retried_or_reported [OF this] show ?thesis by (simp add: safe_failure_def)
qed

section \<open>Rolling back\<close>

text \<open>C6. Rolling back twice restores the deployment: the second rollback, of the revision the first one made
  active, exchanges the pointers again, and both count as deployments. Of the rest of the database only three things change: each
  rollback appends one event to the app's journal, takes one identifier, and makes the row of the app show the revision it
  activated, so that after the second the app shows the revision it showed at first.\<close>

theorem rollback_twice_restores:
  assumes "rollback_owned_code_app sha now d u a e key = Inr (r, d1)" "d1 \<noteq> d"
    and "rollback_owned_code_app sha later d1 u' a e' key' = Inr (r', d2)" "d2 \<noteq> d1" "apps_ok sha d"
  shows "\<exists>dp dp2. find_deployment d a = Some dp \<and> find_deployment d2 a = Some dp2 \<and> dp_active dp = e \<and>
    dp_previous dp = Some e' \<and> dp_active dp2 = dp_active dp \<and> dp_previous dp2 = dp_previous dp \<and>
    dp_version dp2 = dp_version dp + 2 \<and>
    (\<forall>b. b \<noteq> a \<longrightarrow> find_deployment d2 b = find_deployment d b) \<and>
    db_records d2 = db_records d \<and> db_jobs d2 = db_jobs d \<and>
    (\<exists>rv ev ev'. find_revision d e = Some rv \<and> d2 = d\<lparr>db_next := db_next d + 2,
      db_apps := upd_where (\<lambda>x. ga_id x = a) (show_revision later rv) (db_apps d),
      db_deployments := db_deployments d2, db_events := db_events d @ [ev, ev']\<rparr>)"
proof -
  from rollback_owned_Inr [OF assms(1)] assms(2) obtain actor k h where
    s1: "swap_back sha now d a u actor e k h = Inr (r, d1)" by blast
  from rollback_owned_Inr [OF assms(3)] assms(4) obtain actor' k' h' where
    s2: "swap_back sha later d1 a u' actor' e' k' h' = Inr (r', d2)" by blast
  note e1 = swap_back_effect [OF s1 assms(5)]
  note e2 = swap_back_effect [OF s2 e1 [THEN conjunct1]]
  from e1 obtain dp p dp1 where 1: "find_deployment d a = Some dp" "dp_previous dp = Some p" "dp_active dp = e"
    "find_deployment d1 a = Some dp1" "dp_active dp1 = p" "dp_previous dp1 = Some e" "dp_version dp1 = dp_version dp + 1" by blast
  from e2 obtain dq q dp2 where 2: "find_deployment d1 a = Some dq" "dp_previous dq = Some q" "dp_active dq = e'"
    "find_deployment d2 a = Some dp2" "dp_active dp2 = q" "dp_previous dp2 = Some e'" "dp_version dp2 = dp_version dq + 1" by blast
  from swap_back_frame [OF s1 assms(5)] obtain rv' ev ds where
    f1: "d1 = d\<lparr>db_next := db_next d + 1, db_apps := upd_where (\<lambda>x. ga_id x = a) (show_revision now rv') (db_apps d),
      db_deployments := ds, db_events := db_events d @ [ev]\<rparr>" by blast
  from swap_back_frame [OF s2 e1 [THEN conjunct1]] 1 obtain rv ev' ds' where f2: "find_revision d1 e = Some rv"
    "d2 = d1\<lparr>db_next := db_next d1 + 1, db_apps := upd_where (\<lambda>x. ga_id x = a) (show_revision later rv) (db_apps d1),
      db_deployments := ds', db_events := db_events d1 @ [ev']\<rparr>" by auto
  have frame: "\<exists>rv ev ev'. find_revision d e = Some rv \<and> d2 = d\<lparr>db_next := db_next d + 2,
      db_apps := upd_where (\<lambda>x. ga_id x = a) (show_revision later rv) (db_apps d),
      db_deployments := db_deployments d2, db_events := db_events d @ [ev, ev']\<rparr>"
    using f2 unfolding f1 by (intro exI [of _ rv] exI [of _ ev] exI [of _ ev']) (simp add: show_again)
  show ?thesis
    by (rule exI [of _ dp], rule exI [of _ dp2], intro conjI; (rule frame)?) (use 1 2 e1 e2 in auto)
qed

definition restored_app_db :: db where
  "restored_app_db = snd (projr (rollback_owned_code_app zero_sha 8 rolled_app_db 1 100 104 (Some ''b2'')))"

theorem rollback_twice_restores_witness:
  "\<exists>dp2. find_deployment restored_app_db 100 = Some dp2 \<and> dp_active dp2 = 107 \<and> dp_previous dp2 = Some 104 \<and> dp_version dp2 = 4"
proof -
  from rolled_app_run obtain r where
    1: "rollback_owned_code_app zero_sha 7 rebuilt_app_db 1 100 107 (Some ''b1'') = Inr (r, rolled_app_db)" ..
  have "\<exists>r. rollback_owned_code_app zero_sha 8 rolled_app_db 1 100 104 (Some ''b2'') = Inr (r, restored_app_db)"
    unfolding restored_app_db_def by (rule Inr_snd) code_simp
  then obtain r' where 2: "rollback_owned_code_app zero_sha 8 rolled_app_db 1 100 104 (Some ''b2'') = Inr (r', restored_app_db)" ..
  have ne: "rolled_app_db \<noteq> rebuilt_app_db" "restored_app_db \<noteq> rolled_app_db" by code_simp+
  have "find_deployment rebuilt_app_db 100 = Some \<lparr>dp_app = 100, dp_active = 107, dp_previous = Some 104, dp_version = 2, dp_at = 6\<rparr>"
    by (simp add: rebuilt_app_db_def)
  with rollback_twice_restores [OF 1 ne(1) 2 ne(2) rebuilt_app_ok] show ?thesis by auto
qed

section \<open>Creating\<close>

text \<open>C9. The quotas hold after every creation that writes: the owner has at most 20 live code apps and at
  most three builds under way, and no other user's counts change.\<close>

theorem creation_keeps_quotas:
  assumes "create_code_app_build sha now public raw d args = Inr (app, job, ticket, d')" "d' \<noteq> d" "apps_ok sha d"
  shows "active_code_apps_of d' (ca_user args) \<le> MAX_ACTIVE_CODE_APPS_PER_USER \<and>
    live_builds_of d' (ca_user args) \<le> MAX_LIVE_BUILDS_PER_USER \<and>
    (\<forall>u. u \<noteq> ca_user args \<longrightarrow> active_code_apps_of d' u = active_code_apps_of d u \<and> live_builds_of d' u = live_builds_of d u)"
proof -
  have ok: "\<forall>j\<in>set (db_jobs d). jb_id j < db_next d \<and> jb_app j < db_next d" "\<forall>app\<in>set (db_apps d). ga_id app < db_next d"
    using assms(3) deploy_okD(2) by (auto simp: apps_ok_def jobs_ok_def)
  then have ids: "\<forall>j\<in>set (db_jobs d). jb_id j < db_next d" by simp
  from create_code_app_build_Inr [OF assms(1)] assms(2) obtain mode key h title descr request where
    q: "active_code_apps_of d (ca_user args) < MAX_ACTIVE_CODE_APPS_PER_USER"
      "live_builds_of d (ca_user args) < MAX_LIVE_BUILDS_PER_USER"
    and "insert_code_app sha now public raw d args mode key h title descr request = Inr (app, job, ticket, d')" by blast
  note i = insert_code_app_Inr [OF this(3) ids]
  have apps: "active_code_apps_of d' u = active_code_apps_of d u + (if u = ca_user args then 1 else 0)" for u
    using i by (simp add: active_code_apps_of_def)
  have old: "find_app d' (jb_app j) = find_app d (jb_app j)" if "j \<in> set (db_jobs d)" for j
    using that ok(1) i by (auto simp: row_by_append split: option.split)
  have "find_app d (db_next d) = None" using ok(2) by (auto simp: row_by_None)
  then have "find_app d' (db_next d) = Some app" using i by (simp add: row_by_append)
  then have "live_builds_of d' u = live_builds_of d u + (if u = ca_user args then 1 else 0)" for u
    using i old unfolding live_builds_of_def count_where_def by (auto simp: job_live_def cong: filter_cong)
  with apps q show ?thesis by simp
qed

theorem creation_keeps_quotas_witness:
  "active_code_apps_of created_app_db 1 \<le> 20 \<and> live_builds_of created_app_db 1 \<le> 3"
proof -
  from created_app_run obtain app job ticket where
    run: "create_code_app_build zero_sha 1 ''pub'' ''tok'' start_db sample_args = Inr (app, job, ticket, created_app_db)" by blast
  have "created_app_db \<noteq> start_db" by code_simp
  from creation_keeps_quotas [OF run this start_ok] show ?thesis
    by (simp add: sample_args_def MAX_ACTIVE_CODE_APPS_PER_USER_def MAX_LIVE_BUILDS_PER_USER_def)
qed

lemma fresh_app: "apps_ok sha d \<Longrightarrow> find_app d (db_next d) = None"
  using deploy_okD(2) [of sha d] by (auto simp: apps_ok_def row_by_None)

lemma locked_owned_conversation_cong:
  assumes "db_convs d' = db_convs d" "db_members d' = db_members d"
  shows "locked_owned_conversation d' c u r = locked_owned_conversation d c u r"
  unfolding locked_owned_conversation_def assms by (rule refl)

lemma replay_created_build_same:
  "replay_created_build d j h = Inr (app, job, ticket) \<Longrightarrow> job = j \<and> find_app d (jb_app j) = Some app \<and> jb_hash j = Some h"
  by (auto simp: replay_created_build_def bindR_Inr some_or_Inr validate_build_replay_def split: if_splits)

text \<open>C7. Creating an app under an idempotency key twice creates it once: the repetition, with any other clock
  and any other random token, answers with the same app and the same build and changes nothing.\<close>

theorem creation_is_idempotent:
  assumes run: "create_code_app_build sha now public raw d args = Inr (app, job, ticket, d')"
    and key: "ca_key args \<noteq> None" and ok: "apps_ok sha d"
  shows "\<exists>t. create_code_app_build sha later public' raw' d' args = Inr (app, job, t, d')"
proof -
  let ?req = "case ca_requester args of None \<Rightarrow> ca_user args | Some u \<Rightarrow> u"
  let ?hash = "\<lambda>mode. request_hash_or sha (ca_hash args) ''app.create''
       [(''user_id'', JStr (str_uuid (ca_user args))), (''conversation_id'', JStr (str_uuid (ca_conv args))),
        (''requester_user_id'', JStr (str_uuid ?req)), (''title'', JStr (ca_title args)),
        (''description'', JStr (ca_descr args)), (''request'', ca_request args),
        (''access_mode'', JStr (access_mode_str mode)), (''delivery_provider'', opt_str (ca_provider args)),
        (''app_url'', opt_str (ca_url args)), (''app_base_url'', opt_str (ca_base_url args))]"
  let ?mode = "\<lambda>c requested. if cv_kind c = GroupConv then CollaborativeLink else requested"
  from run obtain requested k0 c h where
    a: "generated_app_access_mode (ca_access args) = Inr requested" "optional_key (ca_key args) = Inr k0"
      "locked_owned_conversation d (ca_conv args) (ca_user args) ?req = Inr c" "?hash (?mode c requested) = Inr h"
    and rest: "(case (case k0 of None \<Rightarrow> None | Some k \<Rightarrow> build_by_idempotency_key d k) of
       Some j \<Rightarrow> bindR (replay_created_build d j h) (\<lambda>(app, job, ticket). Inr (app, job, ticket, d))
     | None \<Rightarrow>
         bindR (text_value (JStr (ca_title args)) 120) (\<lambda>title.
         bindR (optional_text (JStr (ca_descr args)) 500) (\<lambda>descr.
         bindR (non_empty_object (ca_request args)) (\<lambda>request.
         bindR (require_json_size (JObj request) MAX_BUILD_REQUEST_BYTES) (\<lambda>_.
         bindR (enforce_user_app_build_quota d (ca_user args) True) (\<lambda>_.
           insert_code_app sha now public raw d args (?mode c requested) k0 h title descr request)))))) =
       Inr (app, job, ticket, d')"
    unfolding create_code_app_build_def Let_def bindR_Inr by blast
  from a(2) key obtain k where k: "k0 = Some k" by (auto simp: optional_key_def bindR_Inr split: option.splits)
  have again: "\<exists>t. create_code_app_build sha later public' raw' d' args = Inr (app, job, t, d')"
    if "db_convs d' = db_convs d" "db_members d' = db_members d" "build_by_idempotency_key d' k = Some job"
      "jb_hash job = Some h" "find_app d' (jb_app job) = Some app"
    using a that unfolding create_code_app_build_def Let_def
    by (simp add: locked_owned_conversation_cong [OF that(1,2)] k replay_created_build_def validate_build_replay_def)
  show ?thesis
  proof (cases "build_by_idempotency_key d k")
    case (Some j)
    with rest k have "d' = d" "replay_created_build d j h = Inr (app, job, ticket)" by (auto simp: bindR_Inr)
    with replay_created_build_same [OF this(2)] Some show ?thesis by (intro again) auto
  next
    case None
    from rest k None obtain title descr request where
      ins: "insert_code_app sha now public raw d args (?mode c requested) (Some k) h title descr request = Inr (app, job, ticket, d')"
      by (auto simp: bindR_Inr)
    have ids: "\<forall>j\<in>set (db_jobs d). jb_id j < db_next d" using ok by (simp add: apps_ok_def jobs_ok_def)
    note fresh = fresh_app [OF ok]
    note i = insert_code_app_Inr [OF ins ids]
    have "build_by_idempotency_key d' k = Some job"
      using None i unfolding build_by_idempotency_key_def by (simp add: find_append_None)
    moreover have "find_app d' (jb_app job) = Some app" using i fresh by (simp add: row_by_append)
    ultimately show ?thesis using i by (intro again) simp_all
  qed
qed

theorem creation_is_idempotent_witness:
  "\<exists>app job t. create_code_app_build zero_sha 50 ''other'' ''tok9'' created_app_db sample_args = Inr (app, job, t, created_app_db)"
proof -
  from created_app_run obtain app job ticket where
    run: "create_code_app_build zero_sha 1 ''pub'' ''tok'' start_db sample_args = Inr (app, job, ticket, created_app_db)" by blast
  have "ca_key sample_args \<noteq> None" by (simp add: sample_args_def)
  from creation_is_idempotent [OF run this start_ok] show ?thesis by blast
qed

section \<open>Links\<close>

lemma complete_build_tickets:
  assumes "complete_build sha now raw d i w n b = Inr (rv, d')" "t \<in> set (db_tickets d')" "t \<notin> set (db_tickets d)"
  shows "\<exists>j app. claimed_job d i w n = Inr j \<and> find_app d (jb_app j) = Some app \<and> tk_app t = ga_id app \<and> tk_hash t = sha raw \<and>
    (tk_role t = Owner \<longrightarrow> ga_access app = PrivateLink \<and> tk_principal t = Some (ga_user app) \<and>
       (\<forall>c. find_conv d (ga_conv app) = Some c \<longrightarrow> cv_kind c = DirectConv))"
proof (rule complete_build_Inr [OF assms(1)])
  fix j app rv' dp d2 j1 d3 url
  assume j: "claimed_job d i w n = Inr j" and app: "locked_code_app d (jb_app j) = Inr app"
    and pr: "promote_revision sha now (d\<lparr>db_next := db_next d + 1, db_revisions := db_revisions d @ [rv']\<rparr>)
       (jb_app j) (rv_id rv') (Some (jb_base j)) = Inr (dp, d2)"
    and link: "completion_link sha now raw d2 (show_revision now rv' app) (succeeded_job now rv' b j) b = Inr (url, j1, d3)"
    and d': "d' = snd (enqueue_user_event now (set_job j1 d3) (ga_user app) (Some (ga_conv app))
       ''app.build.completed'' ''generated_app_builder'' (completed_event_key (jb_id j))
       (build_completed_payload now (show_revision now rv' app) rv' j1 url b) (jb_provider j))"
  have "db_tickets d' = db_tickets d3"
    unfolding d' by (auto simp: enqueue_user_event_def take_id_def Let_def set_job_def split: option.split)
  with assms(2) have t3: "t \<in> set (db_tickets d3)" by simp
  from promote_frame [OF pr] have d2: "db_tickets d2 = db_tickets d" "db_convs d2 = db_convs d" by (simp_all add: deploy_frame_def)
  show ?thesis
  proof (rule completion_link_Inr [OF link])
    assume none: "bo_handoff b = None \<longrightarrow> d3 = d2"
      and some: "bo_handoff b \<noteq> None \<longrightarrow> (\<exists>base ticket. text_value (JStr base) 4000 = Inr base \<and>
         handoff_ticket sha now raw d2 (show_revision now rv' app) = Inr (ticket, d3) \<and> url = base @ ''#handoff='' @ ticket)"
    have "bo_handoff b \<noteq> None" using none t3 assms(3) d2 by auto
    with some obtain ticket where "handoff_ticket sha now raw d2 (show_revision now rv' app) = Inr (ticket, d3)" by blast
    then show ?thesis
    proof (rule handoff_ticket_Inr)
      fix x assume x: "d3 = d2\<lparr>db_next := db_next d2 + 1, db_tickets := db_tickets d2 @ [x]\<rparr>"
        "tk_app x = ga_id (show_revision now rv' app)" "tk_hash x = sha raw"
        "tk_role x = Owner \<longrightarrow> ga_access (show_revision now rv' app) = PrivateLink \<and>
           tk_principal x = Some (ga_user (show_revision now rv' app)) \<and>
           (\<forall>c. find_conv d2 (ga_conv (show_revision now rv' app)) = Some c \<longrightarrow> cv_kind c = DirectConv)"
      have "t = x" using x(1) t3 assms(3) d2 by auto
      with x(2-) app j d2(2) show ?thesis by (intro exI [of _ j] exI [of _ app]) (auto simp: show_revision_def locked_code_app_Inr)
    qed
  qed
qed

text \<open>The app of a completed build keeps its owner, its conversation and its access mode.\<close>

lemma complete_build_app:
  assumes "complete_build sha now raw d i w n b = Inr (rv, d')" "find_app d a = Some app"
  shows "\<exists>app'. find_app d' a = Some app' \<and> ga_access app' = ga_access app \<and> ga_user app' = ga_user app \<and>
    ga_conv app' = ga_conv app"
proof (rule complete_build_Inr [OF assms(1)])
  fix j app1 rv' dp d2 j1 d3 url
  assume pr: "promote_revision sha now (d\<lparr>db_next := db_next d + 1, db_revisions := db_revisions d @ [rv']\<rparr>)
       (jb_app j) (rv_id rv') (Some (jb_base j)) = Inr (dp, d2)"
    and link: "completion_link sha now raw d2 (show_revision now rv' app1) (succeeded_job now rv' b j) b = Inr (url, j1, d3)"
    and d': "d' = snd (enqueue_user_event now (set_job j1 d3) (ga_user app1) (Some (ga_conv app1))
       ''app.build.completed'' ''generated_app_builder'' (completed_event_key (jb_id j))
       (build_completed_payload now (show_revision now rv' app1) rv' j1 url b) (jb_provider j))"
  from promote_apps [OF pr] obtain r where
    "db_apps d2 = upd_where (\<lambda>x. ga_id x = jb_app j) (show_revision now r) (db_apps d)" by auto
  then have "db_apps d' = upd_where (\<lambda>x. ga_id x = jb_app j) (show_revision now r) (db_apps d)"
    unfolding d' using completion_link_frame [OF link] by simp
  then have "find_app d' a = map_option (\<lambda>x. if ga_id x = jb_app j then show_revision now r x else x) (find_app d a)"
    by (simp add: row_by_upd_where show_revision_def)
  then show ?thesis using assms(2) by (simp add: show_revision_def)
qed

text \<open>C8. The ticket in a link that a creation or a completed build sends to a group conversation gives no
  owner's authority; an owner's ticket is only ever made for a private app of a direct conversation, and
  is bound to that owner.\<close>

theorem group_links_carry_no_owner:
  assumes "create_code_app_build sha now public raw d args = Inr (app, job, ticket, d') \<or>
      complete_build sha now raw d i w n b = Inr (rv, d')"
    and "t \<in> set (db_tickets d')" "t \<notin> set (db_tickets d)" "tk_role t = Owner" "apps_ok sha d"
  shows "\<exists>a. find_app d' (tk_app t) = Some a \<and> ga_access a = PrivateLink \<and> tk_principal t = Some (ga_user a) \<and>
    (\<forall>c. find_conv d (ga_conv a) = Some c \<longrightarrow> cv_kind c = DirectConv)"
  using assms(1)
proof
  assume run: "complete_build sha now raw d i w n b = Inr (rv, d')"
  from complete_build_tickets [OF this assms(2,3)] assms(4) obtain j a where
    j: "claimed_job d i w n = Inr j" and a: "find_app d (jb_app j) = Some a" "tk_app t = ga_id a" "ga_access a = PrivateLink"
      "tk_principal t = Some (ga_user a)" "\<forall>c. find_conv d (ga_conv a) = Some c \<longrightarrow> cv_kind c = DirectConv" by blast
  from find_app_id [OF a(1)] complete_build_app [OF run a(1)] obtain a' where
    "find_app d' (ga_id a) = Some a'" "ga_access a' = ga_access a" "ga_user a' = ga_user a" "ga_conv a' = ga_conv a" by auto
  with a show ?thesis by (intro exI [of _ a']) simp
next
  assume run: "create_code_app_build sha now public raw d args = Inr (app, job, ticket, d')"
  have ids: "\<forall>j\<in>set (db_jobs d). jb_id j < db_next d" using assms(5) by (simp add: apps_ok_def jobs_ok_def)
  note fresh = fresh_app [OF assms(5)]
  from create_code_app_build_Inr [OF run] assms(2,3) obtain c mode key h title descr request where
    c: "locked_owned_conversation d (ca_conv args) (ca_user args) (case ca_requester args of None \<Rightarrow> ca_user args | Some u \<Rightarrow> u) = Inr c"
      "cv_kind c = GroupConv \<longrightarrow> mode = CollaborativeLink"
    and ins: "insert_code_app sha now public raw d args mode key h title descr request = Inr (app, job, ticket, d')" by blast
  note i = insert_code_app_Inr [OF ins ids]
  have t: "tk_app t = ga_id app" "tk_role t = (if mode = CollaborativeLink then Member else Owner)"
    "tk_principal t = (if mode = CollaborativeLink then None else Some (ca_user args))"
    using i assms(2,3) by auto
  have "mode = PrivateLink" using t(2) assms(4) by (cases mode) auto
  moreover have "find_app d' (ga_id app) = Some app" using i fresh by (simp add: row_by_append)
  moreover have "find_conv d (ca_conv args) = Some c" using c(1)
    by (auto simp: locked_owned_conversation_def Let_def split: option.splits if_splits)
  moreover have "cv_kind c = DirectConv" using c(2) \<open>mode = PrivateLink\<close> by (cases "cv_kind c") auto
  ultimately show ?thesis using i t by (intro exI [of _ app]) auto
qed

theorem group_links_carry_no_owner_witness:
  "\<exists>t\<in>set (db_tickets created_app_db). tk_role t = Owner \<and> tk_principal t = Some 1 \<and>
     (\<exists>a. find_app created_app_db (tk_app t) = Some a \<and> ga_access a = PrivateLink)"
proof -
  from created_app_run obtain app job ticket where
    run: "create_code_app_build zero_sha 1 ''pub'' ''tok'' start_db sample_args = Inr (app, job, ticket, created_app_db)" by blast
  let ?t = "\<lparr>tk_id = 103, tk_app = 100, tk_issuer = 1, tk_principal = Some 1, tk_role = Owner,
       tk_hash = zeros, tk_expires = 604800000001, tk_used = None, tk_last = None, tk_count = 0, tk_created = 1\<rparr>"
  have t: "db_tickets created_app_db = [?t]" by code_simp
  then have "?t \<in> set (db_tickets created_app_db)" by simp
  moreover have "?t \<notin> set (db_tickets start_db)" by (simp add: start_db_def sample_db_def empty_db_def)
  ultimately have "\<exists>a. find_app created_app_db (tk_app ?t) = Some a \<and> ga_access a = PrivateLink \<and> tk_principal ?t = Some (ga_user a) \<and>
    (\<forall>c. find_conv start_db (ga_conv a) = Some c \<longrightarrow> cv_kind c = DirectConv)"
    by (intro group_links_carry_no_owner [OF disjI1 [OF run] _ _ _ start_ok]) simp_all
  then show ?thesis by (intro bexI [of _ ?t]) (auto simp: t)
qed

end
