(* ===== verification/App_Pipeline.thy ===== *)
theory App_Pipeline
  imports App_Deploy App_Blueprint
begin

text \<open>
  The build pipeline (\<open>app_builder/pipeline.py\<close>): generate, inspect, compile, smoke, review, repair and
  package. The model provider, the compiler, the browsers and the reviewer are functions of an
  environment; they read and change a world of any type, so every order of answers they can give is
  an environment. \<open>asyncio.timeout\<close> may strike in each of them, which is their answer \<open>TimedOut\<close>.
\<close>

section \<open>Effects\<close>

type_synonym ('w, 'a) act = "'w \<Rightarrow> (build_exn + 'a) \<times> 'w"

definition bindA :: "('w, 'a) act \<Rightarrow> ('a \<Rightarrow> ('w, 'b) act) \<Rightarrow> ('w, 'b) act" where
  "bindA m k w = (case m w of (Inl e, w1) \<Rightarrow> (Inl e, w1) | (Inr x, w1) \<Rightarrow> k x w1)"

definition liftA :: "build_exn + 'a \<Rightarrow> ('w, 'a) act" where
  "liftA r w = (r, w)"

text \<open>A harness finishes, finds issues (\<open>AppCompilationError\<close>, \<open>AppBrowserSmokeError\<close>), or raises something else.\<close>

datatype 'a outcome = Done 'a | Found "issue list" | Crashed build_exn

text \<open>A failing reviewer accepts the candidate; only the deadline of the worker passes through.\<close>

datatype review = Reviewed "issue list" | ReviewFailed | ReviewDeadline

record app_bundle =
  bu_format :: string
  bu_javascript :: string
  bu_css :: string
  bu_sha :: string
  bu_sdk :: string
  bu_html :: string
  bu_compiler :: obj

text \<open>What the clocks say at the end: the two times, the duration and the durations of the stages, in milliseconds.\<close>

record timing =
  tm_started :: string
  tm_completed :: string
  tm_duration :: int
  tm_stages :: obj

text \<open>The pipeline's configuration and its collaborators. \<open>en_smoke\<close> also answers the screenshot it wrote, if asked.\<close>

record 'w env =
  en_sha :: "string \<Rightarrow> string"
  en_casefold :: "string \<Rightarrow> string"
  en_lint :: lint
  en_provider :: string
  en_version :: string
  en_max_repairs :: nat
  en_target_ms :: int
  en_timeout :: string
  en_require_smoke :: bool
  en_has_smoke :: bool
  en_has_review :: bool
  en_max_reviews :: nat
  en_generate :: "blueprint \<Rightarrow> ('w, source) act"
  en_repair :: "blueprint \<Rightarrow> source \<Rightarrow> issue list \<Rightarrow> nat \<Rightarrow> ('w, source) act"
  en_regenerate :: "(blueprint \<Rightarrow> issue list \<Rightarrow> nat \<Rightarrow> ('w, source) act) option"
  en_compile :: "source \<Rightarrow> 'w \<Rightarrow> app_bundle outcome \<times> 'w"
  en_smoke :: "app_bundle \<Rightarrow> json list \<Rightarrow> bool \<Rightarrow> 'w \<Rightarrow> (obj outcome \<times> string option) \<times> 'w"
  en_review :: "string \<Rightarrow> blueprint \<Rightarrow> 'w \<Rightarrow> review \<times> 'w"
  en_timing :: "'w \<Rightarrow> timing"

section \<open>Issues\<close>

definition COMPILATION_BLOCKING_POLICY_CODES :: "string list" where
  "COMPILATION_BLOCKING_POLICY_CODES =
     [''duplicate_source_path'', ''file_too_large'', ''invalid_source_path'', ''invalid_typescript'', ''missing_entrypoint'',
      ''missing_source'', ''source_too_large'', ''too_many_files'']"

text \<open>The dict keyed by all the fields keeps the first of equal issues.\<close>

definition dedupe_issues :: "issue list \<Rightarrow> issue list" where
  "dedupe_issues xs = rev (remdups (rev xs))"

definition accumulated_diagnostics :: "issue list list \<Rightarrow> issue list" where
  "accumulated_diagnostics history = take 30 (dedupe_issues (concat history))"

text \<open>
  The patterns of \<open>_acceptance_issue_scope\<close>: literals, runs of identifier characters with more characters of the
  pattern (one of the runs is the group), a choice of literals, and a closing blank or end. Runs are greedy and
  give back characters as \<open>re.search\<close> does.
\<close>

datatype rx = Lit string | Run bool string | OneOf "string list" | Stop "string list"

definition in_class :: "string \<Rightarrow> char \<Rightarrow> bool" where
  "in_class extra c \<longleftrightarrow> is_lower c \<or> is_digit c \<or> c \<in> set extra"

fun first_some :: "('a \<Rightarrow> 'b option) \<Rightarrow> 'a list \<Rightarrow> 'b option" where
  "first_some f [] = None"
| "first_some f (x # xs) = (case f x of None \<Rightarrow> first_some f xs | Some y \<Rightarrow> Some y)"

fun rx_match :: "rx list \<Rightarrow> string \<Rightarrow> string \<Rightarrow> string option" where
  "rx_match [] cap s = Some cap"
| "rx_match (Lit l # rs) cap s = (if starts_with l s then rx_match rs cap (drop (length l) s) else None)"
| "rx_match (Run is_group extra # rs) cap s =
     first_some (\<lambda>n. rx_match rs (if is_group then take n s else cap) (drop n s))
       (rev [1 ..< Suc (length (takeWhile (in_class extra) s))])"
| "rx_match (OneOf ls # rs) cap s =
     first_some (\<lambda>l. if starts_with l s then rx_match rs cap (drop (length l) s) else None) ls"
| "rx_match (Stop ls # rs) cap s =
     (if s = [] \<or> py_isspace (hd s) \<or> (\<exists>l\<in>set ls. starts_with l s) then rx_match rs cap s else None)"

fun rx_search :: "rx list \<Rightarrow> string \<Rightarrow> string option" where
  "rx_search r [] = rx_match r [] []"
| "rx_search r (c # cs) = (case rx_match r [] (c # cs) of None \<Rightarrow> rx_search r cs | Some g \<Rightarrow> Some g)"

definition dquote :: string where
  "dquote = [char_of (34::int)]"

text \<open>The pattern and whether it is anchored at the start.\<close>

definition scope_patterns :: "(bool \<times> rx list) list" where
  "scope_patterns =
     [(False, [Lit ''expected operation='', Run False ''_.-'', Lit '' entity='', Run True ''_-'']),
      (False, [Lit ''declare operation='', Run False ''_.-'', Lit '' entity='', Run True ''_-'']),
      (False, [Lit ''invalid payload for operation='', Run False ''_.-'', Lit '' entity='', Run True ''_-'']),
      (False, [Lit ''no usable '', Run True ''_-'', Lit '' create workflow'']),
      (False, [Lit ''identify one '', Run True ''_-'', Lit '' form'']),
      (False, [Lit ''declared '', Run True ''_-'', Lit '' fields'']),
      (False, [Lit ''discovered '', Run True ''_-'', Lit '' form'']),
      (False, [Lit ''expected records.'', OneOf [''create'', ''update'', ''delete''], Lit '' for '', Run True ''_-'']),
      (False, [Lit (dquote @ ''entity'' @ dquote @ '':'' @ dquote), Run True ''_-'', Lit dquote]),
      (True, [Run True ''_-'', Lit '' '', OneOf [''was saved'', ''refreshed after save'']]),
      (False, [Lit (''name='' @ dquote), Run True ''_-'', Lit dquote]),
      (False, [Lit ''for '', Run True ''_.-'', Stop []]),
      (False, [Lit ''call '', Run True ''_.-'', Stop ['';'']])]"

definition acceptance_issue_scope :: "issue \<Rightarrow> string" where
  "acceptance_issue_scope i =
     (let message = join '' '' (py_split (py_lower (is_message i))) in
      case first_some (\<lambda>(anchored, r). if anchored then rx_match r [] message else rx_search r message) scope_patterns of
        Some g \<Rightarrow> g
      | None \<Rightarrow> if is_code i = ''acceptance_reveal_mutation'' then ''workflow_reveal'' else is_code i)"

type_synonym fingerprint = "(string \<times> string \<times> string) list"

definition acceptance_issue_fingerprint :: "issue list \<Rightarrow> fingerprint option" where
  "acceptance_issue_fingerprint issues =
     (let acceptance = sort (map (\<lambda>i. (is_code i, acceptance_issue_scope i, case is_path i of None \<Rightarrow> [] | Some p \<Rightarrow> p))
            (filter (\<lambda>i. starts_with ''acceptance_'' (is_code i)) issues))
      in if acceptance = [] then None else Some acceptance)"

section \<open>One candidate\<close>

definition inspect_and_compile :: "'w env \<Rightarrow> source \<Rightarrow> ('w, issue list \<times> app_bundle option) act" where
  "inspect_and_compile env generated w =
     (let policy_issues = inspect_generated_source (en_lint env) generated in
      if \<exists>i\<in>set policy_issues. is_code i \<in> set COMPILATION_BLOCKING_POLICY_CODES then (Inr (policy_issues, None), w)
      else case en_compile env generated w of
        (Done b, w1) \<Rightarrow> (Inr (policy_issues, Some b), w1)
      | (Found found, w1) \<Rightarrow> (Inr (dedupe_issues (policy_issues @ found), None), w1)
      | (Crashed e, w1) \<Rightarrow> (Inl e, w1))"

definition review_candidate :: "'w env \<Rightarrow> blueprint \<Rightarrow> string \<Rightarrow> ('w, issue list) act" where
  "review_candidate env bp jpeg w =
     (case en_review env jpeg bp w of
        (Reviewed issues, w1) \<Rightarrow> (Inr issues, w1)
      | (ReviewFailed, w1) \<Rightarrow> (Inr [], w1)
      | (ReviewDeadline, w1) \<Rightarrow> (Inl TimedOut, w1))"

text \<open>The issues, the report of the smoke run and the number of reviews so far.\<close>

definition smoke_candidate ::
  "'w env \<Rightarrow> blueprint \<Rightarrow> app_bundle \<Rightarrow> nat \<Rightarrow> ('w, issue list \<times> obj option \<times> nat) act" where
  "smoke_candidate env bp b reviews =
     (let shot = (en_has_review env \<and> reviews < en_max_reviews env) in
      bindA (liftA (acceptance_plan bp)) (\<lambda>plan w.
        case en_smoke env b plan shot w of
          ((Crashed e, _), w1) \<Rightarrow> (Inl e, w1)
        | ((Found (i # issues), _), w1) \<Rightarrow> (Inr (i # issues, None, reviews), w1)
        | ((res, written), w1) \<Rightarrow>
            let report = (case res of Done r \<Rightarrow> Some r | _ \<Rightarrow> None) in
            case written of
              Some (c # jpeg) \<Rightarrow>
                if shot then bindA (review_candidate env bp (c # jpeg)) (\<lambda>issues. liftA (Inr (issues, report, Suc reviews))) w1
                else (Inr ([], report, reviews), w1)
            | _ \<Rightarrow> (Inr ([], report, reviews), w1)))"

definition skipped_smoke :: obj where
  "skipped_smoke = [(''ready'', JNull), (''status'', JStr ''not_configured'')]"

record candidate =
  cd_issues :: "issue list"
  cd_bundle :: "app_bundle option"
  cd_smoke :: "obj option"
  cd_reviews :: nat

definition evaluate_candidate :: "'w env \<Rightarrow> blueprint \<Rightarrow> source \<Rightarrow> nat \<Rightarrow> ('w, candidate) act" where
  "evaluate_candidate env bp generated reviews =
     bindA (inspect_and_compile env generated) (\<lambda>(issues, compiled).
       if issues \<noteq> [] then liftA (Inr \<lparr>cd_issues = issues, cd_bundle = compiled, cd_smoke = None, cd_reviews = reviews\<rparr>)
       else case (en_has_smoke env, compiled) of
         (True, Some b) \<Rightarrow>
           bindA (smoke_candidate env bp b reviews) (\<lambda>(found, report, count).
             liftA (Inr \<lparr>cd_issues = found, cd_bundle = Some b, cd_smoke = report, cd_reviews = count\<rparr>))
       | _ \<Rightarrow>
           if en_require_smoke env then liftA (Inl (Raised ''RuntimeError: required browser smoke runner is unavailable''))
           else liftA (Inr \<lparr>cd_issues = [], cd_bundle = compiled, cd_smoke = Some skipped_smoke, cd_reviews = reviews\<rparr>))"

section \<open>The loop\<close>

record attempt =
  at_source :: source
  at_attempts :: nat
  at_repairs :: nat
  at_history :: "issue list list"
  at_seen :: "fingerprint list"
  at_clean :: bool
  at_reviews :: nat

definition first_attempt :: "source \<Rightarrow> attempt" where
  "first_attempt generated = \<lparr>at_source = generated, at_attempts = 1, at_repairs = 0, at_history = [], at_seen = [],
     at_clean = False, at_reviews = 0\<rparr>"

definition repeats_acceptance :: "attempt \<Rightarrow> issue list \<Rightarrow> bool" where
  "repeats_acceptance at issues =
     (case acceptance_issue_fingerprint issues of None \<Rightarrow> False | Some p \<Rightarrow> p \<in> set (at_seen at))"

text \<open>The state after a rejected candidate, its source still the rejected one.\<close>

definition next_attempt :: "attempt \<Rightarrow> candidate \<Rightarrow> attempt" where
  "next_attempt at c = at\<lparr>at_attempts := Suc (at_attempts at), at_repairs := Suc (at_repairs at),
     at_history := at_history at @ [cd_issues c],
     at_seen := (case acceptance_issue_fingerprint (cd_issues c) of None \<Rightarrow> at_seen at | Some p \<Rightarrow> List.insert p (at_seen at)),
     at_clean := (at_clean at \<or> repeats_acceptance at (cd_issues c)), at_reviews := cd_reviews c\<rparr>"

definition regenerate_with_diagnostics :: "'w env \<Rightarrow> blueprint \<Rightarrow> issue list \<Rightarrow> nat \<Rightarrow> ('w, source) act" where
  "regenerate_with_diagnostics env bp issues n =
     (case en_regenerate env of Some regenerate \<Rightarrow> regenerate bp issues n | None \<Rightarrow> en_generate env bp)"

definition next_source :: "'w env \<Rightarrow> blueprint \<Rightarrow> attempt \<Rightarrow> issue list \<Rightarrow> ('w, source) act" where
  "next_source env bp at issues =
     (if repeats_acceptance at issues
      then regenerate_with_diagnostics env bp (accumulated_diagnostics (at_history at @ [issues])) (Suc (at_repairs at))
      else en_repair env bp (at_source at) issues (Suc (at_repairs at)))"

function build_loop :: "'w env \<Rightarrow> blueprint \<Rightarrow> attempt \<Rightarrow> 'w \<Rightarrow> (build_exn + attempt \<times> candidate) \<times> 'w" where
  "build_loop env bp at w =
     (case evaluate_candidate env bp (at_source at) (at_reviews at) w of
        (Inl e, w1) \<Rightarrow> (Inl e, w1)
      | (Inr c, w1) \<Rightarrow>
          if cd_issues c = [] then (Inr (at, c), w1)
          else if (repeats_acceptance at (cd_issues c) \<and> at_clean at) \<or> en_max_repairs env \<le> at_repairs at
          then (Inl (Rejected (cd_issues c)), w1)
          else case next_source env bp at (cd_issues c) w1 of
            (Inl e, w2) \<Rightarrow> (Inl e, w2)
          | (Inr generated, w2) \<Rightarrow> build_loop env bp ((next_attempt at c)\<lparr>at_source := generated\<rparr>) w2)"
  by pat_completeness auto
termination
  by (relation "measure (\<lambda>(env, bp, at, w). en_max_repairs env - at_repairs at)") (auto simp: next_attempt_def)

declare build_loop.simps [simp del]

section \<open>Packaging\<close>

record artifact =
  ar_provider :: string
  ar_version :: string
  ar_entrypoint :: string
  ar_files :: "source_file list"
  ar_manifest :: obj
  ar_tests :: obj
  ar_source_hash :: string
  ar_content_hash :: string
  ar_metadata :: obj
  ar_bundle :: app_bundle

definition MAX_STATIC_HTML_BYTES :: int where
  "MAX_STATIC_HTML_BYTES = 256000"

definition MAX_TEST_RESULTS_BYTES :: int where
  "MAX_TEST_RESULTS_BYTES = 128000"

definition MAX_PACKAGED_BYTES :: int where
  "MAX_PACKAGED_BYTES = 4000000"

definition DOT_APP_SDK_VERSION :: string where
  "DOT_APP_SDK_VERSION = ''2''"

definition DOT_APP_DEPENDENCY_LOCK :: obj where
  "DOT_APP_DEPENDENCY_LOCK =
     [(''@dot/app-runtime'', JStr ''2''), (''@dot/ui'', JStr ''2''), (''date-fns'', JStr ''4.1.0''), (''lucide-react'', JStr ''0.468.0''),
      (''motion'', JStr ''12.0.0''), (''react'', JStr ''19.2.0''), (''react-dom'', JStr ''19.2.0''), (''recharts'', JStr ''2.15.0'')]"

definition bundle_dict :: "app_bundle \<Rightarrow> obj" where
  "bundle_dict b =
     [(''format'', JStr (bu_format b)), (''javascript'', JStr (bu_javascript b)), (''css'', JStr (bu_css b)),
      (''sha256'', JStr (bu_sha b)), (''sdk_version'', JStr (bu_sdk b)), (''static_html'', JStr (bu_html b)),
      (''compiler'', JObj (bu_compiler b))]"

definition artifact_dict :: "artifact \<Rightarrow> obj" where
  "artifact_dict a =
     [(''format_version'', JInt 1), (''provider'', JStr (ar_provider a)), (''provider_version'', JStr (ar_version a)),
      (''sdk_version'', JStr DOT_APP_SDK_VERSION), (''entrypoint'', JStr (ar_entrypoint a)),
      (''files'', JArr (map file_dict (ar_files a))), (''manifest'', JObj (ar_manifest a)),
      (''dependency_lock'', JObj DOT_APP_DEPENDENCY_LOCK), (''test_results'', JObj (ar_tests a)),
      (''source_hash'', JStr (ar_source_hash a)), (''content_hash'', JStr (ar_content_hash a)),
      (''provider_metadata'', JObj (ar_metadata a)), (''browser_bundle'', JObj (bundle_dict (ar_bundle a)))]"

text \<open>What the content hash covers: everything but the hash itself and the metadata of the provider.\<close>

definition unsigned_dict :: "artifact \<Rightarrow> obj" where
  "unsigned_dict a = filter (\<lambda>kv. fst kv \<noteq> ''content_hash'' \<and> fst kv \<noteq> ''provider_metadata'') (artifact_dict a)"

definition rejected :: "string \<Rightarrow> string \<Rightarrow> build_exn" where
  "rejected code message = Rejected [\<lparr>is_code = code, is_message = message, is_path = None\<rparr>]"

definition smoke_ready :: "obj \<Rightarrow> bool" where
  "smoke_ready smoke \<longleftrightarrow> get_or_null smoke ''ready'' = JBool True"

definition static_html_of :: "app_bundle \<Rightarrow> obj \<Rightarrow> string" where
  "static_html_of b smoke = (case get_default smoke ''static_html'' (JStr (bu_html b)) of JStr s \<Rightarrow> s | _ \<Rightarrow> [])"

definition test_results :: "app_bundle \<Rightarrow> obj \<Rightarrow> obj" where
  "test_results b smoke =
     [(''policy'', JObj [(''status'', JStr ''passed'')]),
      (''typescript_compile'', JObj [(''status'', JStr ''passed''), (''compiler'', JObj (bu_compiler b))]),
      (''browser_smoke'', JObj (AList.update ''status'' (JStr (if smoke_ready smoke then ''passed'' else ''skipped''))
         (filter (\<lambda>kv. fst kv \<noteq> ''static_html'') smoke)))]"

definition sign :: "(string \<Rightarrow> string) \<Rightarrow> artifact \<Rightarrow> artifact" where
  "sign sha a = a\<lparr>ar_content_hash := content_hash sha (JObj (unsigned_dict a))\<rparr>"

definition packaged ::
  "'w env \<Rightarrow> blueprint \<Rightarrow> source \<Rightarrow> app_bundle \<Rightarrow> obj \<Rightarrow> artifact" where
  "packaged env bp generated b smoke =
     (let files = sort_key sf_path (gs_files generated) in
      sign (en_sha env)
        \<lparr>ar_provider = en_provider env, ar_version = en_version env, ar_entrypoint = gs_entrypoint generated, ar_files = files,
         ar_manifest = bp_manifest bp, ar_tests = test_results b smoke,
         ar_source_hash = content_hash (en_sha env) (JArr (map file_dict files)), ar_content_hash = [],
         ar_metadata = gs_metadata generated, ar_bundle = b\<lparr>bu_html := static_html_of b smoke\<rparr>\<rparr>)"

definition package :: "'w env \<Rightarrow> blueprint \<Rightarrow> source \<Rightarrow> app_bundle \<Rightarrow> obj option \<Rightarrow> build_exn + artifact" where
  "package env bp generated b report =
     (let smoke = (case report of None \<Rightarrow> [] | Some r \<Rightarrow> r);
          html = static_html_of b smoke; a = packaged env bp generated b smoke in
      if en_require_smoke env \<and> \<not> smoke_ready smoke
      then Inl (rejected ''missing_static_render'' ''required isolated app render did not complete'')
      else if smoke_ready smoke \<and> py_strip html = []
      then Inl (rejected ''missing_static_render'' ''generated app did not produce usable isolated HTML'')
      else if MAX_STATIC_HTML_BYTES < utf8_size html
      then Inl (rejected ''static_render_too_large'' ''isolated app HTML exceeds 256 KB'')
      else if MAX_TEST_RESULTS_BYTES < json_size (JObj (ar_tests a))
      then Inl (rejected ''build_test_results_too_large'' ''build test metadata exceeds 128 KB'')
      else if MAX_PACKAGED_BYTES < json_size (JObj (artifact_dict a))
      then Inl (rejected ''build_artifact_too_large'' ''packaged app exceeds the 4 MB persistence envelope'')
      else Inr a)"

section \<open>A build\<close>

record build_claim =
  bc_job :: uuid
  bc_app :: uuid
  bc_base :: "uuid option"
  bc_blueprint :: obj
  bc_attempt :: int

record metrics =
  mt_timing :: timing
  mt_target :: int
  mt_attempts :: nat
  mt_repairs :: nat
  mt_files :: nat
  mt_bytes :: int

definition metrics_dict :: "metrics \<Rightarrow> obj" where
  "metrics_dict m =
     [(''started_at'', JStr (tm_started (mt_timing m))), (''completed_at'', JStr (tm_completed (mt_timing m))),
      (''duration_ms'', JInt (tm_duration (mt_timing m))), (''target_duration_ms'', JInt (mt_target m)),
      (''within_target'', JBool (tm_duration (mt_timing m) < mt_target m)),
      (''generation_attempts'', JInt (int (mt_attempts m))), (''repair_attempts'', JInt (int (mt_repairs m))),
      (''source_files'', JInt (int (mt_files m))), (''source_bytes'', JInt (mt_bytes m)),
      (''stage_duration_ms'', JObj (tm_stages (mt_timing m)))]"

record completion =
  co_claim :: build_claim
  co_artifact :: artifact
  co_metrics :: metrics

definition build_metrics :: "'w env \<Rightarrow> attempt \<Rightarrow> artifact \<Rightarrow> 'w \<Rightarrow> metrics" where
  "build_metrics env at a w =
     \<lparr>mt_timing = en_timing env w, mt_target = en_target_ms env, mt_attempts = at_attempts at, mt_repairs = at_repairs at,
      mt_files = length (ar_files a), mt_bytes = sum_list (map (\<lambda>f. utf8_size (sf_contents f)) (ar_files a))\<rparr>"

definition build :: "'w env \<Rightarrow> build_claim \<Rightarrow> ('w, completion) act" where
  "build env claim =
     bindA (liftA (from_mapping (en_casefold env) (bc_blueprint claim))) (\<lambda>bp.
     bindA (en_generate env bp) (\<lambda>generated.
     bindA (build_loop env bp (first_attempt generated)) (\<lambda>(at, c).
     case cd_bundle c of
       None \<Rightarrow> liftA (Inl (Raised ''RuntimeError: validated app build has no browser bundle''))
     | Some b \<Rightarrow>
         bindA (liftA (package env bp (at_source at) b (cd_smoke c))) (\<lambda>a w.
           (Inr \<lparr>co_claim = claim, co_artifact = a, co_metrics = build_metrics env at a w\<rparr>, w)))))"

section \<open>What the effects say\<close>

lemma bindA_Inr [result_simps]: "bindA m k w = (Inr y, w') \<longleftrightarrow> (\<exists>x w1. m w = (Inr x, w1) \<and> k x w1 = (Inr y, w'))"
  by (auto simp: bindA_def split: prod.splits sum.splits)

lemma liftA_Inr [result_simps]: "liftA r w = (Inr y, w') \<longleftrightarrow> r = Inr y \<and> w' = w"
  by (auto simp: liftA_def)

lemma bindA_lift [simp]: "bindA (liftA (Inr x)) k = k x" "bindA (liftA (Inl e)) k = liftA (Inl e)"
  by (auto simp: bindA_def liftA_def)

text \<open>A candidate without issues: its source passed the policy, it compiled if it has a bundle, and its report is the
  one of the smoke runner, unless none is configured and none required.\<close>

definition verified :: "'w env \<Rightarrow> blueprint \<Rightarrow> source \<Rightarrow> app_bundle option \<Rightarrow> obj option \<Rightarrow> bool" where
  "verified env bp generated compiled report \<longleftrightarrow>
     inspect_generated_source (en_lint env) generated = [] \<and>
     (\<forall>b. compiled = Some b \<longrightarrow> (\<exists>w w'. en_compile env generated w = (Done b, w'))) \<and>
     (\<forall>b r. compiled = Some b \<longrightarrow> report = Some r \<longrightarrow>
        (\<exists>plan shot w written w'. acceptance_plan bp = Inr plan \<and> en_smoke env b plan shot w = ((Done r, written), w')) \<or>
        (r = skipped_smoke \<and> \<not> en_has_smoke env \<and> \<not> en_require_smoke env))"

lemma dedupe_Nil [simp]: "dedupe_issues xs = [] \<longleftrightarrow> xs = []"
  by (simp add: dedupe_issues_def)

lemma inspect_and_compile_Inr:
  assumes "inspect_and_compile env generated w = (Inr (issues, compiled), w')"
  shows "(issues = [] \<longrightarrow> inspect_generated_source (en_lint env) generated = []) \<and>
    (\<forall>b. compiled = Some b \<longrightarrow> (\<exists>w w'. en_compile env generated w = (Done b, w')))"
  using assms by (auto simp: inspect_and_compile_def Let_def split: if_splits prod.splits outcome.splits)

lemma review_reviews:
  assumes "bindA (review_candidate env bp jpeg) (\<lambda>issues. liftA (Inr (issues, report, Suc reviews))) w = (Inr (found, r, cnt), w')"
  shows "r = report \<and> cnt = Suc reviews"
  using assms by (auto simp: result_simps)

lemma smoke_candidate_Inr:
  assumes "smoke_candidate env bp b reviews w = (Inr (found, report, cnt), w')"
  shows "(report = None \<or> (\<exists>r plan shot w written w'. report = Some r \<and> acceptance_plan bp = Inr plan \<and>
      en_smoke env b plan shot w = ((Done r, written), w'))) \<and>
    (cnt = reviews \<or> (cnt = Suc reviews \<and> reviews < en_max_reviews env))"
proof -
  let ?shot = "en_has_review env \<and> reviews < en_max_reviews env"
  from assms obtain plan where plan: "acceptance_plan bp = Inr plan"
    by (cases "acceptance_plan bp") (auto simp: smoke_candidate_def Let_def liftA_Inr)
  obtain res written w1 where run: "en_smoke env b plan ?shot w = ((res, written), w1)" by (metis surj_pair)
  show ?thesis
    using assms plan run
    by (cases res; cases written)
      (auto simp: smoke_candidate_def Let_def
        split: list.splits if_splits dest!: review_reviews)
qed

lemma evaluate_candidate_Inr:
  assumes "evaluate_candidate env bp generated reviews w = (Inr c, w')"
  shows "(cd_issues c = [] \<longrightarrow> verified env bp generated (cd_bundle c) (cd_smoke c)) \<and>
    (cd_reviews c = reviews \<or> (cd_reviews c = Suc reviews \<and> reviews < en_max_reviews env))"
proof -
  from assms obtain issues compiled w1 where run: "inspect_and_compile env generated w = (Inr (issues, compiled), w1)"
    by (auto simp: evaluate_candidate_def bindA_Inr)
  note i = inspect_and_compile_Inr [OF run]
  show ?thesis
  proof (cases "issues = [] \<and> en_has_smoke env \<and> compiled \<noteq> None")
    case True
    then obtain b found report cnt where "compiled = Some b" "smoke_candidate env bp b reviews w1 = (Inr (found, report, cnt), w')"
      "c = \<lparr>cd_issues = found, cd_bundle = Some b, cd_smoke = report, cd_reviews = cnt\<rparr>"
      using assms run by (auto simp: evaluate_candidate_def bindA_Inr liftA_Inr)
    with i True smoke_candidate_Inr [OF this(2)] show ?thesis by (auto simp: verified_def)
  next
    case False
    then show ?thesis
      using assms run i by (cases compiled; cases "en_has_smoke env") (auto simp: evaluate_candidate_def bindA_Inr liftA_Inr verified_def split: if_splits, blast)
  qed
qed

section \<open>What the loop answers\<close>

text \<open>The candidate it accepts is one without issues, and the counters of the attempt agree and stay within the limit.\<close>

lemma build_loop_Inr:
  "build_loop env bp at w = (Inr (at', c), w') \<Longrightarrow>
    (\<exists>w1. evaluate_candidate env bp (at_source at') (at_reviews at') w1 = (Inr c, w')) \<and> cd_issues c = [] \<and>
    at_repairs at \<le> at_repairs at' \<and> at_attempts at' + at_repairs at = at_attempts at + at_repairs at' \<and>
    (at_repairs at \<le> en_max_repairs env \<longrightarrow> at_repairs at' \<le> en_max_repairs env)"
proof (induction env bp at w rule: build_loop.induct)
  case (1 env bp at w)
  obtain r w1 where r: "evaluate_candidate env bp (at_source at) (at_reviews at) w = (r, w1)" by (metis surj_pair)
  then obtain d where d: "r = Inr d" using 1(2) by (cases r) (auto simp: build_loop.simps [of env bp at w])
  show ?case
  proof (cases "cd_issues d = []")
    case True
    then have "at' = at" "c = d" "w' = w1" using 1(2) r d by (auto simp: build_loop.simps [of env bp at w])
    then show ?thesis using r d True by auto
  next
    case False
    then have go: "\<not> ((repeats_acceptance at (cd_issues d) \<and> at_clean at) \<or> en_max_repairs env \<le> at_repairs at)"
      using 1(2) r d by (auto simp: build_loop.simps [of env bp at w] split: if_splits)
    obtain q w2 where q: "next_source env bp at (cd_issues d) w1 = (q, w2)" by (metis surj_pair)
    then obtain generated where g: "q = Inr generated" "build_loop env bp ((next_attempt at d)\<lparr>at_source := generated\<rparr>) w2 = (Inr (at', c), w')"
      using 1(2) r d False go by (cases q) (auto simp: build_loop.simps [of env bp at w])
    from 1(1) [OF r [symmetric] d False go q [symmetric] g] show ?thesis using go by (auto simp: next_attempt_def)
  qed
qed

lemma sign_simps [simp]:
  "ar_bundle (sign sha a) = ar_bundle a" "ar_tests (sign sha a) = ar_tests a" "ar_files (sign sha a) = ar_files a"
  "ar_manifest (sign sha a) = ar_manifest a" "ar_entrypoint (sign sha a) = ar_entrypoint a"
  "ar_source_hash (sign sha a) = ar_source_hash a" "ar_content_hash (sign sha a) = content_hash sha (JObj (unsigned_dict a))"
  "unsigned_dict (sign sha a) = unsigned_dict a"
  by (simp_all add: sign_def unsigned_dict_def artifact_dict_def)

lemma package_Inr:
  assumes "package env bp generated b report = Inr a"
  shows "\<exists>smoke. smoke = (case report of None \<Rightarrow> [] | Some r \<Rightarrow> r) \<and> a = packaged env bp generated b smoke \<and>
    (en_require_smoke env \<longrightarrow> smoke_ready smoke) \<and> (smoke_ready smoke \<longrightarrow> py_strip (static_html_of b smoke) \<noteq> []) \<and>
    utf8_size (static_html_of b smoke) \<le> MAX_STATIC_HTML_BYTES \<and>
    json_size (JObj (ar_tests a)) \<le> MAX_TEST_RESULTS_BYTES \<and> json_size (JObj (artifact_dict a)) \<le> MAX_PACKAGED_BYTES"
  using assms by (auto simp: package_def Let_def split: if_splits)

lemma build_Inr:
  assumes "build env claim w = (Inr done, w')"
  shows "\<exists>bp at report b a. from_mapping (en_casefold env) (bc_blueprint claim) = Inr bp \<and>
    at_repairs at \<le> en_max_repairs env \<and> at_attempts at = Suc (at_repairs at) \<and>
    verified env bp (at_source at) (Some b) report \<and> package env bp (at_source at) b report = Inr a \<and>
    done = \<lparr>co_claim = claim, co_artifact = a, co_metrics = build_metrics env at a w'\<rparr>"
proof -
  from assms obtain bp w0 generated w1 p w2 where
    m: "from_mapping (en_casefold env) (bc_blueprint claim) = Inr bp" "build_loop env bp (first_attempt generated) w1 = (Inr p, w2)"
    and rest: "(case p of (at, c) \<Rightarrow> case cd_bundle c of
        None \<Rightarrow> liftA (Inl (Raised ''RuntimeError: validated app build has no browser bundle''))
      | Some b \<Rightarrow> bindA (liftA (package env bp (at_source at) b (cd_smoke c))) (\<lambda>a w.
          (Inr \<lparr>co_claim = claim, co_artifact = a, co_metrics = build_metrics env at a w\<rparr>, w))) w2 = (Inr done, w')"
    unfolding build_def bindA_Inr liftA_Inr by blast
  obtain at c where p: "p = (at, c)" by (cases p)
  obtain b where b: "cd_bundle c = Some b" using rest by (cases "cd_bundle c") (auto simp: p liftA_def)
  have "bindA (liftA (package env bp (at_source at) b (cd_smoke c))) (\<lambda>a w.
      (Inr \<lparr>co_claim = claim, co_artifact = a, co_metrics = build_metrics env at a w\<rparr>, w)) w2 = (Inr done, w')"
    using rest by (simp add: p b)
  then obtain a where
    a: "package env bp (at_source at) b (cd_smoke c) = Inr a" "done = \<lparr>co_claim = claim, co_artifact = a, co_metrics = build_metrics env at a w'\<rparr>"
    unfolding bindA_Inr liftA_Inr by auto
  note r = m(1) m(2) [unfolded p] b a
  from build_loop_Inr [OF r(2)] obtain w3 where
    t: "at_repairs at \<le> en_max_repairs env" "at_attempts at = Suc (at_repairs at)"
    and e: "evaluate_candidate env bp (at_source at) (at_reviews at) w3 = (Inr c, w2)"
    and i: "cd_issues c = []" by (auto simp: first_attempt_def)
  have "verified env bp (at_source at) (Some b) (cd_smoke c)" using evaluate_candidate_Inr [OF e] i b by simp
  with r(1,4,5) t show ?thesis
    by (intro exI [of _ bp] exI [of _ at] exI [of _ "cd_smoke c"] exI [of _ b] exI [of _ a] conjI)
qed

text \<open>C11. 
  A build that completes delivers what it checked: the source passed the policy and compiled to the delivered
  script, the required smoke run of that script reported ready, the page is not empty and within its limit,
  the hashes cover the delivered source and contents, and the artifact is within the envelope of the store.
\<close>

theorem completed_build_is_verified:
  assumes "build env claim w = (Inr done, w')" "en_require_smoke env"
  shows "\<exists>bp generated b r. from_mapping (en_casefold env) (bc_blueprint claim) = Inr bp \<and>
    inspect_generated_source (en_lint env) generated = [] \<and>
    (\<exists>v v'. en_compile env generated v = (Done b, v')) \<and>
    (\<exists>plan shot v written v'. acceptance_plan bp = Inr plan \<and> en_smoke env b plan shot v = ((Done r, written), v')) \<and>
    smoke_ready r \<and> static_html_of b r = bu_html (ar_bundle (co_artifact done)) \<and>
    py_strip (static_html_of b r) \<noteq> [] \<and> utf8_size (static_html_of b r) \<le> MAX_STATIC_HTML_BYTES \<and>
    bu_javascript (ar_bundle (co_artifact done)) = bu_javascript b \<and>
    mset (ar_files (co_artifact done)) = mset (gs_files generated) \<and> ar_manifest (co_artifact done) = bp_manifest bp \<and>
    ar_source_hash (co_artifact done) = en_sha env (canonical_json (JArr (map file_dict (ar_files (co_artifact done))))) \<and>
    ar_content_hash (co_artifact done) = en_sha env (canonical_json (JObj (unsigned_dict (co_artifact done)))) \<and>
    json_size (JObj (artifact_dict (co_artifact done))) \<le> MAX_PACKAGED_BYTES \<and>
    mt_repairs (co_metrics done) \<le> en_max_repairs env \<and> mt_attempts (co_metrics done) = Suc (mt_repairs (co_metrics done))"
proof -
  from build_Inr [OF assms(1)] obtain bp at report b a where
    r: "from_mapping (en_casefold env) (bc_blueprint claim) = Inr bp"
      "at_repairs at \<le> en_max_repairs env \<and> at_attempts at = Suc (at_repairs at)"
      "verified env bp (at_source at) (Some b) report" "package env bp (at_source at) b report = Inr a"
      "done = \<lparr>co_claim = claim, co_artifact = a, co_metrics = build_metrics env at a w'\<rparr>" by blast
  obtain smoke where k: "smoke = (case report of None \<Rightarrow> [] | Some r \<Rightarrow> r)" "a = packaged env bp (at_source at) b smoke"
    "smoke_ready smoke" "py_strip (static_html_of b smoke) \<noteq> []" "utf8_size (static_html_of b smoke) \<le> MAX_STATIC_HTML_BYTES"
    "json_size (JObj (artifact_dict a)) \<le> MAX_PACKAGED_BYTES"
    using package_Inr [OF r(4)] assms(2) by blast
  have ready: "report = Some smoke" using k(1,3) by (cases report) (auto simp: smoke_ready_def get_or_null_def)
  have "smoke \<noteq> skipped_smoke" using k(3) by (auto simp: smoke_ready_def skipped_smoke_def get_or_null_def)
  with r(3) ready have v: "inspect_generated_source (en_lint env) (at_source at) = []"
    "\<exists>v v'. en_compile env (at_source at) v = (Done b, v')"
    "\<exists>plan shot v written v'. acceptance_plan bp = Inr plan \<and> en_smoke env b plan shot v = ((Done smoke, written), v')"
    unfolding verified_def by blast+
  have "bu_html (ar_bundle a) = static_html_of b smoke" "bu_javascript (ar_bundle a) = bu_javascript b"
    "mset (ar_files a) = mset (gs_files (at_source at))" "ar_manifest a = bp_manifest bp"
    "ar_source_hash a = en_sha env (canonical_json (JArr (map file_dict (ar_files a))))"
    "ar_content_hash a = en_sha env (canonical_json (JObj (unsigned_dict a)))"
    unfolding k(2) by (simp_all add: packaged_def Let_def content_hash_def)
  with r(1,2,5) k(3-6) v show ?thesis
    by (intro exI [of _ bp] exI [of _ "at_source at"] exI [of _ b] exI [of _ smoke]) (simp add: build_metrics_def)
qed

section \<open>An example\<close>

text \<open>The world counts the smoke runs: the first finds the form of the app unusable, the second reports ready.\<close>

definition flat_sha :: "string \<Rightarrow> string" where
  "flat_sha s = replicate 64 (CHR ''0'')"

definition form_issue :: issue where
  "form_issue = \<lparr>is_code = ''acceptance_form'', is_message = ''No usable item create workflow'', is_path = None\<rparr>"

definition hello_bundle :: app_bundle where
  "hello_bundle = \<lparr>bu_format = ''iife'', bu_javascript = ''f()'', bu_css = [], bu_sha = flat_sha [], bu_sdk = ''2'', bu_html = [],
     bu_compiler = [(''name'', JStr ''esbuild'')]\<rparr>"

definition ready_report :: obj where
  "ready_report = [(''ready'', JBool True), (''static_html'', JStr ''<p>''), (''real_browser'', JObj [(''ready'', JBool True)])]"

definition pipe_env :: "nat env" where
  "pipe_env = \<lparr>en_sha = flat_sha, en_casefold = py_lower, en_lint = plain_lint, en_provider = ''local'', en_version = ''1'',
     en_max_repairs = 2, en_target_ms = 60000, en_timeout = ''420'', en_require_smoke = True, en_has_smoke = True, en_has_review = False, en_max_reviews = 2,
     en_generate = (\<lambda>_ w. (Inr hello_source, w)), en_repair = (\<lambda>_ src _ _ w. (Inr src, w)), en_regenerate = None,
     en_compile = (\<lambda>_ w. (Done hello_bundle, w)),
     en_smoke = (\<lambda>_ _ _ w. ((if w = 0 then Found [form_issue] else Done ready_report, None), Suc w)),
     en_review = (\<lambda>_ _ w. (ReviewFailed, w)),
     en_timing = (\<lambda>_. \<lparr>tm_started = ''2026-01-01T09:00:00'', tm_completed = ''2026-01-01T09:00:05'', tm_duration = 5000, tm_stages = []\<rparr>)\<rparr>"

definition sample_claim :: build_claim where
  "sample_claim = \<lparr>bc_job = 7, bc_app = 8, bc_base = None, bc_blueprint = list_request, bc_attempt = 1\<rparr>"

definition repaired_attempt :: attempt where
  "repaired_attempt = \<lparr>at_source = hello_source, at_attempts = 2, at_repairs = 1, at_history = [[form_issue]],
     at_seen = [[(''acceptance_form'', ''item'', [])]], at_clean = False, at_reviews = 0\<rparr>"

lemma pipe_env_simps:
  "en_max_repairs pipe_env = 2" "en_repair pipe_env bp src issues n w = (Inr src, w)"
  "en_generate pipe_env bp w = (Inr hello_source, w)" "en_require_smoke pipe_env"
  by (simp_all add: pipe_env_def)

definition form_candidate :: candidate where
  "form_candidate = \<lparr>cd_issues = [form_issue], cd_bundle = Some hello_bundle, cd_smoke = None, cd_reviews = 0\<rparr>"

definition ready_candidate :: candidate where
  "ready_candidate = \<lparr>cd_issues = [], cd_bundle = Some hello_bundle, cd_smoke = Some ready_report, cd_reviews = 0\<rparr>"

lemma first_candidate:
  "evaluate_candidate pipe_env list_blueprint (at_source (first_attempt hello_source)) (at_reviews (first_attempt hello_source)) 0 =
     (Inr form_candidate, 1)"
  by code_simp

lemma second_candidate:
  "evaluate_candidate pipe_env list_blueprint (at_source repaired_attempt) (at_reviews repaired_attempt) 1 = (Inr ready_candidate, 2)"
  by code_simp

lemma first_steps:
  "\<not> repeats_acceptance (first_attempt hello_source) (cd_issues form_candidate)"
  "(next_attempt (first_attempt hello_source) form_candidate)\<lparr>at_source := hello_source\<rparr> = repaired_attempt"
  "cd_issues form_candidate \<noteq> []" "at_repairs (first_attempt hello_source) = 0" "at_source (first_attempt hello_source) = hello_source"
  "cd_issues ready_candidate = []"
  by code_simp+

lemma sample_loop:
  "build_loop pipe_env list_blueprint (first_attempt hello_source) 0 = (Inr (repaired_attempt, ready_candidate), 2)"
proof -
  have "build_loop pipe_env list_blueprint (first_attempt hello_source) 0 = build_loop pipe_env list_blueprint repaired_attempt 1"
    unfolding build_loop.simps [of pipe_env list_blueprint "first_attempt hello_source" 0] first_candidate
    by (simp add: first_steps next_source_def pipe_env_simps)
  also have "\<dots> = (Inr (repaired_attempt, ready_candidate), 2)"
    unfolding build_loop.simps [of pipe_env list_blueprint repaired_attempt 1] second_candidate
    by (simp add: first_steps)
  finally show ?thesis .
qed

lemma sample_package: "\<not> isl (package pipe_env list_blueprint hello_source hello_bundle (Some ready_report))"
  by code_simp

definition sample_artifact_of_build :: artifact where
  "sample_artifact_of_build = packaged pipe_env list_blueprint hello_source hello_bundle ready_report"

definition sample_completion :: completion where
  "sample_completion = \<lparr>co_claim = sample_claim, co_artifact = sample_artifact_of_build,
     co_metrics = build_metrics pipe_env repaired_attempt sample_artifact_of_build 2\<rparr>"

lemma sample_build: "build pipe_env sample_claim 0 = (Inr sample_completion, 2)"
proof -
  have "package pipe_env list_blueprint hello_source hello_bundle (Some ready_report) = Inr sample_artifact_of_build"
    using sample_package package_Inr [of pipe_env list_blueprint hello_source hello_bundle "Some ready_report"]
    by (cases "package pipe_env list_blueprint hello_source hello_bundle (Some ready_report)")
      (auto simp: sample_artifact_of_build_def)
  moreover have "from_mapping (en_casefold pipe_env) (bc_blueprint sample_claim) = Inr list_blueprint"
    using list_accepted by (simp add: pipe_env_def sample_claim_def)
  ultimately show ?thesis
    by (simp add: build_def bindA_def [of "en_generate pipe_env list_blueprint"] pipe_env_simps bindA_def [of "build_loop e b a" for e b a]
        sample_loop ready_candidate_def repaired_attempt_def sample_completion_def)
qed

theorem completed_build_is_verified_witness:
  "mt_repairs (co_metrics sample_completion) \<le> 2 \<and> mt_attempts (co_metrics sample_completion) = Suc (mt_repairs (co_metrics sample_completion))"
  using completed_build_is_verified [OF sample_build pipe_env_simps(4)] by (auto simp: pipe_env_simps)

end
