(* ===== verification/App_Calls.thy ===== *)
theory App_Calls
  imports App_Pipeline
begin

text \<open>
  How often a build calls its collaborators. The environment of \<open>App_Pipeline\<close> acts on a world of any type, so a world that
  also carries counters observes the calls: \<open>counted env\<close> answers as \<open>env\<close> does and counts the calls of the
  provider, the compiler, the browsers and the reviewer. A build of it is the same build, whatever its outcome,
  and its counters are bounded.
\<close>

section \<open>Counting\<close>

record calls =
  ck_generated :: nat
  ck_repaired :: nat
  ck_regenerated :: nat
  ck_compiled :: nat
  ck_smoked :: nat
  ck_reviewed :: nat

definition no_calls :: calls where
  "no_calls = \<lparr>ck_generated = 0, ck_repaired = 0, ck_regenerated = 0, ck_compiled = 0, ck_smoked = 0, ck_reviewed = 0\<rparr>"

definition tick :: "(calls \<Rightarrow> calls) \<Rightarrow> ('w \<Rightarrow> 'r \<times> 'w) \<Rightarrow> 'w \<times> calls \<Rightarrow> 'r \<times> ('w \<times> calls)" where
  "tick f run wk = (case wk of (w, k) \<Rightarrow> case run w of (r, w1) \<Rightarrow> (r, (w1, f k)))"

definition counted :: "'w env \<Rightarrow> ('w \<times> calls) env" where
  "counted env =
     \<lparr>en_sha = en_sha env, en_casefold = en_casefold env, en_lint = en_lint env, en_provider = en_provider env,
      en_version = en_version env, en_max_repairs = en_max_repairs env, en_target_ms = en_target_ms env,
      en_timeout = en_timeout env, en_require_smoke = en_require_smoke env, en_has_smoke = en_has_smoke env,
      en_has_review = en_has_review env, en_max_reviews = en_max_reviews env,
      en_generate = (\<lambda>bp. tick (\<lambda>k. k\<lparr>ck_generated := Suc (ck_generated k)\<rparr>) (en_generate env bp)),
      en_repair = (\<lambda>bp src issues n. tick (\<lambda>k. k\<lparr>ck_repaired := Suc (ck_repaired k)\<rparr>) (en_repair env bp src issues n)),
      en_regenerate = map_option (\<lambda>regenerate bp issues n.
        tick (\<lambda>k. k\<lparr>ck_regenerated := Suc (ck_regenerated k)\<rparr>) (regenerate bp issues n)) (en_regenerate env),
      en_compile = (\<lambda>src. tick (\<lambda>k. k\<lparr>ck_compiled := Suc (ck_compiled k)\<rparr>) (en_compile env src)),
      en_smoke = (\<lambda>b plan shot. tick (\<lambda>k. k\<lparr>ck_smoked := Suc (ck_smoked k)\<rparr>) (en_smoke env b plan shot)),
      en_review = (\<lambda>jpeg bp. tick (\<lambda>k. k\<lparr>ck_reviewed := Suc (ck_reviewed k)\<rparr>) (en_review env jpeg bp)),
      en_timing = (\<lambda>(w, k). en_timing env w)\<rparr>"

text \<open>The calls of the provider that make a source, and those of them that start from nothing.\<close>

definition sources :: "calls \<Rightarrow> nat" where
  "sources k = ck_generated k + ck_repaired k + ck_regenerated k"

definition fresh_sources :: "calls \<Rightarrow> nat" where
  "fresh_sources k = ck_generated k + ck_regenerated k"

text \<open>An action over the counted world mirrors one over the world: the same answer and the same new world, and counters
  related to the old ones by \<open>P\<close>, which may depend on the answer.\<close>

definition mirrors :: "('w, 'a) act \<Rightarrow> ('w \<times> calls, 'a) act \<Rightarrow> (build_exn + 'a \<Rightarrow> calls \<Rightarrow> calls \<Rightarrow> bool) \<Rightarrow> bool" where
  "mirrors m m' P \<longleftrightarrow> (\<forall>w k. \<exists>k'. m' (w, k) = (fst (m w), (snd (m w), k')) \<and> P (fst (m w)) k k')"

lemma mirrorsE:
  assumes "mirrors m m' P"
  obtains k' where "m' (w, k) = (fst (m w), (snd (m w), k'))" "P (fst (m w)) k k'"
  using assms unfolding mirrors_def by blast

lemma mirrors_lift: "(\<And>k. P r k k) \<Longrightarrow> mirrors (liftA r) (liftA r) P"
  by (simp add: mirrors_def liftA_def)

lemma mirrors_tick: "(\<And>r k. P r k (f k)) \<Longrightarrow> mirrors m (tick f m) P"
  by (auto simp: mirrors_def tick_def split: prod.splits)

text \<open>Sequencing, with a relation for the first action, one for the rest, and how they combine.\<close>

lemma mirrors_bind:
  assumes "mirrors m m' Q" "\<And>x. mirrors (g x) (g' x) (R x)"
    and "\<And>e k k'. Q (Inl e) k k' \<Longrightarrow> P (Inl e) k k'"
    and "\<And>x r k k1 k2. Q (Inr x) k k1 \<Longrightarrow> R x r k1 k2 \<Longrightarrow> P r k k2"
  shows "mirrors (bindA m g) (bindA m' g') P"
  unfolding mirrors_def
proof (intro allI)
  fix w k
  obtain k1 where 1: "m' (w, k) = (fst (m w), (snd (m w), k1))" "Q (fst (m w)) k k1" by (rule mirrorsE [OF assms(1)])
  show "\<exists>k'. bindA m' g' (w, k) = (fst (bindA m g w), (snd (bindA m g w), k')) \<and> P (fst (bindA m g w)) k k'"
  proof (cases "m w")
    case (Pair r w1)
    show ?thesis
    proof (cases r)
      case (Inl e)
      with 1 Pair assms(3) show ?thesis by (auto simp: bindA_def)
    next
      case (Inr x)
      obtain k2 where 2: "g' x (w1, k1) = (fst (g x w1), (snd (g x w1), k2))" "R x (fst (g x w1)) k1 k2"
        by (rule mirrorsE [OF assms(2)])
      with 1 Pair Inr assms(4) show ?thesis by (auto simp: bindA_def)
    qed
  qed
qed

lemma mirrors_weaken: "mirrors m m' Q \<Longrightarrow> (\<And>r k k'. Q r k k' \<Longrightarrow> P r k k') \<Longrightarrow> mirrors m m' P"
  unfolding mirrors_def by blast

section \<open>The calls of one candidate\<close>

text \<open>At most one compilation, one smoke run and, while reviews are left, one review, which is counted.\<close>

definition candidate_calls :: "nat \<Rightarrow> nat \<Rightarrow> build_exn + candidate \<Rightarrow> calls \<Rightarrow> calls \<Rightarrow> bool" where
  "candidate_calls reviews limit r k k' \<longleftrightarrow> sources k' = sources k \<and> fresh_sources k' = fresh_sources k \<and>
     ck_compiled k' \<le> Suc (ck_compiled k) \<and> ck_smoked k' \<le> Suc (ck_smoked k) \<and>
     ck_reviewed k' \<le> ck_reviewed k + (if reviews < limit then 1 else 0) \<and>
     (case r of Inl _ \<Rightarrow> True | Inr c \<Rightarrow> ck_reviewed k' + reviews = ck_reviewed k + cd_reviews c)"

lemma counted_simps [simp]:
  "en_lint (counted env) = en_lint env" "en_max_repairs (counted env) = en_max_repairs env"
  "en_require_smoke (counted env) = en_require_smoke env" "en_has_smoke (counted env) = en_has_smoke env"
  "en_has_review (counted env) = en_has_review env" "en_max_reviews (counted env) = en_max_reviews env"
  "en_casefold (counted env) = en_casefold env" "en_sha (counted env) = en_sha env"
  "en_provider (counted env) = en_provider env" "en_version (counted env) = en_version env"
  by (simp_all add: counted_def)

lemma inspect_mirrors:
  "mirrors (inspect_and_compile env g) (inspect_and_compile (counted env) g)
     (\<lambda>_ k k'. k' = k \<or> k' = k\<lparr>ck_compiled := Suc (ck_compiled k)\<rparr>)"
  by (auto simp: mirrors_def inspect_and_compile_def counted_def tick_def Let_def split: prod.splits outcome.splits)

lemma review_mirrors:
  "mirrors (review_candidate env bp jpeg) (review_candidate (counted env) bp jpeg)
     (\<lambda>_ k k'. k' = k\<lparr>ck_reviewed := Suc (ck_reviewed k)\<rparr>)"
  by (auto simp: mirrors_def review_candidate_def counted_def tick_def split: prod.splits review.splits)

definition smoke_calls :: "nat \<Rightarrow> nat \<Rightarrow> build_exn + issue list \<times> obj option \<times> nat \<Rightarrow> calls \<Rightarrow> calls \<Rightarrow> bool" where
  "smoke_calls reviews limit r k k' \<longleftrightarrow>
     (let run = k\<lparr>ck_smoked := Suc (ck_smoked k)\<rparr>; says = (\<lambda>n. case r of Inl _ \<Rightarrow> True | Inr (_, _, m) \<Rightarrow> m = n) in
      (k' = k \<and> says reviews) \<or> (k' = run \<and> says reviews) \<or>
      (k' = run\<lparr>ck_reviewed := Suc (ck_reviewed k)\<rparr> \<and> reviews < limit \<and> says (Suc reviews)))"

text \<open>The two continuations of a candidate: the review of its screenshot, and what follows the compilation.\<close>

abbreviation review_step :: "'w env \<Rightarrow> blueprint \<Rightarrow> string \<Rightarrow> obj option \<Rightarrow> nat \<Rightarrow> ('w, issue list \<times> obj option \<times> nat) act" where
  "review_step env bp jpeg report n \<equiv> bindA (review_candidate env bp jpeg) (\<lambda>issues. liftA (Inr (issues, report, n)))"

abbreviation after_compile :: "'w env \<Rightarrow> blueprint \<Rightarrow> nat \<Rightarrow> issue list \<times> app_bundle option \<Rightarrow> ('w, candidate) act" where
  "after_compile env bp reviews x \<equiv> (case x of (issues, compiled) \<Rightarrow>
     if issues \<noteq> [] then liftA (Inr \<lparr>cd_issues = issues, cd_bundle = compiled, cd_smoke = None, cd_reviews = reviews\<rparr>)
     else case (en_has_smoke env, compiled) of
       (True, Some b) \<Rightarrow>
         bindA (smoke_candidate env bp b reviews) (\<lambda>(found, report, count).
           liftA (Inr \<lparr>cd_issues = found, cd_bundle = Some b, cd_smoke = report, cd_reviews = count\<rparr>))
     | _ \<Rightarrow>
         if en_require_smoke env then liftA (Inl (Raised ''RuntimeError: required browser smoke runner is unavailable''))
         else liftA (Inr \<lparr>cd_issues = [], cd_bundle = compiled, cd_smoke = Some skipped_smoke, cd_reviews = reviews\<rparr>))"

lemma smoke_mirrors:
  "mirrors (smoke_candidate env bp b reviews) (smoke_candidate (counted env) bp b reviews) (smoke_calls reviews (en_max_reviews env))"
  unfolding mirrors_def
proof (intro allI)
  fix w :: 'a and k :: calls
  let ?shot = "en_has_review env \<and> reviews < en_max_reviews env"
  let ?run = "k\<lparr>ck_smoked := Suc (ck_smoked k)\<rparr>"
  let ?m = "smoke_candidate env bp b reviews" and ?m' = "smoke_candidate (counted env) bp b reviews"
  show "\<exists>k'. ?m' (w, k) = (fst (?m w), (snd (?m w), k')) \<and> smoke_calls reviews (en_max_reviews env) (fst (?m w)) k k'"
  proof (cases "acceptance_plan bp")
    case (Inl e)
    then show ?thesis by (auto simp: smoke_candidate_def Let_def liftA_def smoke_calls_def)
  next
    case (Inr plan)
    obtain res written w1 where run: "en_smoke env b plan ?shot w = ((res, written), w1)" by (metis surj_pair)
    then have run': "en_smoke (counted env) b plan ?shot (w, k) = ((res, written), (w1, ?run))" by (simp add: counted_def tick_def)
    show ?thesis
    proof (cases "?shot \<and> (\<exists>c jpeg. written = Some (c # jpeg)) \<and> (\<forall>e. res \<noteq> Crashed e) \<and> (\<forall>i is. res \<noteq> Found (i # is))")
      case False
      then show ?thesis using Inr run run'
        by (cases res; cases written) (auto simp: smoke_candidate_def Let_def smoke_calls_def split: list.splits)
    next
      case True
      then obtain c jpeg where w: "written = Some (c # jpeg)" by blast
      let ?report = "case res of Done r \<Rightarrow> Some r | _ \<Rightarrow> None"
      let ?rest = "review_step env bp (c # jpeg) ?report (Suc reviews)"
      let ?rest' = "review_step (counted env) bp (c # jpeg) ?report (Suc reviews)"
      have m: "?m w = ?rest w1"
        using True Inr run w by (cases res) (auto simp: smoke_candidate_def Let_def split: list.splits)
      have m': "?m' (w, k) = ?rest' (w1, ?run)"
        using True Inr run' w by (cases res) (auto simp: smoke_candidate_def Let_def split: list.splits)
      have "mirrors (?rest) (?rest') (\<lambda>r k k'. k' = k\<lparr>ck_reviewed := Suc (ck_reviewed k)\<rparr> \<and>
          (case r of Inl _ \<Rightarrow> True | Inr (_, _, m) \<Rightarrow> m = Suc reviews))"
        by (rule mirrors_bind [OF review_mirrors, where R = "\<lambda>x r k k'. k' = k \<and> r = Inr (x, ?report, Suc reviews)"])
          (auto intro: mirrors_lift)
      then obtain k2 where "?rest' (w1, ?run) = (fst (?rest w1), (snd (?rest w1), k2))"
        "k2 = ?run\<lparr>ck_reviewed := Suc (ck_reviewed ?run)\<rparr>" "case fst (?rest w1) of Inl _ \<Rightarrow> True | Inr (_, _, m) \<Rightarrow> m = Suc reviews"
        by (auto elim!: mirrorsE [where w = w1 and k = ?run])
      then show ?thesis unfolding m m' using True by (auto simp: smoke_calls_def Let_def)
    qed
  qed
qed

lemma evaluate_mirrors:
  "mirrors (evaluate_candidate env bp g reviews) (evaluate_candidate (counted env) bp g reviews)
     (candidate_calls reviews (en_max_reviews env))"
proof -
  let ?P = "candidate_calls reviews (en_max_reviews env)"
  define R where "R = (\<lambda>r k k'. ck_compiled k' = ck_compiled k \<and> ?P r k k')"
  have lift: "R r k k" if "case r of Inl _ \<Rightarrow> True | Inr c \<Rightarrow> cd_reviews c = reviews" for r k
    using that by (auto simp: R_def candidate_calls_def split: sum.splits)
  have "mirrors (after_compile env bp reviews x) (after_compile (counted env) bp reviews x) R" for x
  proof (cases x)
    case (Pair issues compiled)
    show ?thesis
    proof (cases "issues = [] \<and> en_has_smoke env \<and> compiled \<noteq> None")
      case True
      then obtain b where b: "compiled = Some b" by blast
      have "mirrors (bindA (smoke_candidate env bp b reviews) (\<lambda>(found, report, n).
             liftA (Inr \<lparr>cd_issues = found, cd_bundle = Some b, cd_smoke = report, cd_reviews = n\<rparr>)))
          (bindA (smoke_candidate (counted env) bp b reviews) (\<lambda>(found, report, n).
             liftA (Inr \<lparr>cd_issues = found, cd_bundle = Some b, cd_smoke = report, cd_reviews = n\<rparr>))) R"
        by (rule mirrors_bind [OF smoke_mirrors, where R = "\<lambda>x r k k'. k' = k \<and>
              r = Inr \<lparr>cd_issues = fst x, cd_bundle = Some b, cd_smoke = fst (snd x), cd_reviews = snd (snd x)\<rparr>"])
          (auto simp: R_def smoke_calls_def candidate_calls_def sources_def fresh_sources_def Let_def intro!: mirrors_lift
            split: prod.splits)
      then show ?thesis using True b Pair by simp
    next
      case False
      then show ?thesis using Pair
        by (cases compiled; cases "en_has_smoke env") (auto intro!: mirrors_lift lift)
    qed
  qed
  then have "mirrors (bindA (inspect_and_compile env g) (after_compile env bp reviews))
      (bindA (inspect_and_compile (counted env) g) (after_compile (counted env) bp reviews)) ?P"
    by (rule mirrors_bind [OF inspect_mirrors])
      (auto simp: R_def candidate_calls_def sources_def fresh_sources_def split: sum.splits)
  then show ?thesis by (simp add: evaluate_candidate_def [abs_def])
qed

section \<open>The calls of the loop\<close>

text \<open>A rejected candidate costs one source, made from nothing only when its acceptance failure is repeated.\<close>

lemma next_source_mirrors:
  "mirrors (next_source env bp at issues) (next_source (counted env) bp at issues)
     (\<lambda>_ k k'. sources k' = Suc (sources k) \<and> fresh_sources k' = fresh_sources k + (if repeats_acceptance at issues then 1 else 0) \<and>
       ck_compiled k' = ck_compiled k \<and> ck_smoked k' = ck_smoked k \<and> ck_reviewed k' = ck_reviewed k)"
  by (cases "en_regenerate env")
    (auto simp: next_source_def regenerate_with_diagnostics_def counted_def sources_def fresh_sources_def intro!: mirrors_tick)

text \<open>What the rest of the loop may still call, from an attempt on: a source per repair left, one of them from nothing
  unless that was used, a compilation and a smoke run per candidate, and the reviews left.\<close>

definition loop_calls :: "'w env \<Rightarrow> attempt \<Rightarrow> build_exn + attempt \<times> candidate \<Rightarrow> calls \<Rightarrow> calls \<Rightarrow> bool" where
  "loop_calls env at r k k' \<longleftrightarrow>
     (let left = en_max_repairs env - at_repairs at in
      sources k' \<le> sources k + left \<and> fresh_sources k' \<le> fresh_sources k + (if at_clean at then 0 else 1) \<and>
      ck_compiled k' \<le> ck_compiled k + Suc left \<and> ck_smoked k' \<le> ck_smoked k + Suc left \<and>
      ck_reviewed k' \<le> ck_reviewed k + (en_max_reviews env - at_reviews at) \<and>
      (case r of Inl _ \<Rightarrow> True | Inr (at', _) \<Rightarrow>
         sources k' + at_repairs at = sources k + at_repairs at' \<and> sources k' + at_attempts at = sources k + at_attempts at'))"

lemma candidate_alone:
  assumes "candidate_calls (at_reviews at) (en_max_reviews env) x k k1" "r = Inr (at, c) \<or> (\<exists>e. r = Inl e)"
  shows "loop_calls env at r k k1"
proof -
  have "ck_reviewed k1 \<le> ck_reviewed k + (en_max_reviews env - at_reviews at)"
    using assms(1) [unfolded candidate_calls_def, THEN conjunct2, THEN conjunct2, THEN conjunct2, THEN conjunct2, THEN conjunct1]
    by (cases "at_reviews at < en_max_reviews env") simp_all
  moreover have "sources k1 = sources k" "fresh_sources k1 = fresh_sources k" "ck_compiled k1 \<le> Suc (ck_compiled k)" "ck_smoked k1 \<le> Suc (ck_smoked k)"
    using assms(1) by (simp_all add: candidate_calls_def)
  ultimately show ?thesis using assms(2) by (auto simp: loop_calls_def Let_def)
qed

text \<open>One repair more: the rest of the loop, after a rejected candidate and its next source.\<close>

lemma candidate_then:
  assumes "candidate_calls (at_reviews at) (en_max_reviews env) (Inr c) k k1" "at_repairs at < en_max_repairs env"
    "sources k2 = Suc (sources k1)" "fresh_sources k2 = fresh_sources k1 + n" "n = 0 \<or> (n = 1 \<and> \<not> at_clean at \<and> clean)"
    "ck_compiled k2 = ck_compiled k1" "ck_smoked k2 = ck_smoked k1" "ck_reviewed k2 = ck_reviewed k1"
    "loop_calls env at2 r k2 k'" "at_repairs at2 = Suc (at_repairs at)" "at_attempts at2 = Suc (at_attempts at)" "at_reviews at2 = cd_reviews c" "at_clean at2 = (at_clean at \<or> clean)"
  shows "loop_calls env at r k k'"
proof -
  note c = assms(1) [unfolded candidate_calls_def sum.case] and l = assms(9) [unfolded loop_calls_def Let_def assms(10-13)]
  obtain left where left: "en_max_repairs env - at_repairs at = Suc left" "en_max_repairs env - Suc (at_repairs at) = left"
    using assms(2) by (cases "en_max_repairs env - at_repairs at") auto
  have "ck_reviewed k1 \<le> ck_reviewed k + (if at_reviews at < en_max_reviews env then 1 else 0)"
    "ck_reviewed k1 + at_reviews at = ck_reviewed k + cd_reviews c" "ck_reviewed k' \<le> ck_reviewed k1 + (en_max_reviews env - cd_reviews c)"
    using c l assms(8) by simp_all
  then have "ck_reviewed k' \<le> ck_reviewed k + (en_max_reviews env - at_reviews at)"
    by (cases "at_reviews at < en_max_reviews env") simp_all
  moreover have "fresh_sources k' \<le> fresh_sources k + (if at_clean at then 0 else 1)"
    using c l assms(4,5) by (cases "at_clean at"; cases clean) auto
  moreover have "sources k' \<le> sources k + Suc left" "ck_compiled k' \<le> ck_compiled k + Suc (Suc left)" "ck_smoked k' \<le> ck_smoked k + Suc (Suc left)"
    using c l assms(3,6,7) unfolding left by simp_all
  moreover have "case r of Inl _ \<Rightarrow> True | Inr (at', _) \<Rightarrow>
      sources k' + at_repairs at = sources k + at_repairs at' \<and> sources k' + at_attempts at = sources k + at_attempts at'"
    using c l assms(3) by (cases r) auto
  ultimately show ?thesis unfolding loop_calls_def Let_def left by blast
qed

lemma loop_stops: "loop_calls env at (Inl e) k k"
  by (simp add: loop_calls_def Let_def)

lemma loop_mirrors:
  "\<exists>k'. build_loop (counted env) bp at (w, k) = (fst (build_loop env bp at w), (snd (build_loop env bp at w), k')) \<and>
     loop_calls env at (fst (build_loop env bp at w)) k k'"
proof (induction env bp at w arbitrary: k rule: build_loop.induct)
  case (1 env bp at w)
  let ?env = "counted env"
  obtain r w1 where r: "evaluate_candidate env bp (at_source at) (at_reviews at) w = (r, w1)" by (metis surj_pair)
  then obtain k1 where r': "evaluate_candidate ?env bp (at_source at) (at_reviews at) (w, k) = (r, (w1, k1))"
    and k1: "candidate_calls (at_reviews at) (en_max_reviews env) r k k1"
    using mirrorsE [OF evaluate_mirrors [of env bp "at_source at" "at_reviews at"], of w k] by (metis fst_conv snd_conv)
  note loop = build_loop.simps [of env bp at w] build_loop.simps [of ?env bp at "(w, k)"]
  show ?case
  proof (cases r)
    case (Inl e)
    with r r' show ?thesis by (auto simp: loop intro!: candidate_alone [OF k1])
  next
    case (Inr c)
    note alone = candidate_alone [OF k1]
    show ?thesis
    proof (cases "cd_issues c = [] \<or> (repeats_acceptance at (cd_issues c) \<and> at_clean at) \<or> en_max_repairs env \<le> at_repairs at")
      case True
      then show ?thesis using r r' Inr by (auto simp: loop intro!: alone)
    next
      case False
      obtain q w2 where q: "next_source env bp at (cd_issues c) w1 = (q, w2)" by (metis surj_pair)
      then obtain k2 where q': "next_source ?env bp at (cd_issues c) (w1, k1) = (q, (w2, k2))"
        and k2: "sources k2 = Suc (sources k1)"
          "fresh_sources k2 = fresh_sources k1 + (if repeats_acceptance at (cd_issues c) then 1 else 0)"
          "ck_compiled k2 = ck_compiled k1" "ck_smoked k2 = ck_smoked k1" "ck_reviewed k2 = ck_reviewed k1"
        using mirrorsE [OF next_source_mirrors [of env bp at "cd_issues c"], of w1 k1] by (metis fst_conv snd_conv)
      show ?thesis
      proof (cases q)
        case (Inl e)
        have "loop_calls env at (Inl e) k k2"
          by (rule candidate_then [OF k1 [unfolded \<open>r = Inr c\<close>] _ k2(1,2) _ k2(3-5) loop_stops [where at = "next_attempt at c"]])
            (use False in \<open>auto simp: next_attempt_def\<close>)
        then show ?thesis using r r' Inl \<open>r = Inr c\<close> False q q' by (auto simp: loop)
      next
        case (Inr generated)
        let ?at = "(next_attempt at c)\<lparr>at_source := generated\<rparr>"
        have step: "build_loop env bp at w = build_loop env bp ?at w2" "build_loop ?env bp at (w, k) = build_loop ?env bp ?at (w2, k2)"
          using r r' \<open>r = Inr c\<close> False q q' Inr by (auto simp: loop)
        from 1 [OF r [symmetric] \<open>r = Inr c\<close> _ _ q [symmetric] Inr, of k2] False obtain k' where
          k': "build_loop ?env bp ?at (w2, k2) = (fst (build_loop env bp ?at w2), (snd (build_loop env bp ?at w2), k'))"
            "loop_calls env ?at (fst (build_loop env bp ?at w2)) k2 k'" by blast
        have "loop_calls env at (fst (build_loop env bp ?at w2)) k k'"
          by (rule candidate_then [OF k1 [unfolded \<open>r = Inr c\<close>] _ k2(1,2) _ k2(3-5) k'(2)])
            (use False in \<open>auto simp: next_attempt_def\<close>)
        with k'(1) show ?thesis unfolding step by blast
      qed
    qed
  qed
qed

section \<open>The calls of a build\<close>

abbreviation finish :: "'w env \<Rightarrow> build_claim \<Rightarrow> blueprint \<Rightarrow> attempt \<times> candidate \<Rightarrow> ('w, completion) act" where
  "finish env claim bp x \<equiv> (case x of (at, c) \<Rightarrow> case cd_bundle c of
       None \<Rightarrow> liftA (Inl (Raised ''RuntimeError: validated app build has no browser bundle''))
     | Some b \<Rightarrow> bindA (liftA (package env bp (at_source at) b (cd_smoke c))) (\<lambda>a w.
         (Inr \<lparr>co_claim = claim, co_artifact = a, co_metrics = build_metrics env at a w\<rparr>, w)))"

lemma counted_package: "package (counted env) = package env"
  by (intro ext) (simp add: package_def packaged_def)

lemma counted_metrics:
  "build_metrics (counted env) at a (w, k) = build_metrics env at a w"
  "mt_attempts (build_metrics env at a w) = at_attempts at" "mt_repairs (build_metrics env at a w) = at_repairs at"
  by (simp_all add: build_metrics_def counted_def)

lemma finish_mirrors:
  "mirrors (finish env claim bp x) (finish (counted env) claim bp x) (\<lambda>r k k'. k' = k \<and>
     (case r of Inl _ \<Rightarrow> True | Inr done \<Rightarrow>
        mt_attempts (co_metrics done) = at_attempts (fst x) \<and> mt_repairs (co_metrics done) = at_repairs (fst x)))"
  by (cases x; cases "cd_bundle (snd x)"; cases "package env bp (at_source (fst x)) (the (cd_bundle (snd x))) (cd_smoke (snd x))")
    (auto simp: mirrors_def liftA_def bindA_def counted_package counted_metrics)

definition build_calls :: "'w env \<Rightarrow> build_exn + completion \<Rightarrow> calls \<Rightarrow> calls \<Rightarrow> bool" where
  "build_calls env r k k' \<longleftrightarrow>
     (let limit = Suc (en_max_repairs env) in
      sources k' \<le> sources k + limit \<and> fresh_sources k' \<le> fresh_sources k + 2 \<and> ck_compiled k' \<le> ck_compiled k + limit \<and>
      ck_smoked k' \<le> ck_smoked k + limit \<and> ck_reviewed k' \<le> ck_reviewed k + en_max_reviews env \<and>
      (case r of Inl _ \<Rightarrow> True | Inr done \<Rightarrow>
         sources k' = sources k + mt_attempts (co_metrics done) \<and> sources k' = Suc (sources k + mt_repairs (co_metrics done))))"

lemma finished_loop_mirrors:
  "mirrors (bindA (build_loop env bp at) (finish env claim bp)) (bindA (build_loop (counted env) bp at) (finish (counted env) claim bp))
     (\<lambda>r k k'. \<exists>q. loop_calls env at q k k' \<and> (case r of Inl _ \<Rightarrow> True | Inr done \<Rightarrow> \<exists>at' c. q = Inr (at', c) \<and>
        mt_attempts (co_metrics done) = at_attempts at' \<and> mt_repairs (co_metrics done) = at_repairs at'))"
proof (rule mirrors_bind [OF _ finish_mirrors])
  show "mirrors (build_loop env bp at) (build_loop (counted env) bp at) (loop_calls env at)"
    unfolding mirrors_def by (intro allI loop_mirrors)
qed (auto split: sum.splits)

lemma build_mirrors: "mirrors (build env claim) (build (counted env) claim) (build_calls env)"
proof -
  let ?gen = "\<lambda>k. k\<lparr>ck_generated := Suc (ck_generated k)\<rparr>"
  have gen: "mirrors (en_generate env bp) (en_generate (counted env) bp) (\<lambda>_ k k'. k' = ?gen k)" for bp
    by (auto simp: counted_def intro!: mirrors_tick)
  have rest: "mirrors
      (bindA (en_generate env bp) (\<lambda>g. bindA (build_loop env bp (first_attempt g)) (finish env claim bp)))
      (bindA (en_generate (counted env) bp) (\<lambda>g. bindA (build_loop (counted env) bp (first_attempt g)) (finish (counted env) claim bp)))
      (build_calls env)" for bp
    by (rule mirrors_bind [OF gen finished_loop_mirrors])
      (auto simp: build_calls_def loop_calls_def first_attempt_def sources_def fresh_sources_def Let_def split: sum.splits)
  show ?thesis
    unfolding build_def counted_simps
    by (rule mirrors_bind [OF mirrors_lift rest, where Q = "\<lambda>_ k k'. k' = k"])
      (auto simp: build_calls_def Let_def)
qed

text \<open>C14. 
  A build, whatever its collaborators answer and however it ends, calls the provider for at most one source more than
  the configured repairs, at most two of these calls from nothing (the first and one clean regeneration); it compiles and
  smoke tests at most one candidate more than the configured repairs, and reviews at most the configured screenshots. A build that
  completes reports the calls of the provider as its attempts, and all but the first as its repairs.
\<close>

theorem build_tries_are_bounded:
  "\<exists>k. build (counted env) claim (w, no_calls) = (fst (build env claim w), (snd (build env claim w), k)) \<and>
     sources k \<le> Suc (en_max_repairs env) \<and> fresh_sources k \<le> 2 \<and>
     ck_compiled k \<le> Suc (en_max_repairs env) \<and> ck_smoked k \<le> Suc (en_max_repairs env) \<and> ck_reviewed k \<le> en_max_reviews env \<and>
     (case fst (build env claim w) of Inl _ \<Rightarrow> True | Inr done \<Rightarrow>
        mt_attempts (co_metrics done) = sources k \<and> Suc (mt_repairs (co_metrics done)) = sources k)"
proof -
  have "sources no_calls = 0" "fresh_sources no_calls = 0" "ck_compiled no_calls = 0" "ck_smoked no_calls = 0" "ck_reviewed no_calls = 0"
    by (simp_all add: no_calls_def sources_def fresh_sources_def)
  moreover obtain k where "build (counted env) claim (w, no_calls) = (fst (build env claim w), (snd (build env claim w), k))"
    "build_calls env (fst (build env claim w)) no_calls k"
    by (rule mirrorsE [OF build_mirrors])
  ultimately show ?thesis
    by (intro exI [of _ k]) (auto simp: build_calls_def Let_def split: sum.splits)
qed

end
