(* ===== verification/Build_Worker.thy ===== *)
theory Build_Worker
  imports App_Build_Steps App_Pipeline Build_Samples
begin

text \<open>
  The builder's worker: \<open>process_next_build\<close> of \<open>app_builder/pipeline.py\<close>, the interface \<open>BuildJobHooks\<close> it settles
  jobs through, and its implementation over the database, \<open>GeneratedAppBuildServiceHooks\<close> of
  \<open>app_builder/service_hooks.py\<close>. The link between the pipeline and the promotion gate is here.
\<close>

section \<open>The interface\<close>

record build_failure =
  bf_code :: string
  bf_message :: string
  bf_retryable :: bool
  bf_issues :: "issue list"
  bf_duration :: int

text \<open>\<open>BuildCompletionHookError\<close>, or anything else a hook raises.\<close>

datatype hook_error = HookError string string bool | BrokenHook string

record 's hooks =
  hk_claim :: "'s \<Rightarrow> (string + build_claim option) \<times> 's"
  hk_complete :: "build_claim \<Rightarrow> completion \<Rightarrow> 's \<Rightarrow> (hook_error + unit) \<times> 's"
  hk_fail :: "build_claim \<Rightarrow> build_failure \<Rightarrow> 's \<Rightarrow> (string + unit) \<times> 's"

section \<open>Settling\<close>

text \<open>What is recorded for each way a build can end early.\<close>

fun failure_of :: "string \<Rightarrow> int \<Rightarrow> build_exn \<Rightarrow> build_failure" where
  "failure_of timeout ms (InvalidBlueprint m) =
     \<lparr>bf_code = ''invalid_blueprint'', bf_message = m, bf_retryable = False, bf_issues = [], bf_duration = ms\<rparr>"
| "failure_of timeout ms (Rejected issues) =
     \<lparr>bf_code = ''source_rejected'', bf_message = ''generated source did not pass build policy'', bf_retryable = False,
      bf_issues = issues, bf_duration = ms\<rparr>"
| "failure_of timeout ms TimedOut =
     \<lparr>bf_code = ''build_timeout'', bf_message = ''app build exceeded the '' @ timeout @ ''s worker deadline'', bf_retryable = True,
      bf_issues = [], bf_duration = ms\<rparr>"
| "failure_of timeout ms (Raised m) =
     \<lparr>bf_code = ''provider_error'', bf_message = m, bf_retryable = True, bf_issues = [], bf_duration = ms\<rparr>"

fun hook_failure_of :: "int \<Rightarrow> hook_error \<Rightarrow> build_failure" where
  "hook_failure_of ms (HookError code m retryable) =
     \<lparr>bf_code = code, bf_message = m, bf_retryable = retryable, bf_issues = [], bf_duration = ms\<rparr>"
| "hook_failure_of ms (BrokenHook m) =
     \<lparr>bf_code = ''completion_hook_error'', bf_message = m, bf_retryable = True, bf_issues = [], bf_duration = ms\<rparr>"

text \<open>A failing failure hook is logged and nothing else.\<close>

definition fail_build_safely :: "'s hooks \<Rightarrow> build_claim \<Rightarrow> build_failure \<Rightarrow> 's \<Rightarrow> 's" where
  "fail_build_safely hooks claim failure s = snd (hk_fail hooks claim failure s)"

definition settle_build :: "'s hooks \<Rightarrow> string \<Rightarrow> int \<Rightarrow> build_claim \<Rightarrow> build_exn + completion \<Rightarrow> 's \<Rightarrow> 's" where
  "settle_build hooks timeout ms claim outcome s =
     (case outcome of
        Inl e \<Rightarrow> fail_build_safely hooks claim (failure_of timeout ms e) s
      | Inr done \<Rightarrow>
          (case hk_complete hooks claim done s of
             (Inr _, s1) \<Rightarrow> s1
           | (Inl e, s1) \<Rightarrow> fail_build_safely hooks claim (hook_failure_of ms e) s1))"

text \<open>Whether a job was handled; what the claim hook raises goes to the caller.\<close>

definition process_next_build :: "'w env \<Rightarrow> 's hooks \<Rightarrow> 's \<Rightarrow> 'w \<Rightarrow> (string + bool) \<times> 's \<times> 'w" where
  "process_next_build env hooks s w =
     (case hk_claim hooks s of
        (Inl e, s1) \<Rightarrow> (Inl e, s1, w)
      | (Inr None, s1) \<Rightarrow> (Inr False, s1, w)
      | (Inr (Some claim), s1) \<Rightarrow>
          (case build env claim w of
             (outcome, w1) \<Rightarrow>
               (Inr True, settle_build hooks (en_timeout env) (tm_duration (en_timing env w1)) claim outcome s1, w1)))"

section \<open>The hooks over the database\<close>

text \<open>The worker's settings and what its calls find: the clock at each, a fresh ticket, \<open>json.loads\<close> and the texts of errors.\<close>

record service =
  sv_sha :: "string \<Rightarrow> string"
  sv_worker :: string
  sv_lease :: int
  sv_public_url :: string
  sv_ticket :: string
  sv_loads :: "string \<Rightarrow> json option"
  sv_error_text :: "app_error \<Rightarrow> string"
  sv_claims_at :: instant
  sv_completes_at :: instant
  sv_fails_at :: instant

definition blueprint_of_request :: "obj \<Rightarrow> obj" where
  "blueprint_of_request request =
     (case get_default request ''blueprint'' (JObj request) of
        JObj blueprint \<Rightarrow> blueprint
      | v \<Rightarrow> [(''invalid_blueprint'', v)])"

definition service_claim :: "service \<Rightarrow> db \<Rightarrow> (string + build_claim option) \<times> db" where
  "service_claim sv d =
     (case claim_next_build (sv_claims_at sv) d (sv_worker sv) (sv_lease sv) of
        Inl e \<Rightarrow> (Inl (sv_error_text sv e), d)
      | Inr (None, d1) \<Rightarrow> (Inr None, d1)
      | Inr (Some c, d1) \<Rightarrow>
          (Inr (Some \<lparr>bc_job = cl_job c, bc_app = cl_app c, bc_base = cl_base c,
             bc_blueprint = blueprint_of_request (cl_request c), bc_attempt = cl_attempt c\<rparr>), d1))"

definition app_base_url :: "service \<Rightarrow> db \<Rightarrow> build_claim \<Rightarrow> app_error + string" where
  "app_base_url sv d claim =
     (case find_app d (bc_app claim) of
        None \<Rightarrow> Inl CodeAppNotFound
      | Some app \<Rightarrow> Inr (sv_public_url sv @ ''/a/'' @ ga_public app))"

definition completion_tests :: "completion \<Rightarrow> obj" where
  "completion_tests done = AList.update ''build_metrics'' (JObj (metrics_dict (co_metrics done))) (ar_tests (co_artifact done))"

definition source_map :: "source_file list \<Rightarrow> obj" where
  "source_map files = foldl (\<lambda>m f. AList.update (sf_path f) (JStr (sf_contents f)) m) [] files"

definition build_output_of :: "string \<Rightarrow> completion \<Rightarrow> build_output" where
  "build_output_of url done =
     (let a = co_artifact done in
      \<lparr>bo_manifest = ar_manifest a, bo_sources = source_map (ar_files a), bo_url = ''artifact://sha256/'' @ ar_content_hash a,
       bo_sha = ar_content_hash a, bo_sdk = DOT_APP_SDK_VERSION, bo_lock = Some DOT_APP_DEPENDENCY_LOCK,
       bo_tests = Some (completion_tests done), bo_artifact = Some (artifact_dict a), bo_app_url = None, bo_handoff = Some url,
       bo_metadata = Some [(''metrics'', JObj (metrics_dict (co_metrics done))), (''provider'', JStr (ar_provider a)),
         (''provider_version'', JStr (ar_version a)), (''provider_metadata'', JObj (ar_metadata a))]\<rparr>)"

text \<open>The code of an error of the completion and whether a retry may help.\<close>

fun classify_completion_error :: "app_error \<Rightarrow> string \<times> bool" where
  "classify_completion_error CodeAppStaleBuild = (''stale_base_revision'', False)"
| "classify_completion_error CodeAppValidation = (''completion_validation_error'', False)"
| "classify_completion_error CodeAppNotFound = (''completion_target_missing'', False)"
| "classify_completion_error CodeAppConflict = (''completion_conflict'', False)"
| "classify_completion_error UncaughtIntegrityError = (''completion_conflict'', False)"
| "classify_completion_error UncaughtTypeError = (''completion_validation_error'', False)"
| "classify_completion_error UncaughtValueError = (''completion_validation_error'', False)"
| "classify_completion_error _ = (''completion_persistence_error'', True)"

text \<open>The transaction of a failed completion is rolled back.\<close>

definition service_complete :: "service \<Rightarrow> build_claim \<Rightarrow> completion \<Rightarrow> db \<Rightarrow> (hook_error + unit) \<times> db" where
  "service_complete sv claim done d =
     (case bindR (app_base_url sv d claim) (\<lambda>url.
        complete_build (sv_sha sv) (sv_completes_at sv) (sv_ticket sv) d (bc_job claim) (sv_worker sv) (bc_attempt claim)
          (build_output_of url done)) of
        Inr (_, d1) \<Rightarrow> (Inr (), d1)
      | Inl e \<Rightarrow> (Inl (case classify_completion_error e of (code, retryable) \<Rightarrow> HookError code (sv_error_text sv e) retryable), d))"

definition failure_json :: "build_failure \<Rightarrow> string" where
  "failure_json f =
     canonical_json (JObj [(''code'', JStr (bf_code f)), (''message'', JStr (bf_message f)), (''retryable'', JBool (bf_retryable f)),
       (''duration_ms'', JInt (bf_duration f)), (''issues'', JArr (map issue_dict (bf_issues f)))])"

definition service_fail :: "service \<Rightarrow> build_claim \<Rightarrow> build_failure \<Rightarrow> db \<Rightarrow> (string + unit) \<times> db" where
  "service_fail sv claim f d =
     (case fail_build (sv_loads sv) (sv_fails_at sv) d (bc_job claim) (sv_worker sv) (bc_attempt claim) (take 4000 (failure_json f))
        (map_option (\<lambda>app. sv_public_url sv @ ''/a/'' @ ga_public app) (find_app d (bc_app claim)))
        [(''duration_ms'', JInt (bf_duration f)), (''issues'', JArr (map issue_dict (bf_issues f)))] (bf_retryable f) of
        Inl e \<Rightarrow> (Inl (sv_error_text sv e), d)
      | Inr (_, d1) \<Rightarrow> (Inr (), d1))"

definition service_hooks :: "service \<Rightarrow> db hooks" where
  "service_hooks sv = \<lparr>hk_claim = service_claim sv, hk_complete = service_complete sv, hk_fail = service_fail sv\<rparr>"

section \<open>The contract of the hooks\<close>

text \<open>
  What the worker relies on: completing or failing a job ends the claim it settles, a completion that raises
  leaves the store as it was, and without the claim neither changes it.
\<close>

locale settling_hooks =
  fixes complete :: "build_claim \<Rightarrow> completion \<Rightarrow> 's \<Rightarrow> (hook_error + unit) \<times> 's"
    and fail :: "build_claim \<Rightarrow> build_failure \<Rightarrow> 's \<Rightarrow> (string + unit) \<times> 's"
    and holds :: "'s \<Rightarrow> build_claim \<Rightarrow> bool"
    and sound :: "'s \<Rightarrow> bool"
  assumes complete_ends: "sound s \<Longrightarrow> complete c out s = (Inr u, s') \<Longrightarrow> \<not> holds s' c"
    and complete_keeps: "complete c out s = (Inl e, s') \<Longrightarrow> s' = s"
    and fail_ends: "sound s \<Longrightarrow> holds s c \<Longrightarrow> \<not> holds (snd (fail c f s)) c"
    and complete_needs: "\<not> holds s c \<Longrightarrow> snd (complete c out s) = s"
    and fail_needs: "\<not> holds s c \<Longrightarrow> snd (fail c f s) = s"
begin

lemma settle_ends:
  assumes "sound s" "holds s c"
  shows "\<not> holds (settle_build \<lparr>hk_claim = claims, hk_complete = complete, hk_fail = fail\<rparr> t ms c outcome s) c"
proof (cases outcome)
  case (Inl e)
  then show ?thesis using fail_ends [OF assms] by (simp add: settle_build_def fail_build_safely_def)
next
  case (Inr out)
  obtain r s1 where r: "complete c out s = (r, s1)" by (cases "complete c out s")
  show ?thesis
  proof (cases r)
    case (Inl e)
    with r complete_keeps have "s1 = s" by blast
    with r Inl Inr fail_ends [OF assms] show ?thesis by (simp add: settle_build_def fail_build_safely_def)
  next
    case (Inr u)
    with r complete_ends [OF assms(1)] have "\<not> holds s1 c" by blast
    with r Inr \<open>outcome = Inr out\<close> show ?thesis by (simp add: settle_build_def)
  qed
qed

lemma settle_fenced:
  assumes "\<not> holds s c"
  shows "settle_build \<lparr>hk_claim = claims, hk_complete = complete, hk_fail = fail\<rparr> t ms c outcome s = s"
proof (cases outcome)
  case (Inr out)
  obtain r s1 where r: "complete c out s = (r, s1)" by (cases "complete c out s")
  with complete_needs [OF assms, of out] have "s1 = s" by simp
  with r Inr show ?thesis using fail_needs [OF assms] by (cases r) (simp_all add: settle_build_def fail_build_safely_def)
qed (use fail_needs [OF assms] in \<open>simp add: settle_build_def fail_build_safely_def\<close>)

end

section \<open>The service keeps the contract\<close>

definition claim_held :: "service \<Rightarrow> db \<Rightarrow> build_claim \<Rightarrow> bool" where
  "claim_held sv d c \<longleftrightarrow> claim_current d (bc_job c, sv_worker sv, bc_attempt c)"

text \<open>The queue's invariant and the foreign key of its jobs.\<close>

definition jobs_have_apps :: "db \<Rightarrow> bool" where
  "jobs_have_apps d \<longleftrightarrow> jobs_ok d \<and> (\<forall>j\<in>set (db_jobs d). find_app d (jb_app j) \<noteq> None)"

lemma strip_length: "length (py_strip s) \<le> length s"
  unfolding py_strip_def using length_dropWhile_le [of py_isspace] by (metis length_rev order_trans)

lemma strip_nonempty: "\<not> py_isspace (hd s) \<Longrightarrow> s \<noteq> [] \<Longrightarrow> py_strip s \<noteq> []"
  by (cases s) (auto simp: py_strip_def dropWhile_eq_Nil_conv)

lemma text_value_fits: "py_strip s \<noteq> [] \<Longrightarrow> length (py_strip s) \<le> n \<Longrightarrow> text_value (JStr s) n = Inr (py_strip s)"
  by (simp add: text_value.simps)

lemma failure_text: "\<exists>t. text_value (JStr (take 4000 (failure_json f))) 4000 = Inr t"
proof -
  let ?s = "take 4000 (failure_json f)"
  have "\<exists>cs. failure_json f = CHR ''{'' # cs" by (simp add: failure_json_def canonical_json_def)
  then obtain cs where "?s = CHR ''{'' # take 3999 cs" by (auto simp: take_Cons')
  moreover have "\<not> py_isspace (CHR ''{'')" by code_simp
  ultimately have "py_strip ?s \<noteq> []" by (intro strip_nonempty) simp_all
  moreover have "length (py_strip ?s) \<le> 4000" using strip_length [of ?s] by simp
  ultimately show ?thesis using text_value_fits by blast
qed

lemma service_fail_total:
  assumes "claim_held sv d c" "jobs_have_apps d"
  shows "\<exists>j err url md d'. fail_build (sv_loads sv) (sv_fails_at sv) d (bc_job c) (sv_worker sv) (bc_attempt c) err url md (bf_retryable f) = Inr (j, d') \<and>
    service_fail sv c f d = (Inr (), d')"
proof -
  from assms(1) obtain j where j: "claimed_job d (bc_job c) (sv_worker sv) (bc_attempt c) = Inr j"
    unfolding claim_held_def claim_current_iff by blast
  from claimed_jobD [OF j] assms(2) obtain app where app: "find_app d (jb_app j) = Some app" by (auto simp: jobs_have_apps_def)
  from failure_text obtain t where t: "text_value (JStr (take 4000 (failure_json f))) 4000 = Inr t" ..
  let ?url = "map_option (\<lambda>app. sv_public_url sv @ ''/a/'' @ ga_public app) (find_app d (bc_app c))"
  let ?md = "[(''duration_ms'', JInt (bf_duration f)), (''issues'', JArr (map issue_dict (bf_issues f)))]"
  let ?run = "fail_build (sv_loads sv) (sv_fails_at sv) d (bc_job c) (sv_worker sv) (bc_attempt c) (take 4000 (failure_json f)) ?url ?md (bf_retryable f)"
  have "\<exists>r. ?run = Inr r"
    unfolding fail_build_def j bindR_simps t app some_or_def option.case by (simp add: Let_def split: prod.split)
  then obtain q d' where "?run = Inr (q, d')" by fast
  then show ?thesis by (auto simp: service_fail_def)
qed

lemma service_fail_cases:
  obtains e where "service_fail sv c f d = (Inl e, d)"
  | j err url md d' where "fail_build (sv_loads sv) (sv_fails_at sv) d (bc_job c) (sv_worker sv) (bc_attempt c) err url md (bf_retryable f) = Inr (j, d')"
      "service_fail sv c f d = (Inr (), d')"
proof -
  let ?url = "map_option (\<lambda>app. sv_public_url sv @ ''/a/'' @ ga_public app) (find_app d (bc_app c))"
  let ?md = "[(''duration_ms'', JInt (bf_duration f)), (''issues'', JArr (map issue_dict (bf_issues f)))]"
  let ?run = "fail_build (sv_loads sv) (sv_fails_at sv) d (bc_job c) (sv_worker sv) (bc_attempt c) (take 4000 (failure_json f)) ?url ?md (bf_retryable f)"
  show thesis
  proof (cases ?run)
    case (Inl e)
    then have "service_fail sv c f d = (Inl (sv_error_text sv e), d)" unfolding service_fail_def by (simp only: sum.case)
    then show thesis by (rule that(1))
  next
    case (Inr r)
    obtain q d' where r: "r = (q, d')" by (cases r)
    with Inr have "service_fail sv c f d = (Inr (), d')" unfolding service_fail_def by (simp only: sum.case prod.case)
    with Inr r show thesis by (intro that(2)) simp_all
  qed
qed

lemma service_complete_cases:
  obtains e where "service_complete sv c out d = (Inl e, d)"
  | url rv d' where "app_base_url sv d c = Inr url"
      "complete_build (sv_sha sv) (sv_completes_at sv) (sv_ticket sv) d (bc_job c) (sv_worker sv) (bc_attempt c) (build_output_of url out) = Inr (rv, d')"
      "service_complete sv c out d = (Inr (), d')"
proof (cases "app_base_url sv d c")
  case (Inr url)
  then show ?thesis using that
    by (cases "complete_build (sv_sha sv) (sv_completes_at sv) (sv_ticket sv) d (bc_job c) (sv_worker sv) (bc_attempt c) (build_output_of url out)")
      (auto simp: service_complete_def)
qed (use that in \<open>auto simp: service_complete_def\<close>)

interpretation service: settling_hooks "service_complete sv" "service_fail sv" "claim_held sv" jobs_have_apps for sv
proof (unfold_locales, goal_cases)
  case (1 s c out u s')
  show ?case
  proof (rule service_complete_cases [of sv c out s])
    fix url rv d'
    assume c: "complete_build (sv_sha sv) (sv_completes_at sv) (sv_ticket sv) s (bc_job c) (sv_worker sv) (bc_attempt c) (build_output_of url out) = Inr (rv, d')"
      and e: "service_complete sv c out s = (Inr (), d')"
    from complete_build_jobs [OF c] obtain j j1 where "claimed_job s (bc_job c) (sv_worker sv) (bc_attempt c) = Inr j" "jb_id j1 = jb_id j"
      "jb_status j1 \<noteq> Claimed" "db_jobs d' = db_jobs (set_job j1 s)" by auto
    from claim_ends [OF _ this] 1 e show ?thesis by (simp add: claim_held_def jobs_have_apps_def)
  qed (use 1 in simp)
next
  case (2 c out s e s')
  show ?case by (rule service_complete_cases [of sv c out s]) (use 2 in simp_all)
next
  case (3 s c f)
  from service_fail_total [OF 3(2,1), of f] obtain j err url md d' where
    r: "fail_build (sv_loads sv) (sv_fails_at sv) s (bc_job c) (sv_worker sv) (bc_attempt c) err url md (bf_retryable f) = Inr (j, d')"
      "service_fail sv c f s = (Inr (), d')" by blast
  from r(1) obtain q where "claimed_job s (bc_job c) (sv_worker sv) (bc_attempt c) = Inr q" "jb_id j = jb_id q" "jb_status j \<noteq> Claimed"
    "db_jobs d' = db_jobs (set_job j s)" by (rule fail_build_Inr) auto
  from claim_ends [OF _ this] 3(1) r(2) show ?case by (simp add: claim_held_def jobs_have_apps_def)
next
  case (4 s c out)
  then have "claimed_job s (bc_job c) (sv_worker sv) (bc_attempt c) = Inl CodeAppConflict" by (simp add: claim_held_def claimed_job_stale)
  then show ?case by (cases "app_base_url sv s c") (simp_all add: service_complete_def complete_build_def)
next
  case (5 s c f)
  then have "claimed_job s (bc_job c) (sv_worker sv) (bc_attempt c) = Inl CodeAppConflict" by (simp add: claim_held_def claimed_job_stale)
  then show ?case by (simp add: service_fail_def fail_build_def)
qed

section \<open>What a turn of the worker does\<close>

lemma hooks_simps: "service_hooks sv = \<lparr>hk_claim = service_claim sv, hk_complete = service_complete sv, hk_fail = service_fail sv\<rparr>"
  by (simp add: service_hooks_def)

lemma settle_outcomes:
  assumes "claim_held sv d c" "jobs_have_apps d" "d' = settle_build (service_hooks sv) t ms c outcome d"
  shows "(\<exists>out url rv. outcome = Inr out \<and> complete_build (sv_sha sv) (sv_completes_at sv) (sv_ticket sv) d (bc_job c) (sv_worker sv)
      (bc_attempt c) (build_output_of url out) = Inr (rv, d')) \<or>
    (\<exists>j err url md retryable. fail_build (sv_loads sv) (sv_fails_at sv) d (bc_job c) (sv_worker sv) (bc_attempt c) err url md retryable = Inr (j, d'))"
proof -
  have fails: ?thesis if d': "d' = snd (service_fail sv c f d)" for f
    using service_fail_total [OF assms(1,2), of f] that by auto
  show ?thesis
  proof (cases outcome)
    case (Inl e)
    show ?thesis by (rule fails) (use assms(3) Inl in \<open>simp add: settle_build_def fail_build_safely_def hooks_simps\<close>)
  next
    case (Inr out)
    show ?thesis
    proof (rule service_complete_cases [of sv c out d])
      fix e assume e: "service_complete sv c out d = (Inl e, d)"
      show ?thesis by (rule fails) (use assms(3) Inr e in \<open>simp add: settle_build_def fail_build_safely_def hooks_simps\<close>)
    next
      fix url rv d1
      assume c: "complete_build (sv_sha sv) (sv_completes_at sv) (sv_ticket sv) d (bc_job c) (sv_worker sv) (bc_attempt c) (build_output_of url out) = Inr (rv, d1)"
        and e: "service_complete sv c out d = (Inr (), d1)"
      have "d' = d1" using assms(3) Inr e by (simp add: settle_build_def hooks_simps)
      with c Inr show ?thesis by blast
    qed
  qed
qed

text \<open>C12. 
  Whatever a build ends with, settling it releases the claim: the job has succeeded, has failed for good, or
  waits for another of its attempts. It can have succeeded only when the pipeline delivered an artifact.
\<close>

theorem settled_build_is_released:
  assumes "claim_held sv d c" "jobs_have_apps d"
  shows "let d' = settle_build (service_hooks sv) t ms c outcome d in
    \<not> claim_held sv d' c \<and>
    (\<exists>j\<in>set (db_jobs d'). jb_id j = bc_job c \<and> jb_attempts j = bc_attempt c \<and>
       ((jb_status j = Succeeded \<and> \<not> isl outcome) \<or> jb_status j = Failed \<or> (jb_status j = Queued \<and> bc_attempt c < MAX_BUILD_ATTEMPTS)))"
proof -
  let ?d = "settle_build (service_hooks sv) t ms c outcome d"
  have ends: "\<not> claim_held sv ?d c" using service.settle_ends [OF assms(2,1)] by (simp add: hooks_simps)
  have "\<exists>j q. claimed_job d (bc_job c) (sv_worker sv) (bc_attempt c) = Inr q \<and> jb_id j = jb_id q \<and> jb_attempts j = jb_attempts q \<and>
      db_jobs ?d = db_jobs (set_job j d) \<and> ((jb_status j = Succeeded \<and> \<not> isl outcome) \<or> jb_status j = Failed \<or>
      (jb_status j = Queued \<and> jb_attempts q < MAX_BUILD_ATTEMPTS))"
    using settle_outcomes [OF assms refl, where t = t and ms = ms and outcome = outcome]
  proof (elim disjE exE conjE)
    fix out url rv
    assume o: "outcome = Inr out" and c: "complete_build (sv_sha sv) (sv_completes_at sv) (sv_ticket sv) d (bc_job c) (sv_worker sv)
        (bc_attempt c) (build_output_of url out) = Inr (rv, ?d)"
    from complete_build_jobs [OF c] o show ?thesis by fastforce
  next
    fix j err url md retryable
    assume "fail_build (sv_loads sv) (sv_fails_at sv) d (bc_job c) (sv_worker sv) (bc_attempt c) err url md retryable = Inr (j, ?d)"
    then show ?thesis by (rule fail_build_Inr) blast
  qed
  then obtain j q where q: "claimed_job d (bc_job c) (sv_worker sv) (bc_attempt c) = Inr q" "jb_id j = jb_id q" "jb_attempts j = jb_attempts q"
      "db_jobs ?d = db_jobs (set_job j d)"
    and st: "(jb_status j = Succeeded \<and> \<not> isl outcome) \<or> jb_status j = Failed \<or> (jb_status j = Queued \<and> jb_attempts q < MAX_BUILD_ATTEMPTS)"
    by blast
  from claimed_jobD [OF q(1)] q(2-4) have "j \<in> set (db_jobs ?d)" "jb_id j = bc_job c" "jb_attempts j = bc_attempt c" "jb_attempts q = bc_attempt c"
    by (auto simp: in_set_upd_where)
  with st ends show ?thesis unfolding Let_def by metis
qed

text \<open>A worker whose lease was taken over settles nothing: whatever its build ended with, the store stays as it is.\<close>

theorem superseded_worker_changes_nothing:
  "\<not> claim_held sv d c \<Longrightarrow> settle_build (service_hooks sv) t ms c outcome d = d"
  using service.settle_fenced by (simp add: hooks_simps)

lemma step_run: "app_step sha d c d' \<Longrightarrow> app_run sha d (case c of None \<Rightarrow> [] | Some i \<Rightarrow> [i]) d'"
  using ar_step [OF ar_none] by fastforce

lemma settle_run:
  "app_run (sv_sha sv) d [] (settle_build (service_hooks sv) t ms c outcome d)"
proof -
  have fail: "app_run (sv_sha sv) d [] (snd (service_fail sv c f d))" for f
    by (rule service_fail_cases [of sv c f d]) (use step_run [OF as_fail] ar_none in fastforce)+
  show ?thesis
  proof (cases outcome)
    case (Inl e)
    then show ?thesis using fail by (simp add: settle_build_def fail_build_safely_def hooks_simps)
  next
    case (Inr out)
    show ?thesis
    proof (rule service_complete_cases [of sv c out d])
      fix e assume "service_complete sv c out d = (Inl e, d)"
      then show ?thesis using fail Inr by (simp add: settle_build_def fail_build_safely_def hooks_simps)
    next
      fix url rv d1
      assume c: "complete_build (sv_sha sv) (sv_completes_at sv) (sv_ticket sv) d (bc_job c) (sv_worker sv) (bc_attempt c) (build_output_of url out) = Inr (rv, d1)"
        and e: "service_complete sv c out d = (Inr (), d1)"
      from step_run [OF as_complete [OF c]] e Inr show ?thesis by (simp add: settle_build_def hooks_simps)
    qed
  qed
qed

lemma run_append:
  "app_run sha d2 bs d3 \<Longrightarrow> app_run sha d1 as d2 \<Longrightarrow> app_run sha d1 (as @ bs) d3"
proof (induction rule: app_run.induct)
  case (ar_step d claims d2 c d3)
  then show ?case using app_run.ar_step [of sha d1 "as @ claims" d2 c d3] by simp
qed simp

text \<open>C13. A turn of the worker is a run of the app operations, with one claim at most, so what holds of every run holds
  of the worker.\<close>

theorem worker_turn_is_a_run:
  assumes "process_next_build env (service_hooks sv) d w = (res, d', w')"
  shows "\<exists>claims. app_run (sv_sha sv) d claims d' \<and> length claims = (if res = Inr True then 1 else 0)"
proof (cases "claim_next_build (sv_claims_at sv) d (sv_worker sv) (sv_lease sv)")
  case (Inl e)
  then have "d' = d" "res \<noteq> Inr True" using assms by (auto simp: process_next_build_def hooks_simps service_claim_def)
  then show ?thesis using ar_none by fastforce
next
  case (Inr r)
  obtain q d1 where r: "r = (q, d1)" by (cases r)
  from step_run [OF as_claim [OF Inr [unfolded r]]] have run: "app_run (sv_sha sv) d (case map_option cl_job q of None \<Rightarrow> [] | Some i \<Rightarrow> [i]) d1" .
  show ?thesis
  proof (cases q)
    case None
    then have "d' = d1" "res = Inr False" using assms Inr r by (auto simp: process_next_build_def hooks_simps service_claim_def)
    then show ?thesis using run None by auto
  next
    case (Some cl)
    let ?c = "\<lparr>bc_job = cl_job cl, bc_app = cl_app cl, bc_base = cl_base cl, bc_blueprint = blueprint_of_request (cl_request cl), bc_attempt = cl_attempt cl\<rparr>"
    obtain outcome w1 where b: "build env ?c w = (outcome, w1)" by (metis surj_pair)
    have "d' = settle_build (service_hooks sv) (en_timeout env) (tm_duration (en_timing env w1)) ?c outcome d1" "res = Inr True"
      using assms Inr r Some b by (auto simp: process_next_build_def hooks_simps service_claim_def)
    with run_append [OF settle_run run] Some show ?thesis by fastforce
  qed
qed

section \<open>The pipeline and the promotion gate\<close>

text \<open>What the compiler and the two browsers answer for: a sealed script, and a report of both browsers.\<close>

definition sealed :: "'w env \<Rightarrow> app_bundle \<Rightarrow> bool" where
  "sealed env b \<longleftrightarrow> bu_format b = ''iife'' \<and> py_strip (bu_javascript b) \<noteq> [] \<and> bu_sdk b = DOT_APP_SDK_VERSION \<and>
     bu_sha b = en_sha env (bu_javascript b @ [CHR 0x00] @ bu_css b)"

definition both_browsers :: "obj \<Rightarrow> bool" where
  "both_browsers r \<longleftrightarrow> (case get_or_null r ''real_browser'' of JObj browser \<Rightarrow> get_or_null browser ''ready'' = JBool True | _ \<Rightarrow> False)"

lemma source_map_keys: "fst ` set (foldl (\<lambda>m f. AList.update (sf_path f) (JStr (sf_contents f)) m) m fs) = fst ` set m \<union> sf_path ` set fs"
  by (induction fs arbitrary: m) (auto simp: dom_update)

lemma source_map_empty: "source_map fs = [] \<longleftrightarrow> fs = []"
  using source_map_keys [of "[]" fs] by (cases fs) (auto simp: source_map_def)

lemma map_of_filter_other: "k \<noteq> x \<Longrightarrow> map_of (filter (\<lambda>kv. fst kv \<noteq> x) ob) k = map_of ob k"
  by (induction ob) auto

lemma packaged_tests:
  assumes "smoke_ready r" "both_browsers r"
  shows "\<forall>stage\<in>set [''policy'', ''typescript_compile'', ''browser_smoke'']. stage_passed (test_results b r) stage"
    "real_browser_ready (test_results b r)"
  using assms by (auto simp: stage_passed_def real_browser_ready_def test_results_def get_or_null_def both_browsers_def update_conv' map_of_filter_other)

lemma lock_size: "json_size (JObj DOT_APP_DEPENDENCY_LOCK) \<le> 64000"
  by code_simp

text \<open>
  Given what the compiler and the browsers answer for, two of the gate's checks decide on a completed build: that of its manifest,
  and that of its test results with the metrics the hook adds. The other checks always pass.
\<close>

lemma completed_build_gate:
  assumes "build env claim w = (Inr done, w')" "en_require_smoke env" "\<forall>s. is_sha256_hex (en_sha env s)"
    "\<forall>src v b v'. en_compile env src v = (Done b, v') \<longrightarrow> sealed env b"
    "\<forall>b plan shot v r written v'. en_smoke env b plan shot v = ((Done r, written), v') \<longrightarrow> both_browsers r"
  shows "check_build_output (en_sha env) (build_output_of url done) =
    bindR (validate_manifest (JObj (ar_manifest (co_artifact done)))) (\<lambda>_. require_json_size (JObj (completion_tests done)) 128000)"
proof -
  obtain bp at report b a where
    r: "verified env bp (at_source at) (Some b) report" "package env bp (at_source at) b report = Inr a"
      "done = \<lparr>co_claim = claim, co_artifact = a, co_metrics = build_metrics env at a w'\<rparr>"
    using build_Inr [OF assms(1)] by (elim exE conjE)
  obtain smoke where k: "smoke = (case report of None \<Rightarrow> [] | Some r \<Rightarrow> r)" "a = packaged env bp (at_source at) b smoke"
    "smoke_ready smoke" "py_strip (static_html_of b smoke) \<noteq> []" "json_size (JObj (artifact_dict a)) \<le> MAX_PACKAGED_BYTES"
    using package_Inr [OF r(2)] assms(2) by blast
  have ready: "report = Some smoke" using k(1,3) by (cases report) (auto simp: smoke_ready_def get_or_null_def)
  have "smoke \<noteq> skipped_smoke" using k(3) by (auto simp: smoke_ready_def skipped_smoke_def get_or_null_def)
  with r(1) ready have c: "inspect_generated_source (en_lint env) (at_source at) = []"
    "\<exists>v v'. en_compile env (at_source at) v = (Done b, v')"
    "\<exists>plan shot v written v'. en_smoke env b plan shot v = ((Done smoke, written), v')"
    by (simp_all add: verified_def) blast
  from c(2) assms(4) have sealed: "sealed env b" by blast
  from c(3) assms(5) have "both_browsers smoke" by blast
  note v = sealed this c(1)
  have files: "ar_files a \<noteq> []"
  proof -
    have "gs_files (at_source at) \<noteq> []" using v(3) by (auto simp: inspect_generated_source_def Let_def)
    then have "mset (ar_files a) \<noteq> {#}" unfolding k(2) packaged_def Let_def by simp
    then show ?thesis by auto
  qed
  have tests: "ar_tests a = test_results b smoke" "ar_bundle a = b\<lparr>bu_html := static_html_of b smoke\<rparr>"
    unfolding k(2) by (simp_all add: packaged_def Let_def)
  let ?dict = "artifact_dict a"
  have gets: "get_or_null ?dict ''browser_bundle'' = JObj (bundle_dict (ar_bundle a))" "get_or_null ?dict ''sdk_version'' = JStr DOT_APP_SDK_VERSION"
    "get_or_null ?dict ''test_results'' = JObj (ar_tests a)"
    by (simp_all add: artifact_dict_def get_or_null_def)
  have bd: "get_or_null (bundle_dict (ar_bundle a)) ''format'' = JStr ''iife''"
    "get_or_null (bundle_dict (ar_bundle a)) ''javascript'' = JStr (bu_javascript b)" "get_or_null (bundle_dict (ar_bundle a)) ''css'' = JStr (bu_css b)"
    "get_or_null (bundle_dict (ar_bundle a)) ''sha256'' = JStr (en_sha env (bu_javascript b @ [CHR 0x00] @ bu_css b))"
    "get_or_null (bundle_dict (ar_bundle a)) ''static_html'' = JStr (static_html_of b smoke)"
    "get_or_null (bundle_dict (ar_bundle a)) ''sdk_version'' = JStr DOT_APP_SDK_VERSION"
    using v(1) by (simp_all add: bundle_dict_def get_or_null_def tests(2) sealed_def)
  have gate: "validate_promotable_compiled_artifact (en_sha env) (Some ?dict) DOT_APP_SDK_VERSION = Inr ()"
    unfolding validate_promotable_compiled_artifact_def some_or_def option.case bindR_simps gets as_object.simps Let_def bd
    using v(1) k(4) assms(3) packaged_tests [OF k(3) v(2), of b]
    by (simp add: tests(1) sealed_def bundle_digest_def)
  have "require_json_size (JObj ?dict) MAX_BUILD_ARTIFACT_BYTES = Inr ()" "require_json_size (JObj DOT_APP_DEPENDENCY_LOCK) 64000 = Inr ()"
    using k(5) lock_size by (simp_all add: require_json_size_def MAX_BUILD_ARTIFACT_BYTES_def MAX_PACKAGED_BYTES_def)
  moreover have "source_map (ar_files a) \<noteq> []" "is_sha256_hex (ar_content_hash a)"
    using files assms(3) unfolding k(2) packaged_def Let_def by (simp_all add: source_map_empty content_hash_def)
  ultimately show ?thesis
    using gate unfolding check_build_output_def build_output_of_def Let_def build_output.simps or_empty_def option.case r(3) completion.simps
    by (cases "validate_manifest (JObj (ar_manifest a))"; cases "require_json_size (JObj (completion_tests (completion.make claim a (build_metrics env at a w')))) 128000")
      (simp_all add: completion.defs)
qed

section \<open>An example\<close>

text \<open>The worker of \<open>reclaimed_app_db\<close>'s second build, timed out.\<close>

definition sample_service :: service where
  "sample_service = \<lparr>sv_sha = zero_sha, sv_worker = ''w'', sv_lease = 60, sv_public_url = ''https://dot'', sv_ticket = ''tok3'',
     sv_loads = (\<lambda>_. None), sv_error_text = (\<lambda>_. ''refused''), sv_claims_at = 5, sv_completes_at = 6, sv_fails_at = 6\<rparr>"

definition second_claim :: "int \<Rightarrow> build_claim" where
  "second_claim n = \<lparr>bc_job = 106, bc_app = 100, bc_base = Some 104, bc_blueprint = list_request, bc_attempt = n\<rparr>"

lemma second_held: "claim_held sample_service reclaimed_app_db (second_claim 1)" "\<not> claim_held sample_service reclaimed_app_db (second_claim 2)"
  by code_simp+

lemma reclaimed_jobs: "jobs_have_apps reclaimed_app_db"
proof -
  have "app_run zero_sha start_db [102, 106] reclaimed_app_db"
  proof -
    obtain app job ticket where "create_code_app_build zero_sha 1 ''pub'' ''tok'' start_db sample_args = Inr (app, job, ticket, created_app_db)"
      using created_app_run by blast
    from ar_step [OF ar_none as_create [OF this]] have "app_run zero_sha start_db [] created_app_db" by simp
    from ar_step [OF this as_claim [OF claimed_app_run]] have "app_run zero_sha start_db [102] claimed_app_db" by simp
    from ar_step [OF this as_complete [OF built_app_run]] have b: "app_run zero_sha start_db [102] built_app_db" by simp
    obtain j where "queue_code_app_revision zero_sha 4 built_app_db 1 100 (JObj [(''purpose'', JStr ''chores'')]) None None (Some ''r1'') None =
        Inr (j, queued_app_db)" using queued_app_run by blast
    from ar_step [OF b as_queue [OF this]] have "app_run zero_sha start_db [102] queued_app_db" by simp
    from ar_step [OF this as_claim [OF reclaimed_app_run]] show ?thesis by simp
  qed
  from app_run_ok [OF this start_ok] have "jobs_ok reclaimed_app_db" by (simp add: apps_ok_def)
  moreover have "\<forall>j\<in>set (db_jobs reclaimed_app_db). find_app reclaimed_app_db (jb_app j) \<noteq> None" by code_simp
  ultimately show ?thesis by (simp add: jobs_have_apps_def)
qed

theorem settled_build_is_released_witness:
  "\<not> claim_held sample_service (settle_build (service_hooks sample_service) ''420'' 9 (second_claim 1) (Inl TimedOut) reclaimed_app_db) (second_claim 1)"
  using settled_build_is_released [OF second_held(1) reclaimed_jobs, of "''420''" 9 "Inl TimedOut"] by (simp add: Let_def)

theorem superseded_worker_changes_nothing_witness:
  "settle_build (service_hooks sample_service) ''420'' 9 (second_claim 2) (Inl TimedOut) reclaimed_app_db = reclaimed_app_db"
  by (rule superseded_worker_changes_nothing [OF second_held(2)])

theorem worker_turn_is_a_run_witness:
  "\<exists>claims. app_run zero_sha queued_app_db claims (fst (snd (process_next_build pipe_env (service_hooks sample_service) queued_app_db 0)))"
  using worker_turn_is_a_run [of pipe_env sample_service queued_app_db 0] by (metis prod.collapse sample_service_def service.simps(1))

end
