(* ===== verification/App_Harness.thy ===== *)
theory App_Harness
  imports Build_Worker
begin

text \<open>
  The adapters between the pipeline and the programs it runs: the compiler (\<open>compiler/esbuild.py\<close>), the two
  browsers (\<open>browser_smoke.py\<close>), the source normaliser (\<open>compiler/source_normalizer.py\<close>), the design review
  (\<open>visual_review.py\<close>) and the reply of the model (\<open>providers.py\<close>). The programs themselves are what a process
  answers; \<open>json.loads\<close> is a parameter, \<open>None\<close> where it raises.
\<close>

section \<open>Processes\<close>

text \<open>A process that cannot start, one the adapter's own deadline kills, one the worker's deadline cancels, or its
  return code and what it wrote.\<close>

datatype process = NotStarted | Overdue | Cancelled | Exited int string string

type_synonym loads = "string \<Rightarrow> json option"

definition byte_length :: "string \<Rightarrow> int" where
  "byte_length s = int (length s)"

definition runtime_error :: "string \<Rightarrow> build_exn" where
  "runtime_error m = Raised (''RuntimeError: '' @ m)"

definition only_issue :: "string \<Rightarrow> string \<Rightarrow> 'a outcome" where
  "only_issue code m = Found [\<lparr>is_code = code, is_message = m, is_path = None\<rparr>]"

definition stderr_or :: "string \<Rightarrow> string \<Rightarrow> string" where
  "stderr_or err m = (let detail = take 600 (py_strip err) in if detail = [] then m else detail)"

text \<open>\<open>_issues\<close> and \<open>_response_issues\<close>: the first items of the list that have a code and a message, cut to size.\<close>

definition issue_of :: "bool \<Rightarrow> json \<Rightarrow> issue list" where
  "issue_of with_path item =
     (case item of
        JObj ob \<Rightarrow>
          (case (get_or_null ob ''code'', get_or_null ob ''message'') of
             (JStr code, JStr m) \<Rightarrow>
               [\<lparr>is_code = take 80 code, is_message = take 800 m,
                 is_path = (case get_or_null ob ''path'' of JStr p \<Rightarrow> if with_path then Some (take 240 p) else None | _ \<Rightarrow> None)\<rparr>]
           | _ \<Rightarrow> [])
      | _ \<Rightarrow> [])"

definition response_issues :: "bool \<Rightarrow> nat \<Rightarrow> obj \<Rightarrow> issue list" where
  "response_issues with_path n response =
     (case get_or_null response ''issues'' of JArr raw \<Rightarrow> concat (map (issue_of with_path) (take n raw)) | _ \<Rightarrow> [])"

definition decode_object :: "string \<Rightarrow> string \<Rightarrow> loads \<Rightarrow> string \<Rightarrow> build_exn + obj" where
  "decode_object malformed no_object loads out =
     (case loads out of
        None \<Rightarrow> Inl (runtime_error malformed)
      | Some (JObj ob) \<Rightarrow> Inr ob
      | Some _ \<Rightarrow> Inl (runtime_error no_object))"

definition decode_browser :: "loads \<Rightarrow> string \<Rightarrow> build_exn + obj" where
  "decode_browser = decode_object ''Dot app browser harness returned malformed output'' ''Dot app browser response must be an object''"

definition outcome_of :: "build_exn + 'a outcome \<Rightarrow> 'a outcome" where
  "outcome_of r = (case r of Inl e \<Rightarrow> Crashed e | Inr x \<Rightarrow> x)"

section \<open>The browsers\<close>

definition refused :: "int \<Rightarrow> obj \<Rightarrow> bool" where
  "refused code response \<longleftrightarrow> code \<noteq> 0 \<or> \<not> truthy (get_or_null response ''ok'')"

fun ready_result :: "json \<Rightarrow> obj option" where
  "ready_result (JObj r) = (if get_or_null r ''ready'' = JBool True then Some r else None)"
| "ready_result _ = None"

definition usable_html :: "obj \<Rightarrow> obj outcome" where
  "usable_html r =
     (case get_or_null r ''static_html'' of
        JStr html \<Rightarrow>
          if py_strip html = [] then only_issue ''missing_static_render'' ''app did not produce usable isolated HTML''
          else if MAX_STATIC_HTML_BYTES < utf8_size html then only_issue ''static_render_too_large'' ''isolated app HTML exceeds 256 KB''
          else Done r
      | _ \<Rightarrow> only_issue ''missing_static_render'' ''app did not produce usable isolated HTML'')"

text \<open>\<open>timeout\<close> is the runner's own limit, printed.\<close>

fun quickjs_answer :: "loads \<Rightarrow> string \<Rightarrow> process \<Rightarrow> obj outcome" where
  "quickjs_answer loads timeout NotStarted = Crashed (runtime_error ''Dot app QuickJS smoke harness is unavailable'')"
| "quickjs_answer loads timeout Overdue =
     only_issue ''browser_smoke_timeout'' (''app did not become ready within '' @ timeout @ '' seconds'')"
| "quickjs_answer loads timeout Cancelled = Crashed TimedOut"
| "quickjs_answer loads timeout (Exited code out err) =
     (if 1600000 < byte_length out then only_issue ''browser_smoke_output_too_large'' ''browser output was too large''
      else if out = [] then Crashed (runtime_error (stderr_or err ''Dot app QuickJS harness returned no output''))
      else outcome_of (bindR (decode_browser loads out) (\<lambda>response. Inr (
        if refused code response
        then (case response_issues False 20 response of
                [] \<Rightarrow> only_issue ''browser_smoke_failed'' (stderr_or err ''app did not complete its browser smoke test'')
              | issues \<Rightarrow> Found issues)
        else case ready_result (get_or_null response ''result'') of
          None \<Rightarrow> Crashed (runtime_error ''Dot app QuickJS smoke harness returned an invalid result'')
        | Some r \<Rightarrow> usable_html r))))"

fun chromium_answer :: "loads \<Rightarrow> string \<Rightarrow> process \<Rightarrow> obj outcome" where
  "chromium_answer loads timeout NotStarted = Crashed (runtime_error ''Dot app real Chromium harness is unavailable'')"
| "chromium_answer loads timeout Overdue =
     only_issue ''real_browser_timeout'' (''real browser acceptance exceeded '' @ timeout @ '' seconds'')"
| "chromium_answer loads timeout Cancelled = Crashed TimedOut"
| "chromium_answer loads timeout (Exited code out err) =
     (if 512000 < byte_length out then only_issue ''real_browser_output_too_large'' ''real browser acceptance output exceeded 512 KB''
      else if out = [] then Crashed (runtime_error (stderr_or err ''Dot app Chromium harness returned no output''))
      else outcome_of (bindR (decode_browser loads out) (\<lambda>response. Inr (
        if refused code response
        then (case response_issues False 20 response of
                [] \<Rightarrow> only_issue ''real_browser_runtime_error'' (stderr_or err ''app did not complete real browser acceptance'')
              | i # issues \<Rightarrow>
                  if \<exists>j\<in>set (i # issues). is_code j \<in> {''real_browser_unavailable'', ''real_browser_invalid_input''}
                  then Crashed (runtime_error (is_message i)) else Found (i # issues))
        else case ready_result (get_or_null response ''result'') of
          None \<Rightarrow> Crashed (runtime_error ''Dot app Chromium harness returned an invalid result'')
        | Some r \<Rightarrow> Done r))))"

record 'w browsers =
  br_available :: bool
  br_timeout_ms :: int
  br_timeout :: string
  br_chromium_available :: bool
  br_chromium_timeout_ms :: int
  br_chromium_timeout :: string
  br_loads :: loads
  br_quickjs :: "obj \<Rightarrow> 'w \<Rightarrow> process \<times> 'w"
  br_chromium :: "obj \<Rightarrow> 'w \<Rightarrow> (process \<times> string option) \<times> 'w"

definition quickjs_smoke :: "'w browsers \<Rightarrow> app_bundle \<Rightarrow> 'w \<Rightarrow> obj outcome \<times> 'w" where
  "quickjs_smoke br b w =
     (let request = [(''protocol_version'', JInt 1), (''timeout_ms'', JInt (max 1000 (br_timeout_ms br))),
            (''bundle'', JObj (bundle_dict b))] in
      if \<not> br_available br then (Crashed (runtime_error ''Dot app QuickJS smoke runtime is unavailable''), w)
      else if 3600000 < json_size (JObj request)
      then (only_issue ''browser_smoke_input_too_large'' ''browser smoke input exceeds 3.6 MB'', w)
      else case br_quickjs br request w of (p, w1) \<Rightarrow> (quickjs_answer (br_loads br) (br_timeout br) p, w1))"

text \<open>The path of the screenshot is in the request when one is asked for; the program answers what it wrote there.\<close>

definition chromium_smoke :: "'w browsers \<Rightarrow> app_bundle \<Rightarrow> json list \<Rightarrow> string option \<Rightarrow> 'w \<Rightarrow> (obj outcome \<times> string option) \<times> 'w" where
  "chromium_smoke br b plan shot w =
     (let request = [(''protocol_version'', JInt 1), (''timeout_ms'', JInt (max 2000 (br_chromium_timeout_ms br))),
            (''acceptance_plan'', JArr plan), (''context'', JObj []), (''bundle'', JObj (bundle_dict b))] @
            (case shot of None \<Rightarrow> [] | Some path \<Rightarrow> [(''screenshot_path'', JStr path)]) in
      if \<not> br_chromium_available br
      then ((Crashed (runtime_error ''Dot app real Chromium acceptance runtime is unavailable''), None), w)
      else if 3600000 < json_size (JObj request)
      then ((only_issue ''real_browser_input_too_large'' ''real browser acceptance input exceeds 3.6 MB'', None), w)
      else case br_chromium br request w of
        ((p, written), w1) \<Rightarrow> ((chromium_answer (br_loads br) (br_chromium_timeout br) p, written), w1))"

definition merged_report :: "obj \<Rightarrow> obj \<Rightarrow> obj" where
  "merged_report quickjs chromium =
     AList.update ''real_browser'' (JObj chromium) (AList.update ''runtime'' (JStr ''quickjs-wasm+chromium'') quickjs)"

definition verified_smoke :: "'w browsers \<Rightarrow> string \<Rightarrow> app_bundle \<Rightarrow> json list \<Rightarrow> bool \<Rightarrow> 'w \<Rightarrow> (obj outcome \<times> string option) \<times> 'w" where
  "verified_smoke br path b plan shot w =
     (case quickjs_smoke br b w of
        (Done r, w1) \<Rightarrow>
          (case chromium_smoke br b plan (if shot then Some path else None) w1 of
             ((Done c, written), w2) \<Rightarrow> ((Done (merged_report r c), written), w2)
           | other \<Rightarrow> other)
      | (Found issues, w1) \<Rightarrow> ((Found issues, None), w1)
      | (Crashed e, w1) \<Rightarrow> ((Crashed e, None), w1))"

section \<open>The compiler\<close>

definition bundle_of :: "json \<Rightarrow> app_bundle outcome" where
  "bundle_of v =
     (case v of
        JObj ob \<Rightarrow>
          (case (get_or_null ob ''javascript'', get_or_null ob ''css'', get_or_null ob ''sha256'', get_default ob ''static_html'' (JStr [])) of
             (JStr javascript, JStr css, JStr digest, JStr html) \<Rightarrow>
               if get_or_null ob ''format'' \<noteq> JStr ''iife'' \<or> length digest \<noteq> 64
               then Crashed (runtime_error ''Dot app compiler returned an invalid browser bundle'')
               else Done \<lparr>bu_format = ''iife'', bu_javascript = javascript, bu_css = css, bu_sha = digest,
                      bu_sdk = py_str (get_default ob ''sdk_version'' (JStr ''2'')), bu_html = html,
                      bu_compiler = [(''name'', JStr (py_str (get_default ob ''compiler'' (JStr ''esbuild'')))),
                        (''version'', JStr (py_str (get_default ob ''compiler_version'' (JStr ''unknown''))))]\<rparr>
           | _ \<Rightarrow> Crashed (runtime_error ''Dot app compiler returned an invalid browser bundle''))
      | _ \<Rightarrow> Crashed (runtime_error ''Dot app compiler returned no browser bundle''))"

fun compiler_answer :: "loads \<Rightarrow> string \<Rightarrow> process \<Rightarrow> app_bundle outcome" where
  "compiler_answer loads timeout NotStarted = Crashed (runtime_error ''Dot app compiler runtime is unavailable'')"
| "compiler_answer loads timeout Overdue =
     only_issue ''compiler_timeout'' (''browser bundle compilation exceeded '' @ timeout @ '' seconds'')"
| "compiler_answer loads timeout Cancelled = Crashed TimedOut"
| "compiler_answer loads timeout (Exited code out err) =
     (if 3500000 < byte_length out
      then only_issue ''browser_bundle_too_large'' ''compiled browser bundle exceeds the 3.5 MB compiler envelope''
      else outcome_of (bindR
        (if out = [] then Inr []
         else decode_object ''Dot app compiler returned malformed output'' ''Dot app compiler response must be an object'' loads out) (\<lambda>result. Inr (
        if refused code result
        then (case response_issues True 25 result of
                [] \<Rightarrow> only_issue ''compiler_failed'' (stderr_or err ''controlled browser compilation failed'')
              | issues \<Rightarrow> Found issues)
        else bundle_of (get_or_null result ''bundle'')))))"

definition esbuild_compile :: "loads \<Rightarrow> string \<Rightarrow> (obj \<Rightarrow> 'w \<Rightarrow> process \<times> 'w) \<Rightarrow> source \<Rightarrow> 'w \<Rightarrow> app_bundle outcome \<times> 'w" where
  "esbuild_compile loads timeout run src w =
     (case run [(''protocol_version'', JInt 1), (''entrypoint'', JStr (gs_entrypoint src)),
          (''files'', JArr (map file_dict (gs_files src)))] w of
        (p, w1) \<Rightarrow> (compiler_answer loads timeout p, w1))"

section \<open>The source normaliser\<close>

definition ends_with :: "string \<Rightarrow> string \<Rightarrow> bool" where
  "ends_with suffix s \<longleftrightarrow> length suffix \<le> length s \<and> drop (length s - length suffix) s = suffix"

fun same_shape :: "source_file list \<Rightarrow> json list \<Rightarrow> source_file list option" where
  "same_shape [] [] = Some []"
| "same_shape (f # fs) (JObj v # vs) =
     (case get_or_null v ''contents'' of
        JStr contents \<Rightarrow>
          if get_or_null v ''path'' \<noteq> JStr (sf_path f) then None
          else map_option (\<lambda>rest. \<lparr>sf_path = sf_path f, sf_contents = contents\<rparr> # rest) (same_shape fs vs)
      | _ \<Rightarrow> None)"
| "same_shape _ _ = None"

fun is_count :: "json \<Rightarrow> bool" where
  "is_count (JInt i) = (0 \<le> i)"
| "is_count _ = False"

definition normalizer_failure :: "json \<Rightarrow> string \<Rightarrow> build_exn" where
  "normalizer_failure result err =
     (let detail = (case get_or_null (dict_or_empty result) ''error'' of JStr s \<Rightarrow> s | _ \<Rightarrow> py_strip err) in
      runtime_error (''Dot app source normalization failed: '' @ take 500 detail))"

fun normalizer_answer :: "loads \<Rightarrow> source_file list \<Rightarrow> process \<Rightarrow> build_exn + (source_file list \<times> obj)" where
  "normalizer_answer loads files NotStarted = Inl (runtime_error ''Dot app source normalizer is unavailable'')"
| "normalizer_answer loads files Overdue = Inl (runtime_error ''Dot app source normalization timed out'')"
| "normalizer_answer loads files Cancelled = Inl TimedOut"
| "normalizer_answer loads files (Exited code out err) =
     (if 1500000 < byte_length out then Inl (runtime_error ''Dot app source normalizer returned too much data'')
      else case loads out of
        None \<Rightarrow> Inl (runtime_error ''Dot app source normalizer returned malformed output'')
      | Some result \<Rightarrow>
          if code \<noteq> 0 \<or> \<not> is_dict result \<or> get_or_null (dict_or_empty result) ''ok'' \<noteq> JBool True
          then Inl (normalizer_failure result err)
          else case get_or_null (dict_or_empty result) ''files'' of
            JArr raw \<Rightarrow>
              if length raw \<noteq> length files then Inl (runtime_error ''Dot app source normalizer returned an invalid source tree'')
              else (case same_shape files raw of
                      None \<Rightarrow> Inl (runtime_error ''Dot app source normalizer changed the source tree shape'')
                    | Some normalized \<Rightarrow>
                        Inr (normalized, filter (\<lambda>kv. is_count (snd kv)) (dict_or_empty (get_default (dict_or_empty result) ''counts'' (JObj [])))))
          | _ \<Rightarrow> Inl (runtime_error ''Dot app source normalizer returned an invalid source tree''))"

definition normalize_generated_source :: "loads \<Rightarrow> (obj \<Rightarrow> 'w \<Rightarrow> process \<times> 'w) \<Rightarrow> source_file list \<Rightarrow> ('w, source_file list \<times> obj) act" where
  "normalize_generated_source loads run files w =
     (if \<not> (\<exists>f\<in>set files. ends_with ''.ts'' (sf_path f) \<or> ends_with ''.tsx'' (sf_path f)) then (Inr (files, []), w)
      else case run [(''files'', JArr (map file_dict files))] w of (p, w1) \<Rightarrow> (normalizer_answer loads files p, w1))"

section \<open>The reply of the model\<close>

text \<open>The three substitutions of the module, each with the number of its matches.\<close>

record css_rules =
  cs_import_rule :: "string \<Rightarrow> string \<times> int"
  cs_url_value :: "string \<Rightarrow> string \<times> int"
  cs_relative_import :: "string \<Rightarrow> string \<times> int"

record reply =
  rp_output :: string
  rp_model :: json
  rp_id :: json
  rp_usage :: "obj option"
  rp_latency :: int

text \<open>What was asked, for the metadata.\<close>

record request_info =
  ri_effort :: string
  ri_phase :: string
  ri_repair :: nat

definition remove_external_css_assets :: "css_rules \<Rightarrow> string \<Rightarrow> string \<times> int" where
  "remove_external_css_assets css contents =
     (case cs_import_rule css contents of (without_imports, imports) \<Rightarrow>
        case cs_url_value css without_imports of (cleaned, urls) \<Rightarrow> (cleaned, imports + urls))"

definition canonicalize_local_styles :: "css_rules \<Rightarrow> source_file list \<Rightarrow> source_file list \<times> int" where
  "canonicalize_local_styles css files =
     (let kept = filter (\<lambda>f. \<not> ends_with ''.css'' (sf_path f)) files in
      (map (\<lambda>f. \<lparr>sf_path = sf_path f, sf_contents = fst (cs_relative_import css (sf_contents f))\<rparr>) kept,
       sum_list (map (\<lambda>f. snd (cs_relative_import css (sf_contents f))) kept) +
       int (length (filter (\<lambda>f. ends_with ''.css'' (sf_path f)) files))))"

fun reply_file :: "css_rules \<Rightarrow> json \<Rightarrow> build_exn + (source_file \<times> int)" where
  "reply_file css (JObj item) =
     (case (get_or_null item ''path'', get_or_null item ''contents'') of
        (JStr path, JStr contents) \<Rightarrow>
          (case (if ends_with ''.css'' path then remove_external_css_assets css contents else (contents, 0)) of
             (cleaned, removed) \<Rightarrow> Inr (\<lparr>sf_path = path, sf_contents = cleaned\<rparr>, removed))
      | _ \<Rightarrow> Inl (runtime_error ''OpenAI app builder returned an invalid source file''))"
| "reply_file css _ = Inl (runtime_error ''OpenAI app builder returned an invalid source file'')"

definition token_usage :: "obj option \<Rightarrow> obj" where
  "token_usage usage =
     (case usage of
        None \<Rightarrow> []
      | Some u \<Rightarrow> concat (map (\<lambda>k. case get_or_null u k of JInt i \<Rightarrow> [(k, JInt i)] | _ \<Rightarrow> [])
          [''input_tokens'', ''output_tokens'', ''total_tokens'']))"

definition reply_metadata :: "request_info \<Rightarrow> reply \<Rightarrow> int \<Rightarrow> obj \<Rightarrow> int \<Rightarrow> obj" where
  "reply_metadata ri rp removed counts canonicalized =
     (let fixed = [(''model'', rp_model rp), (''response_id'', rp_id rp), (''reasoning_effort'', JStr (ri_effort ri)),
            (''phase'', JStr (ri_phase ri)), (''repair_attempt'', JInt (int (ri_repair ri))), (''latency_ms'', JInt (rp_latency rp)),
            (''removed_external_css_assets'', JInt removed)];
          merged = AList.update ''canonicalized_css_imports'' (JInt canonicalized) (foldl (\<lambda>m kv. AList.update (fst kv) (snd kv) m) fixed counts);
          usage = token_usage (rp_usage rp)
      in if usage = [] then merged else AList.update ''token_usage'' (JObj usage) merged)"

definition reply_fields :: "loads \<Rightarrow> reply \<Rightarrow> build_exn + (json list \<times> string)" where
  "reply_fields loads rp =
     bindR (decode_object ''OpenAI app builder returned invalid JSON'' ''OpenAI app builder output must be an object'' loads (rp_output rp)) (\<lambda>data.
       case get_or_null data ''files'' of
         JArr files \<Rightarrow>
           if files = [] then Inl (runtime_error ''OpenAI app builder returned no source files'')
           else (case get_or_null data ''entrypoint'' of
                   JStr entrypoint \<Rightarrow> Inr (files, entrypoint)
                 | _ \<Rightarrow> Inl (runtime_error ''OpenAI app builder returned an invalid entrypoint''))
       | _ \<Rightarrow> Inl (runtime_error ''OpenAI app builder returned no source files''))"

text \<open>\<open>OpenAIAppSourceProvider._request\<close> after the call to the model.\<close>

definition openai_source :: "loads \<Rightarrow> css_rules \<Rightarrow> (obj \<Rightarrow> 'w \<Rightarrow> process \<times> 'w) \<Rightarrow> request_info \<Rightarrow> reply \<Rightarrow> ('w, source) act" where
  "openai_source loads css run ri rp =
     bindA (liftA (reply_fields loads rp)) (\<lambda>(items, entrypoint).
     bindA (liftA (mapR (reply_file css) items)) (\<lambda>parsed.
     bindA (normalize_generated_source loads run (map fst parsed)) (\<lambda>(normalized, counts).
       case canonicalize_local_styles css normalized of (files, canonicalized) \<Rightarrow>
         liftA (Inr \<lparr>gs_files = files, gs_entrypoint = entrypoint,
           gs_metadata = reply_metadata ri rp (sum_list (map snd parsed)) counts canonicalized\<rparr>))))"

section \<open>The design review\<close>

definition REVIEW_AXES :: "string list" where
  "REVIEW_AXES = [''hierarchy'', ''density'', ''alignment'', ''redundancy'', ''copy'']"

definition verdict_issues :: "json \<Rightarrow> issue list" where
  "verdict_issues v =
     (case v of
        JObj ob \<Rightarrow>
          if get_or_null ob ''passed'' = JBool True then []
          else (case (get_or_null ob ''axis'', get_or_null ob ''note'') of
                  (JStr axis, JStr remark) \<Rightarrow>
                    if axis \<in> set REVIEW_AXES \<and> py_strip remark \<noteq> []
                    then [\<lparr>is_code = ''visual_quality'', is_message = axis @ '': '' @ take 300 (py_strip remark), is_path = None\<rparr>] else []
                | _ \<Rightarrow> [])
      | _ \<Rightarrow> [])"

text \<open>\<open>None\<close> is a call that failed or a text that is no JSON. Without \<open>axes\<close> the candidate is accepted too; what cannot be
  iterated raises, which the pipeline takes for a failed review.\<close>

definition visual_review :: "json option \<Rightarrow> review" where
  "visual_review payload =
     (case payload of
        Some (JObj ob) \<Rightarrow>
          (case map_of ob ''axes'' of
             None \<Rightarrow> Reviewed []
           | Some axes \<Rightarrow> if not_iterable axes \<noteq> None then ReviewFailed
                          else Reviewed (case axes of JArr vs \<Rightarrow> concat (map verdict_issues vs) | _ \<Rightarrow> []))
      | _ \<Rightarrow> Reviewed [])"

section \<open>The local provider\<close>

definition local_lines :: "blueprint \<Rightarrow> string list" where
  "local_lines bp =
     [''import { AppShell, Button, Card, Progress, Stack, Text } from '' @ dquote @ ''@dot/ui'' @ dquote @ '';'',
      [], ''const app = {'',
      ''  title: '' @ quote_str (bp_title bp) @ '','',
      ''  description: '' @ quote_str (bp_description bp) @ '','',
      ''  purpose: '' @ quote_str (bp_purpose bp) @ '','',
      ''  accent: '' @ quote_str (bp_accent bp) @ '','',
      ''} as const;'', [], ''function App() {'', ''  return ('',
      ''    <AppShell title={app.title} description={app.description} accent={app.accent}>'',
      ''      <Stack gap='' @ dquote @ ''lg'' @ dquote @ ''>'', ''        <Card>'', ''          <Text>{app.purpose}</Text>'',
      ''          <Progress value={0} label='' @ dquote @ ''ready to begin'' @ dquote @ '' />'', ''        </Card>'',
      ''        <Button>ready when you are</Button>'', ''      </Stack>'', ''    </AppShell>'', ''  );'', ''}'', [],
      ''export default App;'', []]"

definition local_source :: "blueprint \<Rightarrow> bool \<Rightarrow> source" where
  "local_source bp repaired =
     \<lparr>gs_files = [\<lparr>sf_path = ''src/App.tsx'', sf_contents = join [newline] (local_lines bp)\<rparr>], gs_entrypoint = ''src/App.tsx'',
      gs_metadata = [(''deterministic'', JBool True), (''repaired'', JBool repaired), (''layout'', JStr (bp_layout bp))]\<rparr>"

section \<open>What the browsers report\<close>

lemma only_issue_not_Done [simp]: "only_issue c m \<noteq> Done r"
  by (simp add: only_issue_def)

lemma outcome_Done: "outcome_of r = Done x \<longleftrightarrow> r = Inr (Done x)"
  by (cases r) (auto simp: outcome_of_def)

lemma ready_result_Some: "ready_result v = Some r \<Longrightarrow> smoke_ready r"
  by (cases v rule: ready_result.cases) (auto simp: smoke_ready_def split: if_splits)

lemma usable_html_Done:
  "usable_html q = Done r \<Longrightarrow> q = r \<and> (\<exists>html. get_or_null r ''static_html'' = JStr html \<and> py_strip html \<noteq> [] \<and> utf8_size html \<le> MAX_STATIC_HTML_BYTES)"
  by (auto simp: usable_html_def split: json.splits if_splits)

definition page_of :: "obj \<Rightarrow> string \<Rightarrow> bool" where
  "page_of r html \<longleftrightarrow> get_or_null r ''static_html'' = JStr html \<and> py_strip html \<noteq> [] \<and> utf8_size html \<le> MAX_STATIC_HTML_BYTES"

lemma quickjs_Done:
  assumes "quickjs_answer loads t p = Done r"
  shows "smoke_ready r \<and> (\<exists>html. page_of r html)"
proof (cases p)
  case (Exited code out err)
  have "\<exists>response q. ready_result (get_or_null response ''result'') = Some q \<and> usable_html q = Done r"
    using assms unfolding Exited quickjs_answer.simps
    by (auto simp: outcome_Done bindR_Inr split: if_splits list.splits option.splits)
  with ready_result_Some usable_html_Done show ?thesis unfolding page_of_def by blast
qed (use assms in simp_all)

lemma chromium_Done:
  assumes "chromium_answer loads t p = Done r"
  shows "smoke_ready r"
proof (cases p)
  case (Exited code out err)
  have "\<exists>response. ready_result (get_or_null response ''result'') = Some r"
    using assms unfolding Exited chromium_answer.simps
    by (auto simp: outcome_Done bindR_Inr split: if_splits list.splits option.splits)
  with ready_result_Some show ?thesis by blast
qed (use assms in simp_all)

lemma verified_smoke_Done:
  assumes "verified_smoke br path b plan shot w = ((Done r, written), w')"
  obtains q c w1 p1 p2 where "quickjs_answer (br_loads br) (br_timeout br) p1 = Done q"
    "chromium_answer (br_loads br) (br_chromium_timeout br) p2 = Done c" "r = merged_report q c"
proof -
  obtain a w1 where a: "quickjs_smoke br b w = (a, w1)" by (cases "quickjs_smoke br b w")
  then obtain q where q: "a = Done q" using assms by (cases a) (auto simp: verified_smoke_def)
  obtain d m w2 where d: "chromium_smoke br b plan (if shot then Some path else None) w1 = ((d, m), w2)" by (metis surj_pair)
  then obtain c where c: "d = Done c" "r = merged_report q c" using assms a q by (cases d) (auto simp: verified_smoke_def)
  from a q obtain p1 where "quickjs_answer (br_loads br) (br_timeout br) p1 = Done q"
    by (auto simp: quickjs_smoke_def Let_def split: if_splits prod.splits)
  moreover from d c obtain p2 where "chromium_answer (br_loads br) (br_chromium_timeout br) p2 = Done c"
    by (auto simp: chromium_smoke_def Let_def split: if_splits prod.splits)
  ultimately show thesis using that c(2) by blast
qed

lemma verified_report:
  assumes "verified_smoke br path b plan shot w = ((Done r, written), w')"
  shows "smoke_ready r \<and> both_browsers r \<and> (\<exists>html. page_of r html)"
proof (rule verified_smoke_Done [OF assms])
  fix q c w1 p1 p2
  assume "quickjs_answer (br_loads br) (br_timeout br) p1 = Done q" "chromium_answer (br_loads br) (br_chromium_timeout br) p2 = Done c"
    and r: "r = merged_report q c"
  from quickjs_Done [OF this(1)] chromium_Done [OF this(2)] obtain html where
    "smoke_ready q" "smoke_ready c" "page_of q html" by blast
  then show ?thesis unfolding r
    by (auto simp: smoke_ready_def both_browsers_def page_of_def merged_report_def get_or_null_def update_conv')
qed

text \<open>The worker's runner reports a candidate ready only when both browsers did: the report carries the real browser's own
  readiness and a page that is not blank and within its limit. Any program that answers otherwise, with
  whatever output, gives issues or an error.\<close>

theorem verified_smoke_needs_both_browsers:
  assumes "verified_smoke br path b plan shot w = ((Done r, written), w')"
  shows "\<exists>quickjs chromium html. r = merged_report quickjs chromium \<and> smoke_ready quickjs \<and> smoke_ready chromium \<and>
    get_or_null r ''static_html'' = JStr html \<and> py_strip html \<noteq> [] \<and> utf8_size html \<le> MAX_STATIC_HTML_BYTES"
proof (rule verified_smoke_Done [OF assms])
  fix q c w1 p1 p2
  assume "quickjs_answer (br_loads br) (br_timeout br) p1 = Done q" "chromium_answer (br_loads br) (br_chromium_timeout br) p2 = Done c"
    and r: "r = merged_report q c"
  from quickjs_Done [OF this(1)] chromium_Done [OF this(2)] verified_report [OF assms] r show ?thesis
    unfolding page_of_def by blast
qed

section \<open>The design review never blocks for long\<close>

lemma verdict_codes: "\<forall>i\<in>set (verdict_issues v). is_code i = ''visual_quality''"
  by (auto simp: verdict_issues_def split: json.splits if_splits)

lemma no_acceptance: "\<forall>i\<in>set issues. is_code i = ''visual_quality'' \<Longrightarrow> acceptance_issue_fingerprint issues = None"
proof -
  assume a: "\<forall>i\<in>set issues. is_code i = ''visual_quality''"
  have "\<not> starts_with ''acceptance_'' ''visual_quality''" by code_simp
  with a have "filter (\<lambda>i. starts_with ''acceptance_'' (is_code i)) issues = []" by (simp add: filter_empty_conv)
  then show ?thesis by (simp add: acceptance_issue_fingerprint_def)
qed

text \<open>A design review's issues are never acceptance issues: alone they are repaired in place, and never cause a clean
  regeneration or end the build early.\<close>

theorem design_review_only_repairs:
  assumes "visual_review payload = Reviewed issues"
  shows "\<not> repeats_acceptance at issues \<and>
    next_source env bp at issues = en_repair env bp (at_source at) issues (Suc (at_repairs at))"
proof -
  have "\<forall>i\<in>set issues. is_code i = ''visual_quality''"
    using assms verdict_codes by (auto simp: visual_review_def split: option.splits json.splits if_splits)
  then have "\<not> repeats_acceptance at issues" by (simp add: repeats_acceptance_def no_acceptance)
  then show ?thesis by (simp add: next_source_def)
qed

section \<open>The shape of a generated source\<close>

lemma same_shape_paths: "same_shape fs vs = Some gs \<Longrightarrow> map sf_path gs = map sf_path fs"
  by (induction fs vs arbitrary: gs rule: same_shape.induct) (auto split: json.splits if_splits)

lemma normalizer_paths: "normalizer_answer loads fs p = Inr (gs, counts) \<Longrightarrow> map sf_path gs = map sf_path fs"
  by (cases p) (auto split: if_splits option.splits json.splits dest: same_shape_paths)

lemma normalized_paths: "normalize_generated_source loads run fs w = (Inr (gs, counts), w') \<Longrightarrow> map sf_path gs = map sf_path fs"
  by (auto simp: normalize_generated_source_def split: if_splits prod.splits dest: normalizer_paths)

definition path_of_item :: "json \<Rightarrow> json" where
  "path_of_item v = get_or_null (dict_or_empty v) ''path''"

lemma reply_file_path: "reply_file css v = Inr (f, n) \<Longrightarrow> path_of_item v = JStr (sf_path f)"
  by (cases v) (auto simp: path_of_item_def split: json.splits prod.splits)

lemma reply_paths: "mapR (reply_file css) vs = Inr fs \<Longrightarrow> map path_of_item vs = map (JStr \<circ> sf_path \<circ> fst) fs"
  by (induction vs arbitrary: fs) (auto simp: result_simps dest: reply_file_path)

text \<open>Whatever the normaliser answers, the source keeps the model's files: their paths in order, without the style sheets,
  and the entry point the model named.\<close>

theorem generated_source_keeps_the_replied_tree:
  assumes "openai_source loads css run ri rp w = (Inr src, w')"
  shows "\<exists>items. reply_fields loads rp = Inr (items, gs_entrypoint src) \<and>
    map (JStr \<circ> sf_path) (gs_files src) = filter (\<lambda>v. \<forall>p. v = JStr p \<longrightarrow> \<not> ends_with ''.css'' p) (map path_of_item items)"
proof -
  from assms obtain q w1 where q: "reply_fields loads rp = Inr q"
    and rest: "(case q of (items, entrypoint) \<Rightarrow> bindA (liftA (mapR (reply_file css) items)) (\<lambda>parsed.
     bindA (normalize_generated_source loads run (map fst parsed)) (\<lambda>(normalized, counts).
       case canonicalize_local_styles css normalized of (files, canonicalized) \<Rightarrow>
         liftA (Inr \<lparr>gs_files = files, gs_entrypoint = entrypoint,
           gs_metadata = reply_metadata ri rp (sum_list (map snd parsed)) counts canonicalized\<rparr>)))) w = (Inr src, w')"
    unfolding openai_source_def bindA_Inr liftA_Inr by blast
  obtain items entrypoint where p: "q = (items, entrypoint)" by (cases q)
  from rest [unfolded p prod.case] obtain parsed n w2 where parsed: "mapR (reply_file css) items = Inr parsed"
    and n: "normalize_generated_source loads run (map fst parsed) w = (Inr n, w2)"
    and fin: "(case n of (normalized, counts) \<Rightarrow> case canonicalize_local_styles css normalized of (files, canonicalized) \<Rightarrow>
         liftA (Inr \<lparr>gs_files = files, gs_entrypoint = entrypoint,
           gs_metadata = reply_metadata ri rp (sum_list (map snd parsed)) counts canonicalized\<rparr>)) w2 = (Inr src, w')"
    unfolding bindA_Inr liftA_Inr by blast
  obtain normalized counts where k: "n = (normalized, counts)" by (cases n)
  have paths: "map sf_path normalized = map (sf_path \<circ> fst) parsed"
    using normalized_paths [OF n [unfolded k]] by simp
  have src: "gs_files src = fst (canonicalize_local_styles css normalized)" "gs_entrypoint src = entrypoint"
    using fin by (auto simp: k liftA_def split: prod.splits)
  have "map path_of_item items = map JStr (map sf_path normalized)" using reply_paths [OF parsed] paths by simp
  moreover have "map (JStr \<circ> sf_path) (gs_files src) = filter (\<lambda>v. \<forall>p. v = JStr p \<longrightarrow> \<not> ends_with ''.css'' p) (map JStr (map sf_path normalized))"
    unfolding src(1) canonicalize_local_styles_def Let_def fst_conv by (simp add: filter_map o_def)
  ultimately show ?thesis using q p src(2) by simp
qed

section \<open>The local provider's source\<close>

text \<open>Inside a text between double quotes; \<open>None\<close> when it is closed.\<close>

fun lit :: "bool \<Rightarrow> string \<Rightarrow> bool option" where
  "lit escaped [] = Some escaped"
| "lit escaped (c # cs) =
     (if escaped then lit False cs else if c = backslash then lit True cs else if c = char_of (34::int) then None else lit False cs)"

lemma lit_delimiters: "lit e p = Some e' \<Longrightarrow> delimiters st (Some (char_of (34::int))) e (p @ rest) = delimiters st (Some (char_of (34::int))) e' rest"
  by (induction e p rule: lit.induct) (auto split: if_splits)

lemma escape_lit: "lit False (escape_char c) = Some False"
proof -
  have "\<forall>c. lit False (escape_char c) = Some False" by code_simp
  then show ?thesis ..
qed

lemma lit_append: "lit e p = Some e' \<Longrightarrow> lit e (p @ q) = lit e' q"
  by (induction e p rule: lit.induct) (auto split: if_splits)

lemma escapes_lit: "lit False (concat (map escape_char s)) = Some False"
  by (induction s) (simp_all add: lit_append [OF escape_lit])

lemma quoted_delimiters: "delimiters st None False (quote_str s @ rest) = delimiters st None False rest"
proof -
  have "is_quote (char_of (34::int))" "char_of (34::int) \<noteq> backslash" by code_simp+
  then have "delimiters st None False (quote_str s @ rest) =
      delimiters st (Some (char_of (34::int))) False (concat (map escape_char s) @ char_of (34::int) # rest)"
    by (simp add: quote_str_def)
  also have "\<dots> = delimiters st (Some (char_of (34::int))) False (char_of (34::int) # rest)" by (rule lit_delimiters [OF escapes_lit])
  also have "\<dots> = delimiters st None False rest" using \<open>char_of (34::int) \<noteq> backslash\<close> by simp
  finally show ?thesis .
qed

fun scan :: "char list \<Rightarrow> char option \<Rightarrow> bool \<Rightarrow> string \<Rightarrow> (char list \<times> char option \<times> bool) option" where
  "scan stack q escaped [] = Some (stack, q, escaped)"
| "scan stack (Some q) escaped (c # cs) =
     (if escaped then scan stack (Some q) False cs
      else if c = backslash then scan stack (Some q) True cs
      else if c = q then scan stack None False cs
      else scan stack (Some q) False cs)"
| "scan stack None escaped (c # cs) =
     (if is_quote c then scan stack (Some c) escaped cs
      else if closer c \<noteq> None then scan (c # stack) None escaped cs
      else case opener c of
        None \<Rightarrow> scan stack None escaped cs
      | Some b \<Rightarrow> (case stack of [] \<Rightarrow> None | t # ts \<Rightarrow> if t \<noteq> b then None else scan ts None escaped cs))"

lemma scan_delimiters: "scan st q e p = Some (st', q', e') \<Longrightarrow> delimiters st q e (p @ rest) = delimiters st' q' e' rest"
proof (induction st q e p rule: scan.induct)
  case (3 st e c cs)
  then show ?case by (auto split: if_splits option.splits list.splits)
qed (auto split: if_splits)

definition local_head :: string where
  "local_head = join [newline] [''import { AppShell, Button, Card, Progress, Stack, Text } from '' @ dquote @ ''@dot/ui'' @ dquote @ '';'', [], ''const app = {'', ''  title: '']"

definition local_tail :: string where
  "local_tail = join [newline] ['','', ''} as const;'', [], ''function App() {'', ''  return ('',
      ''    <AppShell title={app.title} description={app.description} accent={app.accent}>'',
      ''      <Stack gap='' @ dquote @ ''lg'' @ dquote @ ''>'', ''        <Card>'', ''          <Text>{app.purpose}</Text>'',
      ''          <Progress value={0} label='' @ dquote @ ''ready to begin'' @ dquote @ '' />'', ''        </Card>'',
      ''        <Button>ready when you are</Button>'', ''      </Stack>'', ''    </AppShell>'', ''  );'', ''}'', [],
      ''export default App;'', []]"

definition local_between :: "string \<Rightarrow> string" where
  "local_between key = '','' @ [newline] @ ''  '' @ key @ '': ''"

lemma local_contents:
  "join [newline] (local_lines bp) = local_head @ quote_str (bp_title bp) @ local_between ''description'' @
     quote_str (bp_description bp) @ local_between ''purpose'' @ quote_str (bp_purpose bp) @ local_between ''accent'' @
     quote_str (bp_accent bp) @ local_tail"
  by (simp add: local_lines_def local_head_def local_tail_def local_between_def)

lemma local_scans:
  "scan [] None False local_head = Some (''{'', None, False)"
  "scan ''{'' None False (local_between ''description'') = Some (''{'', None, False)"
  "scan ''{'' None False (local_between ''purpose'') = Some (''{'', None, False)"
  "scan ''{'' None False (local_between ''accent'') = Some (''{'', None, False)"
  "scan ''{'' None False local_tail = Some ([], None, False)"
  by code_simp+

text \<open>C40. The source of the local provider is balanced whatever the blueprint says: no title, description or purpose escapes
  its string literal.\<close>

theorem local_source_is_balanced:
  "concat (map (\<lambda>f. balanced_delimiter_issues (sf_contents f) path) (gs_files (local_source bp repaired))) = []"
proof -
  have "delimiters [] None False (join [newline] (local_lines bp)) = Balanced"
    unfolding local_contents scan_delimiters [OF local_scans(1)] quoted_delimiters scan_delimiters [OF local_scans(2)]
      scan_delimiters [OF local_scans(3)] scan_delimiters [OF local_scans(4)]
    using scan_delimiters [OF local_scans(5), of "[]"] by simp
  then show ?thesis by (simp add: local_source_def balanced_delimiter_issues_def)
qed


section \<open>The worker's builds and the promotion gate\<close>

text \<open>C10. 
  What the deployment gate says of a build that completed behind the worker's own browser runner, given that the compiler
  seals its scripts: whatever the model, the browsers and the reviewer answered, of the gate's checks only two are left to
  decide, that of the manifest and that of the size of the test results, to which the hook has added the build's metrics.
  The entry points, hashes, stages, script seals and the report of the real browser always pass.
\<close>

theorem completed_build_at_the_gate:
  assumes "build env claim w = (Inr done, w')" "en_require_smoke env" "en_smoke env = verified_smoke br path"
    "\<forall>s. is_sha256_hex (en_sha env s)" "\<forall>src v b v'. en_compile env src v = (Done b, v') \<longrightarrow> sealed env b"
  shows "check_build_output (en_sha env) (build_output_of url done) =
    bindR (validate_manifest (JObj (ar_manifest (co_artifact done)))) (\<lambda>_. require_json_size (JObj (completion_tests done)) 128000)"
proof -
  have "\<forall>b plan shot v r written v'. en_smoke env b plan shot v = ((Done r, written), v') \<longrightarrow> both_browsers r"
    unfolding assms(3) by (intro allI impI) (drule verified_report, simp)
  from completed_build_gate [OF assms(1,2,4,5) this] show ?thesis .
qed

section \<open>Examples\<close>

definition sample_page :: obj where
  "sample_page = [(''ready'', JBool True), (''static_html'', JStr ''<p>'')]"

definition sample_browsers :: "nat browsers" where
  "sample_browsers = \<lparr>br_available = True, br_timeout_ms = 10000, br_timeout = ''10'', br_chromium_available = True,
     br_chromium_timeout_ms = 12000, br_chromium_timeout = ''12'',
     br_loads = (\<lambda>s. Some (JObj [(''ok'', JBool True), (''result'', if s = ''q'' then JObj sample_page else JObj [(''ready'', JBool True)])])),
     br_quickjs = (\<lambda>_ w. (Exited 0 ''q'' [], w)), br_chromium = (\<lambda>_ w. ((Exited 0 ''c'' [], None), w))\<rparr>"

definition sample_report :: obj where
  "sample_report = merged_report sample_page [(''ready'', JBool True)]"

lemma sample_smoke: "verified_smoke sample_browsers ''at-rest.jpeg'' hello_bundle [] False 0 = ((Done sample_report, None), 0)"
  by code_simp

theorem verified_smoke_needs_both_browsers_witness:
  "\<exists>quickjs chromium. sample_report = merged_report quickjs chromium \<and> smoke_ready quickjs \<and> smoke_ready chromium"
  using verified_smoke_needs_both_browsers [OF sample_smoke] by blast

theorem design_review_only_repairs_witness:
  "\<not> repeats_acceptance (first_attempt hello_source) [\<lparr>is_code = ''visual_quality'', is_message = ''density: Crowded'', is_path = None\<rparr>]"
proof -
  have "visual_review (Some (JObj [(''axes'', JArr [JObj [(''axis'', JStr ''density''), (''passed'', JBool False), (''note'', JStr '' Crowded'')]])])) =
      Reviewed [\<lparr>is_code = ''visual_quality'', is_message = ''density: Crowded'', is_path = None\<rparr>]" by code_simp
  from design_review_only_repairs [OF this] show ?thesis by blast
qed

definition sample_reply :: reply where
  "sample_reply = \<lparr>rp_output = ''r'', rp_model = JStr ''m'', rp_id = JNull, rp_usage = None, rp_latency = 10\<rparr>"

definition sample_css :: css_rules where
  "sample_css = \<lparr>cs_import_rule = (\<lambda>s. (s, 0)), cs_url_value = (\<lambda>s. (s, 0)), cs_relative_import = (\<lambda>s. (s, 0))\<rparr>"

definition sample_items :: "json list" where
  "sample_items = [JObj [(''path'', JStr ''src/a.css''), (''contents'', JStr ''x'')], JObj [(''path'', JStr ''src/App.tsx''), (''contents'', JStr ''y'')]]"

definition sample_loads :: loads where
  "sample_loads s = (if s = ''r'' then Some (JObj [(''files'', JArr sample_items), (''entrypoint'', JStr ''src/App.tsx'')])
     else Some (JObj [(''ok'', JBool True), (''files'', JArr sample_items)]))"

definition sample_source :: source where
  "sample_source = projr (fst (openai_source sample_loads sample_css (\<lambda>_ w. (Exited 0 ''n'' [], w)) \<lparr>ri_effort = ''low'', ri_phase = ''generate'', ri_repair = 0\<rparr>
     sample_reply (0::nat)))"

theorem generated_source_keeps_the_replied_tree_witness:
  "map (JStr \<circ> sf_path) (gs_files sample_source) = [JStr ''src/App.tsx'']"
proof -
  let ?run = "openai_source sample_loads sample_css (\<lambda>_ w. (Exited 0 ''n'' [], w)) \<lparr>ri_effort = ''low'', ri_phase = ''generate'', ri_repair = 0\<rparr> sample_reply (0::nat)"
  have "\<not> isl (fst ?run)" by code_simp
  then have run: "?run = (Inr sample_source, snd ?run)" by (metis prod.collapse sample_source_def sum.collapse(2))
  have items: "reply_fields sample_loads sample_reply = Inr (sample_items, ''src/App.tsx'')" by code_simp
  have "filter (\<lambda>v. \<forall>p. v = JStr p \<longrightarrow> \<not> ends_with ''.css'' p) (map path_of_item sample_items) = [JStr ''src/App.tsx'']"
    by (simp add: sample_items_def path_of_item_def get_or_null_def ends_with_def)
  with generated_source_keeps_the_replied_tree [OF run] items show ?thesis by auto
qed

definition full_env :: "nat env" where
  "full_env = pipe_env\<lparr>en_smoke := verified_smoke sample_browsers ''at-rest.jpeg''\<rparr>"

definition full_artifact :: artifact where
  "full_artifact = packaged full_env list_blueprint hello_source hello_bundle sample_report"

definition full_completion :: completion where
  "full_completion = \<lparr>co_claim = sample_claim, co_artifact = full_artifact,
     co_metrics = build_metrics full_env (first_attempt hello_source) full_artifact 0\<rparr>"

definition full_candidate :: candidate where
  "full_candidate = \<lparr>cd_issues = [], cd_bundle = Some hello_bundle, cd_smoke = Some sample_report, cd_reviews = 0\<rparr>"

lemma full_evaluation:
  "evaluate_candidate full_env list_blueprint (at_source (first_attempt hello_source)) (at_reviews (first_attempt hello_source)) 0 = (Inr full_candidate, 0)"
  by code_simp

lemma full_package: "\<not> isl (package full_env list_blueprint hello_source hello_bundle (Some sample_report))"
  by code_simp

lemma full_build: "build full_env sample_claim 0 = (Inr full_completion, 0)"
proof -
  have p: "package full_env list_blueprint hello_source hello_bundle (Some sample_report) = Inr full_artifact"
    using full_package package_Inr [of full_env list_blueprint hello_source hello_bundle "Some sample_report"]
    by (cases "package full_env list_blueprint hello_source hello_bundle (Some sample_report)") (auto simp: full_artifact_def)
  have m: "from_mapping (en_casefold full_env) (bc_blueprint sample_claim) = Inr list_blueprint"
    using list_accepted by (simp add: full_env_def pipe_env_def sample_claim_def)
  have "build_loop full_env list_blueprint (first_attempt hello_source) 0 = (Inr (first_attempt hello_source, full_candidate), 0)"
    unfolding build_loop.simps [of full_env list_blueprint "first_attempt hello_source" 0] full_evaluation by (simp add: full_candidate_def)
  moreover have "en_generate full_env list_blueprint 0 = (Inr hello_source, 0)" by (simp add: full_env_def pipe_env_def)
  ultimately show ?thesis using p m
    by (simp add: build_def bindA_def [of "en_generate full_env list_blueprint"] bindA_def [of "build_loop e b a" for e b a]
        full_candidate_def first_steps full_completion_def)
qed

lemma full_gate:
  "en_require_smoke full_env" "en_smoke full_env = verified_smoke sample_browsers ''at-rest.jpeg''" "en_sha full_env = flat_sha"
  "\<forall>s. is_sha256_hex (en_sha full_env s)" "\<forall>src v b v'. en_compile full_env src v = (Done b, v') \<longrightarrow> sealed full_env b"
  "validate_manifest (JObj (ar_manifest (co_artifact full_completion))) = Inr ()"
  "json_size (JObj (completion_tests full_completion)) \<le> MAX_TEST_RESULTS_BYTES"
proof -
  have "is_sha256_hex (flat_sha [])" "sealed full_env hello_bundle" by code_simp+
  moreover have "flat_sha s = flat_sha []" for s by (simp add: flat_sha_def)
  ultimately show "\<forall>s. is_sha256_hex (en_sha full_env s)" "\<forall>src v b v'. en_compile full_env src v = (Done b, v') \<longrightarrow> sealed full_env b"
    by (simp_all add: full_env_def pipe_env_def) metis
  show "validate_manifest (JObj (ar_manifest (co_artifact full_completion))) = Inr ()" by code_simp
  show "json_size (JObj (completion_tests full_completion)) \<le> MAX_TEST_RESULTS_BYTES" by code_simp
qed (simp_all add: full_env_def pipe_env_def)

theorem completed_build_at_the_gate_witness:
  "check_build_output flat_sha (build_output_of ''https://dot/a/pub'' full_completion) = Inr ()"
  using completed_build_at_the_gate [OF full_build full_gate(1,2,4,5), of "''https://dot/a/pub''"] full_gate(3,6,7)
  by (simp add: require_json_size_def MAX_TEST_RESULTS_BYTES_def)

end
