(* ===== verification/App_Record_Laws.thy ===== *)
theory App_Record_Laws
  imports Dot_Samples
begin

text \<open>
  The properties of the data operations: replays, the refusal of a reused key, the absence of lost
  updates, the quotas, the schema and the rate limits, each over arbitrary runs of the operations.
\<close>

section \<open>Idempotency\<close>

text \<open>C15. A creation that is repeated with the same key after any run of data operations (its record
  may have been updated or deleted meanwhile) returns what it returned the first time and changes
  nothing, as long as the caller may still write.\<close>

theorem create_is_idempotent:
  assumes "create_data_record sha now d a act entity data key = Inr (res, d1)"
    and "create_key sha entity data key = Inr (k, h)" "journal_answer d a k = None"
    and "data_steps sha d1 d2" "may_write now' d2 a act"
  shows "\<exists>res'. create_data_record sha now' d2 a act entity data key = Inr (res', d2) \<and>
    shown_record res' = shown_record res"
proof -
  have op: "(case (a, act, entity, data, key) of (a, act, entity, data, key) \<Rightarrow> \<lambda>now d.
      create_data_record sha now d a act entity data key) now d = Inr (res, d1)" using assms(1) by simp
  have "journal_answer d1 a k \<noteq> None"
    using create.miss_known [OF op, of k h] assms(2,3) by simp
  then have kept: "journal_answer d2 a k = journal_answer d1 a k"
    by (rule data_steps_journal [OF assms(4)])
  show ?thesis
    using create.repetition [OF op, of k h d2 now'] assms(2,3,5) kept by simp
qed

theorem create_is_idempotent_witness:
  "\<exists>res'. create_data_record id 80 updated_db 10 sample_owner ''chores'' sample_data ''k1'' = Inr (res', updated_db) \<and>
     sr_version (shown_record res') = 1"
proof -
  have steps: "data_steps id created_db updated_db"
    using step_update [OF updated_run] by blast
  have key: "create_key id ''chores'' sample_data ''k1'' = Inr (''k1'', snd (projr (create_key id ''chores'' sample_data ''k1'')))"
    by code_simp
  have none: "journal_answer sample_db 10 ''k1'' = None" by code_simp
  have w: "may_write 80 updated_db 10 sample_owner" by code_simp
  from create_is_idempotent [OF created_run key none steps w]
  show ?thesis by (auto simp: record_snapshot_def)
qed

text \<open>The same holds for an update: its repetition shows the version it wrote, whatever happened to the
  record since, and does not write it again.\<close>

theorem update_is_idempotent:
  assumes "update_data_record sha now d a i act expected data key = Inr (res, d1)"
    and "update_key sha i expected data key = Inr (k, h)" "journal_answer d a k = None"
    and "data_steps sha d1 d2" "may_write now' d2 a act"
  shows "\<exists>res'. update_data_record sha now' d2 a i act expected data key = Inr (res', d2) \<and>
    shown_record res' = shown_record res"
proof -
  have op: "(case (a, i, act, expected, data, key) of (a, i, act, expected, data, key) \<Rightarrow> \<lambda>now d.
      update_data_record sha now d a i act expected data key) now d = Inr (res, d1)" using assms(1) by simp
  have "journal_answer d1 a k \<noteq> None"
    using update.miss_known [OF op, of k h] assms(2,3) by simp
  then have kept: "journal_answer d2 a k = journal_answer d1 a k"
    by (rule data_steps_journal [OF assms(4)])
  show ?thesis
    using update.repetition [OF op, of k h d2 now'] assms(2,3,5) kept by simp
qed

theorem update_is_idempotent_witness:
  "\<exists>res'. update_data_record id 80 updated_db 10 100 sample_owner 1 (JObj [(''done'', JBool True)]) ''k2'' =
     Inr (res', updated_db) \<and> sr_version (shown_record res') = 2"
proof -
  have key: "update_key id 100 1 (JObj [(''done'', JBool True)]) ''k2'' =
      Inr (''k2'', snd (projr (update_key id 100 1 (JObj [(''done'', JBool True)]) ''k2'')))"
    by code_simp
  have none: "journal_answer created_db 10 ''k2'' = None" by code_simp
  have w: "may_write 80 updated_db 10 sample_owner" by code_simp
  from update_is_idempotent [OF updated_run key none rtranclp.rtrancl_refl w]
  show ?thesis by (auto simp: record_snapshot_def)
qed

text \<open>A key that was used for a different request is refused: once the journal answers the key with
  another operation or another request hash, an update under it raises a conflict and writes nothing.\<close>

theorem reused_key_is_refused:
  assumes "may_write now d a act" "update_key sha i expected data key = Inr (k, h)"
    and "journal_answer d a k = Some (op, h', response)" "op \<noteq> Some ''records.update'' \<or> h' \<noteq> Some h"
  shows "update_data_record sha now d a i act expected data key = Inl CodeAppConflict"
  using update.key_reuse [where x = "(a, i, act, expected, data, key)" and sha = sha] assms by simp

theorem reused_key_is_refused_witness:
  "update_data_record id 80 created_db 10 100 sample_owner 1 (JObj []) ''k1'' = Inl CodeAppConflict"
proof (rule reused_key_is_refused)
  show "may_write 80 created_db 10 sample_owner" by code_simp
  show "update_key id 100 1 (JObj []) ''k1'' = Inr (''k1'', snd (projr (update_key id 100 1 (JObj []) ''k1'')))"
    by code_simp
  show "journal_answer created_db 10 ''k1'' = Some (Some ''records.create'',
      fst (snd (the (journal_answer created_db 10 ''k1''))), snd (snd (the (journal_answer created_db 10 ''k1''))))"
    by code_simp
qed simp

text \<open>The order in which a client spells the fields of a record does not matter for the journal: two
  data objects with the same distinct keys and values make the same request.\<close>

theorem request_ignores_key_order:
  assumes "distinct (map fst a)" "mset a = mset b"
  shows "create_key sha entity (JObj a) key = create_key sha entity (JObj b) key"
proof -
  have "set a = set b" using assms(2) by (metis set_mset_mset)
  then have fin: "json_finite (JObj a) = json_finite (JObj b)" by simp
  have "json_dumps (JObj a) = json_dumps (JObj b)" by (rule json_dumps_key_order [OF assms])
  then have dump: "json_dumps (JObj [(''operation'', JStr op), (''request'',
      JObj [(''entity'', JStr e), (''data'', JObj a)])]) = json_dumps (JObj [(''operation'', JStr op),
      (''request'', JObj [(''entity'', JStr e), (''data'', JObj b)])])" for op e
    by (simp add: sort_key_def del: text_value.simps)
  have "idempotency_request_hash sha op [(''entity'', JStr e), (''data'', JObj a)] =
      idempotency_request_hash sha op [(''entity'', JStr e), (''data'', JObj b)]" for op e
    using fin unfolding idempotency_request_hash_def dump by simp
  then show ?thesis
    by (cases "entity_name (JStr entity)"; cases "text_value (JStr key) 160")
      (simp_all add: create_key_def create_request_def bindR_assoc del: text_value.simps entity_name.simps)
qed

theorem request_ignores_key_order_witness:
  "create_key id ''chores'' (JObj [(''done'', JBool False), (''title'', JStr ''dishes'')]) ''k1'' =
   create_key id ''chores'' (JObj [(''title'', JStr ''dishes''), (''done'', JBool False)]) ''k1''"
  by (rule request_ignores_key_order) simp_all

section \<open>Concurrent writers\<close>

text \<open>C1. No update is lost: once an update at version \<open>v\<close> has been written, in every later state reached by data
  operations another update or a deletion that still expects version \<open>v\<close> (or any earlier one) of that record
  can only succeed as a replay, which leaves the state as it is.\<close>

theorem no_lost_update:
  assumes "data_ok d" "update_data_record sha now d a i act v data key = Inr (res, d1)" "d1 \<noteq> d"
    and "data_steps sha d1 d2" "v' \<le> v"
    and "update_data_record sha now' d2 a' i act' v' data' key' = Inr (res', d3) \<or>
      delete_data_record sha now' d2 a' i act' v' key' = Inr (u, d3)"
  shows "d3 = d2"
proof -
  from data_step_keeps [OF step_update [OF assms(2)] assms(1)] have ok1: "data_ok d1" by simp
  from update_data_record_Inr [OF assms(2)] assms(3) obtain actor ob k h where
    ch: "change_record now d a actor i v ob k h = Inr (res, d1)" and k: "text_value (JStr k) 160 = Inr k"
    by blast
  obtain r where r: "r \<in> set (db_records d1)" "dr_id r = i" "dr_version r = v + 1"
    using fresh_update_version [OF assms(1) ch k] by blast
  from data_steps_keep [OF assms(4) ok1] have ev: "records_evolve d1 d2" by simp
  have later: "v + 1 \<le> dr_version q" if "q \<in> set (db_records d2)" "dr_id q = i" for q
    using version_gone [OF ok1 ev r(1) that(1)] that(2) r(2,3) by simp
  show ?thesis
  proof (rule ccontr)
    assume "d3 \<noteq> d2"
    from assms(6) have "\<exists>q\<in>set (db_records d2). dr_id q = i \<and> dr_version q = v'"
      using update_needs_version [OF _ \<open>d3 \<noteq> d2\<close>] delete_needs_version [OF _ \<open>d3 \<noteq> d2\<close>] by (elim disjE)
    then obtain q where "q \<in> set (db_records d2)" "dr_id q = i" "dr_version q = v'" by blast
    with later assms(5) show False by fastforce
  qed
qed

lemma data_ok_created: "data_ok created_db"
  using data_step_keeps [OF step_create [OF created_run] data_ok_sample] by simp

theorem no_lost_update_witness:
  "snd (projr (update_data_record id 80 updated_db 10 100 sample_owner 1 (JObj [(''done'', JBool True)]) ''k2'')) =
     updated_db \<and>
   update_data_record id 80 updated_db 10 100 sample_owner 1 (JObj [(''done'', JBool False)]) ''k3'' =
     Inl CodeAppConflict"
proof
  let ?run = "update_data_record id 80 updated_db 10 100 sample_owner 1 (JObj [(''done'', JBool True)]) ''k2''"
  have ne: "updated_db \<noteq> created_db" by code_simp
  have run: "?run = Inr (fst (projr ?run), snd (projr ?run))" by code_simp
  show "snd (projr ?run) = updated_db"
    using no_lost_update [OF data_ok_created updated_run ne rtranclp.rtrancl_refl order.refl disjI1 [OF run]] .
  show "update_data_record id 80 updated_db 10 100 sample_owner 1 (JObj [(''done'', JBool False)]) ''k3'' =
     Inl CodeAppConflict" by code_simp
qed

text \<open>C16. Every run of data operations keeps the storage invariant: record identifiers stay unique, the
  byte count of every row is the size of its stored JSON and at most 16 000, versions start at 1, and no
  app holds more than 10 000 records or 10 000 000 bytes. It also keeps the schema invariant:
  every record of a deployed app validates against the app's active manifest.\<close>

theorem data_runs_keep_quotas_and_schema:
  assumes "data_steps sha d d'" "data_ok d" "schema_ok d"
  shows "data_ok d' \<and> schema_ok d'"
  using data_steps_keep [OF assms(1,2)] assms(3) by blast

theorem data_runs_keep_quotas_and_schema_witness: "data_ok updated_db \<and> schema_ok updated_db"
proof -
  have "data_steps id sample_db updated_db"
    using step_create [OF created_run] step_update [OF updated_run] by (meson rtranclp.simps)
  moreover have "schema_ok sample_db" by (simp add: schema_ok_def sample_db_def empty_db_def)
  ultimately show ?thesis by (rule data_runs_keep_quotas_and_schema [OF _ data_ok_sample])
qed

section \<open>Effects\<close>

text \<open>What \<open>merge_data\<close> leaves under a field.\<close>

lemma merge_data_get:
  "distinct (map fst data) \<Longrightarrow> obj_get (merge_data current data) f =
     (case obj_get data f of None \<Rightarrow> obj_get current f | Some v \<Rightarrow> if v = JNull then None else Some v)"
proof (induction data arbitrary: current)
  case Nil
  show ?case by (simp add: merge_data_def)
next
  case (Cons x data)
  obtain k v where x: "x = (k, v)" by (cases x)
  let ?c = "if v = JNull then AList.delete k current else AList.update k v current"
  have "merge_data current (x # data) = merge_data ?c data" by (simp add: merge_data_def x)
  moreover have "obj_get data k = None" using Cons.prems x by (simp add: map_of_eq_None_iff)
  moreover have "obj_get ?c f = (if f = k then (if v = JNull then None else Some v) else obj_get current f)"
    by (auto simp: update_conv' delete_conv')
  ultimately show ?case using Cons x by (auto split: option.splits)
qed

text \<open>A fresh update at the expected version writes exactly one row: it keeps its identifier, app and
  entity, its version grows by one, every field given as null is gone, every other given field has the
  given value, and every field not given is untouched.\<close>

theorem update_merges_fields:
  assumes "update_data_record sha now d a i act expected (JObj data) key = Inr (res, d')" "d' \<noteq> d"
    and "data_ok d" "distinct (map fst data)"
  shows "\<exists>r r' xs ys. db_records d = xs @ r # ys \<and> db_records d' = xs @ r' # ys \<and> res = LiveRecord r' \<and>
    dr_id r = i \<and> dr_version r = expected \<and> dr_id r' = i \<and> dr_app r' = dr_app r \<and> dr_entity r' = dr_entity r \<and>
    dr_version r' = expected + 1 \<and>
    (\<forall>f. obj_get (dr_data r') f = (case obj_get data f of None \<Rightarrow> obj_get (dr_data r) f
       | Some v \<Rightarrow> if v = JNull then None else Some v))"
proof -
  from update_data_record_Inr [OF assms(1)] assms(2) obtain actor ob k h where
    req: "update_request sha i expected (JObj data) key = Inr (ob, k, h)" and
    ch: "change_record now d a actor i expected ob k h = Inr (res, d')" and k: "text_value (JStr k) 160 = Inr k"
    by blast
  from req have ob: "ob = data" by (auto simp: update_request_def result_simps)
  from assms(3) have dist: "distinct (map dr_id (db_records d))" by (simp add: data_ok_def)
  obtain r xs ys where "find_record d a i = Some r" "dr_version r = expected" "db_records d = xs @ r # ys"
    "db_records d' = xs @ changed_row now actor data r # ys" "res = LiveRecord (changed_row now actor data r)"
    by (rule change_record_Inr [OF ch [unfolded ob] k dist]) simp
  then show ?thesis
    using find_record_Some merge_data_get [OF assms(4)]
    by (intro exI [of _ r] exI [of _ "changed_row now actor data r"] exI [of _ xs] exI [of _ ys]) force
qed

theorem update_merges_fields_witness:
  "\<exists>r'. db_records updated_db = [r'] \<and> dr_version r' = 2 \<and> obj_get (dr_data r') ''done'' = Some (JBool True)"
proof -
  have ne: "updated_db \<noteq> created_db" by code_simp
  have one: "length (db_records updated_db) = 1" by code_simp
  from update_merges_fields [OF updated_run ne data_ok_created] one show ?thesis by force
qed

section \<open>Rate limits\<close>

text \<open>The events of an app, and those of one actor in it, of the minute before \<open>now\<close>.\<close>

definition recent_events :: "instant \<Rightarrow> db \<Rightarrow> uuid \<Rightarrow> int" where
  "recent_events now d a = count_where (\<lambda>e. ev_app e = a \<and> now - minutes 1 \<le> ev_created e) (db_events d)"

definition recent_actor_events :: "instant \<Rightarrow> db \<Rightarrow> uuid \<Rightarrow> app_actor \<Rightarrow> int" where
  "recent_actor_events now d a actor =
     count_where (\<lambda>e. (ev_app e = a \<and> now - minutes 1 \<le> ev_created e) \<and>
       (if ac_user actor \<noteq> None then ev_user e = ac_user actor else ev_session e = ac_session actor))
       (db_events d)"

lemma limit_after_append:
  assumes "enforce_mutation_rate_limit now d a actor = Inr ()"
    and "db_events d' = upd_where p (\<lambda>e. e\<lparr>ev_record := None\<rparr>) (db_events d) @ [ev]"
  shows "recent_actor_events now d' a actor \<le> MAX_MUTATIONS_PER_ACTOR_MINUTE \<and>
    recent_events now d' a \<le> MAX_MUTATIONS_PER_APP_MINUTE"
proof -
  have "count_where q (upd_where p (\<lambda>e. e\<lparr>ev_record := None\<rparr>) (db_events d)) = count_where q (db_events d)"
    if "\<And>e. q (e\<lparr>ev_record := None\<rparr>) = q e" for q
    by (rule count_where_upd) (simp add: that)
  then show ?thesis
    using enforce_mutation_rate_limit_Inr [OF assms(1)] assms(2)
    by (simp add: recent_actor_events_def recent_events_def)
qed

text \<open>A mutation that writes leaves at most 120 mutations of its actor and 600 of its app in the journal's last
  minute: the limits hold after every fresh creation, update and deletion, whichever of them filled them.\<close>

theorem mutations_are_rate_limited:
  assumes "create_data_record sha now d a act entity data key = Inr (res, d') \<or>
      update_data_record sha now d a i act expected data key = Inr (res, d') \<or>
      delete_data_record sha now d a i act expected key = Inr (u, d')"
    and "d' \<noteq> d"
  shows "\<exists>actor. reauthorize_actor now d a act = Inr actor \<and>
    recent_actor_events now d' a actor \<le> MAX_MUTATIONS_PER_ACTOR_MINUTE \<and>
    recent_events now d' a \<le> MAX_MUTATIONS_PER_APP_MINUTE"
proof -
  have "\<exists>actor p ev. reauthorize_actor now d a act = Inr actor \<and> enforce_mutation_rate_limit now d a actor = Inr () \<and>
      db_events d' = upd_where p (\<lambda>e. e\<lparr>ev_record := None\<rparr>) (db_events d) @ [ev]"
    using assms(1)
  proof (elim disjE)
    have app: ?thesis if "reauthorize_actor now d a act = Inr actor" "enforce_mutation_rate_limit now d a actor = Inr ()"
        "\<exists>ev. db_events d' = db_events d @ [ev]" for actor
      using that by (metis upd_where_none)
    {
      assume "create_data_record sha now d a act entity data key = Inr (res, d')"
      from create_data_record_Inr [OF this] assms(2) show ?thesis using app insert_record_event by blast
    next
      assume "update_data_record sha now d a i act expected data key = Inr (res, d')"
      from update_data_record_Inr [OF this] assms(2) obtain actor ob k h where
        c: "reauthorize_actor now d a act = Inr actor" "enforce_mutation_rate_limit now d a actor = Inr ()"
        and w: "change_record now d a actor i expected ob k h = Inr (res, d')" "text_value (JStr k) 160 = Inr k"
        by auto
      from change_record_event [OF w] have "\<exists>ev. db_events d' = db_events d @ [ev]" by blast
      with c show ?thesis by (rule app)
    next
      assume "delete_data_record sha now d a i act expected key = Inr (u, d')"
      from delete_data_record_Inr [OF this] assms(2) show ?thesis by force
    }
  qed
  then show ?thesis using limit_after_append by blast
qed

theorem mutations_are_rate_limited_witness:
  "recent_actor_events 70 updated_db 10 sample_owner \<le> 120 \<and> recent_events 70 updated_db 10 \<le> 600"
proof -
  have ne: "updated_db \<noteq> created_db" by code_simp
  have actor: "reauthorize_actor 70 created_db 10 sample_owner = Inr sample_owner" by code_simp
  from mutations_are_rate_limited [OF disjI2 [OF disjI1 [OF updated_run]] ne] actor show ?thesis
    by (simp add: MAX_MUTATIONS_PER_ACTOR_MINUTE_def MAX_MUTATIONS_PER_APP_MINUTE_def)
qed

end
