(* ===== verification/Schedules.thy ===== *)
theory Schedules
  imports User_Events
begin

text \<open>
  Scheduled tasks (\<open>services/schedules.py\<close>): creation under an idempotency key, listing,
  cancellation, the claim, completion and retry of the worker, the computation of the next recurring
  run, and the dispatch.

  The time zone data base is the parameter \<open>zones\<close>: a zone maps an instant to a wall clock reading
  (microseconds since 1970-01-01 00:00 on that clock, and the \<open>fold\<close> bit) and a reading to an
  instant, as \<open>astimezone\<close> does. Two readings in one zone are compared by the wall clock alone, which is
  what \<open>datetime\<close> does for a common \<open>tzinfo\<close>. A name \<open>zones\<close> does not know raises
  \<open>ZoneInfoNotFoundError\<close>, a \<open>KeyError\<close>; a malformed one, such as an absolute path, raises a \<open>ValueError\<close>. The
  financial sync and the account deletion are parameters of the dispatch.
\<close>

section \<open>Time zones\<close>

record zone =
  zn_local :: "instant \<Rightarrow> int \<times> bool"
  zn_utc :: "int \<times> bool \<Rightarrow> instant"

text \<open>What \<open>ZoneInfo(key)\<close> answers: a zone, \<open>ZoneInfoNotFoundError\<close>, or a \<open>ValueError\<close> with its text.\<close>

datatype zone_lookup = ZoneIs zone | NoZone | MalformedZone string

datatype py_datetime = Naive instant | Aware instant

text \<open>\<open>_aware_utc\<close> of \<open>schedules.py\<close>, which reads a naive time as UTC.\<close>

primrec aware_utc :: "py_datetime \<Rightarrow> instant" where
  "aware_utc (Naive t) = t"
| "aware_utc (Aware t) = t"

definition step_of :: "recurrence \<Rightarrow> int" where
  "step_of r = days (if r = Daily then 1 else 7)"

lemma step_of_pos: "0 < step_of r"
  by (simp add: step_of_def)

text \<open>The loop of \<open>_next_recurring_run\<close> on the wall clock; the fold bit is carried along by \<open>timetz\<close>.\<close>

function next_wall :: "recurrence \<Rightarrow> int \<Rightarrow> int \<Rightarrow> int" where
  "next_wall r candidate after_local =
     (if candidate \<le> after_local then next_wall r (candidate + step_of r) after_local else candidate)"
  by pat_completeness auto
termination
  by (relation "measure (\<lambda>(r, c, a). nat (a + 1 - c))") (use step_of_pos in \<open>auto simp: nat_less_eq_zless\<close>)

declare next_wall.simps [simp del]

definition next_recurring_run :: "zone \<Rightarrow> recurrence \<Rightarrow> instant \<Rightarrow> instant \<Rightarrow> instant" where
  "next_recurring_run z r scheduled_for after =
     (case zn_local z scheduled_for of (wall, fd) \<Rightarrow>
        zn_utc z (next_wall r wall (fst (zn_local z after)), fd))"

section \<open>Operations\<close>

datatype schedule_error = ScheduleValidation | ScheduleValueError

text \<open>The check of the zone: an unknown one is refused, the \<open>ValueError\<close> of a malformed one is not caught.\<close>

definition known_zone :: "(string \<Rightarrow> zone_lookup) \<Rightarrow> string \<Rightarrow> schedule_error + zone" where
  "known_zone zones timezone =
     (case zones timezone of
        ZoneIs z \<Rightarrow> Inr z
      | NoZone \<Rightarrow> Inl ScheduleValidation
      | MalformedZone m \<Rightarrow> Inl ScheduleValueError)"

definition create_scheduled_task ::
  "(string \<Rightarrow> zone_lookup) \<Rightarrow> instant \<Rightarrow> db \<Rightarrow> uuid \<Rightarrow> uuid option \<Rightarrow> string \<Rightarrow> string \<Rightarrow> string \<Rightarrow> string \<Rightarrow>
   obj \<Rightarrow> py_datetime \<Rightarrow> string \<Rightarrow> string \<Rightarrow> string option \<Rightarrow> schedule_error + (task_row \<times> db)" where
  "create_scheduled_task zones now d user_id conversation_id action source key title payload run_at
     timezone recurrence provider =
     (case find (\<lambda>t. st_key t = key) (db_tasks d) of
        Some t \<Rightarrow> Inr (t, d)
      | None \<Rightarrow>
          let at = aware_utc run_at in
          if at \<le> now - seconds 5 then Inl ScheduleValidation
          else bindR (known_zone zones timezone) (\<lambda>_. bindR (some_or ScheduleValidation (recurrence_of recurrence)) (\<lambda>r.
            if py_strip title = [] then Inl ScheduleValidation
            else case take_id d of (tid, d1) \<Rightarrow>
              let t = \<lparr>st_id = tid, st_user = user_id, st_conv = conversation_id, st_action = action,
                       st_source = source, st_key = key, st_title = take 160 (py_strip title),
                       st_payload = payload, st_provider = provider, st_timezone = timezone,
                       st_recurrence = r, st_for = at, st_next = at, st_status = TaskActive,
                       st_attempts = 0, st_runs = 0, st_locked = None, st_last_run = None,
                       st_completed = None, st_cancelled = None, st_error = None, st_created = now\<rparr>
              in Inr (t, d1\<lparr>db_tasks := db_tasks d1 @ [t]\<rparr>))))"

definition list_scheduled_tasks ::
  "db \<Rightarrow> uuid \<Rightarrow> uuid option \<Rightarrow> string option \<Rightarrow> bool \<Rightarrow> task_row list" where
  "list_scheduled_tasks d user_id conversation_id action active_only =
     sort_key (\<lambda>t. (st_for t, st_created t))
       (filter (\<lambda>t. st_user t = user_id \<and>
          (conversation_id \<noteq> None \<longrightarrow> st_conv t = conversation_id) \<and>
          (case action of None \<Rightarrow> True | Some a \<Rightarrow> st_action t = a) \<and>
          (active_only \<longrightarrow> st_status t \<in> {TaskActive, TaskProcessing, TaskFailed, TaskPaused}))
         (db_tasks d))"

definition cancel_scheduled_task ::
  "instant \<Rightarrow> uuid \<Rightarrow> uuid \<Rightarrow> task_row list \<Rightarrow> bool \<times> task_row list" where
  "cancel_scheduled_task now user_id task_id tasks =
     (case find (\<lambda>t. st_id t = task_id \<and> st_user t = user_id) tasks of
        None \<Rightarrow> (False, tasks)
      | Some t \<Rightarrow>
          if st_status t \<in> {TaskCompleted, TaskCancelled} then (True, tasks)
          else (True, upd_where (\<lambda>q. st_id q = task_id)
                 (\<lambda>q. q\<lparr>st_status := TaskCancelled, st_cancelled := Some now, st_locked := None\<rparr>) tasks))"

definition task_eligible :: "instant \<Rightarrow> task_row \<Rightarrow> bool" where
  "task_eligible now t \<longleftrightarrow>
     (st_status t = TaskActive \<and> st_next t \<le> now) \<or>
     (st_status t = TaskFailed \<and> st_next t \<le> now) \<or>
     (st_status t = TaskProcessing \<and>
        (case st_locked t of None \<Rightarrow> False | Some l \<Rightarrow> l \<le> now - minutes 5))"

definition hold_task :: "instant \<Rightarrow> task_row \<Rightarrow> task_row" where
  "hold_task now t =
     t\<lparr>st_status := TaskProcessing, st_attempts := st_attempts t + 1, st_locked := Some now, st_error := None\<rparr>"

definition claim_task :: "int \<Rightarrow> instant \<Rightarrow> uuid option \<Rightarrow> task_row list \<Rightarrow> task_row option \<times> task_row list" where
  "claim_task max_attempts now task_id tasks =
     (case least_by (\<lambda>t. (st_next t, st_created t))
             (filter (\<lambda>t. task_eligible now t \<and> st_attempts t < max_attempts \<and>
                (task_id = None \<or> task_id = Some (st_id t))) tasks) of
        None \<Rightarrow> (None, tasks)
      | Some t \<Rightarrow> (Some (hold_task now t), upd_where (\<lambda>q. st_id q = st_id t) (hold_task now) tasks))"

text \<open>\<open>str\<close> of a \<open>KeyError\<close> is the quoted message.\<close>

definition quoted :: "string \<Rightarrow> string" where
  "quoted s = [char_of (39::int)] @ s @ [char_of (39::int)]"

definition completed_task :: "(string \<Rightarrow> zone_lookup) \<Rightarrow> instant \<Rightarrow> task_row \<Rightarrow> string + task_row" where
  "completed_task zones now t =
     (let u = t\<lparr>st_runs := st_runs t + 1, st_attempts := 0, st_locked := None, st_last_run := Some now,
                st_error := None\<rparr>
      in if st_recurrence t = Once
         then Inr (u\<lparr>st_status := TaskCompleted, st_completed := Some now\<rparr>)
         else case zones (st_timezone t) of
                NoZone \<Rightarrow> Inl (quoted (''No time zone found with key '' @ st_timezone t))
              | MalformedZone m \<Rightarrow> Inl m
              | ZoneIs z \<Rightarrow>
                  let next = next_recurring_run z (st_recurrence t) (st_for t) now
                  in Inr (u\<lparr>st_for := next, st_next := next, st_status := TaskActive\<rparr>))"

text \<open>\<open>_complete_task\<close>, or the text of what it raises.\<close>

definition complete_task ::
  "(string \<Rightarrow> zone_lookup) \<Rightarrow> instant \<Rightarrow> uuid \<Rightarrow> task_row list \<Rightarrow> string + task_row list" where
  "complete_task zones now task_id tasks =
     (case row_by st_id task_id tasks of
        None \<Rightarrow> Inr tasks
      | Some t \<Rightarrow>
          if st_status t = TaskCancelled then Inr tasks
          else bindR (completed_task zones now t) (\<lambda>u. Inr (upd_where (\<lambda>q. st_id q = task_id) (\<lambda>_. u) tasks)))"

definition fail_task :: "instant \<Rightarrow> string \<Rightarrow> task_row \<Rightarrow> task_row" where
  "fail_task now err t =
     t\<lparr>st_status := TaskFailed, st_error := Some (take 2000 err), st_locked := None,
       st_next := now + seconds (backoff_seconds (st_attempts t))\<rparr>"

definition retry_task :: "instant \<Rightarrow> uuid \<Rightarrow> string \<Rightarrow> task_row list \<Rightarrow> task_row list" where
  "retry_task now task_id err tasks =
     (case row_by st_id task_id tasks of
        None \<Rightarrow> tasks
      | Some t \<Rightarrow>
          if st_status t = TaskCancelled then tasks
          else upd_where (\<lambda>q. st_id q = task_id) (fail_task now err) tasks)"

section \<open>Dispatch\<close>

definition AGENT_REACHOUT_ACTION :: string where
  "AGENT_REACHOUT_ACTION = ''agent.reachout''"

definition FINANCIAL_SYNC_ACTION :: string where
  "FINANCIAL_SYNC_ACTION = ''finance.sync''"

definition dispatch_agent_reachout :: "instant \<Rightarrow> db \<Rightarrow> task_row \<Rightarrow> db" where
  "dispatch_agent_reachout now d t =
     snd (enqueue_user_event now d (st_user t) (st_conv t) ''schedule.triggered'' (st_source t)
       (''schedule.triggered:'' @ str_uuid (st_id t) @ '':'' @ isoformat (st_for t))
       [(''schedule_id'', JStr (str_uuid (st_id t))),
        (''title'', JStr (st_title t)),
        (''goal'', get_or_null (st_payload t) ''goal''),
        (''schedule_source'', JStr (st_source t)),
        (''tool_policy'', get_or_null (st_payload t) ''tool_policy''),
        (''generated_app_id'', get_or_null (st_payload t) ''generated_app_id''),
        (''generated_app_title'', get_or_null (st_payload t) ''generated_app_title''),
        (''scheduled_for'', JStr (isoformat (st_for t))),
        (''timezone'', JStr (st_timezone t)),
        (''recurrence'', JStr (recurrence_str (st_recurrence t))),
        (''run_count'', JInt (st_runs t + 1))]
       (st_provider t))"

record schedule_env =
  se_max :: int
  se_zones :: "string \<Rightarrow> zone_lookup"
  se_sync :: "string \<Rightarrow> bool \<Rightarrow> string option \<Rightarrow> db \<Rightarrow> string option \<times> db"
  se_delete :: "uuid \<Rightarrow> db \<Rightarrow> string option \<times> db"

text \<open>The action of a task: the exception it raised, if any, and the new state.\<close>

definition run_task_action :: "schedule_env \<Rightarrow> instant \<Rightarrow> db \<Rightarrow> task_row \<Rightarrow> string option \<times> db" where
  "run_task_action env now d t =
     (if st_action t = AGENT_REACHOUT_ACTION then (None, dispatch_agent_reachout now d t)
      else if st_action t = FINANCIAL_SYNC_ACTION
      then (case get_or_null (st_payload t) ''connection_id'' of
              JStr cid \<Rightarrow> se_sync env cid (truthy (get_or_null (st_payload t) ''notify_on_complete'')) (st_provider t) d
            | _ \<Rightarrow> (Some ''financial sync task is missing connection_id'', d))
      else if st_action t = ''account.delete'' then se_delete env (st_user t) d
      else (Some (''No scheduled action handler for '' @ st_action t), d))"

definition set_tasks :: "db \<Rightarrow> task_row list \<Rightarrow> db" where
  "set_tasks d rows = d\<lparr>db_tasks := rows\<rparr>"

definition dispatch_due_scheduled_task :: "schedule_env \<Rightarrow> instant \<Rightarrow> db \<Rightarrow> uuid option \<Rightarrow> bool \<times> db" where
  "dispatch_due_scheduled_task env now d task_id =
     (case claim_task (se_max env) now task_id (db_tasks d) of
        (None, _) \<Rightarrow> (False, d)
      | (Some t, rows) \<Rightarrow>
          (True,
           case run_task_action env now (set_tasks d rows) t of
             (Some err, d1) \<Rightarrow> set_tasks d1 (retry_task now (st_id t) err (db_tasks d1))
           | (None, d1) \<Rightarrow>
               (case complete_task (se_zones env) now (st_id t) (db_tasks d1) of
                  Inr rows' \<Rightarrow> set_tasks d1 rows'
                | Inl err \<Rightarrow> set_tasks d1 (retry_task now (st_id t) err (db_tasks d1)))))"

section \<open>The contracts\<close>

interpretation task_keys: keyed_insert db_tasks st_key
  "\<lambda>(u, c, action, source, key, title, payload, at, tz, r, p). key"
  "\<lambda>(u, c, action, source, key, title, payload, at, tz, r, p) now d.
     create_scheduled_task zones now d u c action source key title payload at tz r p"
  for zones
proof (unfold_locales, goal_cases)
  case (1 x d r now)
  then show ?case by (simp add: create_scheduled_task_def split: prod.splits)
next
  case (2 x d now r d')
  then show ?case
    by (auto simp: create_scheduled_task_def take_id_def Let_def result_simps split: prod.splits)
qed

lemma create_task_found:
  assumes "create_scheduled_task zones now d u c action source key title payload at tz r p = Inr (t, d')"
  shows "t \<in> set (db_tasks d') \<and> st_key t = key"
proof -
  have "(case (u, c, action, source, key, title, payload, at, tz, r, p) of
      (u, c, action, source, key, title, payload, at, tz, r, p) \<Rightarrow> \<lambda>now d.
        create_scheduled_task zones now d u c action source key title payload at tz r p) now d = Inr (t, d')"
    using assms by simp
  from task_keys.insert_returns_row [OF this] show ?thesis by (auto dest: find_SomeD)
qed

lemma create_task_other:
  assumes "create_scheduled_task zones now d u c action source key title payload at tz r p = Inr (t, d')"
  shows "db_events d' = db_events d" "db_apps d' = db_apps d" "db_records d' = db_records d"
    "db_revisions d' = db_revisions d" "db_deployments d' = db_deployments d" "db_jobs d' = db_jobs d"
    "db_next d \<le> db_next d'"
  using assms by (auto simp: create_scheduled_task_def take_id_def Let_def result_simps split: option.splits)

interpretation tasks: backoff_queue st_id st_attempts "\<lambda>t. (st_next t, st_created t)" task_eligible hold_task
  "minutes 5" claim_task fail_task
  by unfold_locales
    (auto simp: hold_task_def task_eligible_def fail_task_def claim_task_def split: option.splits)

section \<open>The next run\<close>

lemma next_wall_after: "after < next_wall r c after"
proof (induction r c after rule: next_wall.induct)
  case (1 r c a)
  then show ?case by (subst next_wall.simps) auto
qed

lemma next_wall_ge: "c \<le> next_wall r c after"
proof (induction r c after rule: next_wall.induct)
  case (1 r c a)
  then show ?case using step_of_pos [of r] by (subst next_wall.simps) fastforce
qed

lemma next_wall_least: "next_wall r c after \<le> max c (after + step_of r)"
proof (induction r c after rule: next_wall.induct)
  case (1 r c a)
  show ?case
  proof (cases "c \<le> a")
    case True
    with 1 show ?thesis by (subst next_wall.simps) auto
  next
    case False
    then show ?thesis by (subst next_wall.simps) auto
  qed
qed

lemma next_wall_step: "\<exists>k\<ge>0. next_wall r c after = c + k * step_of r"
proof (induction r c after rule: next_wall.induct)
  case (1 r c a)
  show ?case
  proof (cases "c \<le> a")
    case True
    with 1 obtain k where "k \<ge> 0" "next_wall r (c + step_of r) a = (c + step_of r) + k * step_of r" by blast
    with True show ?thesis
      by (subst next_wall.simps) (intro exI [of _ "k + 1"], simp add: algebra_simps)
  next
    case False
    then show ?thesis by (subst next_wall.simps) (intro exI [of _ 0], simp)
  qed
qed

text \<open>A zone in which a later wall clock reading than the one of \<open>now\<close> is a later instant; every zone
  without a change of its offset is one.\<close>

definition ordered_at :: "zone \<Rightarrow> instant \<Rightarrow> bool" where
  "ordered_at z now \<longleftrightarrow> (\<forall>w f. fst (zn_local z now) < w \<longrightarrow> now < zn_utc z (w, f))"

definition fixed_zone :: "int \<Rightarrow> zone" where
  "fixed_zone offset = \<lparr>zn_local = (\<lambda>t. (t + offset, False)), zn_utc = (\<lambda>(w, f). w - offset)\<rparr>"

lemma ordered_fixed: "ordered_at (fixed_zone offset) now"
  by (simp add: ordered_at_def fixed_zone_def)

lemma next_recurring_run_after: "ordered_at z now \<Longrightarrow> now < next_recurring_run z r at now"
  by (auto simp: next_recurring_run_def ordered_at_def next_wall_after split: prod.splits)

lemma next_recurring_run_fixed:
  "\<exists>k\<ge>0. next_recurring_run (fixed_zone offset) r at now = at + k * step_of r"
  using next_wall_step [of r "at + offset" "now + offset"]
  by (auto simp: next_recurring_run_def fixed_zone_def)

text \<open>C19. In any time zone the next recurring run is the first reading of the wall clock that is a whole
  number of days (weeks) after the scheduled one and later than the current reading: the loop terminates, the time
  of day is kept, and no due day is skipped.\<close>

theorem next_run_keeps_wall_clock:
  "\<exists>k\<ge>0. next_recurring_run z r at now = zn_utc z (fst (zn_local z at) + k * step_of r, snd (zn_local z at)) \<and>
     fst (zn_local z now) < fst (zn_local z at) + k * step_of r \<and>
     (k = 0 \<or> fst (zn_local z at) + (k - 1) * step_of r \<le> fst (zn_local z now))"
proof -
  let ?c = "fst (zn_local z at)" and ?a = "fst (zn_local z now)"
  obtain k where k: "k \<ge> 0" "next_wall r ?c ?a = ?c + k * step_of r" using next_wall_step by blast
  have "k = 0 \<or> ?c + (k - 1) * step_of r \<le> ?a"
    using next_wall_least [of r ?c ?a] step_of_pos [of r] k by (auto simp: max_def algebra_simps split: if_splits)
      (smt (verit, best) mult_pos_pos)
  then show ?thesis
    using k next_wall_after [of ?a r ?c]
    by (intro exI [of _ k]) (auto simp: next_recurring_run_def split: prod.split)
qed

text \<open>Where the clock is not turned back, a recurring task that completes is scheduled strictly into the
  future, so it is not due again at once.\<close>

theorem completed_recurring_task_is_in_the_future:
  assumes "completed_task zones now t = Inr u" "st_recurrence t \<noteq> Once"
    and "zones (st_timezone t) = ZoneIs z" "ordered_at z now"
  shows "now < st_next u \<and> st_for u = st_next u \<and> st_status u = TaskActive \<and> st_runs u = st_runs t + 1 \<and>
    \<not> task_eligible now u"
  using assms next_recurring_run_after [OF assms(4), of "st_recurrence t" "st_for t"]
  by (auto simp: completed_task_def Let_def task_eligible_def)

definition sample_task :: task_row where
  "sample_task = \<lparr>st_id = 7, st_user = 1, st_conv = None, st_action = ''agent.reachout'', st_source = ''agent'',
     st_key = ''t'', st_title = ''T'', st_payload = [], st_provider = None, st_timezone = ''Europe/Berlin'',
     st_recurrence = Daily, st_for = seconds 1761438600, st_next = seconds 1761438600,
     st_status = TaskProcessing, st_attempts = 1, st_runs = 0, st_locked = Some (seconds 1761440700),
     st_last_run = None, st_completed = None, st_cancelled = None, st_error = None, st_created = 0\<rparr>"

theorem completed_recurring_task_is_in_the_future_witness:
  "seconds 1761440700 < st_next (projr (completed_task (\<lambda>_. ZoneIs (fixed_zone (seconds 3600))) (seconds 1761440700) sample_task))"
proof -
  let ?zones = "\<lambda>_. ZoneIs (fixed_zone (seconds 3600))"
  have r: "st_recurrence sample_task \<noteq> Once" by (simp add: sample_task_def)
  then have "completed_task ?zones (seconds 1761440700) sample_task =
      Inr (projr (completed_task ?zones (seconds 1761440700) sample_task))"
    by (simp add: completed_task_def Let_def)
  from completed_recurring_task_is_in_the_future [OF this r refl ordered_fixed] show ?thesis by simp
qed

text \<open>
  A clock that is turned back once, at the instant \<open>change\<close>, from \<open>hi\<close> ahead of UTC to \<open>lo\<close> ahead: the readings from
  \<open>change + lo\<close> to \<open>change + hi\<close> occur twice, and \<open>fold\<close> tells the second ones.
\<close>

definition turned_back :: "instant \<Rightarrow> int \<Rightarrow> int \<Rightarrow> zone" where
  "turned_back change hi lo =
     \<lparr>zn_local = (\<lambda>t. if t < change then (t + hi, False) else (t + lo, t < change + (hi - lo))),
      zn_utc = (\<lambda>(w, f). if w < change + lo \<or> (w < change + hi \<and> \<not> f) then w - hi else w - lo)\<rparr>"

lemma next_wall_first:
  assumes "0 \<le> j" "after < c + j * step_of r"
  shows "next_wall r c after \<le> c + j * step_of r"
proof -
  obtain k where k: "0 \<le> k" "next_wall r c after = c + k * step_of r" using next_wall_step by blast
  have "k \<le> j"
  proof (rule ccontr)
    assume "\<not> k \<le> j"
    then have "j \<le> k - 1" by simp
    with step_of_pos [of r] have "c + j * step_of r \<le> c + (k - 1) * step_of r" by (simp add: mult_right_mono)
    with assms(2) have late: "after < c + (k - 1) * step_of r" by simp
    have "next_wall r c after = c \<or> next_wall r c after \<le> after + step_of r"
      using next_wall_least [of r c after] next_wall_ge [of c r after] by auto
    with k late assms(1) \<open>\<not> k \<le> j\<close> step_of_pos [of r] show False by (auto simp: algebra_simps)
  qed
  with step_of_pos [of r] k(2) show ?thesis by (simp add: mult_right_mono)
qed

text \<open>The next run in such a zone lies in the past for the readings that occur again after \<open>now\<close>, and only for them.\<close>

lemma next_run_turned_back:
  assumes "lo < hi" "at \<le> now"
  shows "next_recurring_run (turned_back change hi lo) r at now \<le> now \<longleftrightarrow>
    (\<exists>k\<ge>0. at + k * step_of r < change \<and> change \<le> now \<and> now < at + k * step_of r + (hi - lo))"
    (is "?next \<le> now \<longleftrightarrow> (\<exists>k\<ge>0. ?again k)")
proof -
  let ?z = "turned_back change hi lo"
  let ?c = "fst (zn_local ?z at)" and ?a = "fst (zn_local ?z now)"
  obtain j where j: "0 \<le> j" "next_wall r ?c ?a = ?c + j * step_of r" using next_wall_step by blast
  have nxt: "?next = zn_utc ?z (?c + j * step_of r, snd (zn_local ?z at))"
    using j by (simp add: next_recurring_run_def case_prod_beta)
  have later: "?a < ?c + j * step_of r" using next_wall_after [of ?a r ?c] j by simp
  have grown: "0 \<le> j * step_of r" using j step_of_pos [of r] by simp
  show ?thesis
  proof
    assume "?next \<le> now"
    then have "?again j"
      using nxt later grown assms by (auto simp: turned_back_def split: if_splits)
    with j show "\<exists>k\<ge>0. ?again k" by blast
  next
    assume "\<exists>k\<ge>0. ?again k"
    then obtain k where k: "0 \<le> k" "?again k" by blast
    have kg: "0 \<le> k * step_of r" using k step_of_pos [of r] by simp
    have loc: "zn_local ?z at = (at + hi, False)" "?a = now + lo" using k kg by (auto simp: turned_back_def)
    have "next_wall r ?c ?a \<le> ?c + k * step_of r" by (rule next_wall_first) (use k loc in auto)
    then have "j * step_of r \<le> k * step_of r" using j by simp
    then have "?next = at + j * step_of r" using nxt loc k by (simp add: turned_back_def)
    with \<open>j * step_of r \<le> k * step_of r\<close> k show "?next \<le> now" by simp
  qed
qed

lemma next_run_again:
  assumes "at < change" "change \<le> now" "now < at + (hi - lo)"
  shows "next_recurring_run (turned_back change hi lo) r at now = at"
  using assms by (simp add: next_recurring_run_def turned_back_def next_wall.simps)


text \<open>Berlin on 26 October 2025: a daily task due at 02:30 that completes at 02:05, thirty-five minutes later.\<close>

definition berlin_autumn :: zone where
  "berlin_autumn = turned_back (seconds 1761440400) (seconds 7200) (seconds 3600)"


section \<open>Interleavings\<close>

datatype task_call =
    Create uuid "uuid option" string string string string obj py_datetime string string "string option"
  | Cancel uuid uuid
  | ClaimTask "uuid option"
  | Complete uuid
  | RetryTask uuid string

text \<open>One call, with the identifier of the task it claimed; a call that raises changes nothing.\<close>

fun run_task_call :: "schedule_env \<Rightarrow> instant \<times> task_call \<Rightarrow> db \<Rightarrow> uuid option \<times> db" where
  "run_task_call env (now, Create u c action source key title payload at tz r p) d =
     (None, case create_scheduled_task (se_zones env) now d u c action source key title payload at tz r p of
        Inl _ \<Rightarrow> d | Inr (_, d') \<Rightarrow> d')"
| "run_task_call env (now, Cancel u i) d = (None, set_tasks d (snd (cancel_scheduled_task now u i (db_tasks d))))"
| "run_task_call env (now, ClaimTask who) d =
     (case claim_task (se_max env) now who (db_tasks d) of
        (found, rows) \<Rightarrow> (map_option st_id found, set_tasks d rows))"
| "run_task_call env (now, Complete i) d =
     (None, case complete_task (se_zones env) now i (db_tasks d) of Inl _ \<Rightarrow> d | Inr rows \<Rightarrow> set_tasks d rows)"
| "run_task_call env (now, RetryTask i err) d = (None, set_tasks d (retry_task now i err (db_tasks d)))"

inductive task_step :: "schedule_env \<Rightarrow> db \<Rightarrow> uuid option \<Rightarrow> db \<Rightarrow> bool" for env where
  "run_task_call env c d = (found, d') \<Longrightarrow> task_step env d found d'"

inductive task_run :: "schedule_env \<Rightarrow> db \<Rightarrow> uuid option list \<Rightarrow> db \<Rightarrow> bool" for env where
  task_run_nil: "task_run env d [] d"
| task_run_snoc: "task_run env d claims d1 \<Longrightarrow> task_step env d1 found d2 \<Longrightarrow> task_run env d (claims @ [found]) d2"

inductive_cases task_stepE: "task_step env d found d'"

definition tasks_ok :: "int \<Rightarrow> db \<Rightarrow> bool" where
  "tasks_ok m d \<longleftrightarrow> distinct (map st_id (db_tasks d)) \<and> distinct (map st_key (db_tasks d)) \<and>
     (\<forall>t\<in>set (db_tasks d). st_id t < db_next d \<and> 0 \<le> st_attempts t \<and> st_attempts t \<le> m)"

lemma set_tasks_simps [simp]:
  "db_tasks (set_tasks d rows) = rows" "db_next (set_tasks d rows) = db_next d"
  "db_uevents (set_tasks d rows) = db_uevents d"
  by (simp_all add: set_tasks_def)

lemma completed_task_same:
  "completed_task zones now t = Inr u \<Longrightarrow> st_id u = st_id t \<and> st_key u = st_key t \<and> st_attempts u = 0"
  by (auto simp: completed_task_def Let_def split: if_splits zone_lookup.splits)

lemma create_task_Inr:
  assumes "create_scheduled_task zones now d u c action source key title payload at tz r p = Inr (t, d')"
  shows "d' = d \<or> (db_tasks d' = db_tasks d @ [t] \<and> db_next d' = db_next d + 1 \<and> st_id t = db_next d \<and>
     st_key t = key \<and> st_attempts t = 0 \<and> st_status t = TaskActive \<and> key \<notin> st_key ` set (db_tasks d))"
proof (cases "find (\<lambda>t. st_key t = key) (db_tasks d)")
  case None
  with assms show ?thesis
    by (auto simp: create_scheduled_task_def take_id_def Let_def result_simps find_None_iff)
next
  case (Some q)
  with assms show ?thesis by (simp add: create_scheduled_task_def)
qed

text \<open>Replacing rows in place keeps the table well-formed.\<close>

lemma tasks_ok_upd:
  assumes "tasks_ok m d" "\<And>t. t \<in> set (db_tasks d) \<Longrightarrow> p t \<Longrightarrow> st_id (f t) = st_id t \<and> st_key (f t) = st_key t \<and>
      0 \<le> st_attempts (f t) \<and> st_attempts (f t) \<le> m"
  shows "tasks_ok m (set_tasks d (upd_where p f (db_tasks d)))"
proof -
  have "map st_id (upd_where p f (db_tasks d)) = map st_id (db_tasks d)"
    "map st_key (upd_where p f (db_tasks d)) = map st_key (db_tasks d)"
    using assms(2) by (simp_all add: upd_where_def)
  with assms show ?thesis by (auto simp: tasks_ok_def in_set_upd_where)
qed

lemma set_tasks_same [simp]: "set_tasks d (db_tasks d) = d"
  by (simp add: set_tasks_def)

lemma task_step_ok:
  assumes "task_step env d found d'" "tasks_ok m d" "0 \<le> m" "se_max env \<le> m"
  shows "tasks_ok m d'"
  using assms(1)
proof (rule task_stepE)
  fix call
  assume run: "run_task_call env call d = (found, d')"
  obtain now c where call: "call = (now, c)" by (cases call)
  show ?thesis
  proof (cases c)
    case (Create u cv action source key title payload at tz r p)
    show ?thesis
    proof (cases "create_scheduled_task (se_zones env) now d u cv action source key title payload at tz r p")
      case (Inl e)
      with Create run call assms(2) show ?thesis by simp
    next
      case (Inr b)
      then obtain t d1 where b: "create_scheduled_task (se_zones env) now d u cv action source key title payload at tz r p =
          Inr (t, d1)" by (cases b) auto
      then have "d' = d1" using Create run call by simp
      with create_task_Inr [OF b] assms(2,3) show ?thesis by (fastforce simp: tasks_ok_def less_SucI)
    qed
  next
    case (Cancel u i)
    have "tasks_ok m (set_tasks d (upd_where (\<lambda>q. st_id q = i)
        (\<lambda>q. q\<lparr>st_status := TaskCancelled, st_cancelled := Some now, st_locked := None\<rparr>) (db_tasks d)))"
      by (rule tasks_ok_upd [OF assms(2)]) (use assms(2) in \<open>simp_all add: tasks_ok_def\<close>)
    with Cancel run call assms(2) show ?thesis
      by (auto simp: cancel_scheduled_task_def split: option.splits if_splits)
  next
    case (ClaimTask who)
    obtain f rows where cl: "claim_task (se_max env) now who (db_tasks d) = (f, rows)"
      by (cases "claim_task (se_max env) now who (db_tasks d)")
    with ClaimTask run call have d': "d' = set_tasks d rows" by simp
    show ?thesis
    proof (cases f)
      case None
      with cl have "rows = db_tasks d" by (auto simp: claim_task_def split: option.splits)
      with d' assms(2) show ?thesis by simp
    next
      case (Some t')
      with cl obtain t where t: "t \<in> set (db_tasks d)" "st_attempts t < se_max env"
        "rows = upd_where (\<lambda>q. st_id q = st_id t) (hold_task now) (db_tasks d)"
        by (auto elim: tasks.claim_someE)
      have "q = t" if "q \<in> set (db_tasks d)" "st_id q = st_id t" for q
        using assms(2) t(1) that by (auto simp: tasks_ok_def distinct_map inj_on_def)
      then show ?thesis
        unfolding d' t(3) using t(2) assms(2,4)
        by (intro tasks_ok_upd) (fastforce simp: hold_task_def tasks_ok_def)+
    qed
  next
    case (Complete i)
    have "tasks_ok m (set_tasks d (upd_where (\<lambda>q. st_id q = i) (\<lambda>_. u) (db_tasks d)))"
      if "row_by st_id i (db_tasks d) = Some t" "completed_task (se_zones env) now t = Inr u" for t u
    proof (rule tasks_ok_upd [OF assms(2)])
      fix q
      assume "q \<in> set (db_tasks d)" "st_id q = i"
      with that(1) assms(2) have "q = t"
        by (auto simp: tasks_ok_def distinct_map inj_on_def dest: row_by_Some)
      with completed_task_same [OF that(2)] assms(3)
      show "st_id u = st_id q \<and> st_key u = st_key q \<and> 0 \<le> st_attempts u \<and> st_attempts u \<le> m" by simp
    qed
    with Complete run call assms(2) show ?thesis
      by (auto simp: complete_task_def bindR_def split: option.splits sum.splits if_splits)
  next
    case (RetryTask i err)
    have "tasks_ok m (set_tasks d (upd_where (\<lambda>q. st_id q = i) (fail_task now err) (db_tasks d)))"
      by (rule tasks_ok_upd [OF assms(2)]) (use assms(2) in \<open>simp_all add: tasks_ok_def fail_task_def\<close>)
    with RetryTask run call assms(2) show ?thesis
      by (auto simp: retry_task_def split: option.splits if_splits)
  qed
qed

lemma row_by_upd_other:
  "(\<And>r. p r \<Longrightarrow> key r \<noteq> k) \<Longrightarrow> (\<And>r. p r \<Longrightarrow> key (f r) = key r) \<Longrightarrow> row_by key k (upd_where p f rows) = row_by key k rows"
  by (induction rows) auto

text \<open>A step leaves a cancelled row as it is, and does not claim it.\<close>

lemma task_step_cancelled:
  assumes step: "task_step env d found d'" and ok: "tasks_ok m d"
    and row: "row_by st_id i (db_tasks d) = Some t" and st: "st_status t = TaskCancelled"
  shows "row_by st_id i (db_tasks d') = Some t \<and> found \<noteq> Some i"
  using step
proof (rule task_stepE)
  fix call
  assume run: "run_task_call env call d = (found, d')"
  obtain now c where call: "call = (now, c)" by (cases call)
  have only: "q = t" if "q \<in> set (db_tasks d)" "st_id q = i" for q
    using ok row_by_Some [OF row] that by (auto simp: tasks_ok_def distinct_map inj_on_def)
  show ?thesis
  proof (cases c)
    case (Create u cv action source key title payload at tz r p)
    with run call row create_task_Inr [of "se_zones env" now d u cv action source key title payload at tz r p]
    show ?thesis by (auto simp: row_by_append split: sum.splits)
  next
    case (Cancel u k)
    show ?thesis
    proof (cases "k = i")
      case True
      with Cancel run call row st only show ?thesis
        by (auto simp: cancel_scheduled_task_def split: option.splits dest!: find_SomeD)
    next
      case False
      have "row_by st_id i (upd_where (\<lambda>q. st_id q = k)
          (\<lambda>q. q\<lparr>st_status := TaskCancelled, st_cancelled := Some now, st_locked := None\<rparr>) (db_tasks d)) = Some t"
        by (subst row_by_upd_other) (use row False in simp_all)
      with Cancel run call row show ?thesis
        by (auto simp: cancel_scheduled_task_def split: option.splits if_splits)
    qed
  next
    case (ClaimTask who)
    obtain f rows where cl: "claim_task (se_max env) now who (db_tasks d) = (f, rows)"
      by (cases "claim_task (se_max env) now who (db_tasks d)")
    with ClaimTask run call have d': "db_tasks d' = rows" "found = map_option st_id f" by auto
    show ?thesis
    proof (cases f)
      case None
      with cl have "rows = db_tasks d" by (auto simp: claim_task_def split: option.splits)
      with d' row None show ?thesis by simp
    next
      case (Some t')
      with cl obtain q where q: "q \<in> set (db_tasks d)" "task_eligible now q" "t' = hold_task now q"
        "rows = upd_where (\<lambda>p. st_id p = st_id q) (hold_task now) (db_tasks d)"
        by (auto elim: tasks.claim_someE)
      have "st_id q \<noteq> i" using only [OF q(1)] q(2) st by (auto simp: task_eligible_def)
      then have "row_by st_id i (upd_where (\<lambda>p. st_id p = st_id q) (hold_task now) (db_tasks d)) = Some t"
        by (subst row_by_upd_other) (use row in \<open>simp_all add: hold_task_def\<close>)
      with q d' Some \<open>st_id q \<noteq> i\<close> show ?thesis by (simp add: hold_task_def)
    qed
  next
    case (Complete k)
    show ?thesis
    proof (cases "k = i")
      case True
      with Complete run call row st show ?thesis by (auto simp: complete_task_def)
    next
      case False
      have "row_by st_id i (upd_where (\<lambda>q. st_id q = k) (\<lambda>_. u) (db_tasks d)) = Some t"
        if "row_by st_id k (db_tasks d) = Some q" "completed_task (se_zones env) now q = Inr u" for q u
        by (subst row_by_upd_other)
          (use row False row_by_Some [OF that(1)] completed_task_same [OF that(2)] in simp_all)
      with Complete run call row show ?thesis
        by (auto simp: complete_task_def bindR_def split: option.splits sum.splits if_splits)
    qed
  next
    case (RetryTask k err)
    show ?thesis
    proof (cases "k = i")
      case True
      with RetryTask run call row st show ?thesis by (auto simp: retry_task_def)
    next
      case False
      have "row_by st_id i (upd_where (\<lambda>q. st_id q = k) (fail_task now err) (db_tasks d)) = Some t"
        by (subst row_by_upd_other) (use row False in \<open>simp_all add: fail_task_def\<close>)
      with RetryTask run call row show ?thesis
        by (auto simp: retry_task_def split: option.splits if_splits)
    qed
  qed
qed

text \<open>C21. Cancellation is final: from a state in which a task is cancelled, whatever creations, claims,
  completions and retries follow (late ones of a worker that still holds the task included), its row never changes
  again and no worker ever claims it.\<close>

theorem cancelled_task_stays_cancelled:
  assumes "task_run env d claims d'" "tasks_ok m d" "0 \<le> m" "se_max env \<le> m"
    and "row_by st_id i (db_tasks d) = Some t" "st_status t = TaskCancelled"
  shows "row_by st_id i (db_tasks d') = Some t \<and> Some i \<notin> set claims"
proof -
  have "row_by st_id i (db_tasks d') = Some t \<and> Some i \<notin> set claims \<and> tasks_ok m d'"
    using assms(1,2,5)
  proof (induction rule: task_run.induct)
    case (task_run_nil d)
    then show ?case by simp
  next
    case (task_run_snoc d claims d1 found d2)
    from task_run_snoc.IH [OF task_run_snoc.prems] have
      ih: "row_by st_id i (db_tasks d1) = Some t" "Some i \<notin> set claims" "tasks_ok m d1" by auto
    from task_step_cancelled [OF task_run_snoc.hyps(2) ih(3,1) assms(6)]
      task_step_ok [OF task_run_snoc.hyps(2) ih(3) assms(3,4)] ih(2)
    show ?case by auto
  qed
  then show ?thesis by simp
qed

definition sample_schedule_env :: schedule_env where
  "sample_schedule_env = \<lparr>se_max = 3, se_zones = (\<lambda>_. ZoneIs (fixed_zone 0)),
     se_sync = (\<lambda>_ _ _ d. (None, d)), se_delete = (\<lambda>_ d. (None, d))\<rparr>"

definition cancelled_db :: db where
  "cancelled_db = set_tasks (empty_db\<lparr>db_next := 8\<rparr>) [sample_task\<lparr>st_status := TaskCancelled\<rparr>]"

theorem cancelled_task_stays_cancelled_witness:
  "row_by st_id 7 (db_tasks (snd (run_task_call sample_schedule_env (seconds 1761440700, RetryTask 7 ''late'') cancelled_db))) =
     Some (sample_task\<lparr>st_status := TaskCancelled\<rparr>)"
proof -
  let ?c = "(seconds 1761440700, RetryTask 7 ''late'')"
  have run: "task_run sample_schedule_env cancelled_db [None] (snd (run_task_call sample_schedule_env ?c cancelled_db))"
    using task_run_snoc [OF task_run_nil task_step.intros [of sample_schedule_env ?c cancelled_db None]] by simp
  have ok: "tasks_ok 3 cancelled_db" by (simp add: tasks_ok_def cancelled_db_def sample_task_def)
  have row: "row_by st_id 7 (db_tasks cancelled_db) = Some (sample_task\<lparr>st_status := TaskCancelled\<rparr>)"
    by (simp add: cancelled_db_def sample_task_def)
  have m: "0 \<le> (3::int)" "se_max sample_schedule_env \<le> 3" by (simp_all add: sample_schedule_env_def)
  from cancelled_task_stays_cancelled [OF run ok m row] show ?thesis by simp
qed

text \<open>Running a reach-out again for the same scheduled instant, as the repeated runs of an hour that occurs
  twice do, puts no second event into the outbox.\<close>

theorem reachout_is_sent_once_per_instant:
  assumes "st_id t' = st_id t" "st_for t' = st_for t"
  shows "dispatch_agent_reachout now' (dispatch_agent_reachout now d t) t' = dispatch_agent_reachout now d t"
  unfolding dispatch_agent_reachout_def assms by (rule arg_cong [where f = snd]) (rule enqueue_again)

theorem reachout_is_sent_once_per_instant_witness:
  "length (db_uevents (dispatch_agent_reachout 9 (dispatch_agent_reachout 5 empty_db sample_task)
     (sample_task\<lparr>st_runs := 1\<rparr>))) = 1"
proof -
  have "dispatch_agent_reachout 9 (dispatch_agent_reachout 5 empty_db sample_task) (sample_task\<lparr>st_runs := 1\<rparr>) =
      dispatch_agent_reachout 5 empty_db sample_task"
    by (rule reachout_is_sent_once_per_instant) simp_all
  then show ?thesis
    by (simp add: dispatch_agent_reachout_def enqueue_user_event_def empty_db_def take_id_def Let_def)
qed

end
