(* ===== verification/App_Reminders.thy ===== *)
theory App_Reminders
  imports Schedules Dot_Samples
begin

text \<open>
  The one proactive capability of a generated app (\<open>create_app_reminder\<close> of
  \<open>services/generated_apps_v2.py\<close>): a verified owner or editor of an app whose active revision was
  granted the capability schedules a message to themselves. It is journaled like a data mutation.
\<close>

definition MAX_REMINDER_HORIZON :: int where
  "MAX_REMINDER_HORIZON = days (5 * 366)"

definition timezone_char :: "char \<Rightarrow> bool" where
  "timezone_char c \<longleftrightarrow> is_upper c \<or> is_lower c \<or> is_digit c \<or> c = CHR ''_'' \<or> c = CHR ''+'' \<or> c = CHR ''-''"

text \<open>\<open>[A-Za-z0-9_+-]+(?:/[A-Za-z0-9_+-]+)*\<close> with \<open>fullmatch\<close>.\<close>

definition is_timezone_name :: "string \<Rightarrow> bool" where
  "is_timezone_name s \<longleftrightarrow> (\<forall>part\<in>set (split_on (CHR ''/'') s). part \<noteq> [] \<and> list_all timezone_char part)"

text \<open>\<open>_aware_utc\<close> of \<open>generated_apps_v2.py\<close>, which refuses a naive time.\<close>

primrec require_aware :: "py_datetime \<Rightarrow> app_error + instant" where
  "require_aware (Naive t) = Inl CodeAppValidation"
| "require_aware (Aware t) = Inr t"

record reminder_request =
  rq_title :: string
  rq_goal :: string
  rq_for :: instant
  rq_timezone :: string
  rq_recurrence :: string
  rq_key :: string
  rq_hash :: string

datatype reminder_result = LiveTask task_row | StoredTask stored_task

definition task_snapshot :: "task_row \<Rightarrow> stored_task" where
  "task_snapshot t =
     \<lparr>sk_id = st_id t, sk_title = st_title t, sk_goal = get_or_null (st_payload t) ''goal'',
      sk_for = st_for t, sk_timezone = st_timezone t, sk_recurrence = recurrence_str (st_recurrence t),
      sk_provider = st_provider t\<rparr>"

primrec shown_task :: "reminder_result \<Rightarrow> stored_task" where
  "shown_task (LiveTask t) = task_snapshot t"
| "shown_task (StoredTask s) = s"

definition check_reminder_request ::
  "(string \<Rightarrow> string) \<Rightarrow> instant \<Rightarrow> string \<Rightarrow> string \<Rightarrow> py_datetime \<Rightarrow> string \<Rightarrow> string \<Rightarrow> string \<Rightarrow>
   app_error + reminder_request" where
  "check_reminder_request sha now title goal run_at timezone recurrence key =
     bindR (text_value (JStr title) 160) (\<lambda>clean_title.
     bindR (text_value (JStr goal) 500) (\<lambda>clean_goal.
     bindR (text_value (JStr timezone) 64) (\<lambda>clean_timezone.
       if \<not> is_timezone_name clean_timezone then Inl CodeAppValidation
       else if recurrence_of recurrence = None then Inl CodeAppValidation
       else bindR (require_aware run_at) (\<lambda>at.
         if now + MAX_REMINDER_HORIZON < at then Inl CodeAppValidation
         else bindR (text_value (JStr key) 160) (\<lambda>clean_key.
              bindR (idempotency_request_hash sha ''dot.reminder.create''
                [(''title'', JStr clean_title), (''goal'', JStr clean_goal),
                 (''run_at'', JStr (isoformat at)), (''timezone'', JStr clean_timezone),
                 (''recurrence'', JStr recurrence)]) (\<lambda>h.
                Inr \<lparr>rq_title = clean_title, rq_goal = clean_goal, rq_for = at,
                     rq_timezone = clean_timezone, rq_recurrence = recurrence, rq_key = clean_key,
                     rq_hash = h\<rparr>))))))"

text \<open>A refusal of the scheduler becomes the validation error of the app; its uncaught \<open>ValueError\<close> passes.\<close>

primrec reminder_error :: "schedule_error \<Rightarrow> app_error" where
  "reminder_error ScheduleValidation = CodeAppValidation"
| "reminder_error ScheduleValueError = UncaughtValueError"

definition lift_error :: "('a \<Rightarrow> 'b) \<Rightarrow> 'a + 'c \<Rightarrow> 'b + 'c" where
  "lift_error f = map_sum f id"

definition reminder_key :: "app_row \<Rightarrow> reminder_request \<Rightarrow> string" where
  "reminder_key app rq = ''generated_app.reminder:'' @ str_uuid (ga_id app) @ '':'' @ rq_key rq"

definition schedule_reminder ::
  "(string \<Rightarrow> zone_lookup) \<Rightarrow> instant \<Rightarrow> db \<Rightarrow> app_row \<Rightarrow> app_actor \<Rightarrow> uuid \<Rightarrow> reminder_request \<Rightarrow>
   app_error + (reminder_result \<times> db)" where
  "schedule_reminder zones now d app actor user_id rq =
     bindR (active_manifest d (ga_id app)) (\<lambda>manifest.
     bindR (capabilities_of manifest) (\<lambda>capabilities.
       if DOT_REMINDER_CREATE_CAPABILITY \<notin> set capabilities then Inl CodeAppAuthorization
       else
         bindR (lift_error (\<lambda>_. DirectUserMissing) (resolve_direct_conversation now d user_id None)) (\<lambda>(direct, d1).
         bindR (lift_error reminder_error
                  (create_scheduled_task zones now d1 user_id (Some (cv_id direct)) AGENT_REACHOUT_ACTION
                     ''generated_app''
                     (reminder_key app rq) (rq_title rq)
                     [(''goal'', JStr (rq_goal rq)), (''generated_app_id'', JStr (str_uuid (ga_id app))),
                      (''generated_app_title'', JStr (ga_title app)), (''tool_policy'', JStr ''message_only'')]
                     (Aware (rq_for rq)) (rq_timezone rq) (rq_recurrence rq)
                     (preferred_delivery_provider d1 (cv_id direct)))) (\<lambda>(task, d2).
           case take_id d2 of (eid, d3) \<Rightarrow>
             Inr (LiveTask task, d3\<lparr>db_events := db_events d3 @
               [\<lparr>ev_id = eid, ev_app = ga_id app, ev_record = None, ev_entity = None,
                 ev_type = ''app.reminder.created'', ev_user = ac_user actor, ev_session = ac_session actor,
                 ev_key = rq_key rq, ev_operation = Some ''dot.reminder.create'', ev_hash = Some (rq_hash rq),
                 ev_response = TaskResponse (task_snapshot task),
                 ev_payload = [(''schedule_id'', JStr (str_uuid (st_id task))), (''title'', JStr (st_title task)),
                   (''scheduled_for'', JStr (isoformat (st_for task))), (''timezone'', JStr (st_timezone task)),
                   (''recurrence'', JStr (recurrence_str (st_recurrence task)))],
                 ev_created = now\<rparr>]\<rparr>)))))"

definition may_remind :: "app_actor \<Rightarrow> uuid option" where
  "may_remind actor =
     (if ac_verified actor \<and> ac_role actor \<in> {Owner, Editor} then ac_user actor else None)"

definition create_app_reminder ::
  "(string \<Rightarrow> string) \<Rightarrow> (string \<Rightarrow> zone_lookup) \<Rightarrow> instant \<Rightarrow> db \<Rightarrow> uuid \<Rightarrow> app_actor \<Rightarrow> string \<Rightarrow> string \<Rightarrow>
   py_datetime \<Rightarrow> string \<Rightarrow> string \<Rightarrow> string \<Rightarrow> app_error + (reminder_result \<times> db)" where
  "create_app_reminder sha zones now d app_id actor0 title goal run_at timezone recurrence key =
     bindR (reauthorize_actor now d app_id actor0) (\<lambda>actor.
     bindR (some_or CodeAppAuthorization (may_remind actor)) (\<lambda>user_id.
     bindR (code_app d app_id) (\<lambda>app.
     bindR (check_reminder_request sha now title goal run_at timezone recurrence key) (\<lambda>rq.
       journaled_mutation now d app_id actor (rq_key rq)
         (\<lambda>e. bindR (stored_task_from_event e ''dot.reminder.create'' (rq_hash rq)) (\<lambda>s. Inr (StoredTask s, d)))
         (schedule_reminder zones now d app actor user_id rq)))))"

section \<open>Lemmas\<close>

lemma lift_error_Inr [result_simps]: "lift_error f m = Inr x \<longleftrightarrow> m = Inr x"
  by (cases m) (simp_all add: lift_error_def)

lemma check_reminder_request_clean:
  "check_reminder_request sha now title goal at tz rec key = Inr rq \<Longrightarrow> text_value (JStr (rq_key rq)) 160 = Inr (rq_key rq)"
  by (auto simp: check_reminder_request_def bindR_Inr simp del: text_value.simps split: if_splits intro: text_value_idem)

type_synonym reminder_args = "uuid \<times> app_actor \<times> string \<times> string \<times> py_datetime \<times> string \<times> string \<times> string"

lemma schedule_reminder_Inr:
  assumes "schedule_reminder zones now d app actor u rq = Inr (res, d')"
  shows "\<exists>task d1 direct manifest names e. active_manifest d (ga_id app) = Inr manifest \<and>
    capabilities_of manifest = Inr names \<and> DOT_REMINDER_CREATE_CAPABILITY \<in> set names \<and>
    resolve_direct_conversation now d u None = Inr (direct, d1) \<and> res = LiveTask task \<and>
    st_key task = reminder_key app rq \<and>
    task \<in> set (db_tasks d') \<and> db_events d' = db_events d @ [e] \<and> ev_app e = ga_id app \<and> ev_key e = rq_key rq \<and>
    ev_operation e = Some ''dot.reminder.create'' \<and> ev_hash e = Some (rq_hash rq) \<and>
    ev_response e = TaskResponse (task_snapshot task)"
proof -
  from assms obtain manifest names direct d1 task d2 where
    m: "active_manifest d (ga_id app) = Inr manifest" "capabilities_of manifest = Inr names"
      "DOT_REMINDER_CREATE_CAPABILITY \<in> set names"
    and dir: "resolve_direct_conversation now d u None = Inr (direct, d1)"
    and t: "create_scheduled_task zones now d1 u (Some (cv_id direct)) AGENT_REACHOUT_ACTION ''generated_app''
        (reminder_key app rq) (rq_title rq)
        [(''goal'', JStr (rq_goal rq)), (''generated_app_id'', JStr (str_uuid (ga_id app))),
         (''generated_app_title'', JStr (ga_title app)), (''tool_policy'', JStr ''message_only'')]
        (Aware (rq_for rq)) (rq_timezone rq) (rq_recurrence rq)
        (preferred_delivery_provider d1 (cv_id direct)) = Inr (task, d2)"
    and res: "res = LiveTask task" "\<exists>e. db_events d' = db_events d2 @ [e] \<and> ev_app e = ga_id app \<and> ev_key e = rq_key rq \<and>
      ev_operation e = Some ''dot.reminder.create'' \<and> ev_hash e = Some (rq_hash rq) \<and>
      ev_response e = TaskResponse (task_snapshot task)" "db_tasks d' = db_tasks d2"
    unfolding schedule_reminder_def by (auto simp: bindR_Inr lift_error_Inr if_Inr_raise take_id_def)
  have "task \<in> set (db_tasks d2) \<and> st_key task = reminder_key app rq" by (rule create_task_found [OF t])
  moreover have "db_events d2 = db_events d1" by (rule create_task_other [OF t])
  moreover have "db_events d1 = db_events d" by (rule resolve_direct_conversation_other(5) [OF dir])
  ultimately show ?thesis using m dir res by metis
qed

definition reminder_gate :: "instant \<Rightarrow> db \<Rightarrow> uuid \<Rightarrow> app_actor \<Rightarrow> py_datetime \<Rightarrow> bool" where
  "reminder_gate now d app_id actor0 run_at \<longleftrightarrow>
     (\<exists>actor u app. reauthorize_actor now d app_id actor0 = Inr actor \<and> may_remind actor = Some u \<and>
        code_app d app_id = Inr app) \<and>
     (case run_at of Naive _ \<Rightarrow> True | Aware t \<Rightarrow> t \<le> now + MAX_REMINDER_HORIZON)"

text \<open>The key and hash of a request, which do not depend on the clock.\<close>

definition reminder_request_key ::
  "(string \<Rightarrow> string) \<Rightarrow> string \<Rightarrow> string \<Rightarrow> py_datetime \<Rightarrow> string \<Rightarrow> string \<Rightarrow> string \<Rightarrow> app_error + (string \<times> string)" where
  "reminder_request_key sha title goal run_at tz rec key =
     bindR (check_reminder_request sha (aware_utc run_at) title goal run_at tz rec key) (\<lambda>rq.
       Inr (rq_key rq, rq_hash rq))"

definition task_answer :: "event_response \<Rightarrow> app_error + reminder_result" where
  "task_answer response = (case response of TaskResponse s \<Rightarrow> Inr (StoredTask s) | _ \<Rightarrow> Inl CodeAppConflict)"

lemma check_reminder_request_now:
  assumes "case run_at of Naive _ \<Rightarrow> True | Aware t \<Rightarrow> t \<le> now + MAX_REMINDER_HORIZON"
  shows "check_reminder_request sha now title goal run_at tz rec key =
    check_reminder_request sha (aware_utc run_at) title goal run_at tz rec key"
proof (cases run_at)
  case (Naive t)
  show ?thesis unfolding check_reminder_request_def Naive require_aware.simps bindR_simps by (rule refl)
next
  case (Aware t)
  have never: "(t + MAX_REMINDER_HORIZON < t) = False" "(now + MAX_REMINDER_HORIZON < t) = False"
    using assms Aware by (auto simp: MAX_REMINDER_HORIZON_def)
  show ?thesis
    unfolding check_reminder_request_def Aware require_aware.simps bindR_simps aware_utc.simps never by (rule refl)
qed

lemma check_reminder_request_horizon:
  "check_reminder_request sha now title goal run_at tz rec key = Inr rq \<Longrightarrow>
   (case run_at of Naive _ \<Rightarrow> True | Aware t \<Rightarrow> t \<le> now + MAX_REMINDER_HORIZON)"
  by (cases run_at) (auto simp: check_reminder_request_def bindR_Inr if_Inr_raise)

text \<open>What a successful call went through.\<close>

lemma create_app_reminder_Inr:
  assumes "create_app_reminder sha zones now d a act title goal at tz rec key = Inr (res, d')"
  obtains actor u app rq where "reauthorize_actor now d a act = Inr actor" "may_remind actor = Some u"
    "code_app d a = Inr app" "check_reminder_request sha now title goal at tz rec key = Inr rq"
    "journaled_mutation now d a actor (rq_key rq)
       (\<lambda>e. bindR (stored_task_from_event e ''dot.reminder.create'' (rq_hash rq)) (\<lambda>s. Inr (StoredTask s, d)))
       (schedule_reminder zones now d app actor u rq) = Inr (res, d')"
  using assms unfolding create_app_reminder_def by (auto simp: bindR_Inr some_or_Inr)

lemma reminder_gateI:
  assumes "create_app_reminder sha zones now d a act title goal at tz rec key = Inr (res, d')"
  shows "reminder_gate now d a act at \<and> (\<exists>k h. reminder_request_key sha title goal at tz rec key = Inr (k, h))"
proof -
  obtain actor u app rq where c: "reauthorize_actor now d a act = Inr actor" "may_remind actor = Some u"
    "code_app d a = Inr app" and rq: "check_reminder_request sha now title goal at tz rec key = Inr rq"
    by (rule create_app_reminder_Inr [OF assms])
  note h = check_reminder_request_horizon [OF rq]
  from rq check_reminder_request_now [OF h, of sha title goal tz rec key]
  have "reminder_request_key sha title goal at tz rec key = Inr (rq_key rq, rq_hash rq)"
    by (simp add: reminder_request_key_def)
  with c h show ?thesis unfolding reminder_gate_def by blast
qed

interpretation reminder: journaled
  "\<lambda>(a, act, title, goal, at, tz, rec, key) now d. create_app_reminder sha zones now d a act title goal at tz rec key"
  "\<lambda>(a, act, title, goal, at, tz, rec, key) now d. reminder_gate now d a act at"
  "\<lambda>(a, act, title, goal, at, tz, rec, key). a"
  "\<lambda>(a, act, title, goal, at, tz, rec, key). reminder_request_key sha title goal at tz rec key"
  "''dot.reminder.create''" "\<lambda>_. task_answer" shown_task
  for sha zones
proof (unfold_locales, goal_cases)
  case (1 x now d k h e)
  obtain a act title goal at tz rec key where x: "x = (a, act, title, goal, at, tz, rec, key)" by (metis surj_pair)
  from 1(1) x obtain actor u app where c: "reauthorize_actor now d a act = Inr actor" "may_remind actor = Some u"
    "code_app d a = Inr app" and hz: "case at of Naive _ \<Rightarrow> True | Aware t \<Rightarrow> t \<le> now + MAX_REMINDER_HORIZON"
    by (auto simp: reminder_gate_def)
  from 1(2) x obtain rq where "check_reminder_request sha (aware_utc at) title goal at tz rec key = Inr rq"
    and k: "k = rq_key rq" "h = rq_hash rq"
    by (auto simp: reminder_request_key_def bindR_Inr)
  with check_reminder_request_now [OF hz, of sha title goal tz rec key]
  have rq: "check_reminder_request sha now title goal at tz rec key = Inr rq" by simp
  have j: "journal_event d a (rq_key rq) = Some e" using 1(3) x k by simp
  have eq: "bindR (stored_task_from_event e ''dot.reminder.create'' h) (\<lambda>s. Inr (StoredTask s, d)) =
      bindR (replay_response e ''dot.reminder.create'' h) (\<lambda>r. bindR (task_answer r) (\<lambda>a. Inr (a, d)))"
    by (cases "replay_response e ''dot.reminder.create'' h")
      (auto simp: stored_task_from_event_def task_answer_def split: event_response.splits)
  show ?case
    by (simp add: x create_app_reminder_def c rq journaled_mutation_hit [OF check_reminder_request_clean [OF rq] j, folded k]
        eq k [symmetric])
next
  case (2 x now d r d')
  obtain a act title goal at tz rec key where x: "x = (a, act, title, goal, at, tz, rec, key)" by (metis surj_pair)
  from 2 x show ?case using reminder_gateI by simp
next
  case (3 x now d r d' k h)
  obtain a act title goal at tz rec key where x: "x = (a, act, title, goal, at, tz, rec, key)" by (metis surj_pair)
  from 3(1) x have run: "create_app_reminder sha zones now d a act title goal at tz rec key = Inr (r, d')" by simp
  obtain actor u app rq where c: "code_app d a = Inr app" and
    rq: "check_reminder_request sha now title goal at tz rec key = Inr rq" and
    m: "journaled_mutation now d a actor (rq_key rq)
       (\<lambda>e. bindR (stored_task_from_event e ''dot.reminder.create'' (rq_hash rq)) (\<lambda>s. Inr (StoredTask s, d)))
       (schedule_reminder zones now d app actor u rq) = Inr (r, d')"
    by (rule create_app_reminder_Inr [OF run])
  from 3(2) x rq check_reminder_request_now [OF check_reminder_request_horizon [OF rq], of sha title goal tz rec key]
  have k: "k = rq_key rq" "h = rq_hash rq" by (simp_all add: reminder_request_key_def)
  have none: "journal_event d a (rq_key rq) = None" using 3(3) x k by simp
  have app: "ga_id app = a" using c by (auto simp: code_app_Inr dest: find_app_id)
  from journaled_mutation_Inr [OF m check_reminder_request_clean [OF rq]] none
  have "schedule_reminder zones now d app actor u rq = Inr (r, d')" by simp
  from schedule_reminder_Inr [OF this] app obtain task e where "r = LiveTask task"
    "db_events d' = db_events d @ [e]" "ev_app e = a" "ev_key e = rq_key rq"
    "ev_operation e = Some ''dot.reminder.create''" "ev_hash e = Some (rq_hash rq)"
    "ev_response e = TaskResponse (task_snapshot task)" by blast
  with journal_answer_new [OF none] x k show ?case by (simp add: task_answer_def)
qed

section \<open>Properties\<close>

text \<open>A bearer session can never create a reminder, whatever role its ticket gave it: only an actor
  that re-authorises as a signed-in user who is the owner or an editor of the app can, the app must be live, and its
  active manifest must have asked for the reminder capability unless the request is a replay.\<close>

theorem reminders_need_verified_editor:
  assumes "create_app_reminder sha zones now d a act title goal at tz rec key = Inr (res, d')"
  shows "ac_session act = None \<and> (\<exists>u app actor. ac_user act = Some u \<and> locked_code_app d a = Inr app \<and>
      authorize_user_for_locked_app d app u = Inr actor \<and> ac_role actor \<in> {Owner, Editor}) \<and>
    (d' = d \<or> (\<exists>manifest. active_manifest d a = Inr manifest \<and>
       capabilities_of manifest = Inr [DOT_REMINDER_CREATE_CAPABILITY]))"
proof -
  obtain actor u app rq where c: "reauthorize_actor now d a act = Inr actor" "may_remind actor = Some u"
    "code_app d a = Inr app" and
    rq: "check_reminder_request sha now title goal at tz rec key = Inr rq" and
    m: "journaled_mutation now d a actor (rq_key rq)
       (\<lambda>e. bindR (stored_task_from_event e ''dot.reminder.create'' (rq_hash rq)) (\<lambda>s. Inr (StoredTask s, d)))
       (schedule_reminder zones now d app actor u rq) = Inr (res, d')"
    by (rule create_app_reminder_Inr [OF assms])
  from c(2) have v: "ac_verified actor" "ac_role actor \<in> {Owner, Editor}"
    by (auto simp: may_remind_def split: if_splits)
  from reauthorize_actor_verified [OF c(1) v(1)] v(2) obtain app' w where
    "locked_code_app d a = Inr app'" "ac_user act = Some w" "ac_session act = None"
    "authorize_user_for_locked_app d app' w = Inr actor" by blast
  moreover have "ga_id app = a" using c(3) by (auto simp: code_app_Inr dest: find_app_id)
  then have "d' = d \<or> (\<exists>manifest. active_manifest d a = Inr manifest \<and>
       capabilities_of manifest = Inr [DOT_REMINDER_CREATE_CAPABILITY])"
    using journaled_mutation_Inr [OF m check_reminder_request_clean [OF rq]]
    by (fastforce simp: bindR_Inr dest!: schedule_reminder_Inr dest: capabilities_of_Inr)
  ultimately show ?thesis using v(2) by blast
qed

definition reminded :: "app_error + (reminder_result \<times> db)" where
  "reminded = create_app_reminder id (\<lambda>_. ZoneIs (fixed_zone 0)) 60 sample_db 10 sample_owner ''Dishes'' ''do them''
     (Aware (seconds 3600)) ''Europe/Berlin'' ''daily'' ''r1''"

theorem reminders_need_verified_editor_witness:
  "(\<exists>manifest. active_manifest sample_db 10 = Inr manifest \<and>
     capabilities_of manifest = Inr [DOT_REMINDER_CREATE_CAPABILITY]) \<and> length (db_tasks (snd (projr reminded))) = 1"
proof
  have r: "create_app_reminder id (\<lambda>_. ZoneIs (fixed_zone 0)) 60 sample_db 10 sample_owner ''Dishes'' ''do them''
     (Aware (seconds 3600)) ''Europe/Berlin'' ''daily'' ''r1'' = Inr (fst (projr reminded), snd (projr reminded))"
    by code_simp
  have ne: "snd (projr reminded) \<noteq> sample_db" by code_simp
  from reminders_need_verified_editor [OF r] ne
  show "\<exists>manifest. active_manifest sample_db 10 = Inr manifest \<and>
     capabilities_of manifest = Inr [DOT_REMINDER_CREATE_CAPABILITY]" by blast
  show "length (db_tasks (snd (projr reminded))) = 1" by code_simp
qed

end
