(* ===== verification/Dot_Numbers.thy ===== *)
theory Dot_Numbers
  imports Dot_Json
begin

text \<open>
  Python floats as the validators of app records use them. A float is the text of its \<open>repr\<close>; its value is
  the double nearest to that decimal, a fraction (\<open>fl53\<close>; the range of the exponent plays no part, since a
  number outside a thousand million is refused and one below the normal range rounds to zero).
  \<open>round(x, 4)\<close> rounds the exact value of the double half to even to ten-thousandths, and the result,
  which has at most fourteen digits, prints as that decimal.
\<close>

section \<open>Reading and printing\<close>

definition digits_value :: "string \<Rightarrow> int" where
  "digits_value s = foldl (\<lambda>n c. 10 * n + (code_point c - 48)) 0 s"

text \<open>The text before the first \<open>c\<close>, and what follows it.\<close>

definition before :: "char \<Rightarrow> string \<Rightarrow> string" where
  "before c s = takeWhile (\<lambda>x. x \<noteq> c) s"

definition after :: "char \<Rightarrow> string \<Rightarrow> string" where
  "after c s = tl (dropWhile (\<lambda>x. x \<noteq> c) s)"

definition exponent_value :: "string \<Rightarrow> int" where
  "exponent_value s =
     (case s of [] \<Rightarrow> 0
      | c # cs \<Rightarrow> if c = CHR ''-'' then - digits_value cs else if c = CHR ''+'' then digits_value cs else digits_value s)"

definition decimal_fraction :: "string \<Rightarrow> int \<times> int" where
  "decimal_fraction s =
     (let mantissa = before (CHR ''e'') s; whole = before (CHR ''.'') mantissa; part = after (CHR ''.'') mantissa;
          m = digits_value (whole @ part); k = exponent_value (after (CHR ''e'') s) - int (length part)
      in if 0 \<le> k then (m * 10 ^ nat k, 1) else (m, 10 ^ nat (- k)))"

definition is_negative :: "string \<Rightarrow> bool" where
  "is_negative s \<longleftrightarrow> s \<noteq> [] \<and> hd s = CHR ''-''"

text \<open>The sign and the value of the double.\<close>

definition double_of :: "string \<Rightarrow> bool \<times> int \<times> int" where
  "double_of s = (is_negative s, fl53 (decimal_fraction (if is_negative s then tl s else s)))"

definition not_finite :: "string \<Rightarrow> bool" where
  "not_finite s \<longleftrightarrow> s \<in> {''NaN'', ''Infinity'', ''-Infinity''}"

definition frac4 :: "int \<Rightarrow> string" where
  "frac4 f = digit (f div 1000) #
     (if f mod 10 \<noteq> 0 then [digit (f div 100 mod 10), digit (f div 10 mod 10), digit (f mod 10)]
      else if f div 10 mod 10 \<noteq> 0 then [digit (f div 100 mod 10), digit (f div 10 mod 10)]
      else if f div 100 mod 10 \<noteq> 0 then [digit (f div 100 mod 10)] else [])"

text \<open>The text of a number of ten-thousandths.\<close>

definition print4 :: "bool \<times> int \<Rightarrow> string" where
  "print4 nr =
     (case nr of (neg, r) \<Rightarrow> (if neg then ''-'' else []) @ digits_in 10 (r div 10000) @ ''.'' @ frac4 (r mod 10000))"

section \<open>Printing is read back\<close>

lemma digits_value_snoc: "digits_value (s @ [c]) = 10 * digits_value s + (code_point c - 48)"
  by (simp add: digits_value_def)

lemma code_point_digit: "0 \<le> n \<Longrightarrow> n < 10 \<Longrightarrow> code_point (digit n) = 48 + n"
  by (simp add: digit_def code_point_def)

lemma digit_not: "0 \<le> n \<Longrightarrow> n < 10 \<Longrightarrow> code_point c < 48 \<or> 57 < code_point c \<Longrightarrow> digit n \<noteq> c"
  using code_point_digit by force

lemma digits_in_10:
  assumes "0 \<le> n"
  shows "digits_value (digits_in 10 n) = n \<and> digits_in 10 n \<noteq> [] \<and>
    (\<forall>c\<in>set (digits_in 10 n). 48 \<le> code_point c \<and> code_point c \<le> 57)"
  using assms
proof (induction "10::int" n rule: digits_in.induct)
  case (1 n)
  show ?case
  proof (cases "n < 10")
    case True
    then show ?thesis using 1(2) code_point_digit [of n] by (simp add: digits_in.simps [of 10 n] digits_value_def)
  next
    case False
    then have e: "digits_in 10 n = digits_in 10 (n div 10) @ [digit (n mod 10)]" by (simp add: digits_in.simps [of 10 n])
    have d: "code_point (digit (n mod 10)) = 48 + n mod 10" by (rule code_point_digit) simp_all
    show ?thesis using 1(1) False 1(2) d unfolding e by (auto simp: digits_value_snoc)
  qed
qed

lemma takeWhile_all: "\<forall>x\<in>set xs. p x \<Longrightarrow> takeWhile p (xs @ ys) = xs @ takeWhile p ys"
  by (induction xs) auto

lemma dropWhile_all: "\<forall>x\<in>set xs. p x \<Longrightarrow> dropWhile p (xs @ ys) = dropWhile p ys"
  by (induction xs) auto

lemma before_after:
  assumes "c \<notin> set xs"
  shows "before c (xs @ c # ys) = xs" "after c (xs @ c # ys) = ys" "before c xs = xs" "after c xs = []"
proof -
  have p: "\<forall>x\<in>set xs. x \<noteq> c" using assms by auto
  note t = takeWhile_all [OF p] dropWhile_all [OF p]
  show "before c (xs @ c # ys) = xs" "after c (xs @ c # ys) = ys" by (simp_all add: before_def after_def t)
  have "takeWhile (\<lambda>x. x \<noteq> c) xs = xs" "dropWhile (\<lambda>x. x \<noteq> c) xs = []" using p by (simp_all add: takeWhile_eq_all_conv dropWhile_eq_Nil_conv)
  then show "before c xs = xs" "after c xs = []" unfolding before_def after_def by (simp_all only: list.sel)
qed

lemma digits_value_append:
  "digits_value (xs @ ys) = digits_value xs * 10 ^ length ys + digits_value ys"
proof (induction ys rule: rev_induct)
  case (snoc y ys)
  then show ?case using digits_value_snoc [of "xs @ ys" y] digits_value_snoc [of ys y] by (simp add: algebra_simps)
qed (simp add: digits_value_def)

lemma places: "f = 10 * x + d \<Longrightarrow> x = 10 * y + c \<Longrightarrow> y = 10 * a + b \<Longrightarrow> f = 1000 * a + 100 * b + 10 * c + (d::int)"
  by simp

lemma frac4_value:
  assumes "0 \<le> f" "f < 10000"
  shows "digits_value (frac4 f) * 10000 = f * 10 ^ length (frac4 f)" "length (frac4 f) \<le> 4" "frac4 f \<noteq> []"
    "\<forall>c\<in>set (frac4 f). 48 \<le> code_point c \<and> code_point c \<le> 57"
proof -
  obtain a b c d where n: "a = f div 1000" "b = f div 100 mod 10" "c = f div 10 mod 10" "d = f mod 10" by blast
  have f: "f = 1000 * a + 100 * b + 10 * c + d" 
  proof -
    have h: "f div 100 = f div 10 div 10" "f div 1000 = f div 100 div 10"
      using zdiv_zmult2_eq [of 10 f 10] zdiv_zmult2_eq [of 10 f 100] by simp_all
    have "f = 10 * (f div 10) + d" "f div 10 = 10 * (f div 100) + c" unfolding n h(1) by (rule mult_div_mod_eq [symmetric])+
    moreover have "f div 100 = 10 * a + b" unfolding n h(2) by (rule mult_div_mod_eq [symmetric])
    ultimately show ?thesis by (rule places)
  qed
  have r: "0 \<le> a" "a < 10" "0 \<le> b" "b < 10" "0 \<le> c" "c < 10" "0 \<le> d" "d < 10" using assms unfolding n by auto
  have e: "frac4 f = digit a # (if d \<noteq> 0 then [digit b, digit c, digit d]
      else if c \<noteq> 0 then [digit b, digit c] else if b \<noteq> 0 then [digit b] else [])"
    unfolding frac4_def n ..
  show "digits_value (frac4 f) * 10000 = f * 10 ^ length (frac4 f)"
    unfolding e using r by (simp add: digits_value_def code_point_digit f)
  show "length (frac4 f) \<le> 4" "frac4 f \<noteq> []" unfolding e by simp_all
  show "\<forall>c\<in>set (frac4 f). 48 \<le> code_point c \<and> code_point c \<le> 57"
    unfolding e using r by (auto simp: code_point_digit)
qed

lemma digit_chars: "code_point CHR ''.'' = 46" "code_point CHR ''e'' = 101" "code_point CHR ''-'' = 45" "code_point CHR ''N'' = 78"
    "code_point CHR ''I'' = 73"
  by code_simp+

lemma decimal_fraction_print4:
  assumes "0 \<le> r"
  shows "\<exists>m d. decimal_fraction (digits_in 10 (r div 10000) @ ''.'' @ frac4 (r mod 10000)) = (m, d) \<and>
    0 \<le> m \<and> 0 < d \<and> m * 10000 = r * d"
proof -
  let ?w = "digits_in 10 (r div 10000)" and ?p = "frac4 (r mod 10000)"
  have w: "digits_value ?w = r div 10000" "\<forall>c\<in>set ?w. 48 \<le> code_point c \<and> code_point c \<le> 57"
    using digits_in_10 [of "r div 10000"] assms by auto
  have p: "digits_value ?p * 10000 = r mod 10000 * 10 ^ length ?p" "\<forall>c\<in>set ?p. 48 \<le> code_point c \<and> code_point c \<le> 57" "?p \<noteq> []"
    using frac4_value [of "r mod 10000"] by auto
  have "CHR ''e'' \<notin> set (?w @ ''.'' @ ?p)" "CHR ''.'' \<notin> set ?w" using w(2) p(2) digit_chars by auto
  then have b: "before (CHR ''e'') (?w @ ''.'' @ ?p) = ?w @ CHR ''.'' # ?p" "after (CHR ''e'') (?w @ ''.'' @ ?p) = []"
      "before (CHR ''.'') (?w @ CHR ''.'' # ?p) = ?w" "after (CHR ''.'') (?w @ CHR ''.'' # ?p) = ?p"
    using before_after(3,4) [of "CHR ''e''" "?w @ ''.'' @ ?p"] by (simp_all add: before_after)
  have m: "digits_value (?w @ ?p) * 10000 = r * 10 ^ length ?p"
  proof -
    have "digits_value (?w @ ?p) * 10000 = (r div 10000 * 10000 + r mod 10000) * 10 ^ length ?p"
      unfolding digits_value_append w(1) distrib_right p(1) by simp
    then show ?thesis by (simp only: div_mult_mod_eq)
  qed
  moreover have "0 \<le> digits_value (?w @ ?p)" using m assms by (metis mult_nonneg_nonneg zero_le_mult_iff zero_le_numeral zero_le_power mult_le_0_iff not_numeral_le_zero)
  moreover have "decimal_fraction (?w @ ''.'' @ ?p) = (digits_value (?w @ ?p), 10 ^ length ?p)"
    using p(3) unfolding decimal_fraction_def Let_def b by (simp add: exponent_value_def)
  ultimately show ?thesis by (intro exI [of _ "digits_value (?w @ ?p)"] exI [of _ "10 ^ length ?p"]) simp
qed

section \<open>Rounding\<close>

lemma bit_len_bounds: "0 < n \<Longrightarrow> 2 ^ nat (bit_len n - 1) \<le> n \<and> n < 2 ^ nat (bit_len n) \<and> 0 < bit_len n"
proof (induction n rule: bit_len.induct)
  case (1 n)
  show ?case
  proof (cases "n = 1")
    case True
    then show ?thesis by (simp add: bit_len.simps)
  next
    case False
    then have h: "0 < n div 2" using 1(2) by simp
    have e: "bit_len n = 1 + bit_len (n div 2)" using 1(2) by (subst bit_len.simps) simp
    have i: "2 ^ nat (bit_len (n div 2) - 1) \<le> n div 2" "n div 2 < 2 ^ nat (bit_len (n div 2))" "0 < bit_len (n div 2)"
      using 1(1) h 1(2) by auto
    have "nat (bit_len n - 1) = Suc (nat (bit_len (n div 2) - 1))" "nat (bit_len n) = Suc (nat (bit_len (n div 2)))"
      using i(3) e by auto
    then have "2 ^ nat (bit_len n - 1) = 2 * (2::int) ^ nat (bit_len (n div 2) - 1)"
      "(2::int) ^ nat (bit_len n) = 2 * 2 ^ nat (bit_len (n div 2))" by simp_all
    moreover have "2 * (n div 2) \<le> n" "n < 2 * (n div 2) + 2" by presburger+
    ultimately show ?thesis using i e by linarith
  qed
qed

lemma round_half_even_near: "0 < d \<Longrightarrow> 2 * \<bar>n - round_half_even n d * d\<bar> \<le> d"
proof -
  assume d: "0 < d"
  have e: "n = n div d * d + n mod d" by simp
  have r: "0 \<le> n mod d" "n mod d < d" using d by simp_all
  show ?thesis
  proof (cases "round_half_even n d = n div d")
    case True
    then have "2 * (n mod d) \<le> d" by (auto simp: round_half_even_def Let_def split: if_splits)
    then show ?thesis using True r by (simp add: minus_div_mult_eq_mod)
  next
    case False
    then have q: "round_half_even n d = n div d + 1" "d \<le> 2 * (n mod d)"
      by (auto simp: round_half_even_def Let_def split: if_splits)
    have "n - (n div d + 1) * d = n mod d - d" using e by (simp add: algebra_simps)
    then show ?thesis using q r by simp
  qed
qed

lemma near_below: "2 * \<bar>a - b\<bar> \<le> d \<Longrightarrow> 2 * b \<le> 2 * a + (d::int)"
  by (simp add: abs_if split: if_splits)

lemma round_half_even_unique:
  assumes "0 < d" "2 * \<bar>n - r * d\<bar> < d"
  shows "round_half_even n d = r"
proof -
  have "2 * \<bar>n - round_half_even n d * d\<bar> \<le> d" by (rule round_half_even_near [OF assms(1)])
  then have "\<bar>(round_half_even n d - r) * d\<bar> < d" using assms(2) by (simp add: algebra_simps abs_if split: if_splits)
  then have "\<bar>round_half_even n d - r\<bar> * d < 1 * d" using assms(1) by (simp add: abs_mult)
  then show ?thesis using assms(1) by (simp only: mult_less_cancel_right) simp
qed

text \<open>Below \<open>2 ^ 38\<close> a double has at least fourteen binary places, and is within half of the last of them.\<close>

lemma fl53_close:
  assumes "0 < n" "0 < d" "n < 2 ^ 38 * d"
  shows "\<exists>N D. fl53 (n, d) = (N, D) \<and> 2 ^ 14 \<le> D \<and> 2 * \<bar>n * D - N * d\<bar> \<le> d"
proof -
  obtain k big e where k: "k = bit_len n - bit_len d"
    and big: "big \<longleftrightarrow> (if 0 \<le> k then d * 2 ^ nat k \<le> n else d \<le> n * 2 ^ nat (- k))"
    and e: "e = (if big then k else k - 1) - 52" by blast
  have n: "2 ^ nat (bit_len n - 1) \<le> n" "0 < bit_len n" using bit_len_bounds [OF assms(1)] by auto
  have d: "d < 2 ^ nat (bit_len d)" "0 < bit_len d" using bit_len_bounds [OF assms(2)] by auto
  have le: "e \<le> - 14"
  proof (rule ccontr)
    assume "\<not> e \<le> - 14"
    then have e39: "39 \<le> (if big then k else k - 1)" using e by simp
    have "d * 2 ^ 38 \<le> n"
    proof (cases big)
      case True
      then have k39: "39 \<le> k" using e39 by simp
      then have "d * 2 ^ nat k \<le> n" using True big by simp
      moreover have "(2::int) ^ 38 \<le> 2 ^ nat k" by (rule power_increasing) (use k39 in auto)
      ultimately show ?thesis using assms(2) by (meson mult_left_mono order_trans less_imp_le)
    next
      case False
      then have k40: "40 \<le> k" using e39 by simp
      have "nat (bit_len d) + 38 \<le> nat (bit_len n - 1)" using k40 k d(2) by simp
      then have "(2::int) ^ (nat (bit_len d) + 38) \<le> 2 ^ nat (bit_len n - 1)" by (rule power_increasing) simp
      then show ?thesis using n(1) d(1) by (simp add: power_add)
    qed
    then show False using assms(3) by simp
  qed
  have eq: "fl53 (n, d) = (round_half_even (n * 2 ^ nat (- e)) d, 2 ^ nat (- e))"
    using le assms(1) unfolding fl53_def prod.case Let_def k [symmetric] big [symmetric] e [symmetric] by simp
  have "(2::int) ^ 14 \<le> 2 ^ nat (- e)" by (rule power_increasing) (use le in auto)
  then show ?thesis using eq round_half_even_near [OF assms(2), of "n * 2 ^ nat (- e)"] by blast
qed

definition round4 :: "bool \<times> int \<times> int \<Rightarrow> bool \<times> int" where
  "round4 v = (case v of (neg, n, d) \<Rightarrow> (neg, round_half_even (n * 10000) d))"

definition in_range :: "bool \<times> int \<times> int \<Rightarrow> bool" where
  "in_range v \<longleftrightarrow> (case v of (neg, n, d) \<Rightarrow> n \<le> 1000000000 * d)"

text \<open>A printed number reads back as a double in the range that rounds to the same ten-thousandths.\<close>

lemma fl53_places:
  assumes "0 \<le> m" "0 < d" "m * 10000 = r * d" "0 \<le> r" "r \<le> 10000000000000"
  shows "\<exists>N D. fl53 (m, d) = (N, D) \<and> round_half_even (N * 10000) D = r \<and> N \<le> 1000000000 * D"
proof (cases "m = 0")
  case True
  then have "r = 0" using assms by simp
  moreover have "round_half_even 0 1 = 0" by (simp add: round_half_even_def)
  ultimately show ?thesis using True by (simp add: fl53_def)
next
  case False
  have "m * 10000 \<le> 10000000000000 * d" using assms by simp
  then have m: "m \<le> 1000000000 * d" by simp
  then have "m < 2 ^ 38 * d" using assms(2) by simp
  then obtain N D where N: "fl53 (m, d) = (N, D)" "2 ^ 14 \<le> D" "2 * \<bar>m * D - N * d\<bar> \<le> d"
    using fl53_close [of m d] False assms by auto
  have "2 * \<bar>N * 10000 - r * D\<bar> * d = 10000 * (2 * \<bar>m * D - N * d\<bar>)"
  proof -
    have "2 * \<bar>N * 10000 - r * D\<bar> * d = 2 * \<bar>(N * 10000 - r * D) * d\<bar>" using assms(2) by (simp add: abs_mult)
    also have "(N * 10000 - r * D) * d = 10000 * (N * d - m * D)"
    proof -
      have "(N * 10000 - r * D) * d = 10000 * (N * d) - (r * d) * D" by (simp add: algebra_simps)
      then show ?thesis unfolding assms(3) [symmetric] by (simp add: algebra_simps)
    qed
    also have "2 * \<bar>10000 * (N * d - m * D)\<bar> = 10000 * (2 * \<bar>N * d - m * D\<bar>)" unfolding abs_mult by simp
    finally show ?thesis by (simp add: abs_minus_commute)
  qed
  also have "\<dots> \<le> 10000 * d" using N(3) by simp
  finally have "2 * \<bar>N * 10000 - r * D\<bar> \<le> 10000" using assms(2) by (simp add: mult_le_cancel_right)
  then have r: "round_half_even (N * 10000) D = r" using N(2) by (intro round_half_even_unique) auto
  have "2 * (N * d) \<le> 2 * (m * D) + d" by (rule near_below [OF N(3)])
  also have "\<dots> \<le> 2 * (1000000000 * d * D) + d" using mult_right_mono [OF m, of D] N(2) by simp
  finally have "(2 * N) * d \<le> (2000000000 * D + 1) * d" by (simp add: algebra_simps)
  then have "2 * N \<le> 2000000000 * D + 1" using assms(2) by simp
  then show ?thesis using N(1) r by auto
qed

lemma print4_reads_back:
  assumes "0 \<le> r" "r \<le> 10000000000000"
  shows "round4 (double_of (print4 (neg, r))) = (neg, r)" "in_range (double_of (print4 (neg, r)))" "\<not> not_finite (print4 (neg, r))"
proof -
  obtain t where t: "t = digits_in 10 (r div 10000) @ ''.'' @ frac4 (r mod 10000)" by blast
  have d: "digits_in 10 (r div 10000) \<noteq> []" "\<forall>c\<in>set (digits_in 10 (r div 10000)). 48 \<le> code_point c \<and> code_point c \<le> 57"
    using digits_in_10 [of "r div 10000"] assms(1) by auto
  then have hd: "48 \<le> code_point (hd t) \<and> code_point (hd t) \<le> 57" "t \<noteq> []" unfolding t by simp_all
  have p: "print4 (neg, r) = (if neg then CHR ''-'' # t else t)" by (simp add: print4_def t)
  have m: "hd t \<noteq> CHR ''-''" "hd t \<noteq> CHR ''N''" "hd t \<noteq> CHR ''I''" using hd(1) digit_chars by auto
  then have neg: "is_negative (print4 (neg, r)) = neg" "(if is_negative (print4 (neg, r)) then tl (print4 (neg, r)) else print4 (neg, r)) = t"
    unfolding p is_negative_def by (cases neg; simp)+
  obtain m e where m: "decimal_fraction t = (m, e)" "0 \<le> m" "0 < e" "m * 10000 = r * e"
    using decimal_fraction_print4 [OF assms(1)] unfolding t by blast
  obtain N D where N: "fl53 (m, e) = (N, D)" "round_half_even (N * 10000) D = r" "N \<le> 1000000000 * D"
    using fl53_places [OF m(2-4) assms] by blast
  have v: "double_of (print4 (neg, r)) = (neg, N, D)" unfolding double_of_def neg(2) unfolding neg(1) m(1) N(1) ..
  show "round4 (double_of (print4 (neg, r))) = (neg, r)" "in_range (double_of (print4 (neg, r)))"
    unfolding v using N by (simp_all add: round4_def in_range_def)
  show "\<not> not_finite (print4 (neg, r))"
    unfolding p not_finite_def using \<open>hd t \<noteq> CHR ''-''\<close> \<open>hd t \<noteq> CHR ''N''\<close> \<open>hd t \<noteq> CHR ''I''\<close>
    by (cases neg) auto
qed

lemma round_half_even_nonneg: "0 \<le> n \<Longrightarrow> 0 < d \<Longrightarrow> 0 \<le> round_half_even n d"
  by (auto simp: round_half_even_def Let_def pos_imp_zdiv_nonneg_iff intro: add_nonneg_nonneg)

lemma fl53_sign:
  assumes "0 < d" "fl53 (n, d) = (N, D)"
  shows "0 \<le> N \<and> 0 < D"
proof (cases "n \<le> 0")
  case True
  then show ?thesis using assms(2) by (simp add: fl53_def)
next
  case False
  let ?k = "bit_len n - bit_len d"
  have "\<exists>e. fl53 (n, d) = (if 0 \<le> e then (round_half_even n (d * 2 ^ nat e) * 2 ^ nat e, 1)
      else (round_half_even (n * 2 ^ nat (- e)) d, 2 ^ nat (- e)))"
    by (rule exI [of _ "(if (if 0 \<le> ?k then d * 2 ^ nat ?k \<le> n else d \<le> n * 2 ^ nat (- ?k)) then ?k else ?k - 1) - 52"])
      (simp only: fl53_def prod.case Let_def False if_False)
  then obtain e where e: "fl53 (n, d) = (if 0 \<le> e then (round_half_even n (d * 2 ^ nat e) * 2 ^ nat e, 1)
      else (round_half_even (n * 2 ^ nat (- e)) d, 2 ^ nat (- e)))" by blast
  show ?thesis using assms False unfolding e by (auto simp: round_half_even_nonneg split: if_splits)
qed

lemma double_of_sign:
  assumes "double_of t = (neg, n, d)"
  shows "0 \<le> n \<and> 0 < d"
proof -
  obtain m e where m: "decimal_fraction (if is_negative t then tl t else t) = (m, e)" by fastforce
  then have "0 < e" by (auto simp: decimal_fraction_def Let_def split: if_splits)
  then show ?thesis using fl53_sign [of e m n d] assms m by (simp add: double_of_def)
qed

lemma round4_bounds:
  assumes "in_range (neg, n, d)" "0 \<le> n" "0 < d" "round4 (neg, n, d) = (neg', r)"
  shows "0 \<le> r \<and> r \<le> 10000000000000 \<and> neg' = neg"
proof -
  have r: "r = round_half_even (n * 10000) d" "neg' = neg" using assms(4) by (simp_all add: round4_def)
  have "2 * (r * d) \<le> 2 * (n * 10000) + d" by (rule near_below) (use round_half_even_near [OF assms(3), of "n * 10000"] r(1) in simp)
  also have "\<dots> \<le> 20000000000000 * d + d" using assms(1) by (simp add: in_range_def)
  finally have "(2 * r) * d \<le> 20000000000001 * d" by simp
  then have "2 * r \<le> 20000000000001" using assms(3) by simp
  then show ?thesis using r round_half_even_nonneg [of "n * 10000" d] assms(2,3) by simp
qed

end
