(* ===== verification/App_Specs.thy ===== *)
theory App_Specs
  imports Dot_Numbers Dot_Text
begin

text \<open>
  The specification of a composable app (\<open>services/generated_app_specs.py\<close>): the modules a model may ask
  for, with their settings and the kinds of record each holds, and the validators that turn what a tool
  call or a request sends into the normal form that is stored.

  The environment stands for the time-zone database, \<open>date.fromisoformat(v).isoformat()\<close>,
  \<open>time.fromisoformat(v).isoformat(timespec="minutes")\<close> (no answer where they raise \<open>ValueError\<close>) and
  \<open>str.casefold\<close>.
\<close>

section \<open>Errors and environment\<close>

text \<open>
  \<open>SpecInvalid\<close> is \<open>GeneratedAppValidationError\<close>; \<open>SpecZone\<close> the \<open>ValueError\<close> of a malformed zone key;
  \<open>SpecType\<close>, \<open>SpecOverflow\<close> and \<open>SpecKey\<close> are the \<open>TypeError\<close>, \<open>OverflowError\<close> and \<open>KeyError\<close> nothing here catches.
\<close>

datatype spec_error = SpecInvalid | SpecZone | SpecType | SpecOverflow | SpecKey

datatype zone_answer = ZoneFound | ZoneMissing | ZoneMalformed

record spec_env =
  sv_zone :: "string \<Rightarrow> zone_answer"
  sv_date :: "string \<Rightarrow> string option"
  sv_time :: "string \<Rightarrow> string option"
  sv_casefold :: "string \<Rightarrow> string"

section \<open>Values\<close>

definition exact_keys :: "obj \<Rightarrow> string list \<Rightarrow> spec_error + unit" where
  "exact_keys v expected = require (set (map fst v) = set expected) SpecInvalid"

fun short_identifier :: "json \<Rightarrow> spec_error + string" where
  "short_identifier (JStr s) = (if is_short_identifier s then Inr s else Inl SpecInvalid)"
| "short_identifier _ = Inl SpecInvalid"

fun spec_text :: "json \<Rightarrow> nat \<Rightarrow> spec_error + string" where
  "spec_text (JStr s) max_length =
     (let clean = spaced s in if clean = [] \<or> max_length < length clean then Inl SpecInvalid else Inr clean)"
| "spec_text _ _ = Inl SpecInvalid"

fun spec_optional_text :: "json \<Rightarrow> nat \<Rightarrow> spec_error + string option" where
  "spec_optional_text JNull max_length = Inr None"
| "spec_optional_text (JStr s) max_length =
     (let clean = spaced s in if clean = [] then Inr None else if max_length < length clean then Inl SpecInvalid else Inr (Some clean))"
| "spec_optional_text _ _ = Inl SpecInvalid"

definition text_or_empty :: "json \<Rightarrow> nat \<Rightarrow> spec_error + string" where
  "text_or_empty v max_length =
     (if v = JStr [] then Inr []
      else bindR (spec_optional_text v max_length) (\<lambda>t. Inr (case t of None \<Rightarrow> [] | Some s \<Rightarrow> s)))"

fun spec_boolean :: "json \<Rightarrow> spec_error + bool" where
  "spec_boolean (JBool b) = Inr b"
| "spec_boolean _ = Inl SpecInvalid"

text \<open>\<open>float(value)\<close>: an integer overflows from \<open>2 ^ 1024 - 2 ^ 970\<close>, where it would round to \<open>2 ^ 1024\<close>.\<close>

fun spec_float :: "json \<Rightarrow> spec_error + bool \<times> int \<times> int" where
  "spec_float (JInt i) = (if 2 ^ 1024 - 2 ^ 970 \<le> \<bar>i\<bar> then Inl SpecOverflow else Inr (i < 0, \<bar>i\<bar>, 1))"
| "spec_float (JFloat t) = (if not_finite t then Inl SpecInvalid else Inr (double_of t))"
| "spec_float _ = Inl SpecInvalid"

text \<open>The number in ten-thousandths, with its sign.\<close>

definition spec_number :: "json \<Rightarrow> spec_error + bool \<times> int" where
  "spec_number v = bindR (spec_float v) (\<lambda>x. if \<not> in_range x then Inl SpecInvalid else Inr (round4 x))"

definition positive_number :: "json \<Rightarrow> spec_error + bool \<times> int" where
  "positive_number v = bindR (spec_number v) (\<lambda>(neg, r). if neg \<or> r = 0 then Inl SpecInvalid else Inr (neg, r))"

definition jnum :: "bool \<times> int \<Rightarrow> json" where
  "jnum x = JFloat (print4 x)"

definition optional_json :: "(json \<Rightarrow> spec_error + 'a) \<Rightarrow> ('a \<Rightarrow> json) \<Rightarrow> json \<Rightarrow> spec_error + json" where
  "optional_json f g v = (if v = JNull then Inr JNull else bindR (f v) (\<lambda>x. Inr (g x)))"

fun required_date :: "spec_env \<Rightarrow> json \<Rightarrow> spec_error + string" where
  "required_date env (JStr s) = some_or SpecInvalid (sv_date env s)"
| "required_date env _ = Inl SpecInvalid"

fun optional_date :: "spec_env \<Rightarrow> json \<Rightarrow> spec_error + string option" where
  "optional_date env JNull = Inr None"
| "optional_date env v = bindR (required_date env v) (\<lambda>d. Inr (Some d))"

fun optional_time :: "spec_env \<Rightarrow> json \<Rightarrow> spec_error + string option" where
  "optional_time env JNull = Inr None"
| "optional_time env (JStr s) = bindR (some_or SpecInvalid (sv_time env s)) (\<lambda>t. Inr (Some t))"
| "optional_time env _ = Inl SpecInvalid"

text \<open>A value that must be in a set of strings; lists and objects are not hashable.\<close>

fun one_of :: "string list \<Rightarrow> json \<Rightarrow> spec_error + string" where
  "one_of options (JStr s) = (if s \<in> set options then Inr s else Inl SpecInvalid)"
| "one_of options (JArr _) = Inl SpecType"
| "one_of options (JObj _) = Inl SpecType"
| "one_of options _ = Inl SpecInvalid"

definition unique_texts :: "spec_env \<Rightarrow> json list \<Rightarrow> nat \<Rightarrow> nat \<Rightarrow> spec_error + string list" where
  "unique_texts env xs max_items max_length =
     (if max_items < length xs then Inl SpecInvalid
      else foldR (\<lambda>v result. bindR (spec_text v max_length) (\<lambda>clean.
             if sv_casefold env clean \<in> sv_casefold env ` set result then Inr result else Inr (result @ [clean]))) xs [])"

fun spec_list :: "json \<Rightarrow> spec_error + json list" where
  "spec_list (JArr xs) = Inr xs"
| "spec_list _ = Inl SpecInvalid"

fun spec_object :: "json \<Rightarrow> spec_error + obj" where
  "spec_object (JObj ob) = Inr ob"
| "spec_object _ = Inl SpecInvalid"

section \<open>Settings\<close>

definition empty_settings :: "spec_env \<Rightarrow> obj \<Rightarrow> spec_error + obj" where
  "empty_settings env settings = bindR (exact_keys settings []) (\<lambda>_. Inr [])"

definition overview_fact :: "json \<Rightarrow> spec_error + json" where
  "overview_fact v =
     bindR (spec_object v) (\<lambda>fact.
     bindR (exact_keys fact [''label'', ''value'']) (\<lambda>_.
     bindR (spec_text (get_or_null fact ''label'') 60) (\<lambda>label.
     bindR (spec_text (get_or_null fact ''value'') 160) (\<lambda>val.
       Inr (JObj [(''label'', JStr label), (''value'', JStr val)])))))"

definition overview_settings :: "spec_env \<Rightarrow> obj \<Rightarrow> spec_error + obj" where
  "overview_settings env settings =
     bindR (exact_keys settings [''body'', ''facts'']) (\<lambda>_.
     bindR (spec_list (get_or_null settings ''facts'')) (\<lambda>raw.
       if 8 < length raw then Inl SpecInvalid
       else bindR (mapR overview_fact raw) (\<lambda>facts.
            bindR (text_or_empty (get_or_null settings ''body'') 1000) (\<lambda>body.
              Inr [(''body'', JStr body), (''facts'', JArr facts)]))))"

definition todos_settings :: "spec_env \<Rightarrow> obj \<Rightarrow> spec_error + obj" where
  "todos_settings env settings =
     bindR (exact_keys settings [''show_completed'']) (\<lambda>_.
     bindR (spec_boolean (get_or_null settings ''show_completed'')) (\<lambda>b. Inr [(''show_completed'', JBool b)]))"

definition guest_settings :: "spec_env \<Rightarrow> obj \<Rightarrow> spec_error + obj" where
  "guest_settings env settings =
     bindR (exact_keys settings [''allow_plus_ones'']) (\<lambda>_.
     bindR (spec_boolean (get_or_null settings ''allow_plus_ones'')) (\<lambda>b. Inr [(''allow_plus_ones'', JBool b)]))"

definition check_zone :: "spec_env \<Rightarrow> string option \<Rightarrow> spec_error + unit" where
  "check_zone env timezone =
     (case timezone of
        None \<Rightarrow> Inr ()
      | Some z \<Rightarrow> (case sv_zone env z of ZoneFound \<Rightarrow> Inr () | ZoneMissing \<Rightarrow> Inl SpecInvalid | ZoneMalformed \<Rightarrow> Inl SpecZone))"

definition itinerary_settings :: "spec_env \<Rightarrow> obj \<Rightarrow> spec_error + obj" where
  "itinerary_settings env settings =
     bindR (exact_keys settings [''timezone'']) (\<lambda>_.
     bindR (spec_optional_text (get_or_null settings ''timezone'') 64) (\<lambda>timezone.
     bindR (check_zone env timezone) (\<lambda>_. Inr [(''timezone'', opt_str timezone)])))"

definition expenses_settings :: "spec_env \<Rightarrow> obj \<Rightarrow> spec_error + obj" where
  "expenses_settings env settings =
     bindR (exact_keys settings [''currency'', ''budget'', ''mode'']) (\<lambda>_.
     bindR (spec_text (get_or_null settings ''currency'') 12) (\<lambda>raw.
       let currency = py_upper raw in
       if \<not> py_isalnum currency then Inl SpecInvalid
       else bindR (one_of [''personal'', ''split''] (get_or_null settings ''mode'')) (\<lambda>mode.
            bindR (optional_json positive_number jnum (get_or_null settings ''budget'')) (\<lambda>budget.
              Inr [(''currency'', JStr currency), (''budget'', budget), (''mode'', JStr mode)]))))"

definition metric_settings :: "spec_env \<Rightarrow> obj \<Rightarrow> spec_error + obj" where
  "metric_settings env settings =
     bindR (exact_keys settings [''unit'', ''target'', ''direction'']) (\<lambda>_.
     bindR (one_of [''increase'', ''decrease''] (get_or_null settings ''direction'')) (\<lambda>direction.
     bindR (spec_text (get_or_null settings ''unit'') 30) (\<lambda>unit.
     bindR (optional_json spec_number jnum (get_or_null settings ''target'')) (\<lambda>target.
       Inr [(''unit'', JStr unit), (''target'', target), (''direction'', JStr direction)]))))"

definition COLLECTION_FIELD_TYPES :: "string list" where
  "COLLECTION_FIELD_TYPES = [''text'', ''number'', ''currency'', ''date'', ''time'', ''select'', ''boolean'']"

text \<open>One field: its key and the object that is stored; \<open>seen\<close> are the keys before it.\<close>

definition collection_field :: "spec_env \<Rightarrow> string list \<Rightarrow> json \<Rightarrow> spec_error + string \<times> obj" where
  "collection_field env seen v =
     bindR (spec_object v) (\<lambda>raw.
     bindR (exact_keys raw [''key'', ''label'', ''type'', ''required'', ''options'']) (\<lambda>_.
     bindR (short_identifier (get_or_null raw ''key'')) (\<lambda>key.
       if key \<in> set seen then Inl SpecInvalid
       else bindR (one_of COLLECTION_FIELD_TYPES (get_or_null raw ''type'')) (\<lambda>type.
            bindR (spec_list (get_or_null raw ''options'')) (\<lambda>raw_options.
            bindR (unique_texts env raw_options 20 60) (\<lambda>options.
              if type = ''select'' \<and> options = [] then Inl SpecInvalid
              else if type \<noteq> ''select'' \<and> options \<noteq> [] then Inl SpecInvalid
              else bindR (spec_text (get_or_null raw ''label'') 60) (\<lambda>label.
                   bindR (spec_boolean (get_or_null raw ''required'')) (\<lambda>req.
                     Inr (key, [(''key'', JStr key), (''label'', JStr label), (''type'', JStr type),
                       (''required'', JBool req), (''options'', JArr (map JStr options))])))))))))"

definition collection_fields :: "spec_env \<Rightarrow> json list \<Rightarrow> spec_error + (string \<times> obj) list" where
  "collection_fields env raw =
     foldR (\<lambda>v fs. bindR (collection_field env (map fst fs) v) (\<lambda>f. Inr (fs @ [f]))) raw []"

fun primary_field :: "string list \<Rightarrow> json \<Rightarrow> spec_error + json" where
  "primary_field seen JNull = Inr JNull"
| "primary_field seen v = bindR (one_of seen v) (\<lambda>s. Inr (JStr s))"

definition collection_settings :: "spec_env \<Rightarrow> obj \<Rightarrow> spec_error + obj" where
  "collection_settings env settings =
     bindR (exact_keys settings [''display'', ''fields'', ''primary_field'', ''currency'']) (\<lambda>_.
     bindR (one_of [''list'', ''table'', ''cards''] (get_or_null settings ''display'')) (\<lambda>display.
     bindR (spec_list (get_or_null settings ''fields'')) (\<lambda>raw.
       if length raw < 1 \<or> 12 < length raw then Inl SpecInvalid
       else bindR (collection_fields env raw) (\<lambda>fs.
            bindR (primary_field (map fst fs) (get_or_null settings ''primary_field'')) (\<lambda>primary.
            bindR (spec_optional_text (get_or_null settings ''currency'') 12) (\<lambda>currency.
              if (case currency of None \<Rightarrow> False | Some c \<Rightarrow> \<not> py_isalnum c) then Inl SpecInvalid
              else Inr [(''display'', JStr display), (''fields'', JArr (map (\<lambda>f. JObj (snd f)) fs)),
                        (''primary_field'', primary), (''currency'', opt_str (map_option py_upper currency))]))))))"

section \<open>Records\<close>

definition todo_record :: "spec_env \<Rightarrow> obj \<Rightarrow> obj \<Rightarrow> spec_error + obj" where
  "todo_record env data settings =
     bindR (exact_keys data [''text'', ''completed'', ''due_date'', ''assignee'', ''priority'']) (\<lambda>_.
     bindR (one_of [''low'', ''normal'', ''high''] (get_or_null data ''priority'')) (\<lambda>priority.
     bindR (spec_text (get_or_null data ''text'') 240) (\<lambda>text.
     bindR (spec_boolean (get_or_null data ''completed'')) (\<lambda>completed.
     bindR (optional_date env (get_or_null data ''due_date'')) (\<lambda>due.
     bindR (spec_optional_text (get_or_null data ''assignee'') 80) (\<lambda>assignee.
       Inr [(''text'', JStr text), (''completed'', JBool completed), (''due_date'', opt_str due),
            (''assignee'', opt_str assignee), (''priority'', JStr priority)]))))))"

definition guest_record :: "spec_env \<Rightarrow> obj \<Rightarrow> obj \<Rightarrow> spec_error + obj" where
  "guest_record env data settings =
     bindR (exact_keys data [''name'', ''status'', ''party_size'', ''note'']) (\<lambda>_.
     bindR (one_of [''invited'', ''going'', ''maybe'', ''declined''] (get_or_null data ''status'')) (\<lambda>status.
       case get_or_null data ''party_size'' of
         JInt party_size \<Rightarrow>
           bindR (some_or SpecKey (obj_get settings ''allow_plus_ones'')) (\<lambda>plus_ones.
           let maximum = (if truthy plus_ones then 20 else 1) in
           if party_size < 1 \<or> maximum < party_size then Inl SpecInvalid
           else bindR (spec_text (get_or_null data ''name'') 80) (\<lambda>name.
                bindR (text_or_empty (get_or_null data ''note'') 240) (\<lambda>note.
                  Inr [(''name'', JStr name), (''status'', JStr status), (''party_size'', JInt party_size), (''note'', JStr note)])))
       | _ \<Rightarrow> Inl SpecInvalid))"

definition itinerary_record :: "spec_env \<Rightarrow> obj \<Rightarrow> obj \<Rightarrow> spec_error + obj" where
  "itinerary_record env data settings =
     bindR (exact_keys data [''title'', ''date'', ''start_time'', ''end_time'', ''location'', ''note'', ''completed'']) (\<lambda>_.
     bindR (optional_time env (get_or_null data ''start_time'')) (\<lambda>start_time.
     bindR (optional_time env (get_or_null data ''end_time'')) (\<lambda>end_time.
       if (case (start_time, end_time) of (Some a, Some b) \<Rightarrow> a \<noteq> [] \<and> b \<noteq> [] \<and> b \<le> a | _ \<Rightarrow> False) then Inl SpecInvalid
       else
         bindR (spec_text (get_or_null data ''title'') 160) (\<lambda>title.
         bindR (optional_date env (get_or_null data ''date'')) (\<lambda>date.
         bindR (text_or_empty (get_or_null data ''location'') 160) (\<lambda>location.
         bindR (text_or_empty (get_or_null data ''note'') 500) (\<lambda>note.
         bindR (spec_boolean (get_or_null data ''completed'')) (\<lambda>completed.
           Inr [(''title'', JStr title), (''date'', opt_str date), (''start_time'', opt_str start_time),
                (''end_time'', opt_str end_time), (''location'', JStr location), (''note'', JStr note),
                (''completed'', JBool completed)]))))))))"

definition setting :: "obj \<Rightarrow> string \<Rightarrow> spec_error + json" where
  "setting settings k = some_or SpecKey (obj_get settings k)"

definition participant_record :: "spec_env \<Rightarrow> obj \<Rightarrow> obj \<Rightarrow> spec_error + obj" where
  "participant_record env data settings =
     bindR (setting settings ''mode'') (\<lambda>mode.
       if mode \<noteq> JStr ''split'' then Inl SpecInvalid
       else bindR (exact_keys data [''name'']) (\<lambda>_.
            bindR (spec_text (get_or_null data ''name'') 80) (\<lambda>name. Inr [(''name'', JStr name)])))"

definition expense_record :: "spec_env \<Rightarrow> obj \<Rightarrow> obj \<Rightarrow> spec_error + obj" where
  "expense_record env data settings =
     bindR (exact_keys data [''amount'', ''category'', ''note'', ''date'', ''paid_by'', ''split_between'']) (\<lambda>_.
     bindR (spec_optional_text (get_or_null data ''paid_by'') 80) (\<lambda>paid_by.
     bindR (spec_list (get_or_null data ''split_between'')) (\<lambda>raw.
     bindR (unique_texts env raw 20 80) (\<lambda>split_between.
     bindR (setting settings ''mode'') (\<lambda>mode.
       if mode = JStr ''split'' \<and> (paid_by = None \<or> split_between = []) then Inl SpecInvalid
       else if mode = JStr ''personal'' \<and> (paid_by \<noteq> None \<or> split_between \<noteq> []) then Inl SpecInvalid
       else
         bindR (positive_number (get_or_null data ''amount'')) (\<lambda>amount.
         bindR (spec_text (get_or_null data ''category'') 60) (\<lambda>category.
         bindR (text_or_empty (get_or_null data ''note'') 240) (\<lambda>note.
         bindR (required_date env (get_or_null data ''date'')) (\<lambda>date.
           Inr [(''amount'', jnum amount), (''category'', JStr category), (''note'', JStr note), (''date'', JStr date),
                (''paid_by'', opt_str paid_by), (''split_between'', JArr (map JStr split_between))])))))))))"

definition measurement_record :: "spec_env \<Rightarrow> obj \<Rightarrow> obj \<Rightarrow> spec_error + obj" where
  "measurement_record env data settings =
     bindR (exact_keys data [''value'', ''note'', ''date'']) (\<lambda>_.
     bindR (spec_number (get_or_null data ''value'')) (\<lambda>val.
     bindR (text_or_empty (get_or_null data ''note'') 240) (\<lambda>note.
     bindR (required_date env (get_or_null data ''date'')) (\<lambda>date.
       Inr [(''value'', jnum val), (''note'', JStr note), (''date'', JStr date)]))))"

definition note_record :: "spec_env \<Rightarrow> obj \<Rightarrow> obj \<Rightarrow> spec_error + obj" where
  "note_record env data settings =
     bindR (exact_keys data [''title'', ''body'', ''pinned'']) (\<lambda>_.
     bindR (spec_text (get_or_null data ''title'') 120) (\<lambda>title.
     bindR (spec_text (get_or_null data ''body'') 5000) (\<lambda>body.
     bindR (spec_boolean (get_or_null data ''pinned'')) (\<lambda>pinned.
       Inr [(''title'', JStr title), (''body'', JStr body), (''pinned'', JBool pinned)]))))"

text \<open>\<open>{field["key"]: field for field in settings["fields"]}\<close>; stored fields are objects with a text key.\<close>

fun keyed_field :: "json \<Rightarrow> spec_error + string \<times> obj" where
  "keyed_field (JObj f) = (case obj_get f ''key'' of None \<Rightarrow> Inl SpecKey | Some (JStr k) \<Rightarrow> Inr (k, f) | _ \<Rightarrow> Inl SpecType)"
| "keyed_field _ = Inl SpecType"

definition entry_fields :: "obj \<Rightarrow> spec_error + (string \<times> obj) list" where
  "entry_fields settings =
     bindR (setting settings ''fields'') (\<lambda>v.
     case v of JArr xs \<Rightarrow> bindR (mapR keyed_field xs) (\<lambda>kfs. Inr (foldl (\<lambda>fs (k, f). AList.update k f fs) [] kfs))
             | _ \<Rightarrow> Inl SpecType)"

definition text_options :: "obj \<Rightarrow> json list" where
  "text_options field = (case get_or_null field ''options'' of JArr xs \<Rightarrow> xs | _ \<Rightarrow> [])"

definition collection_value :: "spec_env \<Rightarrow> obj \<Rightarrow> json \<Rightarrow> spec_error + json" where
  "collection_value env field v =
     (if v = JNull then (if truthy (get_or_null field ''required'') then Inl SpecInvalid else Inr JNull)
      else
        let type = get_or_null field ''type'' in
        if type \<in> {JStr ''number'', JStr ''currency''} then bindR (spec_number v) (\<lambda>n. Inr (jnum n))
        else if type = JStr ''boolean'' then bindR (spec_boolean v) (\<lambda>b. Inr (JBool b))
        else if type = JStr ''date'' then bindR (required_date env v) (\<lambda>d. Inr (JStr d))
        else if type = JStr ''time'' then
          bindR (optional_time env v) (\<lambda>t. case t of None \<Rightarrow> Inl SpecInvalid | Some s \<Rightarrow> Inr (JStr s))
        else bindR (spec_text v 500) (\<lambda>clean.
               if type = JStr ''select'' \<and> JStr clean \<notin> set (text_options field) then Inl SpecInvalid
               else Inr (JStr clean)))"

definition collection_entry_record :: "spec_env \<Rightarrow> obj \<Rightarrow> obj \<Rightarrow> spec_error + obj" where
  "collection_entry_record env data settings =
     bindR (entry_fields settings) (\<lambda>fields.
       if \<not> fst ` set data \<subseteq> fst ` set fields then Inl SpecInvalid
       else bindR (mapR (\<lambda>(k, v). bindR (some_or SpecKey (map_of fields k)) (\<lambda>field.
                       bindR (collection_value env field v) (\<lambda>w. Inr (k, w)))) data) (\<lambda>values.
            if \<exists>(k, field)\<in>set fields. truthy (get_or_null field ''required'') \<and> k \<notin> fst ` set values then Inl SpecInvalid
            else Inr values))"

section \<open>Modules\<close>

record app_module =
  am_capabilities :: "string list"
  am_records :: "(string \<times> (spec_env \<Rightarrow> obj \<Rightarrow> obj \<Rightarrow> spec_error + obj)) list"
  am_settings :: "spec_env \<Rightarrow> obj \<Rightarrow> spec_error + obj"

definition APP_MODULES :: "(string \<times> app_module) list" where
  "APP_MODULES =
     [(''overview'', \<lparr>am_capabilities = [''overview''], am_records = [], am_settings = overview_settings\<rparr>),
      (''todos'', \<lparr>am_capabilities = [''todo_items'', ''completion_progress''], am_records = [(''todo'', todo_record)],
         am_settings = todos_settings\<rparr>),
      (''guest_list'', \<lparr>am_capabilities = [''guests'', ''rsvp_totals''], am_records = [(''guest'', guest_record)],
         am_settings = guest_settings\<rparr>),
      (''itinerary'', \<lparr>am_capabilities = [''schedule'', ''timeline''], am_records = [(''itinerary_item'', itinerary_record)],
         am_settings = itinerary_settings\<rparr>),
      (''expenses'', \<lparr>am_capabilities = [''expenses'', ''category_totals'', ''budget_progress'', ''settlement_balances''],
         am_records = [(''participant'', participant_record), (''expense'', expense_record)], am_settings = expenses_settings\<rparr>),
      (''metric'', \<lparr>am_capabilities = [''measurements'', ''goal_progress'', ''trend''],
         am_records = [(''measurement'', measurement_record)], am_settings = metric_settings\<rparr>),
      (''notes'', \<lparr>am_capabilities = [''notes'', ''pinned_notes''], am_records = [(''note'', note_record)],
         am_settings = empty_settings\<rparr>),
      (''collection'', \<lparr>am_capabilities = [''custom_collection''], am_records = [(''entry'', collection_entry_record)],
         am_settings = collection_settings\<rparr>)]"

definition APP_THEMES :: "string list" where
  "APP_THEMES = [''coral'', ''sage'', ''ocean'', ''plum'', ''gold'']"

definition module_type :: "json \<Rightarrow> spec_error + string \<times> app_module" where
  "module_type v = (case v of JStr t \<Rightarrow> bindR (some_or SpecInvalid (map_of APP_MODULES t)) (\<lambda>m. Inr (t, m)) | _ \<Rightarrow> Inl SpecInvalid)"

text \<open>One module: its identifier and the object that is stored; \<open>seen\<close> are the identifiers before it.\<close>

definition validate_module :: "spec_env \<Rightarrow> string list \<Rightarrow> json \<Rightarrow> spec_error + string \<times> obj" where
  "validate_module env seen v =
     bindR (spec_object v) (\<lambda>raw.
     bindR (exact_keys raw [''id'', ''type'', ''title'', ''description'', ''settings'']) (\<lambda>_.
     bindR (short_identifier (get_or_null raw ''id'')) (\<lambda>mid.
       if mid \<in> set seen then Inl SpecInvalid
       else bindR (module_type (get_or_null raw ''type'')) (\<lambda>(type, m).
            bindR (spec_object (get_or_null raw ''settings'')) (\<lambda>settings.
            bindR (spec_text (get_or_null raw ''title'') 80) (\<lambda>title.
            bindR (text_or_empty (get_or_null raw ''description'') 240) (\<lambda>description.
            bindR (am_settings m env settings) (\<lambda>clean.
              Inr (mid, [(''id'', JStr mid), (''type'', JStr type), (''title'', JStr title),
                (''description'', JStr description), (''settings'', JObj clean)])))))))))"

definition validate_modules :: "spec_env \<Rightarrow> json \<Rightarrow> spec_error + obj list" where
  "validate_modules env v =
     bindR (spec_list v) (\<lambda>raw.
       if length raw < 1 \<or> 12 < length raw then Inl SpecInvalid
       else bindR (foldR (\<lambda>v ms. bindR (validate_module env (map fst ms) v) (\<lambda>m. Inr (ms @ [m]))) raw []) (\<lambda>ms.
              Inr (map snd ms)))"

text \<open>\<open>list(dict.fromkeys(..))\<close>: the first occurrences in order.\<close>

definition from_keys :: "string list \<Rightarrow> string list" where
  "from_keys xs = foldl (\<lambda>ys x. if x \<in> set ys then ys else ys @ [x]) [] xs"

definition stored_module :: "obj \<Rightarrow> spec_error + app_module" where
  "stored_module m =
     (case obj_get m ''type'' of
        None \<Rightarrow> Inl SpecKey
      | Some (JStr t) \<Rightarrow> some_or SpecKey (map_of APP_MODULES t)
      | Some (JArr _) \<Rightarrow> Inl SpecType
      | Some (JObj _) \<Rightarrow> Inl SpecType
      | Some _ \<Rightarrow> Inl SpecKey)"

definition build_composable_specification :: "spec_env \<Rightarrow> string \<Rightarrow> json \<Rightarrow> spec_error + obj" where
  "build_composable_specification env theme modules =
     (if theme \<notin> set APP_THEMES then Inl SpecInvalid
      else bindR (validate_modules env modules) (\<lambda>clean.
           bindR (mapR stored_module clean) (\<lambda>ms.
             Inr [(''schema_version'', JInt 2), (''template'', JStr ''workspace''), (''theme'', JStr theme),
                  (''settings'', JObj []), (''capabilities'', JArr (map JStr (from_keys (concat (map am_capabilities ms))))),
                  (''modules'', JArr (map JObj clean))])))"

section \<open>Reading a stored specification\<close>

definition or_json :: "json \<Rightarrow> json \<Rightarrow> json" where
  "or_json v d = (if truthy v then v else d)"

definition module_obj :: "string \<Rightarrow> string \<Rightarrow> string \<Rightarrow> obj \<Rightarrow> obj" where
  "module_obj i type title settings =
     [(''id'', JStr i), (''type'', JStr type), (''title'', JStr title), (''description'', JStr []), (''settings'', JObj settings)]"

definition legacy_module :: "string \<Rightarrow> obj \<Rightarrow> spec_error + obj" where
  "legacy_module template settings =
     (let get = get_or_null settings in
      if template = ''budget'' then
        Inr (module_obj ''expenses'' ''expenses'' ''Expenses''
          [(''currency'', or_json (get ''currency'') (JStr ''USD'')), (''budget'', get ''monthly_budget''), (''mode'', JStr ''personal'')])
      else if template = ''expense_splitter'' then
        Inr (module_obj ''expenses'' ''expenses'' ''Shared expenses''
          [(''currency'', or_json (get ''currency'') (JStr ''USD'')), (''budget'', JNull), (''mode'', JStr ''split'')])
      else if template = ''metric_tracker'' then
        Inr (module_obj ''metric'' ''metric'' ''Progress''
          [(''unit'', or_json (get ''unit'') (JStr ''units'')), (''target'', get ''target''),
           (''direction'', or_json (get ''direction'') (JStr ''decrease''))])
      else if template = ''checklist'' then
        Inr (module_obj ''todos'' ''todos'' ''To dos'' [(''show_completed'', JBool True)])
      else Inl SpecInvalid)"

definition is_two :: "json \<Rightarrow> bool" where
  "is_two v \<longleftrightarrow> v = JInt 2 \<or> v = JFloat ''2.0''"

text \<open>\<open>dict(v or {})\<close>; a stored specification holds an object there, anything else that is true raises.\<close>

definition settings_dict :: "json \<Rightarrow> spec_error + obj" where
  "settings_dict v = (if \<not> truthy v then Inr [] else case v of JObj ob \<Rightarrow> Inr ob | _ \<Rightarrow> Inl SpecType)"

definition modules_from_specification :: "spec_env \<Rightarrow> obj \<Rightarrow> string \<Rightarrow> spec_error + obj list" where
  "modules_from_specification env specification legacy_template =
     (let raw = get_or_null specification ''modules'' in
      if is_two (get_or_null specification ''schema_version'') \<and> is_list raw then validate_modules env raw
      else bindR (settings_dict (get_or_null specification ''settings'')) (\<lambda>settings.
           bindR (legacy_module legacy_template settings) (\<lambda>m. Inr [m])))"

definition holds_kind :: "string \<Rightarrow> obj \<Rightarrow> spec_error + bool" where
  "holds_kind kind m = bindR (stored_module m) (\<lambda>am. Inr (kind \<in> fst ` set (am_records am)))"

primrec holders :: "string \<Rightarrow> obj list \<Rightarrow> spec_error + obj list" where
  "holders kind [] = Inr []"
| "holders kind (m # ms) = bindR (holds_kind kind m) (\<lambda>b. bindR (holders kind ms) (\<lambda>hs. Inr (if b then m # hs else hs)))"

definition resolve_record_module :: "spec_env \<Rightarrow> obj \<Rightarrow> string \<Rightarrow> string option \<Rightarrow> string \<Rightarrow> spec_error + obj" where
  "resolve_record_module env specification legacy_template module_id kind =
     bindR (modules_from_specification env specification legacy_template) (\<lambda>modules.
       case module_id of
         Some i \<Rightarrow>
           bindR (short_identifier (JStr i)) (\<lambda>clean_id.
             case find (\<lambda>m. obj_get m ''id'' = Some (JStr clean_id)) modules of
               None \<Rightarrow> Inl SpecInvalid
             | Some m \<Rightarrow> bindR (holds_kind kind m) (\<lambda>b. if \<not> b then Inl SpecInvalid else Inr m))
       | None \<Rightarrow>
           bindR (holders kind modules) (\<lambda>matches. case matches of [m] \<Rightarrow> Inr m | _ \<Rightarrow> Inl SpecInvalid))"

definition validate_module_record :: "spec_env \<Rightarrow> obj \<Rightarrow> string \<Rightarrow> json \<Rightarrow> spec_error + obj" where
  "validate_module_record env m kind data =
     bindR (stored_module m) (\<lambda>am.
     bindR (some_or SpecInvalid (map_of (am_records am) kind)) (\<lambda>validator.
     bindR (spec_object data) (\<lambda>ob.
     bindR (setting m ''settings'') (\<lambda>settings.
       case settings of JObj st \<Rightarrow> validator env ob st | _ \<Rightarrow> Inl SpecType))))"

section \<open>Records a tool call seeds\<close>

text \<open>One value of a collection entry: at most one of the three typed values is given.\<close>

definition seed_value :: "obj \<Rightarrow> json \<Rightarrow> spec_error + obj" where
  "seed_value values v =
     bindR (spec_object v) (\<lambda>raw.
       case get_or_null raw ''field_key'' of
         JStr key \<Rightarrow>
           if key \<in> fst ` set values then Inl SpecInvalid
           else (case filter (\<lambda>w. w \<noteq> JNull) (map (get_or_null raw) [''text_value'', ''number_value'', ''boolean_value'']) of
                   [] \<Rightarrow> Inr (AList.update key JNull values)
                 | [w] \<Rightarrow> Inr (AList.update key w values)
                 | _ \<Rightarrow> Inl SpecInvalid)
       | _ \<Rightarrow> Inl SpecInvalid)"

definition normalize_seed :: "json \<Rightarrow> spec_error + obj" where
  "normalize_seed v =
     bindR (spec_object v) (\<lambda>rec.
       if get_or_null rec ''kind'' \<noteq> JStr ''entry'' then Inr rec
       else bindR (spec_list (get_or_null (dict_or_empty (get_or_null rec ''data'')) ''values'')) (\<lambda>raw.
            bindR (foldR (\<lambda>x values. seed_value values x) raw []) (\<lambda>values.
              Inr (AList.update ''data'' (JObj values) rec))))"

definition normalize_tool_initial_records :: "json \<Rightarrow> spec_error + obj list" where
  "normalize_tool_initial_records v = bindR (spec_list v) (mapR normalize_seed)"

section \<open>Normal forms\<close>

text \<open>What the environment promises: a printed date or time reads back as itself.\<close>

definition spec_env_ok :: "spec_env \<Rightarrow> bool" where
  "spec_env_ok env \<longleftrightarrow> (\<forall>v s. sv_date env v = Some s \<longrightarrow> sv_date env s = Some s) \<and>
     (\<forall>v s. sv_time env v = Some s \<longrightarrow> sv_time env s = Some s)"

named_theorems spec_stable "a validated value validates to itself"

lemma short_identifier_stable [spec_stable]: "short_identifier v = Inr s \<Longrightarrow> short_identifier (JStr s) = Inr s"
  by (cases v) (auto split: if_splits)

lemma spec_text_stable [spec_stable]: "spec_text v n = Inr s \<Longrightarrow> spec_text (JStr s) n = Inr s"
  by (cases v) (auto simp: Let_def split: if_splits)

lemma spec_optional_text_stable [spec_stable]: "spec_optional_text v n = Inr s \<Longrightarrow> spec_optional_text (opt_str s) n = Inr s"
  by (cases v) (auto simp: Let_def opt_str_def split: if_splits)

lemma text_or_empty_stable [spec_stable]: "text_or_empty v n = Inr s \<Longrightarrow> text_or_empty (JStr s) n = Inr s"
  by (cases v) (auto simp: text_or_empty_def result_simps Let_def split: if_splits option.splits)

lemma spec_boolean_stable [spec_stable]: "spec_boolean v = Inr b \<Longrightarrow> spec_boolean (JBool b) = Inr b"
  by simp

lemma one_of_stable [spec_stable]: "one_of xs v = Inr s \<Longrightarrow> one_of xs (JStr s) = Inr s"
  by (cases v) (auto split: if_splits)

lemma spec_number_stable [spec_stable]:
  assumes "spec_number v = Inr x"
  shows "spec_number (jnum x) = Inr x"
proof -
  obtain neg n d where f: "spec_float v = Inr (neg, n, d)" "in_range (neg, n, d)" "x = round4 (neg, n, d)"
    using assms by (auto simp: spec_number_def result_simps split: if_splits)
  have d: "0 < d" "0 \<le> n" using f(1) double_of_sign by (cases v; auto split: if_splits)+
  have b: "0 \<le> snd x \<and> snd x \<le> 10000000000000 \<and> fst x = neg"
    by (rule round4_bounds [OF f(2) d(2,1)]) (simp add: f(3) [symmetric])
  obtain r where r: "x = (neg, r)" "0 \<le> r" "r \<le> 10000000000000" using b by (cases x) auto
  show ?thesis using print4_reads_back [OF r(2,3), of neg] unfolding r(1) by (simp add: spec_number_def jnum_def)
qed

lemma positive_number_stable [spec_stable]: "positive_number v = Inr x \<Longrightarrow> positive_number (jnum x) = Inr x"
  by (auto simp: positive_number_def result_simps spec_number_stable split: prod.splits if_splits)

lemma optional_json_stable:
  assumes "\<And>v x. f v = Inr x \<Longrightarrow> f (jnum x) = Inr x" "optional_json f jnum v = Inr w"
  shows "optional_json f jnum w = Inr w"
  using assms by (auto simp: optional_json_def jnum_def result_simps split: if_splits)

lemma required_date_stable: "spec_env_ok env \<Longrightarrow> required_date env v = Inr s \<Longrightarrow> required_date env (JStr s) = Inr s"
  by (cases v) (auto simp: spec_env_ok_def result_simps)

lemma optional_date_stable: "spec_env_ok env \<Longrightarrow> optional_date env v = Inr s \<Longrightarrow> optional_date env (opt_str s) = Inr s"
  by (cases v) (auto simp: result_simps opt_str_def spec_env_ok_def)

lemma optional_time_stable: "spec_env_ok env \<Longrightarrow> optional_time env v = Inr s \<Longrightarrow> optional_time env (opt_str s) = Inr s"
  by (cases v) (auto simp: result_simps opt_str_def spec_env_ok_def)

lemma check_zone_stable: "check_zone env z = Inr u \<Longrightarrow> check_zone env z = Inr ()"
  by simp

text \<open>Distinct texts, compared by case folding.\<close>

abbreviation texts_step :: "spec_env \<Rightarrow> nat \<Rightarrow> json \<Rightarrow> string list \<Rightarrow> spec_error + string list" where
  "texts_step env n \<equiv> \<lambda>v result. bindR (spec_text v n) (\<lambda>clean.
     if sv_casefold env clean \<in> sv_casefold env ` set result then Inr result else Inr (result @ [clean]))"

lemma texts_step_keeps:
  assumes "foldR (texts_step env n) xs acc = Inr ys" "\<forall>s\<in>set acc. spec_text (JStr s) n = Inr s"
    "distinct (map (sv_casefold env) acc)"
  shows "(\<forall>s\<in>set ys. spec_text (JStr s) n = Inr s) \<and> distinct (map (sv_casefold env) ys) \<and> length ys \<le> length acc + length xs"
  using assms
proof (induction xs arbitrary: acc)
  case (Cons v xs)
  obtain clean where c: "spec_text v n = Inr clean"
    using Cons.prems(1) by (cases "spec_text v n") (simp_all del: spec_text.simps)
  show ?case
  proof (cases "sv_casefold env clean \<in> sv_casefold env ` set acc")
    case True
    then have "foldR (texts_step env n) xs acc = Inr ys" using Cons.prems(1) c by (simp del: spec_text.simps)
    from Cons.IH [OF this Cons.prems(2,3)] show ?thesis by simp
  next
    case False
    then have f: "foldR (texts_step env n) xs (acc @ [clean]) = Inr ys" using Cons.prems(1) c by (simp del: spec_text.simps)
    have "\<forall>s\<in>set (acc @ [clean]). spec_text (JStr s) n = Inr s" "distinct (map (sv_casefold env) (acc @ [clean]))"
      using Cons.prems(2,3) False spec_text_stable [OF c] by (simp_all del: spec_text.simps)
    from Cons.IH [OF f this] show ?thesis by simp
  qed
qed simp

lemma texts_step_again:
  assumes "\<forall>s\<in>set ys. spec_text (JStr s) n = Inr s" "distinct (map (sv_casefold env) (acc @ ys))"
  shows "foldR (texts_step env n) (map JStr ys) acc = Inr (acc @ ys)"
  using assms
proof (induction ys arbitrary: acc)
  case (Cons y ys)
  have "sv_casefold env y \<notin> sv_casefold env ` set acc" using Cons.prems(2) by auto
  then have "foldR (texts_step env n) (map JStr (y # ys)) acc = foldR (texts_step env n) (map JStr ys) (acc @ [y])"
    using Cons.prems(1) by (simp del: spec_text.simps)
  then show ?case using Cons.IH [of "acc @ [y]"] Cons.prems by (simp del: spec_text.simps)
qed simp

lemma unique_texts_stable [spec_stable]:
  assumes "unique_texts env xs m n = Inr ys"
  shows "unique_texts env (map JStr ys) m n = Inr ys"
proof -
  have f: "foldR (texts_step env n) xs [] = Inr ys" "length xs \<le> m" using assms by (auto simp: unique_texts_def split: if_splits)
  then show ?thesis using texts_step_keeps [OF f(1)] texts_step_again [of ys n env "[]"] by (simp add: unique_texts_def)
qed

text \<open>Lists of keyed objects: collection fields and modules.\<close>

locale keyed_list =
  fixes item :: "string list \<Rightarrow> json \<Rightarrow> spec_error + string \<times> obj"
    and kept :: "obj \<Rightarrow> bool"
  assumes fresh: "item seen v = Inr (k, ob) \<Longrightarrow> k \<notin> set seen"
    and stable: "item seen v = Inr (k, ob) \<Longrightarrow> kept ob \<Longrightarrow> item seen (JObj ob) = Inr (k, ob)"
begin

abbreviation items :: "json list \<Rightarrow> (string \<times> obj) list \<Rightarrow> spec_error + (string \<times> obj) list" where
  "items \<equiv> foldR (\<lambda>v fs. bindR (item (map fst fs) v) (\<lambda>f. Inr (fs @ [f])))"

lemma items_again:
  assumes "items raw fs = Inr gs" "\<forall>g\<in>set gs. kept (snd g)"
  shows "\<exists>hs. gs = fs @ hs \<and> length hs = length raw \<and> items (map (\<lambda>g. JObj (snd g)) hs) fs = Inr gs"
  using assms
proof (induction raw arbitrary: fs)
  case (Cons v raw)
  then obtain k ob where k: "item (map fst fs) v = Inr (k, ob)" "items raw (fs @ [(k, ob)]) = Inr gs"
    by (auto simp: result_simps)
  obtain hs where hs: "gs = fs @ (k, ob) # hs" "length hs = length raw" "items (map (\<lambda>g. JObj (snd g)) hs) (fs @ [(k, ob)]) = Inr gs"
    using Cons.IH [OF k(2) Cons.prems(2)] by auto
  have "kept ob" using Cons.prems(2) hs(1) by simp
  then have "items (map (\<lambda>g. JObj (snd g)) ((k, ob) # hs)) fs = Inr gs" using stable [OF k(1)] hs(3) by simp
  then show ?case using hs by (intro exI [of _ "(k, ob) # hs"]) simp
qed simp

lemma items_grow:
  assumes "items raw fs = Inr gs"
  shows "\<exists>hs. gs = fs @ hs \<and> length hs = length raw"
  using assms
proof (induction raw arbitrary: fs)
  case (Cons v raw)
  then obtain k ob where "items raw (fs @ [(k, ob)]) = Inr gs" by (auto simp: result_simps)
  from Cons.IH [OF this] show ?case by auto
qed simp

lemma items_all:
  assumes "items raw fs = Inr gs" "\<And>seen v k ob. item seen v = Inr (k, ob) \<Longrightarrow> P k ob" "\<forall>(k, ob)\<in>set fs. P k ob"
  shows "\<forall>(k, ob)\<in>set gs. P k ob"
  using assms(1,3)
proof (induction raw arbitrary: fs)
  case (Cons v raw)
  then obtain k ob where k: "item (map fst fs) v = Inr (k, ob)" "items raw (fs @ [(k, ob)]) = Inr gs"
    by (auto simp: result_simps)
  show ?case by (rule Cons.IH [OF k(2)]) (use Cons.prems(2) assms(2) [OF k(1)] in auto)
qed simp

lemma items_distinct:
  assumes "items raw fs = Inr gs" "distinct (map fst fs)"
  shows "distinct (map fst gs)"
  using assms
proof (induction raw arbitrary: fs)
  case (Cons v raw)
  then obtain k ob where k: "item (map fst fs) v = Inr (k, ob)" "items raw (fs @ [(k, ob)]) = Inr gs"
    by (auto simp: result_simps)
  show ?case by (rule Cons.IH [OF k(2)]) (use Cons.prems(2) fresh [OF k(1)] in auto)
qed simp

end

text \<open>Lists whose items are refused when they are read again, unless they are kept.\<close>

locale checked_list = keyed_list +
  assumes refused: "item seen v = Inr (k, ob) \<Longrightarrow> \<not> kept ob \<Longrightarrow> item seen (JObj ob) = Inl SpecInvalid"
begin

lemma items_refused:
  assumes "items raw fs = Inr gs" "\<exists>g\<in>set gs - set fs. \<not> kept (snd g)"
  shows "\<exists>hs. gs = fs @ hs \<and> length hs = length raw \<and> items (map (\<lambda>g. JObj (snd g)) hs) fs = Inl SpecInvalid"
  using assms
proof (induction raw arbitrary: fs)
  case (Cons v raw)
  then obtain k ob where k: "item (map fst fs) v = Inr (k, ob)" "items raw (fs @ [(k, ob)]) = Inr gs"
    by (auto simp: result_simps)
  show ?case
  proof (cases "kept ob")
    case True
    then have "\<exists>g\<in>set gs - set (fs @ [(k, ob)]). \<not> kept (snd g)" using Cons.prems(2) by auto
    from Cons.IH [OF k(2) this] obtain hs where "gs = fs @ (k, ob) # hs" "length hs = length raw"
      "items (map (\<lambda>g. JObj (snd g)) hs) (fs @ [(k, ob)]) = Inl SpecInvalid" by auto
    then show ?thesis using stable [OF k(1) True] by (intro exI [of _ "(k, ob) # hs"]) simp
  next
    case False
    obtain hs where "gs = fs @ (k, ob) # hs" "length hs = length raw" using items_grow [OF k(2)] by auto
    then show ?thesis using refused [OF k(1) False] by (intro exI [of _ "(k, ob) # hs"]) simp
  qed
qed simp

end

lemma exact_keys_same: "map fst v = expected \<Longrightarrow> exact_keys v expected = Inr ()"
  by (simp add: exact_keys_def)

lemma get_or_null_simps [simp]:
  "get_or_null ((k, v) # ob) j = (if k = j then v else get_or_null ob j)"
  by (simp add: get_or_null_def)

lemma collection_field_stable:
  assumes "collection_field env seen v = Inr (k, ob)"
  shows "k \<notin> set seen \<and> collection_field env seen (JObj ob) = Inr (k, ob)"
proof -
  from assms obtain raw type options label req where
    v: "v = JObj raw" and f: "short_identifier (get_or_null raw ''key'') = Inr k" "k \<notin> set seen"
      "one_of COLLECTION_FIELD_TYPES (get_or_null raw ''type'') = Inr type"
      "\<exists>raw_options. unique_texts env raw_options 20 60 = Inr options"
      "(type = ''select'') = (options \<noteq> [])"
      "spec_text (get_or_null raw ''label'') 60 = Inr label" "spec_boolean (get_or_null raw ''required'') = Inr req"
      "ob = [(''key'', JStr k), (''label'', JStr label), (''type'', JStr type), (''required'', JBool req),
             (''options'', JArr (map JStr options))]"
    unfolding collection_field_def by (cases v; auto simp: result_simps split: if_splits; blast)
  have u: "unique_texts env (map JStr options) 20 60 = Inr options" using f(4) unique_texts_stable by blast
  note st = short_identifier_stable [OF f(1)] one_of_stable [OF f(3)] spec_text_stable [OF f(6)]
  have e: "exact_keys ob [''key'', ''label'', ''type'', ''required'', ''options''] = Inr ()"
    by (rule exact_keys_same) (simp add: f(8))
  show ?thesis using f(2,5) e unfolding collection_field_def
    by (simp add: f(8) st u del: short_identifier.simps one_of.simps spec_text.simps)
qed

interpretation fields_list: keyed_list "collection_field env" "\<lambda>_. True" for env
  by unfold_locales (use collection_field_stable in blast)+

section \<open>Settings are in normal form\<close>

definition short_currency :: "obj \<Rightarrow> bool" where
  "short_currency c \<longleftrightarrow> (case obj_get c ''currency'' of Some (JStr s) \<Rightarrow> length s \<le> 12 | _ \<Rightarrow> True)"

text \<open>The validators as black boxes: what they accept is known from \<open>spec_stable\<close>.\<close>

lemmas opaque = spec_text.simps spec_optional_text.simps short_identifier.simps one_of.simps
  optional_date.simps optional_time.simps required_date.simps

lemma empty_settings_stable: "empty_settings env s = Inr c \<Longrightarrow> empty_settings env c = Inr c"
  by (auto simp: empty_settings_def result_simps exact_keys_same)

lemma todos_settings_stable: "todos_settings env s = Inr c \<Longrightarrow> todos_settings env c = Inr c"
  by (auto simp: todos_settings_def result_simps exact_keys_same)

lemma guest_settings_stable: "guest_settings env s = Inr c \<Longrightarrow> guest_settings env c = Inr c"
  by (auto simp: guest_settings_def result_simps exact_keys_same)

lemma itinerary_settings_stable:
  assumes "itinerary_settings env s = Inr c"
  shows "itinerary_settings env c = Inr c"
proof -
  from assms obtain z where z: "spec_optional_text (get_or_null s ''timezone'') 64 = Inr z" "check_zone env z = Inr ()"
      "c = [(''timezone'', opt_str z)]"
    by (auto simp: itinerary_settings_def result_simps simp del: opaque)
  show ?thesis using spec_optional_text_stable [OF z(1)] z(2) unfolding z(3)
    by (simp add: itinerary_settings_def exact_keys_same del: opaque)
qed

lemma metric_settings_stable:
  assumes "metric_settings env s = Inr c"
  shows "metric_settings env c = Inr c"
proof -
  from assms obtain direction unit target where m:
      "one_of [''increase'', ''decrease''] (get_or_null s ''direction'') = Inr direction"
      "spec_text (get_or_null s ''unit'') 30 = Inr unit" "optional_json spec_number jnum (get_or_null s ''target'') = Inr target"
      "c = [(''unit'', JStr unit), (''target'', target), (''direction'', JStr direction)]"
    by (auto simp: metric_settings_def result_simps simp del: opaque)
  have t: "optional_json spec_number jnum target = Inr target" by (rule optional_json_stable [OF spec_number_stable m(3)])
  show ?thesis using one_of_stable [OF m(1)] spec_text_stable [OF m(2)] t unfolding m(4)
    by (simp add: metric_settings_def exact_keys_same del: opaque)
qed

lemma py_upper_text:
  assumes "py_isalnum (py_upper raw)" "length (py_upper raw) \<le> n"
  shows "spec_text (JStr (py_upper raw)) n = Inr (py_upper raw)"
proof -
  have f: "is_space_free (py_upper raw)"
    using assms(1) alnum_not_space by (auto simp: py_isalnum_def is_space_free_def)
  then show ?thesis using assms(2) spaced_word [OF f] by (simp add: is_space_free_def)
qed

lemma expenses_settings_stable:
  assumes "expenses_settings env s = Inr c" "short_currency c"
  shows "expenses_settings env c = Inr c"
proof -
  from assms(1) obtain raw mode budget where m: "py_isalnum (py_upper raw)"
      "one_of [''personal'', ''split''] (get_or_null s ''mode'') = Inr mode"
      "optional_json positive_number jnum (get_or_null s ''budget'') = Inr budget"
      "c = [(''currency'', JStr (py_upper raw)), (''budget'', budget), (''mode'', JStr mode)]"
    by (auto simp: expenses_settings_def result_simps Let_def simp del: opaque split: if_splits)
  have t: "optional_json positive_number jnum budget = Inr budget" by (rule optional_json_stable [OF positive_number_stable m(3)])
  have l: "length (py_upper raw) \<le> 12" using assms(2) m(4) by (simp add: short_currency_def)
  have u: "py_upper (py_upper raw) = py_upper raw" by (rule py_upper_twice)
  show ?thesis using one_of_stable [OF m(2)] py_upper_text [OF m(1) l] t m(1) unfolding m(4)
    by (simp add: expenses_settings_def exact_keys_same u del: opaque)
qed

lemma long_text_refused:
  assumes "is_space_free s" "n < length s"
  shows "spec_text (JStr s) n = Inl SpecInvalid" "spec_optional_text (JStr s) n = Inl SpecInvalid"
  using assms spaced_word [OF assms(1)] by auto

lemma alnum_space_free: "py_isalnum s \<Longrightarrow> is_space_free s"
  using alnum_not_space by (auto simp: py_isalnum_def is_space_free_def)

lemma expenses_settings_refused:
  assumes "expenses_settings env s = Inr c" "\<not> short_currency c"
  shows "expenses_settings env c = Inl SpecInvalid"
proof -
  from assms(1) obtain raw mode budget where m: "py_isalnum (py_upper raw)"
      "c = [(''currency'', JStr (py_upper raw)), (''budget'', budget), (''mode'', JStr mode)]"
    by (auto simp: expenses_settings_def result_simps Let_def simp del: opaque split: if_splits)
  have "12 < length (py_upper raw)" using assms(2) m(2) by (simp add: short_currency_def)
  from long_text_refused(1) [OF alnum_space_free [OF m(1)] this] show ?thesis unfolding m(2)
    by (simp add: expenses_settings_def exact_keys_same del: opaque)
qed

lemma overview_fact_stable:
  assumes "overview_fact v = Inr w"
  shows "overview_fact w = Inr w"
proof -
  from assms obtain ob label val where f: "v = JObj ob" "spec_text (get_or_null ob ''label'') 60 = Inr label"
      "spec_text (get_or_null ob ''value'') 160 = Inr val" "w = JObj [(''label'', JStr label), (''value'', JStr val)]"
    unfolding overview_fact_def by (cases v) (auto simp: result_simps simp del: opaque)
  show ?thesis using spec_text_stable [OF f(2)] spec_text_stable [OF f(3)] unfolding f(4)
    by (simp add: overview_fact_def exact_keys_same del: opaque)
qed

lemma mapR_stable:
  assumes "\<And>v w. f v = Inr w \<Longrightarrow> f w = Inr w" "mapR f xs = Inr ys"
  shows "mapR f ys = Inr ys"
  using assms(2) by (induction xs arbitrary: ys) (auto simp: result_simps assms(1))

lemma mapR_length: "mapR f xs = Inr ys \<Longrightarrow> length ys = length xs"
  by (induction xs arbitrary: ys) (auto simp: result_simps)

lemma overview_settings_stable:
  assumes "overview_settings env s = Inr c"
  shows "overview_settings env c = Inr c"
proof -
  from assms obtain raw facts body where f: "\<not> 8 < length raw" "mapR overview_fact raw = Inr facts"
      "text_or_empty (get_or_null s ''body'') 1000 = Inr body" "c = [(''body'', JStr body), (''facts'', JArr facts)]"
    by (auto simp: overview_settings_def result_simps simp del: opaque split: if_splits)
  show ?thesis using mapR_length [OF f(2)] mapR_stable [OF overview_fact_stable f(2)] text_or_empty_stable [OF f(3)] f(1)
    unfolding f(4) by (simp add: overview_settings_def exact_keys_same)
qed

lemma primary_field_stable: "primary_field ks v = Inr w \<Longrightarrow> primary_field ks w = Inr w"
  by (cases v) (auto simp: result_simps split: if_splits)

lemma optional_currency_stable:
  assumes "case currency of None \<Rightarrow> True | Some c \<Rightarrow> py_isalnum c"
    "case map_option py_upper currency of None \<Rightarrow> True | Some c \<Rightarrow> length c \<le> 12"
  shows "spec_optional_text (opt_str (map_option py_upper currency)) 12 = Inr (map_option py_upper currency)"
proof (cases currency)
  case None
  then show ?thesis by (simp add: opt_str_def)
next
  case (Some c)
  then have u: "py_isalnum (py_upper c)" "is_space_free (py_upper c)" "length (py_upper c) \<le> 12"
    using assms py_upper_alnum [of c] by auto
  then show ?thesis using Some spaced_word [OF u(2)] by (simp add: opt_str_def is_space_free_def Let_def)
qed

lemma collection_settings_stable:
  assumes "collection_settings env s = Inr c" "short_currency c"
  shows "collection_settings env c = Inr c"
proof -
  from assms(1) obtain display raw fs primary currency where f:
      "one_of [''list'', ''table'', ''cards''] (get_or_null s ''display'') = Inr display"
      "\<not> (length raw < 1 \<or> 12 < length raw)" "collection_fields env raw = Inr fs"
      "primary_field (map fst fs) (get_or_null s ''primary_field'') = Inr primary"
      "\<not> (case currency of None \<Rightarrow> False | Some c \<Rightarrow> \<not> py_isalnum c)"
      "[(''display'', JStr display), (''fields'', JArr (map (\<lambda>f. JObj (snd f)) fs)), (''primary_field'', primary),
            (''currency'', opt_str (map_option py_upper currency))] = c"
    unfolding collection_settings_def bindR_Inr if_Inr_raise sum.inject by blast
  have al: "case currency of None \<Rightarrow> True | Some c \<Rightarrow> py_isalnum c" using f(5) by (cases currency) auto
  have l: "case map_option py_upper currency of None \<Rightarrow> True | Some c \<Rightarrow> length c \<le> 12"
    using assms(2) unfolding f(6) [symmetric] by (cases currency) (simp_all add: short_currency_def opt_str_def)
  have fs: "length fs = length raw" "collection_fields env (map (\<lambda>f. JObj (snd f)) fs) = Inr fs"
    using fields_list.items_again [of env raw "[]" fs] f(3) by (auto simp: collection_fields_def)
  have u: "map_option py_upper (map_option py_upper currency) = map_option py_upper currency"
    by (cases currency) (simp_all add: py_upper_twice)
  have a: "\<not> (case map_option py_upper currency of None \<Rightarrow> False | Some c \<Rightarrow> \<not> py_isalnum c)"
    using al py_upper_alnum(1) by (cases currency) auto
  have ne: "fs \<noteq> []" using fs(1) f(2) by auto
  obtain cur where cur: "cur = map_option py_upper currency" by blast
  show ?thesis
    using one_of_stable [OF f(1)] fs ne f(2) primary_field_stable [OF f(4)] optional_currency_stable [OF al l] a u
    unfolding f(6) [symmetric] cur [symmetric]
    by (simp add: collection_settings_def exact_keys_same del: opaque primary_field.simps)
qed

lemma collection_settings_refused:
  assumes "collection_settings env s = Inr c" "\<not> short_currency c"
  shows "collection_settings env c = Inl SpecInvalid"
proof -
  from assms(1) obtain display raw fs primary currency where f:
      "one_of [''list'', ''table'', ''cards''] (get_or_null s ''display'') = Inr display"
      "\<not> (length raw < 1 \<or> 12 < length raw)" "collection_fields env raw = Inr fs"
      "primary_field (map fst fs) (get_or_null s ''primary_field'') = Inr primary"
      "\<not> (case currency of None \<Rightarrow> False | Some c \<Rightarrow> \<not> py_isalnum c)"
      "[(''display'', JStr display), (''fields'', JArr (map (\<lambda>f. JObj (snd f)) fs)), (''primary_field'', primary),
            (''currency'', opt_str (map_option py_upper currency))] = c"
    unfolding collection_settings_def bindR_Inr if_Inr_raise sum.inject by blast
  obtain cur where cur: "currency = Some cur" "12 < length (py_upper cur)" "py_isalnum cur"
    using assms(2) f(5) unfolding f(6) [symmetric] by (cases currency) (simp_all add: short_currency_def opt_str_def)
  have fs: "length fs = length raw" "collection_fields env (map (\<lambda>f. JObj (snd f)) fs) = Inr fs"
    using fields_list.items_again [of env raw "[]" fs] f(3) by (auto simp: collection_fields_def)
  have ne: "fs \<noteq> []" using fs(1) f(2) by auto
  have long: "spec_optional_text (JStr (py_upper cur)) 12 = Inl SpecInvalid"
    by (rule long_text_refused(2) [OF alnum_space_free [OF py_upper_alnum(1) [OF cur(3)]] cur(2)])
  show ?thesis
    using one_of_stable [OF f(1)] fs ne f(2) primary_field_stable [OF f(4)] long
    unfolding f(6) [symmetric] cur(1) option.map opt_str_def option.case
    by (simp add: collection_settings_def exact_keys_same del: opaque primary_field.simps)
qed

section \<open>Modules are in normal form\<close>

definition kept_module :: "obj \<Rightarrow> bool" where
  "kept_module m \<longleftrightarrow> (case obj_get m ''settings'' of Some (JObj c) \<Rightarrow> short_currency c | _ \<Rightarrow> True)"

lemma settings_stable:
  assumes "map_of APP_MODULES t = Some am" "am_settings am env s = Inr c" "short_currency c"
  shows "am_settings am env c = Inr c"
proof -
  have "(t, am) \<in> set APP_MODULES" by (rule map_of_SomeD [OF assms(1)])
  then show ?thesis using assms(2,3)
    by (auto simp: APP_MODULES_def intro: empty_settings_stable todos_settings_stable guest_settings_stable
        itinerary_settings_stable metric_settings_stable expenses_settings_stable overview_settings_stable
        collection_settings_stable)
qed

lemma settings_refused:
  assumes "map_of APP_MODULES t = Some am" "am_settings am env s = Inr c" "\<not> short_currency c"
  shows "am_settings am env c = Inl SpecInvalid"
proof -
  have "(t, am) \<in> set APP_MODULES" by (rule map_of_SomeD [OF assms(1)])
  moreover have "short_currency c" if "empty_settings env s = Inr c \<or> todos_settings env s = Inr c \<or> guest_settings env s = Inr c \<or>
      itinerary_settings env s = Inr c \<or> metric_settings env s = Inr c \<or> overview_settings env s = Inr c"
    using that by (auto simp: empty_settings_def todos_settings_def guest_settings_def itinerary_settings_def metric_settings_def
        overview_settings_def result_simps short_currency_def simp del: opaque split: if_splits)
  ultimately show ?thesis using assms(2,3)
    by (auto simp: APP_MODULES_def intro: expenses_settings_refused collection_settings_refused)
qed

lemma validate_module_stable:
  assumes "validate_module env seen v = Inr (k, ob)"
  shows "k \<notin> set seen \<and> obj_get ob ''id'' = Some (JStr k) \<and> (\<exists>t am. obj_get ob ''type'' = Some (JStr t) \<and> map_of APP_MODULES t = Some am) \<and>
    (kept_module ob \<longrightarrow> validate_module env seen (JObj ob) = Inr (k, ob)) \<and>
    (\<not> kept_module ob \<longrightarrow> validate_module env seen (JObj ob) = Inl SpecInvalid)"
proof -
  from assms obtain raw t am settings title description clean where
    f: "short_identifier (get_or_null raw ''id'') = Inr k" "k \<notin> set seen"
      "module_type (get_or_null raw ''type'') = Inr (t, am)"
      "spec_text (get_or_null raw ''title'') 80 = Inr title"
      "text_or_empty (get_or_null raw ''description'') 240 = Inr description" "am_settings am env settings = Inr clean"
      "(k, [(''id'', JStr k), (''type'', JStr t), (''title'', JStr title), (''description'', JStr description), (''settings'', JObj clean)]) = (k, ob)"
    unfolding validate_module_def bindR_Inr if_Inr_raise sum.inject split_paired_Ex prod.case by blast
  have ob: "ob = [(''id'', JStr k), (''type'', JStr t), (''title'', JStr title), (''description'', JStr description), (''settings'', JObj clean)]"
    using f(7) by simp
  have am: "map_of APP_MODULES t = Some am"
    using f(3) by (auto simp: module_type_def result_simps split: json.splits)
  have t: "module_type (JStr t) = Inr (t, am)" using am by (simp add: module_type_def)
  have "validate_module env seen (JObj ob) = Inr (k, ob)" if "kept_module ob"
  proof -
    have "short_currency clean" using that by (simp add: kept_module_def ob)
    then have c: "am_settings am env clean = Inr clean" by (rule settings_stable [OF am f(6)])
    show ?thesis using short_identifier_stable [OF f(1)] f(2) t spec_text_stable [OF f(4)] text_or_empty_stable [OF f(5)] c
      unfolding ob by (simp add: validate_module_def exact_keys_same del: opaque)
  qed
  moreover have "validate_module env seen (JObj ob) = Inl SpecInvalid" if "\<not> kept_module ob"
  proof -
    have "\<not> short_currency clean" using that by (simp add: kept_module_def ob)
    then have c: "am_settings am env clean = Inl SpecInvalid" by (rule settings_refused [OF am f(6)])
    show ?thesis using short_identifier_stable [OF f(1)] f(2) t spec_text_stable [OF f(4)] text_or_empty_stable [OF f(5)] c
      unfolding ob by (simp add: validate_module_def exact_keys_same del: opaque)
  qed
  ultimately show ?thesis using f(2) am by (auto simp: ob)
qed

interpretation modules_list: checked_list "validate_module env" kept_module for env
  by unfold_locales (use validate_module_stable in blast)+

lemma validate_modules_stable:
  assumes "validate_modules env v = Inr ms" "\<forall>m\<in>set ms. kept_module m"
  shows "validate_modules env (JArr (map JObj ms)) = Inr ms"
proof -
  from assms(1) obtain raw gs where g: "v = JArr raw" "\<not> (length raw < 1 \<or> 12 < length raw)"
      "modules_list.items env raw [] = Inr gs" "ms = map snd gs"
    unfolding validate_modules_def by (cases v) (auto simp: result_simps split: if_splits)
  have k: "\<forall>g\<in>set gs. kept_module (snd g)" using assms(2) g(4) by auto
  have h: "length gs = length raw" "modules_list.items env (map (\<lambda>g. JObj (snd g)) gs) [] = Inr gs"
    using modules_list.items_again [OF g(3) k] by auto
  have "map JObj ms = map (\<lambda>g. JObj (snd g)) gs" using g(4) by simp
  moreover have "gs \<noteq> []" using h(1) g(2) by auto
  ultimately show ?thesis using h g(2,4) by (simp add: validate_modules_def comp_def)
qed

lemma validate_modules_refused:
  assumes "validate_modules env v = Inr ms" "\<not> (\<forall>m\<in>set ms. kept_module m)"
  shows "validate_modules env (JArr (map JObj ms)) = Inl SpecInvalid"
proof -
  from assms(1) obtain raw gs where g: "v = JArr raw" "\<not> (length raw < 1 \<or> 12 < length raw)"
      "modules_list.items env raw [] = Inr gs" "ms = map snd gs"
    unfolding validate_modules_def by (cases v) (auto simp: result_simps split: if_splits)
  have k: "\<exists>g\<in>set gs - set []. \<not> kept_module (snd g)" using assms(2) g(4) by auto
  have h: "length gs = length raw" "modules_list.items env (map (\<lambda>g. JObj (snd g)) gs) [] = Inl SpecInvalid"
    using modules_list.items_refused [OF g(3) k] by auto
  have "map JObj ms = map (\<lambda>g. JObj (snd g)) gs" using g(4) by simp
  moreover have "gs \<noteq> []" using h(1) g(2) by auto
  ultimately show ?thesis using h g(2,4) by (simp add: validate_modules_def comp_def)
qed

lemma validate_modules_ids:
  assumes "validate_modules env v = Inr ms"
  shows "distinct (map (\<lambda>m. obj_get m ''id'') ms)" "\<forall>m\<in>set ms. \<exists>am. stored_module m = Inr am"
proof -
  from assms obtain raw gs where g: "modules_list.items env raw [] = Inr gs" "ms = map snd gs"
    unfolding validate_modules_def by (cases v) (auto simp: result_simps split: if_splits)
  have p: "\<forall>(k, ob)\<in>set gs. obj_get ob ''id'' = Some (JStr k) \<and> (\<exists>am. stored_module ob = Inr am)"
    by (rule modules_list.items_all [OF g(1)]) (use validate_module_stable in \<open>fastforce simp: stored_module_def\<close>)+
  then have "map (\<lambda>m. obj_get m ''id'') ms = map (\<lambda>k. Some (JStr k)) (map fst gs)" by (auto simp: g(2))
  moreover have "distinct (map fst gs)" by (rule modules_list.items_distinct [OF g(1)]) simp
  ultimately show "distinct (map (\<lambda>m. obj_get m ''id'') ms)" by (simp add: distinct_map comp_def inj_on_def del: map_map)
  show "\<forall>m\<in>set ms. \<exists>am. stored_module m = Inr am" using p by (auto simp: g(2))
qed

lemma build_specification_modules:
  assumes "build_composable_specification env theme raw = Inr spec" "obj_get spec ''modules'' = Some (JArr (map JObj ms))"
  shows "validate_modules env raw = Inr ms \<and>
    modules_from_specification env spec legacy = validate_modules env (JArr (map JObj ms)) \<and>
    (validate_modules env (JArr (map JObj ms)) = Inr ms \<longrightarrow> build_composable_specification env theme (JArr (map JObj ms)) = Inr spec)"
proof -
  from assms(1) obtain clean ams where c: "validate_modules env raw = Inr clean" "mapR stored_module clean = Inr ams"
      "theme \<in> set APP_THEMES"
      "spec = [(''schema_version'', JInt 2), (''template'', JStr ''workspace''), (''theme'', JStr theme),
         (''settings'', JObj []), (''capabilities'', JArr (map JStr (from_keys (concat (map am_capabilities ams))))),
         (''modules'', JArr (map JObj clean))]"
    by (auto simp: build_composable_specification_def result_simps split: if_splits)
  have "map JObj ms = map JObj clean" using assms(2) c(4) by simp
  then have "ms = clean" by (metis json.inject(6) list.inj_map_strong)
  then show ?thesis using c by (simp add: modules_from_specification_def build_composable_specification_def is_two_def)
qed

text \<open>C35. A stored specification reads back as itself: the modules \<open>modules_from_specification\<close> finds in what
  \<open>build_composable_specification\<close> stored are the modules that were stored, and building from them again gives
  the same specification, so long as no currency grew beyond twelve characters when it was put in capitals.\<close>

theorem specification_reads_back:
  assumes "build_composable_specification env theme raw = Inr spec"
    "obj_get spec ''modules'' = Some (JArr (map JObj ms))" "\<forall>m\<in>set ms. kept_module m"
  shows "modules_from_specification env spec legacy = Inr ms \<and>
    build_composable_specification env theme (JArr (map JObj ms)) = Inr spec"
  using build_specification_modules [OF assms(1,2), of legacy] validate_modules_stable [of env raw ms] assms(3) by auto

text \<open>C37. The limit on a currency is checked before it is put in capitals, which may be longer. A specification that stores
  a currency of more than twelve characters has been accepted, but is refused whenever it is read, so that no record of any of
  its modules can be written.\<close>

theorem capitals_outgrow_the_limit:
  assumes "build_composable_specification env theme raw = Inr spec"
    "obj_get spec ''modules'' = Some (JArr (map JObj ms))" "\<not> (\<forall>m\<in>set ms. kept_module m)"
  shows "modules_from_specification env spec legacy = Inl SpecInvalid \<and>
    resolve_record_module env spec legacy module_id kind = Inl SpecInvalid"
proof -
  have "modules_from_specification env spec legacy = Inl SpecInvalid"
    using build_specification_modules [OF assms(1,2), of legacy] validate_modules_refused [of env raw ms] assms(3) by simp
  then show ?thesis by (simp add: resolve_record_module_def)
qed

section \<open>Records are in normal form\<close>

lemma todo_record_stable:
  assumes "spec_env_ok env" "todo_record env data st = Inr c"
  shows "todo_record env c st = Inr c"
proof -
  from assms(2) obtain priority words completed due assignee where r:
      "one_of [''low'', ''normal'', ''high''] (get_or_null data ''priority'') = Inr priority"
      "spec_text (get_or_null data ''text'') 240 = Inr words" "optional_date env (get_or_null data ''due_date'') = Inr due"
      "spec_optional_text (get_or_null data ''assignee'') 80 = Inr assignee"
      "[(''text'', JStr words), (''completed'', JBool completed), (''due_date'', opt_str due),
        (''assignee'', opt_str assignee), (''priority'', JStr priority)] = c"
    unfolding todo_record_def bindR_Inr sum.inject by blast
  show ?thesis
    using one_of_stable [OF r(1)] spec_text_stable [OF r(2)] optional_date_stable [OF assms(1) r(3)] spec_optional_text_stable [OF r(4)]
    unfolding r(5) [symmetric] by (simp add: todo_record_def exact_keys_same del: opaque)
qed

lemma guest_record_stable:
  assumes "guest_record env data st = Inr c"
  shows "guest_record env c st = Inr c"
proof -
  from assms obtain status n plus_ones name nt where r:
      "one_of [''invited'', ''going'', ''maybe'', ''declined''] (get_or_null data ''status'') = Inr status"
      "obj_get st ''allow_plus_ones'' = Some plus_ones" "\<not> (n < 1 \<or> (if truthy plus_ones then 20 else 1) < n)"
      "spec_text (get_or_null data ''name'') 80 = Inr name" "text_or_empty (get_or_null data ''note'') 240 = Inr nt"
      "[(''name'', JStr name), (''status'', JStr status), (''party_size'', JInt n), (''note'', JStr nt)] = c"
    by (cases "get_or_null data ''party_size''") (auto simp: guest_record_def result_simps Let_def simp del: opaque split: if_splits)
  show ?thesis
    using one_of_stable [OF r(1)] spec_text_stable [OF r(4)] text_or_empty_stable [OF r(5)] r(2,3)
    unfolding r(6) [symmetric] by (simp add: guest_record_def exact_keys_same Let_def del: opaque)
qed

lemma itinerary_record_stable:
  assumes "spec_env_ok env" "itinerary_record env data st = Inr c"
  shows "itinerary_record env c st = Inr c"
proof -
  from assms(2) obtain start_time end_time title date location nt completed where r:
      "optional_time env (get_or_null data ''start_time'') = Inr start_time" "optional_time env (get_or_null data ''end_time'') = Inr end_time"
      "\<not> (case (start_time, end_time) of (Some a, Some b) \<Rightarrow> a \<noteq> [] \<and> b \<noteq> [] \<and> b \<le> a | _ \<Rightarrow> False)"
      "spec_text (get_or_null data ''title'') 160 = Inr title" "optional_date env (get_or_null data ''date'') = Inr date"
      "text_or_empty (get_or_null data ''location'') 160 = Inr location" "text_or_empty (get_or_null data ''note'') 500 = Inr nt"
      "[(''title'', JStr title), (''date'', opt_str date), (''start_time'', opt_str start_time),
        (''end_time'', opt_str end_time), (''location'', JStr location), (''note'', JStr nt), (''completed'', JBool completed)] = c"
    unfolding itinerary_record_def bindR_Inr if_Inr_raise sum.inject by blast
  show ?thesis
    using optional_time_stable [OF assms(1) r(1)] optional_time_stable [OF assms(1) r(2)] r(3) spec_text_stable [OF r(4)]
      optional_date_stable [OF assms(1) r(5)] text_or_empty_stable [OF r(6)] text_or_empty_stable [OF r(7)]
    unfolding r(8) [symmetric] by (simp add: itinerary_record_def exact_keys_same if_Inr_raise del: opaque)
qed

lemma participant_record_stable:
  assumes "participant_record env data st = Inr c"
  shows "participant_record env c st = Inr c"
proof -
  from assms obtain name where r: "setting st ''mode'' = Inr (JStr ''split'')" "spec_text (get_or_null data ''name'') 80 = Inr name"
      "[(''name'', JStr name)] = c"
    unfolding participant_record_def bindR_Inr if_Inr_raise sum.inject by blast
  show ?thesis using spec_text_stable [OF r(2)] r(1)
    unfolding r(3) [symmetric] by (simp add: participant_record_def exact_keys_same del: opaque)
qed

lemma expense_record_stable:
  assumes "spec_env_ok env" "expense_record env data st = Inr c"
  shows "expense_record env c st = Inr c"
proof -
  from assms(2) obtain paid_by raw split_between mode amount category nt date where r:
      "spec_optional_text (get_or_null data ''paid_by'') 80 = Inr paid_by" "unique_texts env raw 20 80 = Inr split_between"
      "setting st ''mode'' = Inr mode" "\<not> (mode = JStr ''split'' \<and> (paid_by = None \<or> split_between = []))"
      "\<not> (mode = JStr ''personal'' \<and> (paid_by \<noteq> None \<or> split_between \<noteq> []))"
      "positive_number (get_or_null data ''amount'') = Inr amount" "spec_text (get_or_null data ''category'') 60 = Inr category"
      "text_or_empty (get_or_null data ''note'') 240 = Inr nt" "required_date env (get_or_null data ''date'') = Inr date"
      "[(''amount'', jnum amount), (''category'', JStr category), (''note'', JStr nt), (''date'', JStr date),
        (''paid_by'', opt_str paid_by), (''split_between'', JArr (map JStr split_between))] = c"
    unfolding expense_record_def bindR_Inr if_Inr_raise sum.inject by blast
  show ?thesis
    using spec_optional_text_stable [OF r(1)] unique_texts_stable [OF r(2)] r(3-5) positive_number_stable [OF r(6)]
      spec_text_stable [OF r(7)] text_or_empty_stable [OF r(8)] required_date_stable [OF assms(1) r(9)]
    unfolding r(10) [symmetric] by (simp add: expense_record_def exact_keys_same del: opaque)
qed

lemma measurement_record_stable:
  assumes "spec_env_ok env" "measurement_record env data st = Inr c"
  shows "measurement_record env c st = Inr c"
proof -
  from assms(2) obtain val nt date where r: "spec_number (get_or_null data ''value'') = Inr val"
      "text_or_empty (get_or_null data ''note'') 240 = Inr nt" "required_date env (get_or_null data ''date'') = Inr date"
      "[(''value'', jnum val), (''note'', JStr nt), (''date'', JStr date)] = c"
    unfolding measurement_record_def bindR_Inr sum.inject by blast
  show ?thesis
    using spec_number_stable [OF r(1)] text_or_empty_stable [OF r(2)] required_date_stable [OF assms(1) r(3)]
    unfolding r(4) [symmetric] by (simp add: measurement_record_def exact_keys_same del: opaque)
qed

lemma note_record_stable:
  assumes "note_record env data st = Inr c"
  shows "note_record env c st = Inr c"
proof -
  from assms obtain title body pinned where r: "spec_text (get_or_null data ''title'') 120 = Inr title"
      "spec_text (get_or_null data ''body'') 5000 = Inr body"
      "[(''title'', JStr title), (''body'', JStr body), (''pinned'', JBool pinned)] = c"
    unfolding note_record_def bindR_Inr sum.inject by blast
  show ?thesis using spec_text_stable [OF r(1)] spec_text_stable [OF r(2)]
    unfolding r(3) [symmetric] by (simp add: note_record_def exact_keys_same del: opaque)
qed

lemma collection_value_stable:
  assumes "spec_env_ok env" "collection_value env field v = Inr w"
  shows "collection_value env field w = Inr w"
proof (cases "v = JNull")
  case True
  then show ?thesis using assms(2) by (auto simp: collection_value_def split: if_splits)
next
  case False
  obtain type where type: "type = get_or_null field ''type''" by blast
  have e: "collection_value env field x =
     (if type \<in> {JStr ''number'', JStr ''currency''} then bindR (spec_number x) (\<lambda>n. Inr (jnum n))
      else if type = JStr ''boolean'' then bindR (spec_boolean x) (\<lambda>b. Inr (JBool b))
      else if type = JStr ''date'' then bindR (required_date env x) (\<lambda>d. Inr (JStr d))
      else if type = JStr ''time'' then
        bindR (optional_time env x) (\<lambda>t. case t of None \<Rightarrow> Inl SpecInvalid | Some s \<Rightarrow> Inr (JStr s))
      else bindR (spec_text x 500) (\<lambda>clean.
             if type = JStr ''select'' \<and> JStr clean \<notin> set (text_options field) then Inl SpecInvalid
             else Inr (JStr clean)))" if "x \<noteq> JNull" for x
    using that by (simp only: collection_value_def Let_def type if_False)
  have v: "collection_value env field v = Inr w" by (rule assms(2))
  show ?thesis
  proof (cases "type \<in> {JStr ''number'', JStr ''currency''}")
    case True
    obtain n where n: "spec_number v = Inr n" "w = jnum n" using v unfolding e [OF False] if_P [OF True] by (auto simp: bindR_Inr)
    have "w \<noteq> JNull" by (simp add: n(2) jnum_def)
    from e [OF this] show ?thesis unfolding if_P [OF True] using spec_number_stable [OF n(1)] by (simp add: n(2))
  next
    case nu: False
    show ?thesis
    proof (cases "type = JStr ''boolean''")
      case True
      obtain b where b: "w = JBool b" using v unfolding e [OF False] if_not_P [OF nu] if_P [OF True] by (auto simp: bindR_Inr)
      then have "w \<noteq> JNull" by simp
      from e [OF this] show ?thesis unfolding if_not_P [OF nu] if_P [OF True] by (simp add: b)
    next
      case bo: False
      show ?thesis
      proof (cases "type = JStr ''date''")
        case True
        obtain d where d: "required_date env v = Inr d" "w = JStr d"
          using v unfolding e [OF False] if_not_P [OF nu] if_not_P [OF bo] if_P [OF True] by (auto simp: bindR_Inr)
        then have "w \<noteq> JNull" by simp
        from e [OF this] show ?thesis unfolding if_not_P [OF nu] if_not_P [OF bo] if_P [OF True] d(2) required_date_stable [OF assms(1) d(1)]
          by simp
      next
        case da: False
        show ?thesis
        proof (cases "type = JStr ''time''")
          case True
          obtain t where t: "optional_time env v = Inr (Some t)" "w = JStr t"
            using v unfolding e [OF False] if_not_P [OF nu] if_not_P [OF bo] if_not_P [OF da] if_P [OF True]
            by (auto simp: bindR_Inr split: option.splits)
          have "optional_time env (JStr t) = Inr (Some t)" using optional_time_stable [OF assms(1) t(1)] by (simp add: opt_str_def del: opaque)
          moreover have "w \<noteq> JNull" using t(2) by simp
          ultimately show ?thesis using e [of w] unfolding if_not_P [OF nu] if_not_P [OF bo] if_not_P [OF da] if_P [OF True] t(2) by simp
        next
          case ti: False
          obtain s where s: "spec_text v 500 = Inr s" "\<not> (type = JStr ''select'' \<and> JStr s \<notin> set (text_options field))" "w = JStr s"
            using v unfolding e [OF False] if_not_P [OF nu] if_not_P [OF bo] if_not_P [OF da] if_not_P [OF ti] bindR_Inr if_Inr_raise sum.inject
            by blast
          have "w \<noteq> JNull" using s(3) by simp
          from e [OF this] show ?thesis
            unfolding if_not_P [OF nu] if_not_P [OF bo] if_not_P [OF da] if_not_P [OF ti] s(3) spec_text_stable [OF s(1)] bindR_simps if_not_P [OF s(2)] .
        qed
      qed
    qed
  qed
qed

lemma collection_entry_record_stable:
  assumes "spec_env_ok env" "collection_entry_record env data st = Inr c"
  shows "collection_entry_record env c st = Inr c"
proof -
  let ?f = "\<lambda>fields (k, v). bindR (some_or SpecKey (map_of fields k)) (\<lambda>field. bindR (collection_value env field v) (\<lambda>w. Inr (k, w)))"
  from assms(2) obtain fields where r: "entry_fields st = Inr fields" "\<not> \<not> fst ` set data \<subseteq> fst ` set fields"
      "mapR (?f fields) data = Inr c" "\<not> (\<exists>(k, field)\<in>set fields. truthy (get_or_null field ''required'') \<and> k \<notin> fst ` set c)"
    unfolding collection_entry_record_def bindR_Inr if_Inr_raise sum.inject by blast
  have keys: "map fst c = map fst data"
    by (rule mapR_cong_id [OF r(3)]) (auto simp: result_simps)
  have m: "mapR (?f fields) c = Inr c"
  proof (rule mapR_stable [OF _ r(3)])
    fix x y
    assume "?f fields x = Inr y"
    then obtain k field v w where "x = (k, v)" "y = (k, w)" "map_of fields k = Some field" "collection_value env field v = Inr w"
      by (cases x) (auto simp: result_simps)
    then show "?f fields y = Inr y" using collection_value_stable [OF assms(1)] by simp
  qed
  have "fst ` set c \<subseteq> fst ` set fields" using r(2) keys by (metis list.set_map)
  then show ?thesis using r(1,4) m by (simp add: collection_entry_record_def)
qed

text \<open>C36. A stored record validates to itself: whatever a module accepts of a record of any kind, its normal form
  is accepted again and unchanged, so an edit that sends back what it read changes nothing.\<close>

theorem record_validation_is_idempotent:
  assumes "validate_module_record env m kind data = Inr clean" "spec_env_ok env"
  shows "validate_module_record env m kind (JObj clean) = Inr clean"
proof -
  from assms(1) obtain am f ob st where r: "stored_module m = Inr am" "map_of (am_records am) kind = Some f"
      "setting m ''settings'' = Inr (JObj st)" "f env ob st = Inr clean"
  proof -
    obtain am f ob x where r: "stored_module m = Inr am" "map_of (am_records am) kind = Some f" "setting m ''settings'' = Inr x"
        "(case x of JObj st \<Rightarrow> f env ob st | _ \<Rightarrow> Inl SpecType) = Inr clean"
      using assms(1) unfolding validate_module_record_def bindR_Inr some_or_Inr by blast
    with that show thesis by (cases x) auto
  qed
  obtain t where "map_of APP_MODULES t = Some am" using r(1) by (auto simp: stored_module_def result_simps split: json.splits option.splits)
  then have "(t, am) \<in> set APP_MODULES" "(kind, f) \<in> set (am_records am)" using r(2) by (auto dest: map_of_SomeD)
  then have "f env clean st = Inr clean" using r(4) assms(2)
    by (auto simp: APP_MODULES_def intro: todo_record_stable guest_record_stable itinerary_record_stable participant_record_stable
        expense_record_stable measurement_record_stable note_record_stable collection_entry_record_stable)
  then show ?thesis using r by (simp add: validate_module_record_def)
qed

section \<open>Examples\<close>

definition plain_spec_env :: spec_env where
  "plain_spec_env = \<lparr>sv_zone = (\<lambda>z. if z = ''UTC'' then ZoneFound else ZoneMissing),
     sv_date = (\<lambda>s. if length s = 10 then Some s else None), sv_time = (\<lambda>s. if length s = 5 then Some s else None),
     sv_casefold = (\<lambda>s. s)\<rparr>"

lemma plain_spec_env_ok: "spec_env_ok plain_spec_env"
  by (auto simp: spec_env_ok_def plain_spec_env_def split: if_splits)

definition budget_module :: "string \<Rightarrow> string \<Rightarrow> obj" where
  "budget_module currency budget =
     [(''id'', JStr ''spend''), (''type'', JStr ''expenses''), (''title'', JStr ''Money''), (''description'', JStr []),
      (''settings'', JObj [(''currency'', JStr currency), (''budget'', JFloat budget), (''mode'', JStr ''split'')])]"

definition stored_spec :: "string \<Rightarrow> string \<Rightarrow> obj" where
  "stored_spec currency budget =
     [(''schema_version'', JInt 2), (''template'', JStr ''workspace''), (''theme'', JStr ''sage''), (''settings'', JObj []),
      (''capabilities'', JArr (map JStr [''expenses'', ''category_totals'', ''budget_progress'', ''settlement_balances''])),
      (''modules'', JArr [JObj (budget_module currency budget)])]"

theorem specification_reads_back_witness:
  "modules_from_specification plain_spec_env (stored_spec ''USD'' ''12.3457'') ''budget'' = Inr [budget_module ''USD'' ''12.3457''] \<and>
   build_composable_specification plain_spec_env ''sage'' (JArr [JObj (budget_module ''USD'' ''12.3457'')]) = Inr (stored_spec ''USD'' ''12.3457'')"
proof -
  have b: "build_composable_specification plain_spec_env ''sage'' (JArr [JObj (budget_module '' usd'' ''12.34567'')]) =
      Inr (stored_spec ''USD'' ''12.3457'')" by code_simp
  have m: "obj_get (stored_spec ''USD'' ''12.3457'') ''modules'' = Some (JArr (map JObj [budget_module ''USD'' ''12.3457'']))"
    by (simp add: stored_spec_def)
  have k: "\<forall>m\<in>set [budget_module ''USD'' ''12.3457'']. kept_module m" by code_simp
  show ?thesis using specification_reads_back [OF b m k, of "''budget''"] by simp
qed

theorem record_validation_is_idempotent_witness:
  "validate_module_record plain_spec_env (budget_module ''USD'' ''12.3457'') ''expense''
     (JObj [(''amount'', JFloat ''3.5''), (''category'', JStr ''Food''), (''note'', JStr []), (''date'', JStr ''2025-01-02''),
       (''paid_by'', JStr ''Ada''), (''split_between'', JArr [JStr ''Ada'', JStr ''Bo''])]) =
   Inr [(''amount'', JFloat ''3.5''), (''category'', JStr ''Food''), (''note'', JStr []), (''date'', JStr ''2025-01-02''),
       (''paid_by'', JStr ''Ada''), (''split_between'', JArr [JStr ''Ada'', JStr ''Bo''])]"
proof -
  have b: "validate_module_record plain_spec_env (budget_module ''USD'' ''12.3457'') ''expense''
     (JObj [(''split_between'', JArr [JStr '' Ada'', JStr ''Ada'', JStr ''Bo'']), (''amount'', JFloat ''3.50001''), (''category'', JStr ''Food''),
       (''note'', JStr []), (''date'', JStr ''2025-01-02''), (''paid_by'', JStr ''Ada '')]) =
   Inr [(''amount'', JFloat ''3.5''), (''category'', JStr ''Food''), (''note'', JStr []), (''date'', JStr ''2025-01-02''),
       (''paid_by'', JStr ''Ada''), (''split_between'', JArr [JStr ''Ada'', JStr ''Bo''])]" by code_simp
  show ?thesis by (rule record_validation_is_idempotent [OF b plain_spec_env_ok])
qed

text \<open>A currency of seven sharp s, which becomes fourteen letters.\<close>

theorem capitals_outgrow_the_limit_witness:
  "build_composable_specification plain_spec_env ''sage''
     (JArr [JObj (budget_module (replicate 7 (char_of (223::int))) ''5.0'')]) =
     Inr (stored_spec (replicate 14 CHR ''S'') ''5.0'') \<and>
   modules_from_specification plain_spec_env (stored_spec (replicate 14 CHR ''S'') ''5.0'') ''budget'' = Inl SpecInvalid"
proof
  show b: "build_composable_specification plain_spec_env ''sage''
     (JArr [JObj (budget_module (replicate 7 (char_of (223::int))) ''5.0'')]) = Inr (stored_spec (replicate 14 CHR ''S'') ''5.0'')"
    by code_simp
  have m: "obj_get (stored_spec (replicate 14 CHR ''S'') ''5.0'') ''modules'' =
      Some (JArr (map JObj [budget_module (replicate 14 CHR ''S'') ''5.0'']))"
    by (simp add: stored_spec_def)
  have "\<not> (\<forall>m\<in>set [budget_module (replicate 14 CHR ''S'') ''5.0'']. kept_module m)" by code_simp
  from capitals_outgrow_the_limit [OF b m this] show "modules_from_specification plain_spec_env
      (stored_spec (replicate 14 CHR ''S'') ''5.0'') ''budget'' = Inl SpecInvalid" by blast
qed

end
