(* ===== verification/App_Tool_Schema.thy ===== *)
theory App_Tool_Schema
  imports App_Specs
begin

text \<open>
  The JSON schemas a model is shown for the modules and the initial records of an app
  (\<open>GENERATED_APP_MODULES_TOOL_SCHEMA\<close> and \<open>GENERATED_APP_INITIAL_RECORDS_TOOL_SCHEMA\<close> of
  \<open>services/generated_app_specs.py\<close>), and that they ask for exactly the fields the validators accept.
\<close>

section \<open>The schemas\<close>

definition closed_schema :: "obj \<Rightarrow> json" where
  "closed_schema props =
     JObj [(''type'', JStr ''object''), (''properties'', JObj props), (''required'', JArr (map (\<lambda>p. JStr (fst p)) props)),
           (''additionalProperties'', JBool False)]"

definition typed :: "string \<Rightarrow> json" where
  "typed t = JObj [(''type'', JStr t)]"

definition nullable :: "string \<Rightarrow> json" where
  "nullable t = JObj [(''type'', JArr [JStr t, JStr ''null''])]"

definition enum :: "string list \<Rightarrow> json" where
  "enum xs = JObj [(''type'', JStr ''string''), (''enum'', JArr (map JStr xs))]"

definition at_most :: "int \<Rightarrow> json" where
  "at_most n = JObj [(''type'', JStr ''string''), (''maxLength'', JInt n)]"

definition ID_PATTERN :: string where
  "ID_PATTERN = ''^[a-z][a-z0-9_]{0,39}$''"

definition module_tool_variant :: "string \<Rightarrow> obj \<Rightarrow> json" where
  "module_tool_variant type settings =
     closed_schema
       [(''id'', JObj [(''type'', JStr ''string''), (''pattern'', JStr ID_PATTERN)]), (''type'', enum [type]),
        (''title'', JObj [(''type'', JStr ''string''), (''minLength'', JInt 1), (''maxLength'', JInt 80)]),
        (''description'', at_most 240), (''settings'', closed_schema settings)]"

definition field_schema :: json where
  "field_schema =
     closed_schema
       [(''key'', JObj [(''type'', JStr ''string''), (''pattern'', JStr ID_PATTERN)]),
        (''label'', JObj [(''type'', JStr ''string''), (''minLength'', JInt 1), (''maxLength'', JInt 60)]),
        (''type'', enum (sort COLLECTION_FIELD_TYPES)), (''required'', typed ''boolean''),
        (''options'', JObj [(''type'', JStr ''array''), (''maxItems'', JInt 20), (''items'', at_most 60)])]"

definition settings_schemas :: "(string \<times> obj) list" where
  "settings_schemas =
     [(''overview'',
        [(''body'', at_most 1000),
         (''facts'', JObj [(''type'', JStr ''array''), (''maxItems'', JInt 8),
            (''items'', closed_schema [(''label'', at_most 60), (''value'', at_most 160)])])]),
      (''todos'', [(''show_completed'', typed ''boolean'')]),
      (''guest_list'', [(''allow_plus_ones'', typed ''boolean'')]),
      (''itinerary'', [(''timezone'', nullable ''string'')]),
      (''expenses'', [(''currency'', typed ''string''), (''budget'', nullable ''number''), (''mode'', enum [''personal'', ''split''])]),
      (''metric'', [(''unit'', typed ''string''), (''target'', nullable ''number''), (''direction'', enum [''increase'', ''decrease''])]),
      (''notes'', []),
      (''collection'',
        [(''display'', enum [''list'', ''table'', ''cards'']), (''primary_field'', nullable ''string''),
         (''currency'', nullable ''string''),
         (''fields'', JObj [(''type'', JStr ''array''), (''minItems'', JInt 1), (''maxItems'', JInt 12), (''items'', field_schema)])])]"

definition GENERATED_APP_MODULES_TOOL_SCHEMA :: json where
  "GENERATED_APP_MODULES_TOOL_SCHEMA =
     JObj [(''type'', JStr ''array''), (''minItems'', JInt 1), (''maxItems'', JInt 12),
       (''items'', JObj [(''anyOf'', JArr (map (\<lambda>(t, settings). module_tool_variant t settings) settings_schemas))])]"

definition initial_record_variant :: "string \<Rightarrow> obj \<Rightarrow> json" where
  "initial_record_variant kind data =
     closed_schema
       [(''module_id'', JObj [(''type'', JStr ''string''), (''pattern'', JStr ID_PATTERN)]), (''kind'', enum [kind]),
        (''actor_name'', nullable ''string''), (''data'', closed_schema data)]"

definition record_schemas :: "(string \<times> obj) list" where
  "record_schemas =
     [(''todo'', [(''text'', typed ''string''), (''completed'', typed ''boolean''), (''due_date'', nullable ''string''),
         (''assignee'', nullable ''string''), (''priority'', enum [''low'', ''normal'', ''high''])]),
      (''guest'', [(''name'', typed ''string''), (''status'', enum [''invited'', ''going'', ''maybe'', ''declined'']),
         (''party_size'', JObj [(''type'', JStr ''integer''), (''minimum'', JInt 1), (''maximum'', JInt 20)]), (''note'', typed ''string'')]),
      (''itinerary_item'', [(''title'', typed ''string''), (''date'', nullable ''string''), (''start_time'', nullable ''string''),
         (''end_time'', nullable ''string''), (''location'', typed ''string''), (''note'', typed ''string''), (''completed'', typed ''boolean'')]),
      (''participant'', [(''name'', typed ''string'')]),
      (''expense'', [(''amount'', typed ''number''), (''category'', typed ''string''), (''note'', typed ''string''), (''date'', typed ''string''),
         (''paid_by'', nullable ''string''),
         (''split_between'', JObj [(''type'', JStr ''array''), (''items'', typed ''string''), (''maxItems'', JInt 20)])]),
      (''measurement'', [(''value'', typed ''number''), (''note'', typed ''string''), (''date'', typed ''string'')]),
      (''note'', [(''title'', typed ''string''), (''body'', typed ''string''), (''pinned'', typed ''boolean'')]),
      (''entry'', [(''values'', JObj [(''type'', JStr ''array''), (''maxItems'', JInt 12),
         (''items'', closed_schema [(''field_key'', typed ''string''), (''text_value'', nullable ''string''),
            (''number_value'', nullable ''number''), (''boolean_value'', nullable ''boolean'')])])])]"

definition GENERATED_APP_INITIAL_RECORDS_TOOL_SCHEMA :: json where
  "GENERATED_APP_INITIAL_RECORDS_TOOL_SCHEMA =
     JObj [(''type'', JStr ''array''), (''maxItems'', JInt 200),
       (''items'', JObj [(''anyOf'', JArr (map (\<lambda>(kind, data). initial_record_variant kind data) record_schemas))])]"

section \<open>Agreement with the validators\<close>

text \<open>The \<open>required\<close> and \<open>properties\<close> keys of a closed schema.\<close>

definition schema_keys :: "json \<Rightarrow> string list" where
  "schema_keys s = (case s of JObj ob \<Rightarrow> (case get_or_null ob ''properties'' of JObj props \<Rightarrow> map fst props | _ \<Rightarrow> []) | _ \<Rightarrow> [])"

definition all_records :: "(string \<times> (spec_env \<Rightarrow> obj \<Rightarrow> obj \<Rightarrow> spec_error + obj)) list" where
  "all_records = concat (map (\<lambda>(_, am). am_records am) APP_MODULES)"

lemma schema_keys_closed: "schema_keys (closed_schema props) = map fst props"
  by (simp add: schema_keys_def closed_schema_def)

lemma exact_keys_D: "bindR (exact_keys v ks) f = Inr c \<Longrightarrow> set (map fst v) = set ks"
  by (simp add: exact_keys_def require_def split: if_splits)

lemma schemas_cover: "map fst settings_schemas = map fst APP_MODULES" "map fst record_schemas = map fst all_records"
  by (simp_all add: settings_schemas_def APP_MODULES_def record_schemas_def all_records_def)

text \<open>The fields the schema of a module type or of a kind of record requires.\<close>

definition settings_fields :: "string \<Rightarrow> string set option" where
  "settings_fields t = map_option (\<lambda>props. set (schema_keys (closed_schema props))) (map_of settings_schemas t)"

definition record_fields :: "string \<Rightarrow> string set option" where
  "record_fields kind = map_option (\<lambda>props. set (schema_keys (closed_schema props))) (map_of record_schemas kind)"

lemma settings_fields_table:
  "settings_fields ''overview'' = Some (set [''body'', ''facts''])"
  "settings_fields ''todos'' = Some (set [''show_completed''])"
  "settings_fields ''guest_list'' = Some (set [''allow_plus_ones''])"
  "settings_fields ''itinerary'' = Some (set [''timezone''])"
  "settings_fields ''expenses'' = Some (set [''currency'', ''budget'', ''mode''])"
  "settings_fields ''metric'' = Some (set [''unit'', ''target'', ''direction''])"
  "settings_fields ''notes'' = Some (set [])"
  "settings_fields ''collection'' = Some (set [''display'', ''fields'', ''primary_field'', ''currency''])"
  by (simp_all add: settings_fields_def settings_schemas_def schema_keys_closed insert_commute)

lemma record_fields_table:
  "record_fields ''todo'' = Some (set [''text'', ''completed'', ''due_date'', ''assignee'', ''priority''])"
  "record_fields ''guest'' = Some (set [''name'', ''status'', ''party_size'', ''note''])"
  "record_fields ''itinerary_item'' = Some (set [''title'', ''date'', ''start_time'', ''end_time'', ''location'', ''note'', ''completed''])"
  "record_fields ''participant'' = Some (set [''name''])"
  "record_fields ''expense'' = Some (set [''amount'', ''category'', ''note'', ''date'', ''paid_by'', ''split_between''])"
  "record_fields ''measurement'' = Some (set [''value'', ''note'', ''date''])"
  "record_fields ''note'' = Some (set [''title'', ''body'', ''pinned''])"
  by (simp_all add: record_fields_def record_schemas_def schema_keys_closed)

lemmas settings_defs = empty_settings_def todos_settings_def guest_settings_def itinerary_settings_def metric_settings_def
  expenses_settings_def overview_settings_def collection_settings_def

lemmas record_defs = todo_record_def guest_record_def itinerary_record_def participant_record_def expense_record_def
  measurement_record_def note_record_def

lemma settings_fields_demanded:
  assumes "(t, am) \<in> set APP_MODULES" "am_settings am env settings = Inr c"
  shows "settings_fields t = Some (set (map fst settings))"
proof -
  have "\<exists>ks f. am_settings am env settings = bindR (exact_keys settings ks) f \<and> settings_fields t = Some (set ks)"
    using assms(1) unfolding APP_MODULES_def
    by (simp only: list.set insert_iff empty_iff prod.inject HOL.simp_thms)
      (elim disjE conjE; hypsubst; simp only: app_module.simps settings_defs; rule exI; rule exI; rule conjI; (rule refl | rule settings_fields_table))
  then show ?thesis using assms(2) exact_keys_D by force
qed

lemma record_keys:
  "todo_record env data st = Inr r \<Longrightarrow> set (map fst data) = set [''text'', ''completed'', ''due_date'', ''assignee'', ''priority'']"
  "guest_record env data st = Inr r \<Longrightarrow> set (map fst data) = set [''name'', ''status'', ''party_size'', ''note'']"
  "itinerary_record env data st = Inr r \<Longrightarrow>
     set (map fst data) = set [''title'', ''date'', ''start_time'', ''end_time'', ''location'', ''note'', ''completed'']"
  "expense_record env data st = Inr r \<Longrightarrow>
     set (map fst data) = set [''amount'', ''category'', ''note'', ''date'', ''paid_by'', ''split_between'']"
  "measurement_record env data st = Inr r \<Longrightarrow> set (map fst data) = set [''value'', ''note'', ''date'']"
  "note_record env data st = Inr r \<Longrightarrow> set (map fst data) = set [''title'', ''body'', ''pinned'']"
  unfolding record_defs by (erule exact_keys_D)+

lemma participant_keys: "participant_record env data st = Inr r \<Longrightarrow> set (map fst data) = set [''name'']"
  unfolding participant_record_def bindR_Inr [of "setting st ''mode''"] if_Inr_raise by (blast dest: exact_keys_D)

lemma record_fields_demanded:
  assumes "(kind, validator) \<in> set all_records" "kind \<noteq> ''entry''" "validator env data st = Inr r"
  shows "record_fields kind = Some (set (map fst data))"
proof -
  have "(kind, validator) \<in> {(''todo'', todo_record), (''guest'', guest_record), (''itinerary_item'', itinerary_record),
      (''participant'', participant_record), (''expense'', expense_record), (''measurement'', measurement_record), (''note'', note_record)}"
    using assms(1,2) by (auto simp: all_records_def APP_MODULES_def)
  then show ?thesis using assms(3)
    by (simp only: insert_iff empty_iff prod.inject HOL.simp_thms)
      (elim disjE conjE; hypsubst; drule record_keys participant_keys; simp only: record_fields_table)
qed

text \<open>The schemas a model is shown and the validators agree: there is a variant for each module type and each
  kind of record, and settings or data (an entry's, which name its own fields, apart) that a validator accepts
  have exactly the fields the variant requires.\<close>

theorem tool_schemas_agree_with_validators:
  assumes "(t, am) \<in> set APP_MODULES" "am_settings am env settings = Inr c"
    "(kind, validator) \<in> set all_records" "kind \<noteq> ''entry''" "validator env data st = Inr r"
  shows "settings_fields t = Some (set (map fst settings)) \<and> record_fields kind = Some (set (map fst data))"
  using settings_fields_demanded [OF assms(1,2)] record_fields_demanded [OF assms(3-5)] by simp

theorem tool_schemas_agree_with_validators_witness:
  "settings_fields ''todos'' = Some {''show_completed''} \<and> record_fields ''participant'' = Some {''name''}"
proof -
  have t: "(''todos'', \<lparr>am_capabilities = [''todo_items'', ''completion_progress''], am_records = [(''todo'', todo_record)],
      am_settings = todos_settings\<rparr>) \<in> set APP_MODULES" (is "(_, ?m) \<in> _") by (simp add: APP_MODULES_def)
  have p: "(''participant'', participant_record) \<in> set all_records" by (simp add: all_records_def APP_MODULES_def)
  have s: "am_settings ?m plain_spec_env [(''show_completed'', JBool True)] = Inr [(''show_completed'', JBool True)]"
    by (simp add: todos_settings_def exact_keys_same)
  have r: "participant_record plain_spec_env [(''name'', JStr ''Ada'')] [(''mode'', JStr ''split'')] = Inr [(''name'', JStr ''Ada'')]"
    by code_simp
  show ?thesis using tool_schemas_agree_with_validators [OF t s p _ r] by simp
qed

end
