(* ===== verification/Follow_Ups.thy ===== *)
theory Follow_Ups
  imports User_Events
begin

text \<open>
  The agent's follow-ups (\<open>agents/followups.py\<close>, \<open>services/agent_followups.py\<close>): scheduling one after a run,
  withdrawing the pending ones when the user writes, and the dispatch of the next due one. The agent and the
  delivery adapter are parameters; the agent may find the wake cancelled, or raise.
\<close>

section \<open>Scheduling and withdrawing\<close>

record followup_settings =
  fs_enabled :: bool
  fs_max_depth :: int
  fs_min_delay :: int
  fs_max_delay :: int

definition cancel_pending_follow_ups :: "instant \<Rightarrow> db \<Rightarrow> uuid \<Rightarrow> int \<times> db" where
  "cancel_pending_follow_ups now d conversation_id =
     (let here = (\<lambda>f. fu_conv f = conversation_id \<and> fu_status f \<in> {FuPending, FuProcessing} \<and> fu_cancel f)
      in (count_where here (db_followups d),
          d\<lparr>db_followups := upd_where here
              (\<lambda>f. f\<lparr>fu_status := FuCancelled, fu_cancelled := Some now, fu_locked := None\<rparr>) (db_followups d)\<rparr>))"

text \<open>A proposal is a goal and a delay in seconds.\<close>

definition schedule_follow_up ::
  "followup_settings \<Rightarrow> instant \<Rightarrow> db \<Rightarrow> uuid \<Rightarrow> uuid \<Rightarrow> uuid \<Rightarrow> (string \<times> int) option \<Rightarrow> string option \<Rightarrow> int \<Rightarrow>
   followup_row option \<times> db" where
  "schedule_follow_up cfg now d conversation_id user_id run proposal provider chain_depth =
     (case proposal of
        None \<Rightarrow> (None, d)
      | Some (goal, due_after) \<Rightarrow>
          if \<not> fs_enabled cfg \<or> fs_max_depth cfg \<le> chain_depth then (None, d)
          else (case find (\<lambda>f. fu_run f = run) (db_followups d) of
            Some f \<Rightarrow> (Some f, d)
          | None \<Rightarrow>
              (case take_id d of (fid, d1) \<Rightarrow>
                let delay = max (fs_min_delay cfg) (min due_after (fs_max_delay cfg));
                    f = \<lparr>fu_id = fid, fu_conv = conversation_id, fu_user = user_id, fu_run = run, fu_goal = goal,
                         fu_provider = provider, fu_cancel = True, fu_depth = chain_depth + 1, fu_status = FuPending,
                         fu_attempts = 0, fu_due = now + seconds delay, fu_locked = None, fu_completed = None,
                         fu_cancelled = None, fu_error = None, fu_created = now\<rparr>
                in (Some f, d1\<lparr>db_followups := db_followups d1 @ [f]\<rparr>))))"

section \<open>The queue\<close>

definition followup_eligible :: "instant \<Rightarrow> followup_row \<Rightarrow> bool" where
  "followup_eligible now f \<longleftrightarrow>
     (fu_status f = FuPending \<and> fu_due f \<le> now) \<or>
     (fu_status f = FuFailed \<and> fu_due f \<le> now) \<or>
     (fu_status f = FuProcessing \<and> (case fu_locked f of None \<Rightarrow> False | Some t \<Rightarrow> t \<le> now - minutes 2))"

definition hold_follow_up :: "instant \<Rightarrow> followup_row \<Rightarrow> followup_row" where
  "hold_follow_up now f =
     f\<lparr>fu_status := FuProcessing, fu_attempts := fu_attempts f + 1, fu_locked := Some now, fu_error := None\<rparr>"

definition claim_follow_up ::
  "int \<Rightarrow> instant \<Rightarrow> uuid option \<Rightarrow> followup_row list \<Rightarrow> followup_row option \<times> followup_row list" where
  "claim_follow_up max_attempts now follow_up_id rows =
     (case least_by (\<lambda>f. (fu_due f, fu_created f))
             (filter (\<lambda>f. followup_eligible now f \<and> fu_attempts f < max_attempts \<and>
                (follow_up_id = None \<or> follow_up_id = Some (fu_id f))) rows) of
        None \<Rightarrow> (None, rows)
      | Some f \<Rightarrow> (Some (hold_follow_up now f), upd_where (\<lambda>q. fu_id q = fu_id f) (hold_follow_up now) rows))"

definition complete_follow_up :: "instant \<Rightarrow> uuid \<Rightarrow> followup_row list \<Rightarrow> followup_row list" where
  "complete_follow_up now follow_up_id =
     upd_where (\<lambda>f. fu_id f = follow_up_id \<and> fu_status f \<noteq> FuCancelled)
       (\<lambda>f. f\<lparr>fu_status := FuCompleted, fu_completed := Some now, fu_locked := None\<rparr>)"

definition cancel_follow_up :: "instant \<Rightarrow> uuid \<Rightarrow> string \<Rightarrow> followup_row list \<Rightarrow> followup_row list" where
  "cancel_follow_up now follow_up_id reason =
     upd_where (\<lambda>f. fu_id f = follow_up_id \<and> fu_status f \<noteq> FuCompleted)
       (\<lambda>f. f\<lparr>fu_status := FuCancelled, fu_cancelled := Some now, fu_locked := None, fu_error := Some (take 2000 reason)\<rparr>)"

definition fail_follow_up :: "instant \<Rightarrow> string \<Rightarrow> followup_row \<Rightarrow> followup_row" where
  "fail_follow_up now err f =
     f\<lparr>fu_status := FuFailed, fu_error := Some (take 2000 err), fu_locked := None,
       fu_due := now + seconds (backoff_seconds (fu_attempts f))\<rparr>"

definition retry_follow_up :: "instant \<Rightarrow> uuid \<Rightarrow> string \<Rightarrow> followup_row list \<Rightarrow> followup_row list" where
  "retry_follow_up now follow_up_id err =
     upd_where (\<lambda>f. fu_id f = follow_up_id \<and> fu_status f \<noteq> FuCancelled) (fail_follow_up now err)"

section \<open>Dispatch\<close>

definition should_cancel :: "db \<Rightarrow> followup_row \<Rightarrow> bool" where
  "should_cancel d f \<longleftrightarrow>
     messaging_opted_out d (fu_user f) \<or>
     (fu_cancel f \<and> (\<exists>m\<in>set (db_messages d). mg_conv m = fu_conv f \<and> mg_inbound m \<and> fu_created f < mg_created m))"

definition resolve_channel :: "db \<Rightarrow> followup_row \<Rightarrow> channel_row option" where
  "resolve_channel d f =
     (case fu_provider f of
        None \<Rightarrow> None
      | Some p \<Rightarrow> latest_by cc_updated
          (filter (\<lambda>h. cc_conv h = fu_conv f \<and> cc_provider h = p \<and> cc_status h = ''active'') (db_channels d)))"

text \<open>The turn of the agent, the cancelled wake, or the exception with its text.\<close>

datatype wake_outcome = WakeTurn turn | WakeCancelled | WakeRaised string

record followup_env =
  fe_max :: int
  fe_provider :: bool
  fe_linq_enabled :: bool
  fe_linq_client :: bool
  fe_agent :: "followup_row \<Rightarrow> channel_row option \<Rightarrow> db \<Rightarrow> wake_outcome \<times> db"
  fe_deliver :: "turn \<Rightarrow> channel_row \<Rightarrow> string \<Rightarrow> db \<Rightarrow> string option \<times> db"

text \<open>How the attempt ends: completed, cancelled with a reason, or failed with a text.\<close>

datatype followup_end = FollowDone | FollowCancelled string | FollowFailed string

definition run_follow_up :: "followup_env \<Rightarrow> db \<Rightarrow> followup_row \<Rightarrow> channel_row option \<Rightarrow> followup_end \<times> db" where
  "run_follow_up env d f channel =
     (case fe_agent env f channel d of
        (WakeCancelled, d1) \<Rightarrow> (FollowCancelled ''Cancelled by a new user message'', d1)
      | (WakeRaised err, d1) \<Rightarrow> (FollowFailed err, d1)
      | (WakeTurn t, d1) \<Rightarrow>
          (case (fu_provider f, channel) of
             (Some p, Some ch) \<Rightarrow>
               if p \<noteq> ''linq'' then (FollowDone, d1)
               else (case fe_deliver env t ch (''benji:follow-up:'' @ str_uuid (fu_id f)) d1 of
                       (None, d2) \<Rightarrow> (FollowDone, d2)
                     | (Some err, d2) \<Rightarrow> (FollowFailed err, d2))
           | _ \<Rightarrow> (FollowDone, d1)))"

definition attempt_follow_up :: "followup_env \<Rightarrow> db \<Rightarrow> followup_row \<Rightarrow> followup_end \<times> db" where
  "attempt_follow_up env d f =
     (if should_cancel d f
      then (FollowCancelled ''Cancelled because the user replied or messaging is unavailable'', d)
      else if \<not> fe_provider env then (FollowFailed ''The follow-up agent model provider is not configured'', d)
      else
        let channel = resolve_channel d f in
        case fu_provider f of
          None \<Rightarrow> run_follow_up env d f channel
        | Some p \<Rightarrow>
            if channel = None then (FollowCancelled (''No active '' @ p @ '' channel''), d)
            else if p \<noteq> ''linq'' then (FollowFailed (''No delivery adapter for '' @ p), d)
            else if \<not> fe_linq_enabled env then (FollowCancelled ''Automated Linq delivery is disabled'', d)
            else if \<not> fe_linq_client env then (FollowFailed ''Linq delivery is not configured'', d)
            else run_follow_up env d f channel)"

definition set_followups :: "db \<Rightarrow> followup_row list \<Rightarrow> db" where
  "set_followups d rows = d\<lparr>db_followups := rows\<rparr>"

definition end_follow_up :: "instant \<Rightarrow> uuid \<Rightarrow> followup_end \<Rightarrow> followup_row list \<Rightarrow> followup_row list" where
  "end_follow_up now i e =
     (case e of
        FollowDone \<Rightarrow> complete_follow_up now i
      | FollowCancelled reason \<Rightarrow> cancel_follow_up now i reason
      | FollowFailed err \<Rightarrow> retry_follow_up now i err)"

definition dispatch_due_follow_up :: "followup_env \<Rightarrow> instant \<Rightarrow> db \<Rightarrow> uuid option \<Rightarrow> bool \<times> db" where
  "dispatch_due_follow_up env now d follow_up_id =
     (case claim_follow_up (fe_max env) now follow_up_id (db_followups d) of
        (None, _) \<Rightarrow> (False, d)
      | (Some f, rows) \<Rightarrow>
          (case attempt_follow_up env (set_followups d rows) f of
             (e, d1) \<Rightarrow> (True, set_followups d1 (end_follow_up now (fu_id f) e (db_followups d1)))))"

section \<open>The contract of the queue\<close>

interpretation followups: backoff_queue fu_id fu_attempts "\<lambda>f. (fu_due f, fu_created f)" followup_eligible hold_follow_up
  "minutes 2" claim_follow_up fail_follow_up
  by unfold_locales
    (auto simp: hold_follow_up_def followup_eligible_def fail_follow_up_def claim_follow_up_def split: option.splits)

lemma schedule_again:
  assumes "schedule_follow_up cfg now d c u run proposal p n = (Some f, d')" "fs_enabled cfg" "n' < fs_max_depth cfg"
  shows "schedule_follow_up cfg now' d' c' u' run (Some q) p' n' = (Some f, d')"
proof -
  have "find (\<lambda>f. fu_run f = run) (db_followups d') = Some f"
    using assms(1) by (auto simp: schedule_follow_up_def take_id_def Let_def find_append_None split: option.splits prod.splits if_splits)
  with assms(2,3) show ?thesis by (cases q) (simp add: schedule_follow_up_def)
qed

section \<open>A cancelled follow-up\<close>

text \<open>
  The steps of the queue, in any interleaving of workers, agents and user messages; \<open>fst_other\<close> is anything
  else that happens to the database.
\<close>

inductive followup_step :: "db \<Rightarrow> db \<Rightarrow> bool" where
  fst_claim: "claim_follow_up n now who (db_followups d) = (found, rows) \<Longrightarrow> followup_step d (set_followups d rows)"
| fst_end: "followup_step d (set_followups d (end_follow_up now i e (db_followups d)))"
| fst_withdraw: "followup_step d (snd (cancel_pending_follow_ups now d c))"
| fst_schedule: "schedule_follow_up cfg now d c u run proposal p n = (f, d') \<Longrightarrow> followup_step d d'"
| fst_other: "db_followups d' = db_followups d \<Longrightarrow> db_next d \<le> db_next d' \<Longrightarrow> followup_step d d'"

definition followups_ok :: "db \<Rightarrow> bool" where
  "followups_ok d \<longleftrightarrow> distinct (map fu_id (db_followups d)) \<and> (\<forall>f\<in>set (db_followups d). fu_id f < db_next d)"

text \<open>How a row changes: it keeps what it was scheduled for, a cancelled row stays cancelled without being
  claimed again, and a completed one is not cancelled.\<close>

definition followup_evolves :: "followup_row \<Rightarrow> followup_row \<Rightarrow> bool" where
  "followup_evolves f g \<longleftrightarrow> fu_id g = fu_id f \<and> fu_conv g = fu_conv f \<and> fu_user g = fu_user f \<and> fu_goal g = fu_goal f \<and>
     fu_depth g = fu_depth f \<and> fu_created g = fu_created f \<and> fu_attempts f \<le> fu_attempts g \<and>
     (fu_status f = FuCancelled \<longrightarrow> fu_status g = FuCancelled \<and> fu_attempts g = fu_attempts f)"

lemma followup_evolves_refl [simp]: "followup_evolves f f"
  by (simp add: followup_evolves_def)

lemma followup_evolves_trans: "followup_evolves f g \<Longrightarrow> followup_evolves g h \<Longrightarrow> followup_evolves f h"
  unfolding followup_evolves_def by auto

lemma evolve_upd:
  assumes "\<And>f. p f \<Longrightarrow> followup_evolves f (h f)" "f \<in> set rows"
  shows "\<exists>g\<in>set (upd_where p h rows). followup_evolves f g"
proof (rule bexI)
  show "followup_evolves f (if p f then h f else f)" using assms(1) by simp
  show "(if p f then h f else f) \<in> set (upd_where p h rows)" using assms(2) unfolding in_set_upd_where by blast
qed

lemma set_followups_simps [simp]: "db_followups (set_followups d rows) = rows" "db_next (set_followups d rows) = db_next d"
  "db_messages (set_followups d rows) = db_messages d" "db_users (set_followups d rows) = db_users d"
  by (simp_all add: set_followups_def)

lemma end_follow_up_upd:
  "\<exists>p h. end_follow_up now i e = upd_where p h \<and> (\<forall>f. fu_id (h f) = fu_id f) \<and> (\<forall>f. p f \<longrightarrow> followup_evolves f (h f))"
proof (cases e)
  case FollowDone
  then show ?thesis unfolding end_follow_up_def complete_follow_up_def
    by (intro exI conjI) (simp, simp_all add: followup_evolves_def)
next
  case (FollowCancelled reason)
  then show ?thesis unfolding end_follow_up_def cancel_follow_up_def
    by (intro exI conjI) (simp, simp_all add: followup_evolves_def)
next
  case (FollowFailed err)
  then show ?thesis unfolding end_follow_up_def retry_follow_up_def
    by (intro exI conjI) (simp, simp_all add: followup_evolves_def fail_follow_up_def)
qed

lemma schedule_cases:
  assumes "schedule_follow_up cfg now d c u run proposal p n = (f, d')"
  shows "d' = d \<or> (\<exists>x. fu_id x = db_next d \<and> db_followups d' = db_followups d @ [x] \<and> db_next d' = Suc (db_next d))"
proof (cases proposal)
  case (Some q)
  obtain g a where q: "q = (g, a)" by (cases q)
  show ?thesis
  proof (cases "find (\<lambda>f. fu_run f = run) (db_followups d)")
    case None
    with assms show ?thesis unfolding schedule_follow_up_def Some q by (auto simp: take_id_def Let_def split: if_splits)
  next
    case (Some x)
    with assms show ?thesis unfolding schedule_follow_up_def \<open>proposal = Some q\<close> q by (auto split: if_splits)
  qed
qed (use assms in \<open>simp add: schedule_follow_up_def\<close>)

lemma followups_ok_ids:
  assumes "followups_ok d" "map fu_id (db_followups d') = map fu_id (db_followups d)" "db_next d \<le> db_next d'"
  shows "followups_ok d'"
proof -
  have "\<forall>i\<in>set (map fu_id (db_followups d)). i < db_next d" "distinct (map fu_id (db_followups d))"
    using assms(1) by (simp_all add: followups_ok_def)
  then have "\<forall>i\<in>set (map fu_id (db_followups d')). i < db_next d" "distinct (map fu_id (db_followups d'))"
    unfolding assms(2) by blast+
  then show ?thesis using assms(3) by (auto simp: followups_ok_def)
qed

lemma followup_step_evolves:
  assumes "followup_step d d'" "followups_ok d"
  shows "followups_ok d' \<and> (\<forall>f\<in>set (db_followups d). \<exists>g\<in>set (db_followups d'). followup_evolves f g)"
  using assms(1)
proof cases
  case (fst_claim n now who found rows)
  note dis = assms(2) [unfolded followups_ok_def]
  have ids: "map fu_id rows = map fu_id (db_followups d)" using followups.claim_ids [of n now who "db_followups d"] fst_claim(2) by simp
  have ok: "followups_ok d'" by (rule followups_ok_ids [OF assms(2)]) (simp_all add: fst_claim(1) ids)
  have "\<exists>g\<in>set rows. followup_evolves f g" if f: "f \<in> set (db_followups d)" for f
  proof (cases found)
    case None
    with fst_claim(2) have "rows = db_followups d" by (auto simp: claim_follow_up_def split: option.splits)
    then show ?thesis using f by (auto intro: bexI [of _ f])
  next
    case (Some x)
    with fst_claim(2) obtain q where q: "q \<in> set (db_followups d)" "followup_eligible now q"
      "rows = upd_where (\<lambda>r. fu_id r = fu_id q) (hold_follow_up now) (db_followups d)" by (auto elim: followups.claim_someE)
    show ?thesis unfolding q(3)
    proof (rule evolve_upd [OF _ f, of "\<lambda>r. fu_id r = fu_id q \<and> r = q" "hold_follow_up now", THEN bexE])
      show "followup_evolves r (hold_follow_up now r)" if "fu_id r = fu_id q \<and> r = q" for r
        using that q(2) by (auto simp: followup_eligible_def followup_evolves_def hold_follow_up_def)
      have "upd_where (\<lambda>r. fu_id r = fu_id q \<and> r = q) (hold_follow_up now) (db_followups d) =
          upd_where (\<lambda>r. fu_id r = fu_id q) (hold_follow_up now) (db_followups d)"
        using dis q(1) unfolding upd_where_def by (intro map_cong refl) (metis row_by_distinct option.inject)
      then show "\<exists>g\<in>set (upd_where (\<lambda>r. fu_id r = fu_id q) (hold_follow_up now) (db_followups d)). followup_evolves f g"
        if "g \<in> set (upd_where (\<lambda>r. fu_id r = fu_id q \<and> r = q) (hold_follow_up now) (db_followups d))" "followup_evolves f g" for g
        using that by auto
    qed
  qed
  with ok show ?thesis by (simp add: fst_claim(1))
next
  case (fst_end now i e)
  obtain p h where p: "end_follow_up now i e = upd_where p h" "\<forall>f. fu_id (h f) = fu_id f" "\<forall>f. p f \<longrightarrow> followup_evolves f (h f)"
    using end_follow_up_upd by blast
  have ids: "map fu_id (upd_where p h (db_followups d)) = map fu_id (db_followups d)" using p(2) by (simp add: map_upd_where)
  have "followups_ok d'" by (rule followups_ok_ids [OF assms(2)]) (simp_all add: fst_end p(1) ids)
  then show ?thesis using evolve_upd [of p h] p(3) by (simp add: fst_end p(1))
next
  case (fst_withdraw now c)
  let ?p = "\<lambda>f. fu_conv f = c \<and> fu_status f \<in> {FuPending, FuProcessing} \<and> fu_cancel f"
  let ?h = "\<lambda>f. f\<lparr>fu_status := FuCancelled, fu_cancelled := Some now, fu_locked := None\<rparr>"
  have rows: "db_followups d' = upd_where ?p ?h (db_followups d)" "db_next d' = db_next d"
    by (simp_all add: fst_withdraw cancel_pending_follow_ups_def Let_def)
  have ids: "map fu_id (upd_where ?p ?h (db_followups d)) = map fu_id (db_followups d)" by (rule map_upd_where) simp
  have "followups_ok d'" by (rule followups_ok_ids [OF assms(2)]) (simp_all add: rows ids del: insert_iff)
  moreover have "\<exists>g\<in>set (upd_where ?p ?h (db_followups d)). followup_evolves f g" if "f \<in> set (db_followups d)" for f
    by (rule evolve_upd [OF _ that]) (auto simp: followup_evolves_def)
  ultimately show ?thesis by (simp add: rows)
next
  case (fst_schedule cfg now c u run proposal p n f)
  from schedule_cases [OF fst_schedule] consider "d' = d"
    | x where "fu_id x = db_next d" "db_followups d' = db_followups d @ [x]" "db_next d' = Suc (db_next d)" by blast
  then show ?thesis
  proof cases
    case 1
    with assms(2) show ?thesis using followup_evolves_refl by blast
  next
    case (2 x)
    then have "followups_ok d'" using assms(2) by (auto simp: followups_ok_def intro: less_SucI)
    then show ?thesis using 2(2) followup_evolves_refl by (metis Un_iff set_append)
  qed
next
  case fst_other
  then show ?thesis using assms(2) followup_evolves_refl unfolding followups_ok_def by (metis less_le_trans)
qed

text \<open>A cancelled follow-up stays cancelled: whatever workers, retries, completions, withdrawals and other
  changes follow, in any order, it is not scheduled, claimed or completed again.\<close>

theorem cancelled_follow_up_stays_cancelled:
  assumes "followup_step\<^sup>*\<^sup>* d d'" "followups_ok d" "f \<in> set (db_followups d)" "fu_status f = FuCancelled"
  shows "(\<exists>g\<in>set (db_followups d'). fu_id g = fu_id f \<and> fu_status g = FuCancelled \<and> fu_attempts g = fu_attempts f) \<and>
    (case fst (claim_follow_up n now who (db_followups d')) of None \<Rightarrow> True | Some c \<Rightarrow> fu_id c \<noteq> fu_id f)"
proof -
  from assms(1) have "followups_ok d' \<and> (\<exists>g\<in>set (db_followups d'). followup_evolves f g)"
  proof (induction rule: rtranclp_induct)
    case base
    then show ?case using assms(2,3) followup_evolves_refl by blast
  next
    case (step y z)
    then show ?case using followup_step_evolves [OF step.hyps(2)] followup_evolves_trans by meson
  qed
  then obtain g where ok: "followups_ok d'" and g: "g \<in> set (db_followups d')" "followup_evolves f g" by blast
  then have c: "fu_id g = fu_id f" "fu_status g = FuCancelled" "fu_attempts g = fu_attempts f"
    using assms(4) by (simp_all add: followup_evolves_def)
  have "fu_id c \<noteq> fu_id f" if "claim_follow_up n now who (db_followups d') = (Some c, rows)" for c rows
  proof
    assume eq: "fu_id c = fu_id f"
    from that obtain q where q: "q \<in> set (db_followups d')" "followup_eligible now q" "c = hold_follow_up now q"
      by (rule followups.claim_someE)
    have "q = g" using ok g(1) q(1,3) eq c(1) unfolding followups_ok_def by (metis row_by_distinct option.inject followups.held_id)
    with q(2) c(2) show False by (simp add: followup_eligible_def)
  qed
  then show ?thesis using g(1) c by (cases "claim_follow_up n now who (db_followups d')") (auto split: option.split)
qed

definition sample_follow_up :: followup_row where
  "sample_follow_up = \<lparr>fu_id = 40, fu_conv = 5, fu_user = 1, fu_run = 41, fu_goal = ''ask'', fu_provider = None, fu_cancel = True,
     fu_depth = 1, fu_status = FuPending, fu_attempts = 0, fu_due = 10, fu_locked = None, fu_completed = None,
     fu_cancelled = None, fu_error = None, fu_created = 0\<rparr>"

definition follow_up_db :: db where
  "follow_up_db = empty_db\<lparr>db_next := 100, db_users := [\<lparr>us_id = 1, us_phone = None, us_name = None, us_opted_out = None,
     us_phone_verified = None, us_first_seen = 0, us_last_seen = 0\<rparr>], db_followups := [sample_follow_up],
     db_messages := [\<lparr>mg_id = 50, mg_conv = 5, mg_user = 1, mg_binding = None, mg_channel = ''linq'', mg_key = None,
       mg_group = None, mg_ordinal = None, mg_inbound = True, mg_content = ''hi'', mg_payload = [], mg_created = 7\<rparr>]\<rparr>"

definition withdrawn_db :: db where
  "withdrawn_db = snd (cancel_pending_follow_ups 8 follow_up_db 5)"

theorem cancelled_follow_up_stays_cancelled_witness:
  "map fu_status (db_followups withdrawn_db) = [FuCancelled] \<and>
     (case fst (claim_follow_up 3 20 None (db_followups withdrawn_db)) of
        None \<Rightarrow> True | Some c \<Rightarrow> fu_id c \<noteq> fu_id (hd (db_followups withdrawn_db)))"
proof -
  let ?f = "hd (db_followups withdrawn_db)"
  have f: "fu_status ?f = FuCancelled" and m: "?f \<in> set (db_followups withdrawn_db)"
    and s: "map fu_status (db_followups withdrawn_db) = [FuCancelled]" and ok: "followups_ok withdrawn_db" by code_simp+
  show ?thesis
    by (rule conjI [OF s conjunct2 [OF cancelled_follow_up_stays_cancelled [OF rtranclp.rtrancl_refl ok m f]]])
qed

text \<open>C34. A follow-up the user has answered is not sent: when a message of the user came into the conversation
  after the follow-up was scheduled, or the user opted out, the dispatch that claims it neither runs the
  agent nor delivers anything; it cancels the follow-up with the reason and changes nothing else.\<close>

theorem answered_follow_up_is_not_sent:
  assumes "claim_follow_up (fe_max env) now who (db_followups d) = (Some f, rows)"
    "messaging_opted_out d (fu_user f) \<or>
     (fu_cancel f \<and> (\<exists>m\<in>set (db_messages d). mg_conv m = fu_conv f \<and> mg_inbound m \<and> fu_created f < mg_created m))"
  shows "dispatch_due_follow_up env now d who = (True, d\<lparr>db_followups :=
    upd_where (\<lambda>g. fu_id g = fu_id f \<and> fu_status g \<noteq> FuCompleted) (\<lambda>g. g\<lparr>fu_status := FuCancelled, fu_cancelled := Some now,
      fu_locked := None, fu_error := Some ''Cancelled because the user replied or messaging is unavailable''\<rparr>) rows\<rparr>)"
proof -
  have c: "should_cancel (set_followups d rows) f" using assms(2) by (simp add: should_cancel_def messaging_opted_out_def)
  have a: "attempt_follow_up env (set_followups d rows) f =
      (FollowCancelled ''Cancelled because the user replied or messaging is unavailable'', set_followups d rows)"
    using c by (simp add: attempt_follow_up_def)
  show ?thesis unfolding dispatch_due_follow_up_def assms(1) option.case prod.case a
    by (simp add: end_follow_up_def cancel_follow_up_def set_followups_def)
qed

theorem answered_follow_up_is_not_sent_witness:
  "\<exists>d'. dispatch_due_follow_up \<lparr>fe_max = 3, fe_provider = True, fe_linq_enabled = True, fe_linq_client = True,
      fe_agent = \<lambda>f c d. (WakeTurn [], d), fe_deliver = \<lambda>t c k d. (None, d)\<rparr> 20 follow_up_db None = (True, d') \<and>
    map fu_status (db_followups d') = [FuCancelled]"
proof -
  let ?env = "\<lparr>fe_max = 3, fe_provider = True, fe_linq_enabled = True, fe_linq_client = True,
      fe_agent = \<lambda>f c d. (WakeTurn [], d), fe_deliver = \<lambda>t c k d. (None, d)\<rparr>"
  have c: "claim_follow_up (fe_max ?env) 20 None (db_followups follow_up_db) =
      (Some (hold_follow_up 20 sample_follow_up), [hold_follow_up 20 sample_follow_up])" by code_simp
  have m: "\<exists>m\<in>set (db_messages follow_up_db). mg_conv m = 5 \<and> mg_inbound m \<and> 0 < mg_created m" by (simp add: follow_up_db_def)
  show ?thesis
    using answered_follow_up_is_not_sent [OF c] m by (simp add: hold_follow_up_def sample_follow_up_def)
qed

end
