(* ===== verification/Users.thy ===== *)
theory Users
  imports Channels
begin

text \<open>
  Users and the identifiers they are reached by (\<open>services/users.py\<close>, \<open>schemas/phone.py\<close>): the
  canonical form of an email address or a phone number, finding or creating the user of an identifier,
  and linking another identifier to a user.

  The environment holds what the code takes from elsewhere: \<open>en_phone\<close> is the E.164 text the
  \<open>phonenumbers\<close> package gives for a valid international number, \<open>None\<close> otherwise; \<open>en_idna\<close> is
  \<open>encode("idna").decode("ascii")\<close>, \<open>None\<close> for a \<open>UnicodeError\<close>; \<open>en_fold\<close> is \<open>str.casefold\<close>.
\<close>

record identity_env =
  en_phone :: "string \<Rightarrow> string option"
  en_idna :: "string \<Rightarrow> string option"
  en_fold :: "string \<Rightarrow> string"

datatype identity_error =
    InvalidIdentifier
  | UserIdentifierConflict
  | UserIdentifierRevoked
  | MissingIdentifierUser
  | PhoneIntegrityError

section \<open>Normal forms\<close>

definition is_alnum :: "char \<Rightarrow> bool" where
  "is_alnum c \<longleftrightarrow> is_digit c \<or> is_lower c \<or> is_upper c"

fun has_double_dot :: "string \<Rightarrow> bool" where
  "has_double_dot (a # b # cs) = ((a = CHR ''.'' \<and> b = CHR ''.'') \<or> has_double_dot (b # cs))"
| "has_double_dot _ = False"

definition bad_label :: "string \<Rightarrow> bool" where
  "bad_label l \<longleftrightarrow> l = [] \<or> 63 < length l \<or> hd l = CHR ''-'' \<or> last l = CHR ''-'' \<or>
     \<not> (\<forall>c\<in>set l. is_alnum c \<or> c = CHR ''-'')"

definition bad_local_part :: "string \<Rightarrow> bool" where
  "bad_local_part l \<longleftrightarrow> l = [] \<or> 64 < length l \<or> hd l = CHR ''.'' \<or> last l = CHR ''.'' \<or> has_double_dot l \<or>
     (\<exists>c\<in>set l. py_isspace c \<or> code_point c < 32)"

definition normalize_email_address :: "identity_env \<Rightarrow> string \<Rightarrow> identity_error + string" where
  "normalize_email_address en value =
     (let candidate = py_strip value in
      if count_list candidate (CHR ''@'') \<noteq> 1 \<or> 320 < length candidate then Inl InvalidIdentifier
      else
        let local_part = takeWhile (\<lambda>c. c \<noteq> CHR ''@'') candidate;
            domain = tl (dropWhile (\<lambda>c. c \<noteq> CHR ''@'') candidate)
        in if bad_local_part local_part then Inl InvalidIdentifier
           else bindR (some_or InvalidIdentifier (en_idna en (rev (dropWhile (\<lambda>c. c = CHR ''.'') (rev domain))))) (\<lambda>ascii.
             let ascii_domain = en_fold en ascii in
             if ascii_domain = [] \<or> (\<exists>l\<in>set (split_on (CHR ''.'') ascii_domain). bad_label l) then Inl InvalidIdentifier
             else
               let normalized = en_fold en local_part @ ''@'' @ ascii_domain in
               if 320 < length normalized then Inl InvalidIdentifier else Inr normalized))"

definition normalize_phone_number :: "identity_env \<Rightarrow> string \<Rightarrow> identity_error + string" where
  "normalize_phone_number en value = some_or InvalidIdentifier (en_phone en (py_strip value))"

definition identifier_kind_of :: "string \<Rightarrow> identifier_kind option" where
  "identifier_kind_of s = (if s = ''phone'' then Some PhoneId else if s = ''email'' then Some EmailId else None)"

definition normalize_user_identifier ::
  "identity_env \<Rightarrow> string \<Rightarrow> string option \<Rightarrow> identity_error + (identifier_kind \<times> string)" where
  "normalize_user_identifier en value expected =
     bindR (case expected of None \<Rightarrow> Inr None
            | Some s \<Rightarrow> bindR (some_or InvalidIdentifier (identifier_kind_of s)) (\<lambda>k. Inr (Some k))) (\<lambda>kind.
       if kind = Some EmailId \<or> (kind = None \<and> CHR ''@'' \<in> set value)
       then bindR (normalize_email_address en value) (\<lambda>v. Inr (EmailId, v))
       else bindR (normalize_phone_number en value) (\<lambda>v. Inr (PhoneId, v)))"

section \<open>Lookups\<close>

definition find_identifier :: "db \<Rightarrow> identifier_kind \<times> string \<Rightarrow> identifier_row option" where
  "find_identifier d n = find (\<lambda>i. ui_kind i = fst n \<and> ui_value i = snd n) (db_identifiers d)"

definition user_by_phone :: "db \<Rightarrow> string \<Rightarrow> user_row option" where
  "user_by_phone d v = find (\<lambda>u. us_phone u = Some v) (db_users d)"

definition find_user_by_identifier ::
  "identity_env \<Rightarrow> db \<Rightarrow> string \<Rightarrow> string option \<Rightarrow> identity_error + user_row option" where
  "find_user_by_identifier en d value expected =
     bindR (normalize_user_identifier en value expected) (\<lambda>n.
       case find_identifier d n of
         Some i \<Rightarrow> Inr (if ui_status i \<noteq> IdActive then None else find_user d (ui_user i))
       | None \<Rightarrow> Inr (if fst n \<noteq> PhoneId then None else user_by_phone d (snd n)))"

section \<open>Writes\<close>

definition clean_source :: "string \<Rightarrow> identity_error + string" where
  "clean_source s = (if py_strip s = [] then Inl InvalidIdentifier else Inr (take 64 (py_strip s)))"

definition set_user :: "user_row \<Rightarrow> db \<Rightarrow> db" where
  "set_user u d = d\<lparr>db_users := upd_where (\<lambda>q. us_id q = us_id u) (\<lambda>_. u) (db_users d)\<rparr>"

definition set_identifier :: "identifier_row \<Rightarrow> db \<Rightarrow> db" where
  "set_identifier i d = d\<lparr>db_identifiers := upd_where (\<lambda>q. ui_id q = ui_id i) (\<lambda>_. i) (db_identifiers d)\<rparr>"

definition make_primary :: "uuid \<Rightarrow> uuid \<Rightarrow> db \<Rightarrow> db" where
  "make_primary user_id identifier_id d =
     d\<lparr>db_identifiers := upd_where (\<lambda>i. ui_user i = user_id \<and> ui_id i \<noteq> identifier_id)
       (\<lambda>i. i\<lparr>ui_primary := False\<rparr>) (db_identifiers d)\<rparr>"

text \<open>The unique index on \<open>users.phone_number\<close> refuses a number another user has.\<close>

definition sync_legacy_phone :: "user_row \<Rightarrow> identifier_row \<Rightarrow> db \<Rightarrow> identity_error + (user_row \<times> db)" where
  "sync_legacy_phone user i d =
     (if ui_kind i \<noteq> PhoneId then Inr (user, d)
      else if us_phone user = None \<or> ui_primary i
      then (if \<exists>q\<in>set (db_users d). us_id q \<noteq> us_id user \<and> us_phone q = Some (ui_value i) then Inl PhoneIntegrityError
            else let u = user\<lparr>us_phone := Some (ui_value i), us_phone_verified := ui_verified i\<rparr> in Inr (u, set_user u d))
      else Inr (user, d))"

definition link_user_identifier ::
  "identity_env \<Rightarrow> instant \<Rightarrow> db \<Rightarrow> user_row \<Rightarrow> string \<Rightarrow> string option \<Rightarrow> string \<Rightarrow> instant option \<Rightarrow> bool \<Rightarrow>
   identity_error + (identifier_row \<times> user_row \<times> db)" where
  "link_user_identifier en now d user value expected source verified_at is_primary =
     bindR (normalize_user_identifier en value expected) (\<lambda>n.
       case find_identifier d n of
         Some existing \<Rightarrow>
           if ui_user existing \<noteq> us_id user then Inl UserIdentifierConflict
           else bindR (clean_source source) (\<lambda>clean.
             let e = existing\<lparr>ui_status := IdActive, ui_source := clean,
                       ui_verified := first_some verified_at (ui_verified existing),
                       ui_primary := (is_primary \<or> ui_primary existing)\<rparr>;
                 d1 = set_identifier e d;
                 d2 = (if is_primary then make_primary (us_id user) (ui_id existing) d1 else d1)
             in bindR (sync_legacy_phone user e d2) (\<lambda>(u, d3). Inr (e, u, d3)))
       | None \<Rightarrow>
           let has = (\<exists>i\<in>set (db_identifiers d). ui_user i = us_id user \<and> ui_status i = IdActive);
               primary = (is_primary \<or> \<not> has)
           in bindR (clean_source source) (\<lambda>clean.
             case take_id d of (iid, d1) \<Rightarrow>
               let i = \<lparr>ui_id = iid, ui_user = us_id user, ui_kind = fst n, ui_value = snd n, ui_primary = primary,
                        ui_status = IdActive, ui_source = clean, ui_verified = verified_at, ui_created = now\<rparr>;
                   d2 = d1\<lparr>db_identifiers := db_identifiers d1 @ [i]\<rparr>;
                   d3 = (if primary then make_primary (us_id user) iid d2 else d2)
               in bindR (sync_legacy_phone user i d3) (\<lambda>(u, d4). Inr (i, u, d4))))"

record user_resolution =
  re_user :: user_row
  re_created :: bool
  re_identifier :: identifier_row

definition resolve_user_from_identifier ::
  "identity_env \<Rightarrow> instant \<Rightarrow> db \<Rightarrow> string \<Rightarrow> string option \<Rightarrow> string \<Rightarrow> bool \<Rightarrow>
   identity_error + (user_resolution \<times> db)" where
  "resolve_user_from_identifier en now d value expected source verified =
     bindR (normalize_user_identifier en value expected) (\<lambda>n.
       case find_identifier d n of
         Some i \<Rightarrow>
           if ui_status i = IdRevoked then Inl UserIdentifierRevoked
           else bindR (some_or MissingIdentifierUser (find_user d (ui_user i))) (\<lambda>user.
             let i1 = (if verified then i\<lparr>ui_verified := Some now\<rparr> else i);
                 u1 = user\<lparr>us_last_seen := now\<rparr>
             in bindR (sync_legacy_phone u1 i1 (set_user u1 (set_identifier i1 d))) (\<lambda>(u, d1).
                  Inr (\<lparr>re_user = u, re_created = False, re_identifier = i1\<rparr>, d1)))
       | None \<Rightarrow>
           (case (if fst n = PhoneId then user_by_phone d (snd n) else None) of
              Some legacy \<Rightarrow>
                bindR (link_user_identifier en now d legacy (snd n) (Some ''phone'') ''legacy_phone''
                         (if verified then Some now else us_phone_verified legacy) True) (\<lambda>(i, u, d1).
                  let u1 = u\<lparr>us_last_seen := now\<rparr>
                  in Inr (\<lparr>re_user = u1, re_created = False, re_identifier = i\<rparr>, set_user u1 d1))
            | None \<Rightarrow>
                bindR (clean_source source) (\<lambda>clean.
                  case take_id d of (uid, d1) \<Rightarrow> case take_id d1 of (iid, d2) \<Rightarrow>
                    let at = (if verified then Some now else None);
                        u = \<lparr>us_id = uid, us_phone = (if fst n = PhoneId then Some (snd n) else None), us_name = None,
                             us_opted_out = None, us_phone_verified = (if fst n = PhoneId then at else None),
                             us_first_seen = now, us_last_seen = now\<rparr>;
                        i = \<lparr>ui_id = iid, ui_user = uid, ui_kind = fst n, ui_value = snd n, ui_primary = True,
                             ui_status = IdActive, ui_source = clean, ui_verified = at, ui_created = now\<rparr>
                    in Inr (\<lparr>re_user = u, re_created = True, re_identifier = i\<rparr>,
                         d2\<lparr>db_users := db_users d2 @ [u], db_identifiers := db_identifiers d2 @ [i]\<rparr>))))"

definition resolve_user_from_phone ::
  "identity_env \<Rightarrow> instant \<Rightarrow> db \<Rightarrow> string \<Rightarrow> identity_error + (user_resolution \<times> db)" where
  "resolve_user_from_phone en now d phone = resolve_user_from_identifier en now d phone (Some ''phone'') ''phone'' True"

section \<open>The invariant of identities\<close>

text \<open>
  Every identifier belongs to a user, a pair of kind and value is one identifier, a phone number one
  user, and a user has at most one primary identifier.
\<close>

definition ui_key :: "identifier_row \<Rightarrow> identifier_kind \<times> string" where
  "ui_key i = (ui_kind i, ui_value i)"

definition phones_ok :: "db \<Rightarrow> bool" where
  "phones_ok d \<longleftrightarrow> (\<forall>u\<in>set (db_users d). \<forall>q\<in>set (db_users d).
     us_phone u \<noteq> None \<and> us_phone u = us_phone q \<longrightarrow> us_id u = us_id q)"

definition one_primary :: "db \<Rightarrow> uuid \<Rightarrow> bool" where
  "one_primary d u \<longleftrightarrow> (\<forall>i\<in>set (db_identifiers d). \<forall>j\<in>set (db_identifiers d).
     ui_user i = u \<and> ui_user j = u \<and> ui_primary i \<and> ui_primary j \<longrightarrow> ui_id i = ui_id j)"

lemma one_primaryD:
  "one_primary d u \<Longrightarrow> i \<in> set (db_identifiers d) \<Longrightarrow> j \<in> set (db_identifiers d) \<Longrightarrow> ui_user i = u \<Longrightarrow> ui_user j = u \<Longrightarrow>
   ui_primary i \<Longrightarrow> ui_primary j \<Longrightarrow> ui_id i = ui_id j"
  unfolding one_primary_def by blast

definition identity_core :: "db \<Rightarrow> bool" where
  "identity_core d \<longleftrightarrow> distinct (map us_id (db_users d)) \<and> (\<forall>u\<in>set (db_users d). us_id u < db_next d) \<and>
     distinct (map ui_id (db_identifiers d)) \<and> distinct (map ui_key (db_identifiers d)) \<and>
     (\<forall>i\<in>set (db_identifiers d). ui_id i < db_next d \<and> ui_user i \<in> us_id ` set (db_users d))"

definition identity_ok :: "db \<Rightarrow> bool" where
  "identity_ok d \<longleftrightarrow> identity_core d \<and> phones_ok d \<and> (\<forall>u. one_primary d u)"

text \<open>No identifier is ever given to another user.\<close>

definition identifiers_kept :: "db \<Rightarrow> db \<Rightarrow> bool" where
  "identifiers_kept d d' \<longleftrightarrow> (\<forall>i\<in>set (db_identifiers d). \<exists>j\<in>set (db_identifiers d').
     ui_id j = ui_id i \<and> ui_user j = ui_user i \<and> ui_key j = ui_key i)"

lemma identifiers_kept_refl [simp]: "identifiers_kept d d"
  by (auto simp: identifiers_kept_def)

lemma identifiers_kept_trans: "identifiers_kept d d1 \<Longrightarrow> identifiers_kept d1 d2 \<Longrightarrow> identifiers_kept d d2"
  unfolding identifiers_kept_def by metis

lemma find_identifier_Some:
  "find_identifier d n = Some i \<Longrightarrow> i \<in> set (db_identifiers d) \<and> ui_key i = n"
  by (cases n) (auto simp: find_identifier_def ui_key_def dest: find_SomeD)

lemma find_identifier_None: "find_identifier d n = None \<longleftrightarrow> n \<notin> ui_key ` set (db_identifiers d)"
  by (cases n) (auto simp: find_identifier_def ui_key_def find_None_iff)

lemma find_identifier_iff:
  assumes "identity_core d"
  shows "find_identifier d n = Some i \<longleftrightarrow> i \<in> set (db_identifiers d) \<and> ui_key i = n"
proof
  assume i: "i \<in> set (db_identifiers d) \<and> ui_key i = n"
  then obtain j where j: "find_identifier d n = Some j"
    using find_identifier_None [of d n] by (cases "find_identifier d n") auto
  with find_identifier_Some [OF j] i assms show "find_identifier d n = Some i"
    by (auto simp: identity_core_def distinct_map inj_on_def)
qed (rule find_identifier_Some)

lemma find_user_iff:
  assumes "identity_core d"
  shows "find_user d a = Some u \<longleftrightarrow> u \<in> set (db_users d) \<and> us_id u = a"
  using assms row_by_Some row_by_distinct by (fastforce simp: identity_core_def)

subsection \<open>Elementary writes\<close>

lemma map_upd_same: "map key (upd_where (\<lambda>q. key q = key e) (\<lambda>_. e) rows) = map key rows"
  by (rule map_upd_where) simp

lemma row_by_upd_self:
  "row_by key (key e) rows \<noteq> None \<Longrightarrow> row_by key (key e) (upd_where (\<lambda>q. key q = key e) (\<lambda>_. e) rows) = Some e"
  by (induction rows) auto

lemma set_identifier_effect:
  assumes ok: "identity_core d" and i: "i \<in> set (db_identifiers d)"
    and e: "ui_id e = ui_id i" "ui_user e = ui_user i" "ui_key e = ui_key i"
  shows "identity_core (set_identifier e d) \<and> identifiers_kept d (set_identifier e d) \<and>
    e \<in> set (db_identifiers (set_identifier e d)) \<and> db_users (set_identifier e d) = db_users d \<and>
    db_next (set_identifier e d) = db_next d \<and>
    (\<forall>u. (u \<noteq> ui_user i \<or> ui_primary e = ui_primary i) \<longrightarrow> one_primary d u \<longrightarrow> one_primary (set_identifier e d) u)"
proof -
  let ?d = "set_identifier e d"
  have only: "q = i" if "q \<in> set (db_identifiers d)" "ui_id q = ui_id i" for q
    using ok i that by (auto simp: identity_core_def distinct_map inj_on_def)
  have ids: "map ui_id (db_identifiers ?d) = map ui_id (db_identifiers d)"
    unfolding set_identifier_def by (simp add: map_upd_same)
  have keys: "map ui_key (db_identifiers ?d) = map ui_key (db_identifiers d)"
    unfolding set_identifier_def upd_where_def using only e by (auto simp: comp_def)
  have mem: "q \<in> set (db_identifiers ?d) \<Longrightarrow> q = e \<or> (q \<in> set (db_identifiers d) \<and> ui_id q \<noteq> ui_id i)" for q
    unfolding set_identifier_def using e by (auto simp: in_set_upd_where split: if_splits)
  have frame: "db_users ?d = db_users d" "db_next ?d = db_next d" by (simp_all add: set_identifier_def)
  have "ui_id q < db_next d \<and> ui_user q \<in> us_id ` set (db_users d)" if "q \<in> set (db_identifiers ?d)" for q
    using mem [OF that] ok i e by (auto simp: identity_core_def)
  then have "identity_core ?d" using ok unfolding identity_core_def ids keys frame by simp
  moreover have "e \<in> set (db_identifiers ?d)"
    unfolding set_identifier_def using i e by (auto simp: in_set_upd_where intro!: bexI [of _ i])
  moreover from this have "identifiers_kept d ?d"
    unfolding identifiers_kept_def
  proof (intro ballI)
    fix q assume q: "q \<in> set (db_identifiers d)"
    show "\<exists>j\<in>set (db_identifiers ?d). ui_id j = ui_id q \<and> ui_user j = ui_user q \<and> ui_key j = ui_key q"
    proof (cases "ui_id q = ui_id i")
      case True
      with only q e \<open>e \<in> set (db_identifiers ?d)\<close> show ?thesis by auto
    next
      case False
      then have "q \<in> set (db_identifiers ?d)" using q e
        unfolding set_identifier_def by (auto simp: in_set_upd_where intro!: bexI [of _ q])
      then show ?thesis by blast
    qed
  qed
  moreover have "one_primary ?d u" if u: "u \<noteq> ui_user i \<or> ui_primary e = ui_primary i" "one_primary d u" for u
    unfolding one_primary_def
  proof (intro ballI impI)
    fix a b assume a: "a \<in> set (db_identifiers ?d)" and b: "b \<in> set (db_identifiers ?d)"
      and p: "ui_user a = u \<and> ui_user b = u \<and> ui_primary a \<and> ui_primary b"
    have old: "\<exists>q\<in>set (db_identifiers d). ui_id q = ui_id x \<and> ui_user q = u \<and> ui_primary q"
      if "x \<in> set (db_identifiers ?d)" "ui_user x = u" "ui_primary x" for x
      using mem [OF that(1)] that(2,3) u(1) i e by auto
    from old [OF a] old [OF b] p u(2) show "ui_id a = ui_id b" unfolding one_primary_def by metis
  qed
  ultimately show ?thesis using frame by simp
qed

lemma make_primary_effect:
  assumes ok: "identity_core d" and others: "\<forall>v. v \<noteq> u \<longrightarrow> one_primary d v"
  shows "identity_core (make_primary u iid d) \<and> identifiers_kept d (make_primary u iid d) \<and>
    (\<forall>v. one_primary (make_primary u iid d) v) \<and> db_users (make_primary u iid d) = db_users d \<and>
    db_next (make_primary u iid d) = db_next d \<and>
    (\<forall>i\<in>set (db_identifiers d). ui_id i = iid \<longrightarrow> i \<in> set (db_identifiers (make_primary u iid d)))"
proof -
  let ?d = "make_primary u iid d"
  have mem: "q \<in> set (db_identifiers ?d) \<longleftrightarrow> (\<exists>i\<in>set (db_identifiers d).
      q = (if ui_user i = u \<and> ui_id i \<noteq> iid then i\<lparr>ui_primary := False\<rparr> else i))" for q
    by (simp add: make_primary_def in_set_upd_where)
  have maps: "map ui_id (db_identifiers ?d) = map ui_id (db_identifiers d)"
    "map ui_key (db_identifiers ?d) = map ui_key (db_identifiers d)"
    unfolding make_primary_def by (simp_all add: map_upd_where ui_key_def)
  have "identity_core ?d"
    using ok mem unfolding identity_core_def maps by (auto simp: make_primary_def in_set_upd_where)
  moreover have "identifiers_kept d ?d"
    unfolding identifiers_kept_def
  proof
    fix i assume i: "i \<in> set (db_identifiers d)"
    let ?i = "if ui_user i = u \<and> ui_id i \<noteq> iid then i\<lparr>ui_primary := False\<rparr> else i"
    have "?i \<in> set (db_identifiers ?d)" using i mem by blast
    moreover have "ui_id ?i = ui_id i \<and> ui_user ?i = ui_user i \<and> ui_key ?i = ui_key i" by (simp add: ui_key_def)
    ultimately show "\<exists>j\<in>set (db_identifiers ?d). ui_id j = ui_id i \<and> ui_user j = ui_user i \<and> ui_key j = ui_key i" by blast
  qed
  moreover have "one_primary ?d v" for v
    unfolding one_primary_def
  proof (intro ballI impI)
    fix a b assume a: "a \<in> set (db_identifiers ?d)" and b: "b \<in> set (db_identifiers ?d)"
      and p: "ui_user a = v \<and> ui_user b = v \<and> ui_primary a \<and> ui_primary b"
    have here: "ui_id q = iid" if "q \<in> set (db_identifiers ?d)" "ui_user q = u" "ui_primary q" for q
    proof -
      from that(1) obtain i where "q = (if ui_user i = u \<and> ui_id i \<noteq> iid then i\<lparr>ui_primary := False\<rparr> else i)"
        unfolding mem by blast
      with that(2,3) show ?thesis by (cases "ui_user i = u \<and> ui_id i \<noteq> iid") simp_all
    qed
    have there: "q \<in> set (db_identifiers d)" if "q \<in> set (db_identifiers ?d)" "ui_user q \<noteq> u" for q
    proof -
      from that(1) obtain i where i: "i \<in> set (db_identifiers d)"
        "q = (if ui_user i = u \<and> ui_id i \<noteq> iid then i\<lparr>ui_primary := False\<rparr> else i)" unfolding mem by blast
      with that(2) show ?thesis by (cases "ui_user i = u \<and> ui_id i \<noteq> iid") simp_all
    qed
    show "ui_id a = ui_id b"
    proof (cases "v = u")
      case True
      with here [OF a] here [OF b] p show ?thesis by simp
    next
      case False
      then have "one_primary d v" using others by blast
      moreover have "a \<in> set (db_identifiers d)" by (rule there [OF a]) (use p False in simp)
      moreover have "b \<in> set (db_identifiers d)" by (rule there [OF b]) (use p False in simp)
      ultimately show ?thesis using p by (elim conjE) (rule one_primaryD)
    qed
  qed
  moreover have "\<forall>i\<in>set (db_identifiers d). ui_id i = iid \<longrightarrow> i \<in> set (db_identifiers ?d)"
  proof (intro ballI impI)
    fix i assume i: "i \<in> set (db_identifiers d)" "ui_id i = iid"
    then have "i = (if ui_user i = u \<and> ui_id i \<noteq> iid then i\<lparr>ui_primary := False\<rparr> else i)" by simp
    with i(1) show "i \<in> set (db_identifiers ?d)" unfolding mem by (rule bexI [rotated])
  qed
  ultimately show ?thesis by (simp add: make_primary_def)
qed

lemma add_identifier_effect:
  assumes ok: "identity_core d" and i: "ui_id i = db_next d" "ui_key i \<notin> ui_key ` set (db_identifiers d)"
    "ui_user i \<in> us_id ` set (db_users d)"
    and d': "d' = d\<lparr>db_next := db_next d + 1, db_identifiers := db_identifiers d @ [i]\<rparr>"
  shows "identity_core d' \<and> identifiers_kept d d' \<and> i \<in> set (db_identifiers d') \<and> db_users d' = db_users d \<and>
    (\<forall>u. u \<noteq> ui_user i \<or> \<not> ui_primary i \<longrightarrow> one_primary d u \<longrightarrow> one_primary d' u)"
proof -
  have "ui_id i \<notin> ui_id ` set (db_identifiers d)" using ok i(1) by (auto simp: identity_core_def)
  moreover have "\<forall>j\<in>set (db_identifiers d'). ui_id j < db_next d' \<and> ui_user j \<in> us_id ` set (db_users d')"
    using ok i unfolding identity_core_def d' by (simp add: less_SucI)
  moreover have "\<forall>u\<in>set (db_users d'). us_id u < db_next d'"
    using ok unfolding identity_core_def d' by (simp add: less_SucI)
  ultimately have "identity_core d'" using ok i(2) unfolding identity_core_def by (simp add: d')
  moreover have "one_primary d' u" if "u \<noteq> ui_user i \<or> \<not> ui_primary i" "one_primary d u" for u
    unfolding one_primary_def
  proof (intro ballI impI)
    fix a b assume a: "a \<in> set (db_identifiers d')" and b: "b \<in> set (db_identifiers d')"
      and p: "ui_user a = u \<and> ui_user b = u \<and> ui_primary a \<and> ui_primary b"
    have ne: "x \<noteq> i" if "ui_user x = u" "ui_primary x" for x
    proof
      assume "x = i" with that \<open>u \<noteq> ui_user i \<or> \<not> ui_primary i\<close> show False by simp
    qed
    from p ne have "a \<noteq> i" "b \<noteq> i" by blast+
    with a b have "a \<in> set (db_identifiers d)" "b \<in> set (db_identifiers d)" by (simp_all add: d')
    with that(2) p show "ui_id a = ui_id b" by (elim conjE) (rule one_primaryD)
  qed
  moreover have "identifiers_kept d d'" 
    unfolding identifiers_kept_def
  proof
    fix j assume "j \<in> set (db_identifiers d)"
    then have "j \<in> set (db_identifiers d')" by (simp add: d')
    then show "\<exists>k\<in>set (db_identifiers d'). ui_id k = ui_id j \<and> ui_user k = ui_user j \<and> ui_key k = ui_key j" by blast
  qed
  ultimately show ?thesis by (simp add: d')
qed

lemma set_user_effect:
  assumes ok: "identity_core d" and u: "find_user d (us_id u) \<noteq> None"
  shows "identity_core (set_user u d) \<and> identifiers_kept d (set_user u d) \<and> find_user (set_user u d) (us_id u) = Some u \<and>
    (\<forall>v. one_primary (set_user u d) v = one_primary d v) \<and> db_identifiers (set_user u d) = db_identifiers d \<and>
    (phones_ok d \<longrightarrow> (\<forall>q\<in>set (db_users d). us_id q \<noteq> us_id u \<and> us_phone q \<noteq> None \<longrightarrow> us_phone q \<noteq> us_phone u) \<longrightarrow>
       phones_ok (set_user u d)) \<and> set (db_users (set_user u d)) \<subseteq> insert u (set (db_users d))"
proof -
  let ?d = "set_user u d"
  have ids: "map us_id (db_users ?d) = map us_id (db_users d)" unfolding set_user_def by (simp add: map_upd_same)
  then have ids': "us_id ` set (db_users ?d) = us_id ` set (db_users d)" by (metis list.set_map)
  have mem: "q \<in> set (db_users ?d) \<Longrightarrow> q = u \<or> (q \<in> set (db_users d) \<and> us_id q \<noteq> us_id u)" for q
    unfolding set_user_def by (auto simp: in_set_upd_where split: if_splits)
  have frame: "db_identifiers ?d = db_identifiers d" "db_next ?d = db_next d" by (simp_all add: set_user_def)
  have "\<forall>i\<in>us_id ` set (db_users ?d). i < db_next d" using ok unfolding ids' by (auto simp: identity_core_def)
  then have "\<forall>q\<in>set (db_users ?d). us_id q < db_next d" by simp
  then have "identity_core ?d" using ok unfolding identity_core_def ids ids' frame by blast
  moreover have "find_user ?d (us_id u) = Some u"
    using u unfolding set_user_def by (simp add: row_by_upd_self)
  moreover have "phones_ok d \<longrightarrow> (\<forall>q\<in>set (db_users d). us_id q \<noteq> us_id u \<and> us_phone q \<noteq> None \<longrightarrow> us_phone q \<noteq> us_phone u) \<longrightarrow>
       phones_ok ?d"
  proof (intro impI)
    assume p: "phones_ok d" and free: "\<forall>q\<in>set (db_users d). us_id q \<noteq> us_id u \<and> us_phone q \<noteq> None \<longrightarrow> us_phone q \<noteq> us_phone u"
    show "phones_ok ?d"
      unfolding phones_ok_def
    proof (intro ballI impI)
      fix a b assume "a \<in> set (db_users ?d)" "b \<in> set (db_users ?d)" and s: "us_phone a \<noteq> None \<and> us_phone a = us_phone b"
      with mem have "a = u \<or> (a \<in> set (db_users d) \<and> us_id a \<noteq> us_id u)" "b = u \<or> (b \<in> set (db_users d) \<and> us_id b \<noteq> us_id u)"
        by blast+
      then show "us_id a = us_id b"
        using s p free unfolding phones_ok_def by (elim disjE conjE) (simp, metis, metis, metis)
    qed
  qed
  moreover have "set (db_users ?d) \<subseteq> insert u (set (db_users d))" using mem by blast
  moreover have "identifiers_kept d ?d" unfolding identifiers_kept_def frame by blast
  ultimately show ?thesis by (simp add: frame one_primary_def)
qed

lemma sync_legacy_phone_effect:
  assumes "sync_legacy_phone user i d = Inr (u, d')" "identity_core d" "phones_ok d" "find_user d (us_id user) = Some user"
  shows "identity_core d' \<and> phones_ok d' \<and> (\<forall>v. one_primary d' v = one_primary d v) \<and> db_identifiers d' = db_identifiers d \<and>
    us_id u = us_id user \<and> find_user d' (us_id user) = Some u \<and> us_last_seen u = us_last_seen user"
proof (cases "ui_kind i = PhoneId \<and> (us_phone user = None \<or> ui_primary i)")
  case True
  let ?u = "user\<lparr>us_phone := Some (ui_value i), us_phone_verified := ui_verified i\<rparr>"
  from True assms(1) have u: "u = ?u" "d' = set_user ?u d"
    and free: "\<forall>q\<in>set (db_users d). us_id q \<noteq> us_id user \<longrightarrow> us_phone q \<noteq> Some (ui_value i)"
    by (auto simp: sync_legacy_phone_def Let_def split: if_splits)
  have "find_user d (us_id ?u) \<noteq> None" using assms(4) by simp
  from set_user_effect [OF assms(2) this] assms(3) free show ?thesis by (auto simp: u)
next
  case False
  with assms show ?thesis by (auto simp: sync_legacy_phone_def split: if_splits)
qed

subsection \<open>Linking and resolving\<close>

lemma phones_ok_cong: "db_users d' = db_users d \<Longrightarrow> phones_ok d' = phones_ok d"
  by (simp add: phones_ok_def)

text \<open>The end of a link: the primary flags are settled and the user's phone cache is brought up to date.\<close>

lemma settled_link:
  assumes core: "identity_core d1" and others: "\<forall>v. v \<noteq> us_id user \<or> \<not> prim \<longrightarrow> one_primary d1 v"
    and i: "i \<in> set (db_identifiers d1)" and phones: "phones_ok d1" and user: "find_user d1 (us_id user) = Some user"
    and run: "sync_legacy_phone user i (if prim then make_primary (us_id user) (ui_id i) d1 else d1) = Inr (u, d')"
  shows "identity_ok d' \<and> identifiers_kept d1 d' \<and> i \<in> set (db_identifiers d') \<and> us_id u = us_id user \<and>
    find_user d' (us_id user) = Some u"
proof -
  let ?d2 = "if prim then make_primary (us_id user) (ui_id i) d1 else d1"
  have 2: "identity_core ?d2 \<and> identifiers_kept d1 ?d2 \<and> (\<forall>v. one_primary ?d2 v) \<and> i \<in> set (db_identifiers ?d2) \<and>
    db_users ?d2 = db_users d1"
  proof (cases prim)
    case True
    with others have "\<forall>v. v \<noteq> us_id user \<longrightarrow> one_primary d1 v" by blast
    from make_primary_effect [OF core this, of "ui_id i"] True i show ?thesis by simp
  next
    case False
    with core others i show ?thesis by simp
  qed
  have p: "phones_ok ?d2" using phones_ok_cong [of ?d2 d1] 2 phones by blast
  have f: "find_user ?d2 (us_id user) = Some user" using 2 user by simp
  have c: "identity_core ?d2" using 2 by blast
  note s = sync_legacy_phone_effect [OF run c p f]
  from s 2 have "identifiers_kept d1 d'" unfolding identifiers_kept_def by simp
  with s 2 show ?thesis by (simp add: identity_ok_def)
qed

lemma link_effect:
  assumes run: "link_user_identifier en now d user value expected source at prim = Inr (i, u, d')"
    and ok: "identity_ok d" and user: "find_user d (us_id user) = Some user"
  shows "identity_ok d' \<and> identifiers_kept d d' \<and> us_id u = us_id user \<and> find_user d' (us_id user) = Some u \<and>
    i \<in> set (db_identifiers d') \<and> normalize_user_identifier en value expected = Inr (ui_key i) \<and>
    ui_user i = us_id user \<and> ui_status i = IdActive"
proof -
  have core: "identity_core d" and phones: "phones_ok d" and one: "\<forall>v. one_primary d v" using ok by (auto simp: identity_ok_def)
  from run obtain n where n: "normalize_user_identifier en value expected = Inr n"
    by (auto simp: link_user_identifier_def bindR_Inr)
  show ?thesis
  proof (cases "find_identifier d n")
    case (Some existing)
    let ?e = "\<lambda>clean. existing\<lparr>ui_status := IdActive, ui_source := clean,
                       ui_verified := first_some at (ui_verified existing),
                       ui_primary := (prim \<or> ui_primary existing)\<rparr>"
    from find_identifier_Some [OF Some] have ex: "existing \<in> set (db_identifiers d)" "ui_key existing = n" by simp_all
    from run n Some obtain clean where own: "ui_user existing = us_id user" and i: "i = ?e clean"
      and sync: "sync_legacy_phone user (?e clean)
        (if prim then make_primary (us_id user) (ui_id (?e clean)) (set_identifier (?e clean) d) else set_identifier (?e clean) d) = Inr (u, d')"
      by (cases prim) (auto simp: link_user_identifier_def bindR_Inr if_Inr_raise Let_def)
    have e: "ui_id i = ui_id existing" "ui_user i = ui_user existing" "ui_key i = ui_key existing"
      by (simp_all add: i ui_key_def)
    note s = set_identifier_effect [OF core ex(1) e]
    note sync' = sync [folded i]
    have "\<forall>v. v \<noteq> us_id user \<or> \<not> prim \<longrightarrow> one_primary (set_identifier i d) v"
    proof (intro allI impI)
      fix v assume v: "v \<noteq> us_id user \<or> \<not> prim"
      have "v \<noteq> ui_user existing \<or> ui_primary i = ui_primary existing" using v own i by auto
      with s one show "one_primary (set_identifier i d) v" by blast
    qed
    moreover have "phones_ok (set_identifier i d)" using phones s phones_ok_cong by blast
    moreover have "find_user (set_identifier i d) (us_id user) = Some user" using user s by simp
    ultimately have t: "identity_ok d' \<and> identifiers_kept (set_identifier i d) d' \<and> i \<in> set (db_identifiers d') \<and>
        us_id u = us_id user \<and> find_user d' (us_id user) = Some u"
      using s by (intro settled_link [OF _ _ _ _ _ sync']) blast+
    have "identifiers_kept d d'" by (rule identifiers_kept_trans [of d "set_identifier i d"]) (use s t in simp_all)
    with t n ex own e show ?thesis by (simp add: i)
  next
    case None
    obtain p where p: "p = (prim \<or> \<not> (\<exists>i\<in>set (db_identifiers d). ui_user i = us_id user \<and> ui_status i = IdActive))" by blast
    let ?d1 = "d\<lparr>db_next := db_next d + 1, db_identifiers := db_identifiers d @ [i]\<rparr>"
    from run [unfolded link_user_identifier_def n bindR_simps None option.case Let_def take_id_def prod.case p [symmetric] bindR_Inr]
    obtain clean where i: "i = \<lparr>ui_id = db_next d, ui_user = us_id user, ui_kind = fst n, ui_value = snd n, ui_primary = p,
                        ui_status = IdActive, ui_source = clean, ui_verified = at, ui_created = now\<rparr>"
      and sync: "sync_legacy_phone user i (if p then make_primary (us_id user) (ui_id i) ?d1 else ?d1) = Inr (u, d')"
      by (cases p) auto
    have new: "ui_id i = db_next d" "ui_key i = n" "ui_user i = us_id user" "ui_primary i = p" "ui_status i = IdActive"
      by (simp_all add: i ui_key_def)
    have "ui_key i \<notin> ui_key ` set (db_identifiers d)" using None new(2) by (simp add: find_identifier_None)
    moreover have "ui_user i \<in> us_id ` set (db_users d)" using row_by_Some [OF user] new(3) by (metis imageI)
    ultimately have a: "identity_core ?d1 \<and> identifiers_kept d ?d1 \<and> i \<in> set (db_identifiers ?d1) \<and> db_users ?d1 = db_users d \<and>
        (\<forall>u. u \<noteq> ui_user i \<or> \<not> ui_primary i \<longrightarrow> one_primary d u \<longrightarrow> one_primary ?d1 u)"
      by (intro add_identifier_effect [OF core new(1)]) simp_all
    have "\<forall>v. v \<noteq> us_id user \<or> \<not> p \<longrightarrow> one_primary ?d1 v" using a one new(3,4) by simp
    moreover have "phones_ok ?d1" using phones phones_ok_cong [of ?d1 d] by simp
    moreover have "find_user ?d1 (us_id user) = Some user" using user by simp
    ultimately have t: "identity_ok d' \<and> identifiers_kept ?d1 d' \<and> i \<in> set (db_identifiers d') \<and>
        us_id u = us_id user \<and> find_user d' (us_id user) = Some u"
      using a by (intro settled_link [OF _ _ _ _ _ sync]) blast+
    have "identifiers_kept d d'" by (rule identifiers_kept_trans [of d ?d1]) (use a t in blast)+
    with t n new show ?thesis by simp
  qed
qed

text \<open>A resolution finds or makes the user whose active identifier the value then is.\<close>

lemma resolve_effect:
  assumes run: "resolve_user_from_identifier en now d value expected source verified = Inr (r, d')"
    and ok: "identity_ok d"
  shows "identity_ok d' \<and> identifiers_kept d d' \<and> find_user d' (us_id (re_user r)) = Some (re_user r) \<and>
    re_identifier r \<in> set (db_identifiers d') \<and> ui_user (re_identifier r) = us_id (re_user r) \<and>
    ui_status (re_identifier r) = IdActive \<and>
    (\<exists>n. normalize_user_identifier en value expected = Inr n \<and>
      (ui_key (re_identifier r) = n \<or> (fst n = PhoneId \<and> normalize_user_identifier en (snd n) (Some ''phone'') = Inr (ui_key (re_identifier r)))))"
proof -
  have core: "identity_core d" and phones: "phones_ok d" and one: "\<forall>v. one_primary d v" using ok by (auto simp: identity_ok_def)
  from run obtain n where n: "normalize_user_identifier en value expected = Inr n"
    by (auto simp: resolve_user_from_identifier_def bindR_Inr)
  show ?thesis
  proof (cases "find_identifier d n")
    case (Some i)
    from find_identifier_Some [OF Some] have i: "i \<in> set (db_identifiers d)" "ui_key i = n" by simp_all
    let ?i = "if verified then i\<lparr>ui_verified := Some now\<rparr> else i"
    from run n Some obtain user where live: "ui_status i \<noteq> IdRevoked" and user: "find_user d (ui_user i) = Some user"
      and sync: "sync_legacy_phone (user\<lparr>us_last_seen := now\<rparr>) ?i (set_user (user\<lparr>us_last_seen := now\<rparr>) (set_identifier ?i d)) = Inr (re_user r, d')"
      and r: "re_identifier r = ?i"
      by (cases verified) (auto simp: resolve_user_from_identifier_def bindR_Inr if_Inr_raise some_or_Inr Let_def)
    let ?u = "user\<lparr>us_last_seen := now\<rparr>" and ?d1 = "set_identifier ?i d"
    have e: "ui_id ?i = ui_id i" "ui_user ?i = ui_user i" "ui_key ?i = ui_key i" "ui_primary ?i = ui_primary i" "ui_status ?i = ui_status i"
      by (simp_all add: ui_key_def)
    note s1 = set_identifier_effect [OF core i(1) e(1-3)]
    have c1: "identity_core ?d1" using s1 by blast
    have uid: "us_id user = ui_user i" using row_by_Some [OF user] by simp
    have "find_user ?d1 (us_id ?u) \<noteq> None" using user s1 uid by simp
    note s2 = set_user_effect [OF c1 this]
    have p1: "phones_ok ?d1" using phones s1 phones_ok_cong by blast
    have "\<forall>q\<in>set (db_users ?d1). us_id q \<noteq> us_id ?u \<and> us_phone q \<noteq> None \<longrightarrow> us_phone q \<noteq> us_phone ?u"
    proof (intro ballI impI notI)
      fix q assume q: "q \<in> set (db_users ?d1)" "us_id q \<noteq> us_id ?u \<and> us_phone q \<noteq> None" "us_phone q = us_phone ?u"
      have "user \<in> set (db_users d)" "q \<in> set (db_users d)" using row_by_Some [OF user] q(1) s1 by simp_all
      with phones q(2,3) show False unfolding phones_ok_def by (metis user_row.select_convs(1,2) user_row.ext_inject user_row.surjective user_row.update_convs(7))
    qed
    with s2 p1 have p2: "phones_ok (set_user ?u ?d1)" by blast
    have c2: "identity_core (set_user ?u ?d1)" and f2: "find_user (set_user ?u ?d1) (us_id ?u) = Some ?u" using s2 by blast+
    note s3 = sync_legacy_phone_effect [OF sync c2 p2 f2]
    have ids: "db_identifiers d' = db_identifiers ?d1" using s2 s3 by simp
    have o: "one_primary d' v" for v
    proof -
      have "one_primary ?d1 v" using s1 one e(4) by blast
      then show ?thesis unfolding one_primary_def ids .
    qed
    have k: "identifiers_kept d d'" using s1 unfolding identifiers_kept_def ids by blast
    have "ui_status i = IdActive" using live by (cases "ui_status i") simp_all
    with s3 o k s1 ids r e i uid n show ?thesis by (simp add: identity_ok_def)
  next
    case None
    show ?thesis
    proof (cases "if fst n = PhoneId then user_by_phone d (snd n) else None")
      case legacy: (Some user)
      then have ph: "fst n = PhoneId" "user_by_phone d (snd n) = Some user" by (auto split: if_splits)
      then have "user \<in> set (db_users d)" by (auto simp: user_by_phone_def dest: find_SomeD)
      then have user: "find_user d (us_id user) = Some user" using core by (simp add: find_user_iff)
      from run n None legacy ph obtain at i u d1 where
        link: "link_user_identifier en now d user (snd n) (Some ''phone'') ''legacy_phone'' at True = Inr (i, u, d1)"
        and r: "re_user r = u\<lparr>us_last_seen := now\<rparr>" "re_identifier r = i" and d': "d' = set_user (u\<lparr>us_last_seen := now\<rparr>) d1"
        by (auto simp: resolve_user_from_identifier_def bindR_Inr Let_def split: if_splits)
      note l = link_effect [OF link ok user]
      have c1: "identity_core d1" and p1: "phones_ok d1" and o1: "\<forall>v. one_primary d1 v" using l by (auto simp: identity_ok_def)
      let ?u = "u\<lparr>us_last_seen := now\<rparr>"
      have fu: "find_user d1 (us_id ?u) = Some u" using l by simp
      then have "find_user d1 (us_id ?u) \<noteq> None" by simp
      note s2 = set_user_effect [OF c1 this]
      have "\<forall>q\<in>set (db_users d1). us_id q \<noteq> us_id ?u \<and> us_phone q \<noteq> None \<longrightarrow> us_phone q \<noteq> us_phone ?u"
      proof (intro ballI impI notI)
        fix q assume q: "q \<in> set (db_users d1)" "us_id q \<noteq> us_id ?u \<and> us_phone q \<noteq> None" "us_phone q = us_phone ?u"
        have "u \<in> set (db_users d1)" using row_by_Some [OF fu] by simp
        with p1 q show False unfolding phones_ok_def by (metis user_row.select_convs(1,2) user_row.ext_inject user_row.surjective user_row.update_convs(7))
      qed
      with s2 p1 have "phones_ok d'" unfolding d' by blast
      moreover have "identifiers_kept d d'" using l s2 unfolding d' identifiers_kept_def by simp
      ultimately show ?thesis using s2 o1 l r n ph by (simp add: d' identity_ok_def)
    next
      case fresh: None
      let ?at = "if verified then Some now else None"
      from run n None fresh obtain clean where
        r: "re_user r = \<lparr>us_id = db_next d, us_phone = (if fst n = PhoneId then Some (snd n) else None), us_name = None,
               us_opted_out = None, us_phone_verified = (if fst n = PhoneId then ?at else None),
               us_first_seen = now, us_last_seen = now\<rparr>"
          "re_identifier r = \<lparr>ui_id = db_next d + 1, ui_user = db_next d, ui_kind = fst n, ui_value = snd n, ui_primary = True,
               ui_status = IdActive, ui_source = clean, ui_verified = ?at, ui_created = now\<rparr>"
        and d': "d' = d\<lparr>db_next := db_next d + 2, db_users := db_users d @ [re_user r],
           db_identifiers := db_identifiers d @ [re_identifier r]\<rparr>"
        by (auto simp: resolve_user_from_identifier_def bindR_Inr Let_def take_id_def)
      have lt: "\<forall>u\<in>set (db_users d). us_id u < db_next d" "\<forall>i\<in>set (db_identifiers d). ui_id i < db_next d \<and> ui_user i \<in> us_id ` set (db_users d)"
        using core by (simp_all add: identity_core_def)
      have key: "ui_key (re_identifier r) = n" by (simp add: r ui_key_def)
      have "ui_key (re_identifier r) \<notin> ui_key ` set (db_identifiers d)" using None by (simp add: key find_identifier_None)
      moreover have "us_id (re_user r) \<notin> us_id ` set (db_users d)" using lt(1) by (auto simp: r)
      moreover have "ui_id (re_identifier r) \<notin> ui_id ` set (db_identifiers d)" using lt(2) by (auto simp: r)
      moreover have "\<forall>u\<in>set (db_users d'). us_id u < db_next d'" using lt(1) by (auto simp: d' r)
      moreover have "\<forall>i\<in>set (db_identifiers d'). ui_id i < db_next d' \<and> ui_user i \<in> us_id ` set (db_users d')"
        using lt(2) by (fastforce simp: d' r)
      ultimately have c: "identity_core d'" using core unfolding identity_core_def by (simp add: d')
      have "us_phone u \<noteq> us_phone (re_user r)" if "u \<in> set (db_users d)" "us_phone u \<noteq> None" for u
        using that fresh by (auto simp: r user_by_phone_def find_None_iff split: if_splits)
      note free = this
      have "phones_ok d'"
        unfolding phones_ok_def
      proof (intro ballI impI)
        fix a b assume "a \<in> set (db_users d')" "b \<in> set (db_users d')" and s: "us_phone a \<noteq> None \<and> us_phone a = us_phone b"
        then have "a = re_user r \<or> a \<in> set (db_users d)" "b = re_user r \<or> b \<in> set (db_users d)" by (auto simp: d')
        then show "us_id a = us_id b"
        proof (elim disjE)
          assume "a \<in> set (db_users d)" "b \<in> set (db_users d)"
          with phones s show ?thesis unfolding phones_ok_def by blast
        next
          assume "a = re_user r" "b \<in> set (db_users d)"
          with s free [of b] show ?thesis by metis
        next
          assume "a \<in> set (db_users d)" "b = re_user r"
          with s free [of a] show ?thesis by metis
        qed simp
      qed
      moreover have "one_primary d' v" for v
        unfolding one_primary_def
      proof (intro ballI impI)
        fix a b assume a: "a \<in> set (db_identifiers d')" and b: "b \<in> set (db_identifiers d')"
          and p: "ui_user a = v \<and> ui_user b = v \<and> ui_primary a \<and> ui_primary b"
        have new: "ui_user x \<noteq> db_next d" if "x \<in> set (db_identifiers d)" for x
          using lt that by fastforce
        show "ui_id a = ui_id b"
        proof (cases "v = db_next d")
          case True
          with a b p new have "a = re_identifier r" "b = re_identifier r" by (auto simp: d')
          then show ?thesis by simp
        next
          case False
          with a b p have "a \<in> set (db_identifiers d)" "b \<in> set (db_identifiers d)" by (auto simp: d' r)
          with one p show ?thesis using one_primaryD [of d v a b] by blast
        qed
      qed
      moreover have "identifiers_kept d d'" unfolding identifiers_kept_def
      proof
        fix j assume "j \<in> set (db_identifiers d)"
        then have "j \<in> set (db_identifiers d')" by (simp add: d')
        then show "\<exists>k\<in>set (db_identifiers d'). ui_id k = ui_id j \<and> ui_user k = ui_user j \<and> ui_key k = ui_key j" by blast
      qed
      moreover have "find_user d' (us_id (re_user r)) = Some (re_user r)"
        using c by (simp add: find_user_iff) (simp add: d')
      ultimately show ?thesis using c n key by (simp add: identity_ok_def r d')
    qed
  qed
qed

section \<open>Laws\<close>

text \<open>One call that finds, makes or links a user's identifier.\<close>

inductive identity_step :: "db \<Rightarrow> db \<Rightarrow> bool" where
  is_resolve: "resolve_user_from_identifier en now d value expected source verified = Inr (r, d') \<Longrightarrow> identity_step d d'"
| is_link: "find_user d (us_id user) = Some user \<Longrightarrow>
    link_user_identifier en now d user value expected source at prim = Inr (i, u, d') \<Longrightarrow> identity_step d d'"

lemma identity_steps_keep: "identity_step\<^sup>*\<^sup>* d d' \<Longrightarrow> identity_ok d \<Longrightarrow> identity_ok d' \<and> identifiers_kept d d'"
proof (induction rule: rtranclp_induct)
  case (step y z)
  from step.IH step.prems have y: "identity_ok y" by simp
  from step.hyps(2) have "identity_ok z \<and> identifiers_kept y z"
  proof cases
    case (is_resolve en now v expected source verified r)
    from resolve_effect [OF this y] show ?thesis by simp
  next
    case (is_link user en now v expected source at prim i u)
    from link_effect [OF is_link(2) y is_link(1)] show ?thesis by simp
  qed
  with step.IH step.prems identifiers_kept_trans show ?case by blast
qed simp

text \<open>C25. No sequence of resolutions and links, from any channel and under any normal forms, ever gives an
  identifier to another user: two users are never merged, an address names at most one identifier, a
  phone number at most one user, and a user has at most one primary identifier.\<close>

theorem identifiers_never_change_hands:
  assumes "identity_step\<^sup>*\<^sup>* d d'" "identity_ok d"
  shows "identity_ok d' \<and> (\<forall>i\<in>set (db_identifiers d). \<exists>j\<in>set (db_identifiers d').
    ui_id j = ui_id i \<and> ui_user j = ui_user i \<and> ui_kind j = ui_kind i \<and> ui_value j = ui_value i)"
  using identity_steps_keep [OF assms] by (simp add: identifiers_kept_def ui_key_def)

text \<open>A sample environment: one valid phone number, and domains and letters taken as they are.\<close>

definition plain_env :: identity_env where
  "plain_env = \<lparr>en_phone = (\<lambda>s. if s = ''+15550100'' then Some s else None), en_idna = Some, en_fold = (\<lambda>s. s)\<rparr>"

definition known_db :: db where
  "known_db = snd (projr (resolve_user_from_identifier plain_env 5 empty_db ''+15550100'' None ''linq'' True))"

lemma known_run: "\<exists>r. resolve_user_from_identifier plain_env 5 empty_db ''+15550100'' None ''linq'' True = Inr (r, known_db)"
proof -
  have "\<not> isl (resolve_user_from_identifier plain_env 5 empty_db ''+15550100'' None ''linq'' True)" by code_simp
  then show ?thesis
    by (cases "resolve_user_from_identifier plain_env 5 empty_db ''+15550100'' None ''linq'' True") (auto simp: known_db_def)
qed

lemma empty_identity_ok: "identity_ok empty_db"
  by (simp add: identity_ok_def identity_core_def phones_ok_def one_primary_def empty_db_def)

theorem identifiers_never_change_hands_witness: "identity_step\<^sup>*\<^sup>* empty_db known_db \<and> identity_ok known_db"
proof -
  from known_run is_resolve have "identity_step\<^sup>*\<^sup>* empty_db known_db" by blast
  from identifiers_never_change_hands [OF this empty_identity_ok] this show ?thesis by blast
qed

text \<open>Resolving an address makes its user exactly once: afterwards looking it up finds that user, and
  resolving it again, whatever the clock and the source, answers with the same user and makes nobody. The
  E.164 text of a number is itself a valid number with the same E.164 text.\<close>

theorem resolving_is_idempotent:
  assumes run: "resolve_user_from_identifier en now d value expected source verified = Inr (r, d')"
    and e164: "\<forall>v e. en_phone en v = Some e \<longrightarrow> en_phone en (py_strip e) = Some e"
    and ok: "identity_ok d"
  shows "find_user_by_identifier en d' value expected = Inr (Some (re_user r)) \<and>
    (\<forall>later source' verified' r' d''. resolve_user_from_identifier en later d' value expected source' verified' = Inr (r', d'') \<longrightarrow>
       us_id (re_user r') = us_id (re_user r) \<and> \<not> re_created r' \<and> length (db_users d'') = length (db_users d'))"
proof -
  note e = resolve_effect [OF run ok]
  from e obtain n where n: "normalize_user_identifier en value expected = Inr n"
    and k: "ui_key (re_identifier r) = n \<or> (fst n = PhoneId \<and> normalize_user_identifier en (snd n) (Some ''phone'') = Inr (ui_key (re_identifier r)))"
    by blast
  have "normalize_user_identifier en (snd n) (Some ''phone'') = Inr n" if "fst n = PhoneId"
  proof -
    from n that obtain e where "n = (PhoneId, e)" "en_phone en (py_strip value) = Some e"
      by (auto simp: normalize_user_identifier_def normalize_phone_number_def bindR_Inr some_or_Inr split: if_splits)
    with e164 show ?thesis
      by (auto simp: normalize_user_identifier_def normalize_phone_number_def identifier_kind_of_def)
  qed
  with k have key: "ui_key (re_identifier r) = n" by auto
  have "identity_core d'" using e by (simp add: identity_ok_def)
  with key e have fi: "find_identifier d' n = Some (re_identifier r)" by (simp add: find_identifier_iff)
  have "find_user_by_identifier en d' value expected = Inr (Some (re_user r))"
    using n fi e by (simp add: find_user_by_identifier_def)
  moreover have "us_id (re_user r') = us_id (re_user r) \<and> \<not> re_created r' \<and> length (db_users d'') = length (db_users d')"
    if "resolve_user_from_identifier en later d' value expected source' verified' = Inr (r', d'')" for later source' verified' r' d''
  proof -
    have len: "length (db_users (set_user u x)) = length (db_users x)" "length (db_users (set_identifier i x)) = length (db_users x)" for u i x
      by (simp_all add: set_user_def set_identifier_def)
    from that n fi e show ?thesis
      by (auto simp: resolve_user_from_identifier_def bindR_Inr if_Inr_raise some_or_Inr Let_def sync_legacy_phone_def len split: if_splits)
  qed
  ultimately show ?thesis by blast
qed

theorem resolving_is_idempotent_witness:
  "\<exists>u. find_user_by_identifier plain_env known_db ''+15550100'' None = Inr (Some u)"
proof -
  from known_run obtain r where run: "resolve_user_from_identifier plain_env 5 empty_db ''+15550100'' None ''linq'' True = Inr (r, known_db)" ..
  have "\<forall>v e. en_phone plain_env v = Some e \<longrightarrow> en_phone plain_env (py_strip e) = Some e"
    by (auto simp: plain_env_def py_strip_def py_isspace_def code_point_def split: if_splits)
  from resolving_is_idempotent [OF run this empty_identity_ok] show ?thesis by blast
qed

text \<open>A normalized email address has at most 320 characters and a domain of nonempty labels of letters,
  digits and inner hyphens, at most 63 each.\<close>

theorem normalized_email_is_well_formed:
  assumes "normalize_email_address en value = Inr e"
  shows "length e \<le> 320 \<and> (\<exists>local_part domain. e = local_part @ ''@'' @ domain \<and> domain \<noteq> [] \<and>
    (\<forall>l\<in>set (split_on (CHR ''.'') domain). l \<noteq> [] \<and> length l \<le> 63 \<and> hd l \<noteq> CHR ''-'' \<and> last l \<noteq> CHR ''-'' \<and>
      (\<forall>c\<in>set l. is_alnum c \<or> c = CHR ''-'')))"
proof -
  from assms obtain ascii where a: "en_fold en ascii \<noteq> []"
    "\<not> (\<exists>l\<in>set (split_on (CHR ''.'') (en_fold en ascii)). bad_label l)"
    and e: "e = en_fold en (takeWhile (\<lambda>c. c \<noteq> CHR ''@'') (py_strip value)) @ ''@'' @ en_fold en ascii" "length e \<le> 320"
    unfolding normalize_email_address_def Let_def if_Inr_raise bindR_Inr by auto
  have "\<forall>l\<in>set (split_on (CHR ''.'') (en_fold en ascii)). l \<noteq> [] \<and> length l \<le> 63 \<and> hd l \<noteq> CHR ''-'' \<and> last l \<noteq> CHR ''-'' \<and>
      (\<forall>c\<in>set l. is_alnum c \<or> c = CHR ''-'')"
  proof
    fix l assume "l \<in> set (split_on (CHR ''.'') (en_fold en ascii))"
    with a(2) have "\<not> bad_label l" by blast
    then show "l \<noteq> [] \<and> length l \<le> 63 \<and> hd l \<noteq> CHR ''-'' \<and> last l \<noteq> CHR ''-'' \<and> (\<forall>c\<in>set l. is_alnum c \<or> c = CHR ''-'')"
      unfolding bad_label_def de_Morgan_disj not_less not_not by (elim conjE) (intro conjI, assumption+)
  qed
  with a(1) e(2) show ?thesis unfolding e(1) by (intro conjI exI) (assumption | rule refl)+
qed

theorem normalized_email_is_well_formed_witness: "length ''ada@example.com'' \<le> 320 \<and> split_on (CHR ''.'') ''example.com'' = [''example'', ''com'']"
proof -
  have "normalize_email_address plain_env '' ada@example.com'' = Inr ''ada@example.com''" by code_simp
  from normalized_email_is_well_formed [OF this] show ?thesis by simp
qed

end
