(* ===== verification/Group_Chats.thy ===== *)
theory Group_Chats
  imports Users App_Access
begin

text \<open>
  Group conversations (\<open>services/groups.py\<close>): creating a group on the web, invite links, leaving and
  renaming, the groups of the messaging provider and its participant events, and the owner of a group,
  whose authority over the group's generated apps moves with the group or is withdrawn.

  \<open>parse\<close> is \<open>datetime.fromisoformat\<close> after the replacement of \<open>Z\<close>. A column whose row is written in an
  update carries the time of the write (\<open>onupdate\<close>).
\<close>

datatype group_error =
    GroupNotFound
  | GroupPermission
  | GroupInviteInvalid
  | GroupValue
  | MemberIntegrityError

section \<open>Members\<close>

definition active :: string where
  "active = ''active''"

definition touch_conv :: "instant \<Rightarrow> (conv_row \<Rightarrow> conv_row) \<Rightarrow> uuid \<Rightarrow> db \<Rightarrow> db" where
  "touch_conv now f cid d = d\<lparr>db_convs := upd_where (\<lambda>c. cv_id c = cid)
     (\<lambda>c. if f c = c then c else (f c)\<lparr>cv_updated := now\<rparr>) (db_convs d)\<rparr>"

definition set_member :: "member_row \<Rightarrow> db \<Rightarrow> db" where
  "set_member m d = d\<lparr>db_members := upd_where (\<lambda>q. cm_id q = cm_id m) (\<lambda>_. m) (db_members d)\<rparr>"

definition active_member :: "db \<Rightarrow> uuid \<Rightarrow> uuid \<Rightarrow> bool" where
  "active_member d cid user_id \<longleftrightarrow>
     (\<exists>m\<in>set (db_members d). cm_conv m = cid \<and> cm_user m = Some user_id \<and> cm_status m = active)"

definition get_conversation_for_member :: "db \<Rightarrow> uuid \<Rightarrow> uuid \<Rightarrow> group_error + conv_row" where
  "get_conversation_for_member d conversation_id user_id =
     (case find_conv d conversation_id of
        None \<Rightarrow> Inl GroupNotFound
      | Some c \<Rightarrow> if cv_status c = ''active'' \<and> active_member d conversation_id user_id then Inr c else Inl GroupNotFound)"

definition list_user_conversations :: "db \<Rightarrow> uuid \<Rightarrow> conv_row list" where
  "list_user_conversations d user_id =
     sort_key (\<lambda>c. - cv_updated c)
       (filter (\<lambda>c. cv_status c = ''active'' \<and> active_member d (cv_id c) user_id) (db_convs d))"

definition list_conversation_members :: "db \<Rightarrow> uuid \<Rightarrow> bool \<Rightarrow> (member_row \<times> user_row option) list" where
  "list_conversation_members d conversation_id active_only =
     map (\<lambda>m. (m, case cm_user m of None \<Rightarrow> None | Some u \<Rightarrow> find_user d u))
       (sort_key (\<lambda>m. (cm_joined m, cm_created m))
         (filter (\<lambda>m. cm_conv m = conversation_id \<and> (active_only \<longrightarrow> cm_status m = active)) (db_members d)))"

definition or_opt :: "string option \<Rightarrow> string option \<Rightarrow> string option" where
  "or_opt a b = (case a of None \<Rightarrow> b | Some s \<Rightarrow> if s = [] then b else a)"

text \<open>The unique constraint on the users of a conversation.\<close>

definition member_clash :: "db \<Rightarrow> member_row \<Rightarrow> bool" where
  "member_clash d m \<longleftrightarrow> (\<exists>q\<in>set (db_members d). cm_id q \<noteq> cm_id m \<and> cm_conv q = cm_conv m \<and>
     cm_user m \<noteq> None \<and> cm_user q = cm_user m)"

section \<open>Groups on the web\<close>

definition group_title :: "string \<Rightarrow> group_error + string" where
  "group_title title =
     (let clean = py_strip title in
      if 1 \<le> length clean \<and> length clean \<le> 120 then Inr clean else Inl GroupValue)"

definition create_web_group :: "instant \<Rightarrow> db \<Rightarrow> user_row \<Rightarrow> string \<Rightarrow> group_error + (conv_row \<times> db)" where
  "create_web_group now d owner title =
     bindR (group_title title) (\<lambda>clean.
       case take_id d of (cid, d1) \<Rightarrow> case take_id d1 of (mid, d2) \<Rightarrow> case take_id d2 of (hid, d3) \<Rightarrow>
         let c = \<lparr>cv_id = cid, cv_user = us_id owner, cv_kind = GroupConv, cv_title = Some clean, cv_avatar = None,
                  cv_mode = ''auto'', cv_owner_source = Some ''explicit'', cv_status = ''active'',
                  cv_created = now, cv_updated = now\<rparr>;
             m = \<lparr>cm_id = mid, cm_conv = cid, cm_user = Some (us_id owner), cm_handle = get_primary_user_handle d owner,
                  cm_external = None, cm_name = us_name owner, cm_service = Some ''web'', cm_role = GroupOwner,
                  cm_status = active, cm_joined = now, cm_left = None, cm_created = now\<rparr>;
             h = \<lparr>cc_id = hid, cc_conv = cid, cc_provider = ''web'', cc_external = ''group:'' @ str_uuid cid,
                  cc_service = Some ''web'', cc_status = ''active'', cc_updated = now\<rparr>
         in Inr (c, d3\<lparr>db_convs := db_convs d3 @ [c], db_members := db_members d3 @ [m], db_channels := db_channels d3 @ [h]\<rparr>))"

definition owned_group :: "db \<Rightarrow> uuid \<Rightarrow> uuid \<Rightarrow> group_error + conv_row" where
  "owned_group d conversation_id user_id =
     bindR (get_conversation_for_member d conversation_id user_id) (\<lambda>c.
       if cv_kind c \<noteq> GroupConv then Inl GroupNotFound
       else if cv_user c \<noteq> user_id then Inl GroupPermission else Inr c)"

definition hours :: "int \<Rightarrow> int" where
  "hours h = seconds (h * 3600)"

definition create_group_invite ::
  "(string \<Rightarrow> string) \<Rightarrow> instant \<Rightarrow> string \<Rightarrow> db \<Rightarrow> uuid \<Rightarrow> uuid \<Rightarrow> int \<Rightarrow> int \<Rightarrow> group_error + (invite_row \<times> db)" where
  "create_group_invite sha now token d conversation_id user_id ttl_hours max_uses =
     bindR (owned_group d conversation_id user_id) (\<lambda>c.
       case take_id d of (iid, d1) \<Rightarrow>
         let i = \<lparr>iv_id = iid, iv_conv = cv_id c, iv_creator = user_id, iv_hash = sha token,
                  iv_max = max 1 (min max_uses 100), iv_count = 0,
                  iv_expires = now + hours (max 1 (min ttl_hours 720)), iv_revoked = None\<rparr>
         in Inr (i, d1\<lparr>db_invites := db_invites d1 @ [i]\<rparr>))"

definition invite_open :: "instant \<Rightarrow> invite_row \<Rightarrow> bool" where
  "invite_open now i \<longleftrightarrow> iv_revoked i = None \<and> now < iv_expires i \<and> iv_count i < iv_max i"

definition join_group_from_invite ::
  "(string \<Rightarrow> string) \<Rightarrow> instant \<Rightarrow> db \<Rightarrow> string \<Rightarrow> user_row \<Rightarrow> group_error + (conv_row \<times> db)" where
  "join_group_from_invite sha now d token user =
     (case find (\<lambda>i. iv_hash i = sha token) (db_invites d) of
        None \<Rightarrow> Inl GroupInviteInvalid
      | Some invite \<Rightarrow>
          if \<not> invite_open now invite then Inl GroupInviteInvalid
          else (case find_conv d (iv_conv invite) of
            None \<Rightarrow> Inl GroupInviteInvalid
          | Some c \<Rightarrow>
              if cv_kind c \<noteq> GroupConv then Inl GroupInviteInvalid
              else
                let handle = get_primary_user_handle d user;
                    joined = c\<lparr>cv_updated := now\<rparr>
                in (case find (\<lambda>m. cm_conv m = cv_id c \<and> (cm_user m = Some (us_id user) \<or> cm_handle m = handle)) (db_members d) of
                      None \<Rightarrow>
                        (case take_id d of (mid, d1) \<Rightarrow>
                          let m = \<lparr>cm_id = mid, cm_conv = cv_id c, cm_user = Some (us_id user), cm_handle = handle,
                                   cm_external = None, cm_name = us_name user, cm_service = Some ''web'',
                                   cm_role = GroupMember, cm_status = active, cm_joined = now, cm_left = None,
                                   cm_created = now\<rparr>
                          in Inr (joined, d1\<lparr>db_members := db_members d1 @ [m],
                               db_invites := upd_where (\<lambda>i. iv_id i = iv_id invite) (\<lambda>i. i\<lparr>iv_count := iv_count i + 1\<rparr>) (db_invites d1),
                               db_convs := upd_where (\<lambda>q. cv_id q = cv_id c) (\<lambda>q. q\<lparr>cv_updated := now\<rparr>) (db_convs d1)\<rparr>))
                    | Some m \<Rightarrow>
                        let m1 = m\<lparr>cm_user := Some (us_id user), cm_name := or_opt (us_name user) (cm_name m),
                                   cm_status := active, cm_left := None\<rparr>
                        in if member_clash d m1 then Inl MemberIntegrityError
                           else Inr (joined, (set_member m1 d)\<lparr>
                             db_convs := upd_where (\<lambda>q. cv_id q = cv_id c) (\<lambda>q. q\<lparr>cv_updated := now\<rparr>) (db_convs d)\<rparr>))))"

definition leave_web_group :: "instant \<Rightarrow> db \<Rightarrow> uuid \<Rightarrow> uuid \<Rightarrow> group_error + db" where
  "leave_web_group now d conversation_id user_id =
     bindR (get_conversation_for_member d conversation_id user_id) (\<lambda>c.
       if cv_kind c \<noteq> GroupConv then Inl GroupNotFound
       else (case find (\<lambda>m. cm_conv m = conversation_id \<and> cm_user m = Some user_id) (db_members d) of
               None \<Rightarrow> Inl GroupNotFound
             | Some m \<Rightarrow>
                 if cm_role m = GroupOwner then Inl GroupPermission
                 else Inr (set_member (m\<lparr>cm_status := ''left'', cm_left := Some now\<rparr>) d)))"

definition rename_group :: "instant \<Rightarrow> db \<Rightarrow> uuid \<Rightarrow> uuid \<Rightarrow> string \<Rightarrow> group_error + (conv_row \<times> db)" where
  "rename_group now d conversation_id user_id title =
     bindR (owned_group d conversation_id user_id) (\<lambda>c.
     bindR (group_title title) (\<lambda>clean.
       let d1 = touch_conv now (\<lambda>c. c\<lparr>cv_title := Some clean\<rparr>) (cv_id c) d
       in bindR (some_or GroupNotFound (find_conv d1 (cv_id c))) (\<lambda>renamed. Inr (renamed, d1))))"

section \<open>The owner's authority over the apps of a group\<close>

definition moved_membership :: "uuid \<Rightarrow> membership_row \<Rightarrow> membership_row" where
  "moved_membership new_owner m =
     (if ms_user m = new_owner then m\<lparr>ms_role := Owner\<rparr>
      else if ms_role m = Owner then m\<lparr>ms_role := Member\<rparr> else m)"

definition moved_session :: "instant \<Rightarrow> uuid \<Rightarrow> uuid option \<Rightarrow> session_row \<Rightarrow> session_row" where
  "moved_session now new_owner departing s =
     (let belongs_to_departed = (departing \<noteq> None \<and> ss_user s = departing);
          stale = (ss_role s = Owner \<and> ss_user s \<noteq> Some new_owner)
      in if belongs_to_departed \<or> (departing \<noteq> None \<and> stale) then s\<lparr>ss_revoked := Some now\<rparr>
         else if stale then s\<lparr>ss_role := Member\<rparr> else s)"

definition moved_ticket :: "instant \<Rightarrow> uuid \<Rightarrow> (uuid \<Rightarrow> bool) \<Rightarrow> uuid option \<Rightarrow> ticket_row \<Rightarrow> ticket_row" where
  "moved_ticket now new_owner prior departing t =
     (let belongs_to_departed = (departing \<noteq> None \<and> tk_principal t = departing);
          stale = (tk_role t = Owner \<and> tk_principal t \<noteq> Some new_owner);
          e = (if belongs_to_departed \<or> (departing \<noteq> None \<and> stale) then t\<lparr>tk_expires := now\<rparr>
               else if stale then t\<lparr>tk_role := Member\<rparr> else t)
      in if prior (tk_issuer t) then e\<lparr>tk_issuer := new_owner\<rparr> else e)"

definition transfer_generated_app_access ::
  "instant \<Rightarrow> uuid \<Rightarrow> (uuid \<Rightarrow> bool) \<Rightarrow> uuid option \<Rightarrow> uuid \<Rightarrow> db \<Rightarrow> db" where
  "transfer_generated_app_access now new_owner prior departing app_id d =
     (let kept = delete_where (\<lambda>m. ms_app m = app_id \<and> ms_user m \<noteq> new_owner \<and> Some (ms_user m) = departing) (db_memberships d);
          d1 = d\<lparr>db_memberships := upd_where (\<lambda>m. ms_app m = app_id) (moved_membership new_owner) kept,
                 db_sessions := upd_where (\<lambda>s. ss_app s = app_id) (moved_session now new_owner departing) (db_sessions d),
                 db_tickets := upd_where (\<lambda>t. tk_app t = app_id) (moved_ticket now new_owner prior departing) (db_tickets d)\<rparr>
      in if \<exists>m\<in>set (db_memberships d). ms_app m = app_id \<and> ms_user m = new_owner then d1
         else (case take_id d1 of (mid, d2) \<Rightarrow>
           d2\<lparr>db_memberships := db_memberships d2 @
             [\<lparr>ms_id = mid, ms_app = app_id, ms_user = new_owner, ms_role = Owner, ms_created = now\<rparr>]\<rparr>))"

definition transfer_group_ownership ::
  "instant \<Rightarrow> db \<Rightarrow> conv_row \<Rightarrow> member_row \<Rightarrow> string \<Rightarrow> uuid option \<Rightarrow> group_error + db" where
  "transfer_group_ownership now d conversation successor source departing =
     (if cv_kind conversation \<noteq> GroupConv then Inl GroupPermission
      else if cm_user successor = None then Inl GroupPermission
      else (case find_conv d (cv_id conversation) of
        None \<Rightarrow> Inl GroupNotFound
      | Some c \<Rightarrow>
          (case find (\<lambda>m. cm_conv m = cv_id c \<and> cm_id m = cm_id successor) (db_members d) of
             None \<Rightarrow> Inl GroupPermission
           | Some s \<Rightarrow>
               (case cm_user s of
                  None \<Rightarrow> Inl GroupPermission
                | Some new_owner \<Rightarrow>
                    if cm_status s \<noteq> active then Inl GroupPermission
                    else
                      let owners = filter (\<lambda>m. cm_conv m = cv_id c \<and> cm_role m = GroupOwner) (db_members d);
                          apps = filter (\<lambda>a. ga_conv a = cv_id c) (db_apps d);
                          prior = (\<lambda>u. u \<noteq> new_owner \<and> (u = cv_user c \<or> Some u \<in> cm_user ` set owners \<or> u \<in> ga_user ` set apps));
                          members = upd_where (\<lambda>m. cm_id m = cm_id s) (\<lambda>m. m\<lparr>cm_role := GroupOwner\<rparr>)
                            (upd_where (\<lambda>m. cm_conv m = cv_id c \<and> cm_role m = GroupOwner) (\<lambda>m. m\<lparr>cm_role := GroupMember\<rparr>) (db_members d));
                          d1 = touch_conv now (\<lambda>c. c\<lparr>cv_user := new_owner, cv_owner_source := Some source\<rparr>) (cv_id c)
                            (d\<lparr>db_members := members,
                               db_apps := upd_where (\<lambda>a. ga_conv a = cv_id c)
                                 (\<lambda>a. if ga_user a = new_owner then a else a\<lparr>ga_user := new_owner, ga_updated := now\<rparr>) (db_apps d)\<rparr>)
                      in Inr (fold (transfer_generated_app_access now new_owner prior departing) (map ga_id apps) d1)))))"

definition claimable :: "string option \<Rightarrow> bool" where
  "claimable source \<longleftrightarrow> source \<in> {None, Some ''unclaimed'', Some ''legacy_inferred''}"

definition claim_group_owner ::
  "instant \<Rightarrow> db \<Rightarrow> conv_row \<Rightarrow> member_row \<Rightarrow> string \<Rightarrow> group_error + (bool \<times> db)" where
  "claim_group_owner now d conversation member source =
     (if \<not> claimable (cv_owner_source conversation) then Inr (False, d)
      else if cm_user member \<noteq> None
      then bindR (transfer_group_ownership now d conversation member source None) (\<lambda>d1. Inr (True, d1))
      else
        let members = upd_where (\<lambda>m. cm_id m = cm_id member) (\<lambda>m. m\<lparr>cm_role := GroupOwner\<rparr>)
              (upd_where (\<lambda>m. cm_conv m = cv_id conversation \<and> cm_role m = GroupOwner) (\<lambda>m. m\<lparr>cm_role := GroupMember\<rparr>) (db_members d))
        in Inr (True, touch_conv now (\<lambda>c. c\<lparr>cv_owner_source := Some source\<rparr>) (cv_id conversation) (d\<lparr>db_members := members\<rparr>)))"

definition revoke_app_owner :: "instant \<Rightarrow> uuid \<Rightarrow> uuid \<Rightarrow> db \<Rightarrow> db" where
  "revoke_app_owner now departing app_id d =
     d\<lparr>db_memberships := delete_where (\<lambda>m. ms_app m = app_id \<and> (ms_user m = departing \<or> ms_role m = Owner)) (db_memberships d),
       db_sessions := upd_where (\<lambda>s. ss_app s = app_id \<and> (ss_user s = Some departing \<or> ss_role s = Owner))
         (\<lambda>s. s\<lparr>ss_revoked := Some now\<rparr>) (db_sessions d),
       db_tickets := upd_where (\<lambda>t. tk_app t = app_id \<and> (tk_principal t = Some departing \<or> tk_role t = Owner))
         (\<lambda>t. t\<lparr>tk_expires := now\<rparr>) (db_tickets d)\<rparr>"

definition revoke_unclaimed_group_app_owner :: "instant \<Rightarrow> uuid \<Rightarrow> uuid \<Rightarrow> db \<Rightarrow> db" where
  "revoke_unclaimed_group_app_owner now conversation_id departing d =
     fold (revoke_app_owner now departing) (map ga_id (filter (\<lambda>a. ga_conv a = conversation_id) (db_apps d))) d"

end
