(* ===== verification/Linq_Groups.thy ===== *)
theory Linq_Groups
  imports Group_Chats
begin

text \<open>
  The groups of the messaging provider (\<open>services/groups.py\<close>): the members a webhook names, the group a
  chat stands for, and the events of a group (renamed, a participant added or removed). Also when a
  message addresses dot, and how the prompt names members and the owner.
\<close>

section \<open>Handles\<close>

fun clean_optional_text :: "json \<Rightarrow> nat \<Rightarrow> string option" where
  "clean_optional_text (JStr s) n = (if py_strip s = [] then None else Some (take n (py_strip s)))"
| "clean_optional_text _ n = None"

definition canonical_handle :: "identity_env \<Rightarrow> string \<Rightarrow> string" where
  "canonical_handle en handle =
     (case normalize_user_identifier en handle None of Inl _ \<Rightarrow> py_strip handle | Inr n \<Rightarrow> snd n)"

definition find_optional_identifier_user :: "identity_env \<Rightarrow> db \<Rightarrow> string \<Rightarrow> user_row option" where
  "find_optional_identifier_user en d handle =
     (case find_user_by_identifier en d handle None of Inl _ \<Rightarrow> None | Inr u \<Rightarrow> u)"

section \<open>Members\<close>

text \<open>What a webhook says of a member.\<close>

record member_report =
  mr_handle :: string
  mr_user :: "user_row option"
  mr_service :: "string option"
  mr_external :: "string option"
  mr_name :: "string option"
  mr_status :: string
  mr_joined :: "instant option"
  mr_left :: "instant option"

definition reported_member :: "uuid \<Rightarrow> member_report \<Rightarrow> member_row \<Rightarrow> bool" where
  "reported_member cid r m \<longleftrightarrow> cm_conv m = cid \<and>
     (cm_handle m = mr_handle r \<or> (case mr_user r of None \<Rightarrow> False | Some u \<Rightarrow> cm_user m = Some (us_id u)))"

definition update_reported :: "member_report \<Rightarrow> member_row \<Rightarrow> member_row" where
  "update_reported r m =
     m\<lparr>cm_user := (case mr_user r of None \<Rightarrow> cm_user m | Some u \<Rightarrow> Some (us_id u)),
       cm_service := or_opt (mr_service r) (cm_service m),
       cm_external := or_opt (mr_external r) (cm_external m),
       cm_name := or_opt (mr_name r) (cm_name m),
       cm_status := mr_status r,
       cm_joined := (case mr_joined r of None \<Rightarrow> cm_joined m | Some t \<Rightarrow> t),
       cm_left := mr_left r\<rparr>"

text \<open>
  Both callers report the role \<open>member\<close>, which a new row gets and an existing one does not change. A
  new row takes the defaults of the columns the report leaves out.
\<close>

definition upsert_group_member ::
  "instant \<Rightarrow> db \<Rightarrow> uuid \<Rightarrow> member_report \<Rightarrow> group_error + (member_row \<times> db)" where
  "upsert_group_member now d cid r =
     (case find (reported_member cid r) (db_members d) of
        None \<Rightarrow>
          (case take_id d of (mid, d1) \<Rightarrow>
             let m = update_reported r
                   \<lparr>cm_id = mid, cm_conv = cid, cm_user = None, cm_handle = mr_handle r, cm_external = None,
                    cm_name = None, cm_service = None, cm_role = GroupMember, cm_status = active,
                    cm_joined = now, cm_left = None, cm_created = now\<rparr>
             in Inr (m, d1\<lparr>db_members := db_members d1 @ [m]\<rparr>))
      | Some m0 \<Rightarrow>
          let m = update_reported r m0
          in if member_clash d m then Inl MemberIntegrityError else Inr (m, set_member m d))"

text \<open>\<open>str(v or other)\<close> of a status, which is text in the provider's events.\<close>

definition text_or :: "json \<Rightarrow> string \<Rightarrow> string" where
  "text_or v other = (case webhook_id v of None \<Rightarrow> other | Some s \<Rightarrow> s)"

definition member_name :: "user_row option \<Rightarrow> obj \<Rightarrow> string option" where
  "member_name user raw =
     (case user of
        Some u \<Rightarrow> (case us_name u of Some (c # cs) \<Rightarrow> Some (c # cs)
                   | _ \<Rightarrow> clean_optional_text (py_or (get_or_null raw ''display_name'') (get_or_null raw ''name'')) 120)
      | None \<Rightarrow> clean_optional_text (py_or (get_or_null raw ''display_name'') (get_or_null raw ''name'')) 120)"

definition participant_report ::
  "identity_env \<Rightarrow> (string \<Rightarrow> instant option) \<Rightarrow> db \<Rightarrow> obj \<Rightarrow> string \<Rightarrow> member_report" where
  "participant_report en parse d raw handle =
     (let h = canonical_handle en handle; user = find_optional_identifier_user en d h
      in \<lparr>mr_handle = h, mr_user = user,
          mr_service = clean_optional_text (get_or_null raw ''service'') 32,
          mr_external = clean_optional_text (get_or_null raw ''id'') 255,
          mr_name = member_name user raw,
          mr_status = text_or (get_or_null raw ''status'') active,
          mr_joined = event_datetime parse (get_or_null raw ''joined_at''),
          mr_left = event_datetime parse (get_or_null raw ''left_at'')\<rparr>)"

definition sync_participant ::
  "identity_env \<Rightarrow> (string \<Rightarrow> instant option) \<Rightarrow> instant \<Rightarrow> uuid \<Rightarrow> json \<Rightarrow> db \<Rightarrow> group_error + db" where
  "sync_participant en parse now cid item d =
     (case item of
        JObj raw \<Rightarrow>
          if get_or_null raw ''is_me'' = JBool True then Inr d
          else (case get_or_null raw ''handle'' of
                  JStr handle \<Rightarrow>
                    if py_strip handle = [] then Inr d
                    else bindR (upsert_group_member now d cid (participant_report en parse d raw handle)) (\<lambda>(m, d1). Inr d1)
                | _ \<Rightarrow> Inr d)
      | _ \<Rightarrow> Inr d)"

definition sync_linq_group_participants ::
  "identity_env \<Rightarrow> (string \<Rightarrow> instant option) \<Rightarrow> instant \<Rightarrow> db \<Rightarrow> uuid \<Rightarrow> obj \<Rightarrow> group_error + db" where
  "sync_linq_group_participants en parse now d cid chat_data =
     (case get_or_null chat_data ''handles'' of
        JArr handles \<Rightarrow> foldR (sync_participant en parse now cid) handles d
      | _ \<Rightarrow> Inr d)"

section \<open>The group of a chat\<close>

definition find_channel :: "db \<Rightarrow> string \<Rightarrow> string \<Rightarrow> channel_row option" where
  "find_channel d provider external_id =
     find (\<lambda>h. cc_provider h = provider \<and> cc_external h = external_id) (db_channels d)"

definition default_title :: "string option \<Rightarrow> string" where
  "default_title t = (case t of None \<Rightarrow> ''group with dot'' | Some s \<Rightarrow> s)"

definition touch_channel :: "instant \<Rightarrow> (channel_row \<Rightarrow> channel_row) \<Rightarrow> uuid \<Rightarrow> db \<Rightarrow> db" where
  "touch_channel now f hid d = d\<lparr>db_channels := upd_where (\<lambda>h. cc_id h = hid)
     (\<lambda>h. if f h = h then h else (f h)\<lparr>cc_updated := now\<rparr>) (db_channels d)\<rparr>"

definition attach_group ::
  "instant \<Rightarrow> db \<Rightarrow> string \<Rightarrow> user_row \<Rightarrow> string option \<Rightarrow> obj \<Rightarrow> group_error + (conv_row \<times> uuid \<times> bool \<times> db)" where
  "attach_group now d chat_id sender service chat_data =
     (case find_channel d ''linq'' chat_id of
        None \<Rightarrow>
          (case take_id d of (cid, d1) \<Rightarrow> case take_id d1 of (hid, d2) \<Rightarrow>
             let c = \<lparr>cv_id = cid, cv_user = us_id sender, cv_kind = GroupConv,
                      cv_title = Some (default_title (clean_optional_text (get_or_null chat_data ''display_name'') 120)),
                      cv_avatar = None, cv_mode = ''auto'', cv_owner_source = Some ''unclaimed'', cv_status = ''active'',
                      cv_created = now, cv_updated = now\<rparr>;
                 h = \<lparr>cc_id = hid, cc_conv = cid, cc_provider = ''linq'', cc_external = chat_id, cc_service = service,
                      cc_status = ''active'', cc_updated = now\<rparr>
             in Inr (c, hid, True, d2\<lparr>db_convs := db_convs d2 @ [c], db_channels := db_channels d2 @ [h]\<rparr>))
      | Some h \<Rightarrow>
          (case find_conv d (cc_conv h) of
             None \<Rightarrow> Inl GroupPermission
           | Some c \<Rightarrow>
               if cv_kind c \<noteq> GroupConv then Inl GroupPermission
               else Inr (c, cc_id h, False,
                 (case service of Some (x # xs) \<Rightarrow> touch_channel now (\<lambda>h. h\<lparr>cc_service := Some (x # xs)\<rparr>) (cc_id h) d
                  | _ \<Rightarrow> d))))"

definition sender_report :: "user_row \<Rightarrow> string \<Rightarrow> string option \<Rightarrow> member_report" where
  "sender_report sender handle service =
     \<lparr>mr_handle = handle, mr_user = Some sender, mr_service = service, mr_external = None, mr_name = us_name sender,
      mr_status = active, mr_joined = None, mr_left = None\<rparr>"

definition sync_chat ::
  "identity_env \<Rightarrow> (string \<Rightarrow> instant option) \<Rightarrow> instant \<Rightarrow> db \<Rightarrow> uuid \<Rightarrow> obj \<Rightarrow> group_error + db" where
  "sync_chat en parse now d cid chat_data =
     (if chat_data = [] then Inr d
      else bindR (sync_linq_group_participants en parse now d cid chat_data) (\<lambda>d1.
        Inr (case clean_optional_text (get_or_null chat_data ''display_name'') 120 of
               None \<Rightarrow> d1
             | Some t \<Rightarrow> touch_conv now (\<lambda>c. c\<lparr>cv_title := Some t\<rparr>) cid d1)))"

definition claim_as_sender :: "instant \<Rightarrow> db \<Rightarrow> uuid \<Rightarrow> uuid \<Rightarrow> bool \<Rightarrow> group_error + db" where
  "claim_as_sender now d cid member_id claim_owner =
     (if \<not> claim_owner then Inr d
      else bindR (some_or GroupNotFound (find_conv d cid)) (\<lambda>c.
           bindR (some_or GroupNotFound (row_by cm_id member_id (db_members d))) (\<lambda>m.
           bindR (claim_group_owner now d c m ''first_invoker'') (\<lambda>(claimed, d1). Inr d1))))"

definition resolve_linq_group_conversation ::
  "identity_env \<Rightarrow> (string \<Rightarrow> instant option) \<Rightarrow> instant \<Rightarrow> db \<Rightarrow> string \<Rightarrow> user_row \<Rightarrow> string option \<Rightarrow>
   string option \<Rightarrow> obj \<Rightarrow> bool \<Rightarrow> group_error + (uuid \<times> uuid \<times> bool \<times> db)" where
  "resolve_linq_group_conversation en parse now d chat_id sender service sender_handle chat_data claim_owner =
     bindR (attach_group now d chat_id sender service chat_data) (\<lambda>(c, hid, created, d1).
     bindR (upsert_group_member now d1 (cv_id c)
              (sender_report sender (canonical_handle en (case or_opt sender_handle None of
                 None \<Rightarrow> get_primary_user_handle d1 sender | Some h \<Rightarrow> h)) service)) (\<lambda>(m, d2).
     bindR (sync_chat en parse now d2 (cv_id c) chat_data) (\<lambda>d3.
     bindR (claim_as_sender now d3 (cv_id c) (cm_id m) claim_owner) (\<lambda>d4.
       Inr (cv_id c, hid, created, d4)))))"

section \<open>Events of a group\<close>

definition event_chat_id :: "obj \<Rightarrow> json" where
  "event_chat_id data =
     (case get_or_null data ''chat'' of
        JObj chat \<Rightarrow> if is_str (get_or_null chat ''id'') then get_or_null chat ''id''
                     else py_or (get_or_null data ''chat_id'') (get_or_null data ''id'')
      | _ \<Rightarrow> py_or (get_or_null data ''chat_id'') (get_or_null data ''id''))"

fun first_field :: "obj \<Rightarrow> string list \<Rightarrow> json" where
  "first_field data [] = JNull"
| "first_field data [k] = get_or_null data k"
| "first_field data (k # ks) = py_or (get_or_null data k) (first_field data ks)"

text \<open>What happens to the ownership when the owner \<open>m\<close> is removed.\<close>

definition replacement_for :: "db \<Rightarrow> member_row \<Rightarrow> member_row option" where
  "replacement_for d m =
     least_by (\<lambda>q. (cm_joined q, cm_created q))
       (filter (\<lambda>q. cm_conv q = cm_conv m \<and> cm_status q = active \<and> cm_user q \<noteq> None \<and> cm_id q \<noteq> cm_id m) (db_members d))"

definition departing_owner :: "conv_row \<Rightarrow> member_row \<Rightarrow> uuid" where
  "departing_owner c m = (case cm_user m of None \<Rightarrow> cv_user c | Some u \<Rightarrow> u)"

definition release_group :: "instant \<Rightarrow> db \<Rightarrow> conv_row \<Rightarrow> member_row \<Rightarrow> db" where
  "release_group now d c m =
     revoke_unclaimed_group_app_owner now (cv_id c) (departing_owner c m)
       (touch_conv now (\<lambda>q. q\<lparr>cv_owner_source := Some ''unclaimed''\<rparr>) (cv_id c) (set_member (m\<lparr>cm_role := GroupMember\<rparr>) d))"

definition replace_owner :: "instant \<Rightarrow> db \<Rightarrow> conv_row \<Rightarrow> member_row \<Rightarrow> group_error + db" where
  "replace_owner now d c m =
     (case replacement_for d m of
        Some s \<Rightarrow> transfer_group_ownership now d c s ''transferred'' (Some (departing_owner c m))
      | None \<Rightarrow> Inr (release_group now d c m))"

definition participant_event ::
  "identity_env \<Rightarrow> (string \<Rightarrow> instant option) \<Rightarrow> instant \<Rightarrow> db \<Rightarrow> conv_row \<Rightarrow> channel_row \<Rightarrow> bool \<Rightarrow> obj \<Rightarrow>
   group_error + (bool \<times> db)" where
  "participant_event en parse now d c h removed data =
     (let details = dict_or_empty (get_or_null data ''participant'')
      in if get_or_null details ''is_me'' = JBool True
         then let s = (if removed then ''inactive'' else ''active'')
              in Inr (True, touch_channel now (\<lambda>h. h\<lparr>cc_status := s\<rparr>) (cc_id h)
                   (touch_conv now (\<lambda>c. c\<lparr>cv_status := s\<rparr>) (cv_id c) d))
         else (case py_or (get_or_null details ''handle'') (get_or_null data ''handle'') of
                 JStr handle \<Rightarrow>
                   bindR (upsert_group_member now d (cv_id c)
                     ((participant_report en parse d details handle)
                        \<lparr>mr_status := (if removed then text_or (get_or_null details ''status'') ''removed'' else active),
                         mr_joined := event_datetime parse (py_or (get_or_null details ''joined_at'') (get_or_null data ''added_at'')),
                         mr_left := event_datetime parse (py_or (get_or_null details ''left_at'') (get_or_null data ''removed_at''))\<rparr>))
                     (\<lambda>(m, d1). if removed \<and> cm_role m = GroupOwner
                        then bindR (replace_owner now d1 c m) (\<lambda>d2. Inr (True, d2)) else Inr (True, d1))
               | _ \<Rightarrow> Inr (False, d)))"

definition apply_linq_group_event ::
  "identity_env \<Rightarrow> (string \<Rightarrow> instant option) \<Rightarrow> instant \<Rightarrow> db \<Rightarrow> string \<Rightarrow> obj \<Rightarrow> group_error + (bool \<times> db)" where
  "apply_linq_group_event en parse now d event_type data =
     (case event_chat_id data of
        JStr chat_id \<Rightarrow>
          (case find_channel d ''linq'' chat_id of
             None \<Rightarrow> Inr (False, d)
           | Some h \<Rightarrow>
               (case find_conv d (cc_conv h) of
                  None \<Rightarrow> Inr (False, d)
                | Some c \<Rightarrow>
                    if cv_kind c \<noteq> GroupConv then Inr (False, d)
                    else if event_type = ''chat.group_name_updated''
                    then let t = clean_optional_text (first_field data [''new_value'', ''display_name'', ''group_name'', ''name'']) 120
                         in Inr (True, touch_conv now (\<lambda>c. c\<lparr>cv_title := Some (default_title t)\<rparr>) (cv_id c) d)
                    else if event_type = ''chat.group_icon_updated''
                    then let a = clean_optional_text (first_field data [''new_value'', ''group_chat_icon'', ''icon_url'', ''url'']) 2048
                         in Inr (True, touch_conv now (\<lambda>c. c\<lparr>cv_avatar := a\<rparr>) (cv_id c) d)
                    else if event_type \<notin> {''participant.added'', ''participant.removed''} then Inr (False, d)
                    else participant_event en parse now d c h (event_type = ''participant.removed'') data))
      | _ \<Rightarrow> Inr (False, d))"

section \<open>Whom a message addresses\<close>

text \<open>
  \<open>GROUP_MENTION_PATTERN.search\<close>. \<open>is_word\<close> is the class \<open>\w\<close> on the code points 0 to 255: letters, digits,
  numeric signs and the underscore.
\<close>

definition is_word :: "char \<Rightarrow> bool" where
  "is_word c \<longleftrightarrow> is_digit c \<or> is_lower c \<or> is_upper c \<or> c = CHR ''_'' \<or>
     (let n = code_point c in
        n \<in> {170, 178, 179, 181, 185, 186, 188, 189, 190} \<or> (192 \<le> n \<and> n \<noteq> 215 \<and> n \<noteq> 247))"

definition low_char :: "char \<Rightarrow> char" where
  "low_char c = (if is_upper c then char_of (code_point c + 32) else c)"

definition name_ends_here :: "string \<Rightarrow> string \<Rightarrow> bool" where
  "name_ends_here name s \<longleftrightarrow> map low_char (take (length name) s) = name \<and>
     (drop (length name) s = [] \<or> \<not> is_word (hd (drop (length name) s)))"

definition name_here :: "string \<Rightarrow> bool" where
  "name_here s \<longleftrightarrow> name_ends_here ''dot'' s \<or> name_ends_here ''benji'' s"

definition mention_here :: "string \<Rightarrow> bool" where
  "mention_here s \<longleftrightarrow> name_here s \<or> (s \<noteq> [] \<and> hd s = CHR ''@'' \<and> name_here (tl s))"

fun mention_after :: "string \<Rightarrow> bool" where
  "mention_after [] = False"
| "mention_after (c # cs) = ((\<not> is_word c \<and> mention_here cs) \<or> mention_after cs)"

definition group_message_addresses_benji :: "string \<Rightarrow> bool" where
  "group_message_addresses_benji text \<longleftrightarrow> mention_here text \<or> mention_after text"

section \<open>Names in the prompt\<close>

definition some_text :: "string option \<Rightarrow> bool" where
  "some_text s \<longleftrightarrow> s \<noteq> None \<and> s \<noteq> Some []"

definition member_label :: "member_row \<Rightarrow> user_row option \<Rightarrow> string" where
  "member_label m user =
     (if user \<noteq> None \<and> some_text (us_name (the user)) then the (us_name (the user))
      else if some_text (cm_name m) then the (cm_name m)
      else ''an unnamed group member'')"

definition group_owner_context :: "(member_row \<times> user_row option) list \<Rightarrow> string option \<Rightarrow> string \<times> string" where
  "group_owner_context members source =
     (case find (\<lambda>mu. cm_role (fst mu) = GroupOwner) members of
        None \<Rightarrow> ''not established yet'' | Some (m, u) \<Rightarrow> member_label m u,
      if source = Some ''explicit'' then ''created the web group''
      else if source = Some ''first_invoker'' then ''was the first member to invoke dot after it joined''
      else if source = Some ''transferred'' then ''inherited ownership after the previous owner left''
      else ''has not been reliably identified by the channel'')"

end
