(* ===== verification/Group_Laws.thy ===== *)
theory Group_Laws
  imports Linq_Groups Dot_Samples
begin

text \<open>
  What holds of groups: who has authority over a group's apps after the ownership moved or the owner was
  removed, that a group has one owner unless it is unclaimed, and how many members an invite admits.
\<close>

section \<open>Authority over an app\<close>

text \<open>
  \<open>owned_only\<close>: every owner's membership, unrevoked session and unexpired ticket of the app is of a user in
  \<open>P\<close>; \<open>shut_out\<close>: a user has none of them in any role.
\<close>

definition owned_only :: "instant \<Rightarrow> (uuid option \<Rightarrow> bool) \<Rightarrow> uuid \<Rightarrow> db \<Rightarrow> bool" where
  "owned_only now P a d \<longleftrightarrow>
     (\<forall>m\<in>set (db_memberships d). ms_app m = a \<and> ms_role m = Owner \<longrightarrow> P (Some (ms_user m))) \<and>
     (\<forall>s\<in>set (db_sessions d). ss_app s = a \<and> ss_role s = Owner \<and> ss_revoked s = None \<longrightarrow> P (ss_user s)) \<and>
     (\<forall>t\<in>set (db_tickets d). tk_app t = a \<and> tk_role t = Owner \<and> now < tk_expires t \<longrightarrow> P (tk_principal t))"

definition shut_out :: "instant \<Rightarrow> uuid \<Rightarrow> uuid \<Rightarrow> db \<Rightarrow> bool" where
  "shut_out now u a d \<longleftrightarrow>
     (\<forall>m\<in>set (db_memberships d). ms_app m = a \<longrightarrow> ms_user m \<noteq> u) \<and>
     (\<forall>s\<in>set (db_sessions d). ss_app s = a \<and> ss_user s = Some u \<longrightarrow> ss_revoked s \<noteq> None) \<and>
     (\<forall>t\<in>set (db_tickets d). tk_app t = a \<and> tk_principal t = Some u \<longrightarrow> tk_expires t \<le> now)"

lemma fold_establishes:
  assumes "\<And>a d. P a (f a d)" "\<And>a b d. P b d \<Longrightarrow> P b (f a d)" "a \<in> set xs"
  shows "P a (fold f xs d)"
proof -
  have keep: "P b d \<Longrightarrow> P b (fold f ys d)" for b ys d
    by (induction ys arbitrary: d) (simp_all add: assms(2))
  from assms(3) show ?thesis
    by (induction xs arbitrary: d) (auto intro: keep assms(1))
qed

text \<open>The rows after a transfer.\<close>

abbreviation kept_memberships :: "uuid \<Rightarrow> uuid option \<Rightarrow> uuid \<Rightarrow> db \<Rightarrow> membership_row list" where
  "kept_memberships u departing a d \<equiv>
     delete_where (\<lambda>m. ms_app m = a \<and> ms_user m \<noteq> u \<and> Some (ms_user m) = departing) (db_memberships d)"

abbreviation member_of :: "uuid \<Rightarrow> uuid \<Rightarrow> db \<Rightarrow> bool" where
  "member_of u a d \<equiv> \<exists>m\<in>set (db_memberships d). ms_app m = a \<and> ms_user m = u"

lemma transfer_rows:
  "db_sessions (transfer_generated_app_access now u prior departing a d) =
     upd_where (\<lambda>s. ss_app s = a) (moved_session now u departing) (db_sessions d)"
  "db_tickets (transfer_generated_app_access now u prior departing a d) =
     upd_where (\<lambda>t. tk_app t = a) (moved_ticket now u prior departing) (db_tickets d)"
  "db_apps (transfer_generated_app_access now u prior departing a d) = db_apps d"
  "db_convs (transfer_generated_app_access now u prior departing a d) = db_convs d"
  "db_members (transfer_generated_app_access now u prior departing a d) = db_members d"
  "db_next d \<le> db_next (transfer_generated_app_access now u prior departing a d)"
  by (cases "member_of u a d"; simp only: transfer_generated_app_access_def take_id_def Let_def if_True if_False prod.case; simp)+

lemma transfer_memberships:
  "db_memberships (transfer_generated_app_access now u prior departing a d) =
     upd_where (\<lambda>m. ms_app m = a) (moved_membership u) (kept_memberships u departing a d) @
     (if member_of u a d then []
      else [\<lparr>ms_id = db_next d, ms_app = a, ms_user = u, ms_role = Owner, ms_created = now\<rparr>])"
  by (cases "member_of u a d"; simp only: transfer_generated_app_access_def take_id_def Let_def if_True if_False prod.case; simp)

lemma moved_row_simps [simp]:
  "ss_app (moved_session now u g s) = ss_app s" "ss_user (moved_session now u g s) = ss_user s"
  "tk_app (moved_ticket now u p g t) = tk_app t" "tk_principal (moved_ticket now u p g t) = tk_principal t"
  "ms_app (moved_membership u m) = ms_app m" "ms_user (moved_membership u m) = ms_user m"
  by (simp_all add: moved_session_def moved_ticket_def moved_membership_def Let_def)

lemma moved_membership_owner [simp]: "ms_role (moved_membership u m) = Owner \<longleftrightarrow> ms_user m = u"
  by (simp add: moved_membership_def)

lemma moved_session_owner:
  "ss_role (moved_session now u g s) = Owner \<Longrightarrow> ss_revoked (moved_session now u g s) = None \<Longrightarrow> ss_user s = Some u"
  by (auto simp: moved_session_def Let_def split: if_splits)

lemma moved_ticket_owner:
  "tk_role (moved_ticket now u p g t) = Owner \<Longrightarrow> now < tk_expires (moved_ticket now u p g t) \<Longrightarrow> tk_principal t = Some u"
  by (auto simp: moved_ticket_def Let_def split: if_splits)

lemma moved_departed:
  "ss_user s = Some w \<Longrightarrow> ss_revoked (moved_session now u (Some w) s) = Some now"
  "tk_principal t = Some w \<Longrightarrow> tk_expires (moved_ticket now u p (Some w) t) = now"
  by (simp_all add: moved_session_def moved_ticket_def Let_def)

lemma moved_kept:
  "ss_revoked s \<noteq> None \<Longrightarrow> ss_revoked (moved_session now u g s) \<noteq> None"
  "tk_expires t \<le> now \<Longrightarrow> tk_expires (moved_ticket now u p g t) \<le> now"
  by (simp_all add: moved_session_def moved_ticket_def Let_def)

text \<open>The three tables one row at a time.\<close>

lemma ball_memberships_moved:
  "(\<forall>m\<in>set (db_memberships (transfer_generated_app_access now u prior departing a d)). Q m) \<longleftrightarrow>
     (\<forall>m\<in>set (db_memberships d). if ms_app m = a
        then (ms_user m \<noteq> u \<and> Some (ms_user m) = departing) \<or> Q (moved_membership u m) else Q m) \<and>
     (member_of u a d \<or> Q \<lparr>ms_id = db_next d, ms_app = a, ms_user = u, ms_role = Owner, ms_created = now\<rparr>)"
  unfolding transfer_memberships set_append ball_Un ball_upd_where by (auto simp: in_set_delete_where)

lemma transfer_owned_only:
  "owned_only now (\<lambda>p. p = Some u) a (transfer_generated_app_access now u prior departing a d)"
  unfolding owned_only_def ball_memberships_moved transfer_rows ball_upd_where
proof (intro conjI ballI)
  show "member_of u a d \<or> (ms_app \<lparr>ms_id = db_next d, ms_app = a, ms_user = u, ms_role = Owner, ms_created = now\<rparr> = a \<and>
     ms_role \<lparr>ms_id = db_next d, ms_app = a, ms_user = u, ms_role = Owner, ms_created = now\<rparr> = Owner \<longrightarrow>
     Some (ms_user \<lparr>ms_id = db_next d, ms_app = a, ms_user = u, ms_role = Owner, ms_created = now\<rparr>) = Some u)" by simp
next
  fix s show "if ss_app s = a
    then ss_app (moved_session now u departing s) = a \<and> ss_role (moved_session now u departing s) = Owner \<and>
         ss_revoked (moved_session now u departing s) = None \<longrightarrow> ss_user (moved_session now u departing s) = Some u
    else ss_app s = a \<and> ss_role s = Owner \<and> ss_revoked s = None \<longrightarrow> ss_user s = Some u"
    using moved_session_owner [of now u departing s] by simp
next
  fix t show "if tk_app t = a
    then tk_app (moved_ticket now u prior departing t) = a \<and> tk_role (moved_ticket now u prior departing t) = Owner \<and>
         now < tk_expires (moved_ticket now u prior departing t) \<longrightarrow> tk_principal (moved_ticket now u prior departing t) = Some u
    else tk_app t = a \<and> tk_role t = Owner \<and> now < tk_expires t \<longrightarrow> tk_principal t = Some u"
    using moved_ticket_owner [of now u prior departing t] by simp
qed simp

lemma transfer_other_rows:
  assumes "a \<noteq> b"
  shows "owned_only now P b (transfer_generated_app_access now u prior departing a d) = owned_only now P b d"
    "shut_out now w b (transfer_generated_app_access now u prior departing a d) = shut_out now w b d"
  unfolding owned_only_def shut_out_def ball_memberships_moved transfer_rows ball_upd_where
  using assms by (auto cong: ball_cong)

lemma transfer_shut_out:
  assumes "w \<noteq> u"
  shows "shut_out now w a (transfer_generated_app_access now u prior (Some w) a d)"
  unfolding shut_out_def ball_memberships_moved transfer_rows ball_upd_where
  using assms by (intro conjI ballI) (simp_all add: moved_departed, blast?)

lemma transfer_keeps_owned:
  "owned_only now (\<lambda>p. p = Some u) b d \<Longrightarrow>
     owned_only now (\<lambda>p. p = Some u) b (transfer_generated_app_access now u prior departing a d)"
  by (cases "a = b") (simp_all add: transfer_owned_only transfer_other_rows)

text \<open>
  \<open>acts_on\<close>: at time \<open>t\<close> some user, session token or ticket authorises \<open>act\<close> on the app.
\<close>

inductive acts_on :: "(string \<Rightarrow> string) \<Rightarrow> instant \<Rightarrow> db \<Rightarrow> uuid \<Rightarrow> app_actor \<Rightarrow> bool" for sha t d app_id where
  by_user: "authorize_user d app_id u = Inr act \<Longrightarrow> acts_on sha t d app_id act"
| by_session: "authorize_session sha t d app_id token = Inr act \<Longrightarrow> acts_on sha t d app_id act"
| by_ticket: "redeem_access_ticket sha t raw d p token ttl = Inr (tok, s, d1) \<Longrightarrow> ss_app s = app_id \<Longrightarrow>
    act = \<lparr>ac_role = ss_role s, ac_user = ss_user s, ac_session = Some (ss_id s), ac_verified = False\<rparr> \<Longrightarrow>
    acts_on sha t d app_id act"

lemma authorize_sessionE:
  assumes "authorize_session sha t d i token = Inr act"
  obtains s where "s \<in> set (db_sessions d)" "ss_app s = i" "ss_revoked s = None" "ac_role act = ss_role s" "ac_user act = ss_user s"
  using assms unfolding authorize_session_def
  by (auto simp: result_simps session_live_def split: sum.splits option.splits dest!: find_SomeD)

lemma redeemE:
  assumes "redeem_access_ticket sha t raw d p token ttl = Inr (tok, s, d1)"
  obtains k where "k \<in> set (db_tickets d)" "tk_app k = ss_app s" "t < tk_expires k" "ss_role s = tk_role k" "ss_user s = tk_principal k"
  using assms by (rule redeem_access_ticket_Inr) (auto simp: ticket_live_def dest!: find_SomeD)

lemma owned_only_authority:
  assumes "acts_on sha t d i act" "ac_role act = Owner" "owned_only now P i d" "now \<le> t"
    "find_app d i = Some app" "P (Some (ga_user app)) \<or> unclaimed_group d app"
  shows "P (ac_user act)"
  using assms(1)
proof cases
  case (by_user u)
  then have au: "authorize_user_for_locked_app d app u = Inr act"
    using assms(5) by (simp add: authorize_user_def result_simps)
  from authorize_user_owner [OF au assms(2)] assms(3,5,6) find_app_id [OF assms(5)] authorize_user_actor [OF au]
  show ?thesis unfolding owned_only_def by auto
next
  case (by_session token)
  from this obtain s where "s \<in> set (db_sessions d)" "ss_app s = i" "ss_revoked s = None" "ac_role act = ss_role s" "ac_user act = ss_user s"
    by (rule authorize_sessionE)
  with assms(2,3) show ?thesis unfolding owned_only_def by auto
next
  case (by_ticket raw p token ttl tok s d1)
  from by_ticket(1) obtain k where "k \<in> set (db_tickets d)" "tk_app k = ss_app s" "t < tk_expires k"
    "ss_role s = tk_role k" "ss_user s = tk_principal k" by (rule redeemE)
  with by_ticket assms(2,3,4) show ?thesis unfolding owned_only_def by auto
qed

lemma shut_out_authority:
  assumes "acts_on sha t d i act" "shut_out now w i d" "now \<le> t"
    "find_app d i = Some app" "ga_user app \<noteq> w \<or> unclaimed_group d app"
  shows "ac_user act \<noteq> Some w"
  using assms(1)
proof cases
  case (by_user u)
  then have au: "authorize_user_for_locked_app d app u = Inr act"
    using assms(4) by (simp add: authorize_user_def result_simps)
  have "u \<noteq> w"
  proof
    assume "u = w"
    with assms(2) find_app_id [OF assms(4)] have "find_membership d (ga_id app) u = None"
      unfolding find_membership_None shut_out_def by blast
    with au assms(5) \<open>u = w\<close> show False by (auto simp: authorize_user_for_locked_app_def split: if_splits)
  qed
  with authorize_user_actor [OF au] show ?thesis by simp
next
  case (by_session token)
  from this obtain s where "s \<in> set (db_sessions d)" "ss_app s = i" "ss_revoked s = None" "ac_role act = ss_role s" "ac_user act = ss_user s"
    by (rule authorize_sessionE)
  with assms(2) show ?thesis unfolding shut_out_def by auto
next
  case (by_ticket raw p token ttl tok s d1)
  from by_ticket(1) obtain k where k: "k \<in> set (db_tickets d)" "tk_app k = ss_app s" "t < tk_expires k"
    "ss_role s = tk_role k" "ss_user s = tk_principal k" by (rule redeemE)
  show ?thesis
  proof
    assume "ac_user act = Some w"
    with by_ticket k have "tk_app k = i" "tk_principal k = Some w" by simp_all
    with assms(2) k(1) have "tk_expires k \<le> now" unfolding shut_out_def by blast
    with k(3) assms(3) show False by simp
  qed
qed

section \<open>Moving the ownership\<close>

abbreviation transfer_all :: "instant \<Rightarrow> uuid \<Rightarrow> (uuid \<Rightarrow> bool) \<Rightarrow> uuid option \<Rightarrow> uuid list \<Rightarrow> db \<Rightarrow> db" where
  "transfer_all now u prior departing \<equiv> fold (transfer_generated_app_access now u prior departing)"

lemma transfer_all_other:
  "db_apps (transfer_all now u prior departing xs d) = db_apps d"
  "db_convs (transfer_all now u prior departing xs d) = db_convs d"
  "db_members (transfer_all now u prior departing xs d) = db_members d"
  by (induction xs arbitrary: d) (simp_all add: transfer_rows)

lemma transfer_all_next: "db_next d \<le> db_next (transfer_all now u prior departing xs d)"
proof (induction xs arbitrary: d)
  case (Cons a xs)
  show ?case unfolding fold_simps
    using Cons [of "transfer_generated_app_access now u prior departing a d"] transfer_rows(6) by (meson order_trans)
qed simp

lemma transfer_all_owned_only:
  "a \<in> set xs \<Longrightarrow> owned_only now (\<lambda>p. p = Some u) a (transfer_all now u prior departing xs d)"
  by (rule fold_establishes [where P = "owned_only now (\<lambda>p. p = Some u)"])
    (simp_all add: transfer_owned_only transfer_keeps_owned)

lemma transfer_all_shut_out:
  assumes "w \<noteq> u" "a \<in> set xs"
  shows "shut_out now w a (transfer_all now u prior (Some w) xs d)"
proof (rule fold_establishes [where P = "shut_out now w"])
  show "shut_out now w b (transfer_generated_app_access now u prior (Some w) a d)" if "shut_out now w b d" for a b d
    using that transfer_shut_out [OF assms(1)] by (cases "a = b") (simp_all add: transfer_other_rows)
qed (simp_all add: assms transfer_shut_out)

lemma transfer_group_ownership_Inr:
  assumes "transfer_group_ownership now d conversation successor source departing = Inr d'"
  obtains c s u prior where
    "find_conv d (cv_id conversation) = Some c" "cv_id c = cv_id conversation"
    "s \<in> set (db_members d)" "cm_conv s = cv_id conversation" "cm_id s = cm_id successor" "cm_user s = Some u" "cm_status s = active"
    "d' = transfer_all now u prior departing (map ga_id (filter (\<lambda>a. ga_conv a = cv_id c) (db_apps d)))
       (touch_conv now (\<lambda>c. c\<lparr>cv_user := u, cv_owner_source := Some source\<rparr>) (cv_id c)
         (d\<lparr>db_members := upd_where (\<lambda>m. cm_id m = cm_id s) (\<lambda>m. m\<lparr>cm_role := GroupOwner\<rparr>)
              (upd_where (\<lambda>m. cm_conv m = cv_id c \<and> cm_role m = GroupOwner) (\<lambda>m. m\<lparr>cm_role := GroupMember\<rparr>) (db_members d)),
            db_apps := upd_where (\<lambda>a. ga_conv a = cv_id c)
              (\<lambda>a. if ga_user a = u then a else a\<lparr>ga_user := u, ga_updated := now\<rparr>) (db_apps d)\<rparr>))"
  using assms unfolding transfer_group_ownership_def Let_def
  by (auto split: if_splits option.splits dest!: find_SomeD row_by_Some)

lemma touch_conv_other [simp]:
  "db_members (touch_conv now f i d) = db_members d" "db_apps (touch_conv now f i d) = db_apps d"
  "db_memberships (touch_conv now f i d) = db_memberships d" "db_sessions (touch_conv now f i d) = db_sessions d"
  "db_tickets (touch_conv now f i d) = db_tickets d" "db_next (touch_conv now f i d) = db_next d"
  "db_invites (touch_conv now f i d) = db_invites d"
  by (simp_all add: touch_conv_def)

lemma find_conv_touch:
  assumes "\<And>c. cv_id (f c) = cv_id c" "find_conv d i = Some c"
  shows "find_conv (touch_conv now f i d) i = Some (if f c = c then c else (f c)\<lparr>cv_updated := now\<rparr>)"
  using assms row_by_Some [OF assms(2)] by (simp add: touch_conv_def row_by_upd_where)

text \<open>What a transfer leaves: the group and all its apps belong to the successor's user.\<close>

lemma transfer_effect:
  assumes "transfer_group_ownership now d conversation successor source departing = Inr d'"
  obtains s u c where "s \<in> set (db_members d)" "cm_id s = cm_id successor" "cm_conv s = cv_id conversation"
    "cm_user s = Some u" "cm_status s = active"
    "find_conv d' (cv_id conversation) = Some c" "cv_user c = u" "cv_owner_source c = Some source"
    "\<And>a. a \<in> set (db_apps d') \<Longrightarrow> ga_conv a = cv_id conversation \<Longrightarrow> ga_user a = u \<and>
       owned_only now (\<lambda>p. p = Some u) (ga_id a) d' \<and> (\<forall>w. departing = Some w \<and> w \<noteq> u \<longrightarrow> shut_out now w (ga_id a) d')"
  using assms
proof (rule transfer_group_ownership_Inr)
  fix c s u prior
  assume c: "find_conv d (cv_id conversation) = Some c" "cv_id c = cv_id conversation"
    and s: "s \<in> set (db_members d)" "cm_conv s = cv_id conversation" "cm_id s = cm_id successor" "cm_user s = Some u" "cm_status s = active"
    and d': "d' = transfer_all now u prior departing (map ga_id (filter (\<lambda>a. ga_conv a = cv_id c) (db_apps d)))
       (touch_conv now (\<lambda>c. c\<lparr>cv_user := u, cv_owner_source := Some source\<rparr>) (cv_id c)
         (d\<lparr>db_members := upd_where (\<lambda>m. cm_id m = cm_id s) (\<lambda>m. m\<lparr>cm_role := GroupOwner\<rparr>)
              (upd_where (\<lambda>m. cm_conv m = cv_id c \<and> cm_role m = GroupOwner) (\<lambda>m. m\<lparr>cm_role := GroupMember\<rparr>) (db_members d)),
            db_apps := upd_where (\<lambda>a. ga_conv a = cv_id c)
              (\<lambda>a. if ga_user a = u then a else a\<lparr>ga_user := u, ga_updated := now\<rparr>) (db_apps d)\<rparr>))"
  let ?f = "\<lambda>c. c\<lparr>cv_user := u, cv_owner_source := Some source\<rparr>"
  let ?c = "if ?f c = c then c else (?f c)\<lparr>cv_updated := now\<rparr>"
  have conv: "find_conv d' (cv_id conversation) = Some ?c"
    unfolding d' transfer_all_other c(2) using c(1) by (intro find_conv_touch) simp_all
  have src: "cv_user ?c = u" "cv_owner_source ?c = Some source"
  proof -
    have "cv_user c = u" "cv_owner_source c = Some source" if "?f c = c"
      using arg_cong [OF that, of cv_user] arg_cong [OF that, of cv_owner_source] by simp_all
    then show "cv_user ?c = u" "cv_owner_source ?c = Some source" by simp_all
  qed
  have apps: "ga_user a = u \<and> owned_only now (\<lambda>p. p = Some u) (ga_id a) d' \<and>
      (\<forall>w. departing = Some w \<and> w \<noteq> u \<longrightarrow> shut_out now w (ga_id a) d')"
    if a: "a \<in> set (db_apps d')" "ga_conv a = cv_id conversation" for a
  proof -
    from a(1) obtain q where q: "q \<in> set (db_apps d)"
      "a = (if ga_conv q = cv_id c then if ga_user q = u then q else q\<lparr>ga_user := u, ga_updated := now\<rparr> else q)"
      unfolding d' transfer_all_other touch_conv_other by (auto simp: in_set_upd_where)
    with a(2) c(2) have "ga_user a = u" "ga_id a = ga_id q" "ga_conv q = cv_id c" by (auto split: if_splits)
    with q(1) have i: "ga_id a \<in> set (map ga_id (filter (\<lambda>a. ga_conv a = cv_id c) (db_apps d)))" by auto
    show ?thesis unfolding d'
      using \<open>ga_user a = u\<close> transfer_all_owned_only [OF i] transfer_all_shut_out [OF _ i] by blast
  qed
  show thesis by (rule that [OF s(1,3,2,4,5) conv src apps])
qed

text \<open>What a release leaves: nobody owns the apps of the group.\<close>

lemma revoke_rows [simp]:
  "db_apps (revoke_app_owner now w a d) = db_apps d" "db_convs (revoke_app_owner now w a d) = db_convs d"
  "db_members (revoke_app_owner now w a d) = db_members d" "db_next (revoke_app_owner now w a d) = db_next d"
  by (simp_all add: revoke_app_owner_def)

lemma revoke_owned_only: "owned_only now (\<lambda>_. False) a (revoke_app_owner now w a d)"
  unfolding owned_only_def revoke_app_owner_def
  by (auto simp: in_set_delete_where ball_upd_where)

lemma revoke_shut_out: "shut_out now w a (revoke_app_owner now w a d)"
  unfolding shut_out_def revoke_app_owner_def
  by (auto simp: in_set_delete_where ball_upd_where)

lemma revoke_keeps:
  "owned_only now P b d \<Longrightarrow> owned_only now P b (revoke_app_owner now w a d)"
  "shut_out now x b d \<Longrightarrow> shut_out now x b (revoke_app_owner now w a d)"
  unfolding owned_only_def shut_out_def revoke_app_owner_def
  by (auto simp: in_set_delete_where ball_upd_where)

lemma revoke_all_other:
  "db_apps (revoke_unclaimed_group_app_owner now i w d) = db_apps d"
  "db_convs (revoke_unclaimed_group_app_owner now i w d) = db_convs d"
  "db_members (revoke_unclaimed_group_app_owner now i w d) = db_members d"
  "db_next (revoke_unclaimed_group_app_owner now i w d) = db_next d"
proof -
  have "db_apps (fold (revoke_app_owner now w) xs d) = db_apps d \<and> db_convs (fold (revoke_app_owner now w) xs d) = db_convs d \<and>
      db_members (fold (revoke_app_owner now w) xs d) = db_members d \<and> db_next (fold (revoke_app_owner now w) xs d) = db_next d" for xs
    by (induction xs arbitrary: d) simp_all
  then show "db_apps (revoke_unclaimed_group_app_owner now i w d) = db_apps d"
    "db_convs (revoke_unclaimed_group_app_owner now i w d) = db_convs d"
    "db_members (revoke_unclaimed_group_app_owner now i w d) = db_members d"
    "db_next (revoke_unclaimed_group_app_owner now i w d) = db_next d"
    by (simp_all add: revoke_unclaimed_group_app_owner_def)
qed

lemma revoke_all_effect:
  assumes "a \<in> set (db_apps d)" "ga_conv a = i"
  shows "owned_only now (\<lambda>_. False) (ga_id a) (revoke_unclaimed_group_app_owner now i w d)"
    "shut_out now w (ga_id a) (revoke_unclaimed_group_app_owner now i w d)"
proof -
  have m: "ga_id a \<in> set (map ga_id (filter (\<lambda>a. ga_conv a = i) (db_apps d)))" using assms by auto
  show "owned_only now (\<lambda>_. False) (ga_id a) (revoke_unclaimed_group_app_owner now i w d)"
    unfolding revoke_unclaimed_group_app_owner_def
    by (rule fold_establishes [where P = "owned_only now (\<lambda>_. False)", OF revoke_owned_only revoke_keeps(1) m])
  show "shut_out now w (ga_id a) (revoke_unclaimed_group_app_owner now i w d)"
    unfolding revoke_unclaimed_group_app_owner_def
    by (rule fold_establishes [where P = "shut_out now w", OF revoke_shut_out revoke_keeps(2) m])
qed

lemma release_effect:
  assumes "find_conv d (cv_id c) = Some c0" "cv_kind c0 = GroupConv"
    "a \<in> set (db_apps (release_group now d c m))" "ga_conv a = cv_id c"
  shows "unclaimed_group (release_group now d c m) a"
    "owned_only now (\<lambda>_. False) (ga_id a) (release_group now d c m)"
    "shut_out now (departing_owner c m) (ga_id a) (release_group now d c m)"
proof -
  let ?d = "touch_conv now (\<lambda>q. q\<lparr>cv_owner_source := Some ''unclaimed''\<rparr>) (cv_id c) (set_member (m\<lparr>cm_role := GroupMember\<rparr>) d)"
  let ?f = "\<lambda>q. q\<lparr>cv_owner_source := Some ''unclaimed''\<rparr>"
  have rel: "release_group now d c m = revoke_unclaimed_group_app_owner now (cv_id c) (departing_owner c m) ?d"
    by (simp add: release_group_def)
  have fc: "find_conv ?d (cv_id c) = Some (if ?f c0 = c0 then c0 else (?f c0)\<lparr>cv_updated := now\<rparr>)"
    by (rule find_conv_touch) (simp_all add: assms(1) set_member_def)
  have "cv_owner_source c0 = Some ''unclaimed''" if "?f c0 = c0"
    using arg_cong [OF that, of cv_owner_source] by simp
  with fc assms(2,4) show "unclaimed_group (release_group now d c m) a"
    unfolding rel unclaimed_group_def revoke_all_other by simp
  from assms(3) have "a \<in> set (db_apps ?d)" unfolding rel revoke_all_other .
  from revoke_all_effect [OF this assms(4)] show
    "owned_only now (\<lambda>_. False) (ga_id a) (release_group now d c m)"
    "shut_out now (departing_owner c m) (ga_id a) (release_group now d c m)" unfolding rel by blast+
qed

lemma ownership_moves:
  assumes "transfer_group_ownership now d c successor source departing = Inr d'"
    "find_app d' i = Some app" "ga_conv app = cv_id c" "acts_on sha t d' i act" "now \<le> t"
  shows "\<exists>s\<in>set (db_members d). cm_id s = cm_id successor \<and> cm_user s \<noteq> None \<and> cm_status s = active \<and>
    Some (ga_user app) = cm_user s \<and> (ac_role act = Owner \<longrightarrow> ac_user act = cm_user s) \<and>
    (departing \<noteq> None \<and> departing \<noteq> cm_user s \<longrightarrow> ac_user act \<noteq> departing)"
  using assms(1)
proof (rule transfer_effect)
  fix s u c'
  assume s: "s \<in> set (db_members d)" "cm_id s = cm_id successor" "cm_user s = Some u" "cm_status s = active"
    and apps: "\<And>a. a \<in> set (db_apps d') \<Longrightarrow> ga_conv a = cv_id c \<Longrightarrow> ga_user a = u \<and>
       owned_only now (\<lambda>p. p = Some u) (ga_id a) d' \<and> (\<forall>w. departing = Some w \<and> w \<noteq> u \<longrightarrow> shut_out now w (ga_id a) d')"
  have "app \<in> set (db_apps d')" "ga_id app = i" using row_by_Some [OF assms(2)] by simp_all
  with apps assms(3) have a: "ga_user app = u" "owned_only now (\<lambda>p. p = Some u) i d'"
    "\<And>w. departing = Some w \<Longrightarrow> w \<noteq> u \<Longrightarrow> shut_out now w i d'" by blast+
  have "ac_user act = Some u" if "ac_role act = Owner"
    using owned_only_authority [OF assms(4) that a(2) assms(5,2)] a(1) by simp
  moreover have "ac_user act \<noteq> Some w" if "departing = Some w" "w \<noteq> u" for w
    using shut_out_authority [OF assms(4) a(3) [OF that] assms(5,2)] a(1) that(2) by simp
  ultimately show ?thesis using s a(1) by (intro bexI [of _ s]) auto
qed

text \<open>C27. When a group changes hands every way to act as an owner of its apps belongs to the successor: whoever
  a user check, a session token or a ticket authorises as owner of an app of the group, now or later, is the
  successor's user; and when the former owner departed, none of them authorises the departed one at all.\<close>

theorem ownership_moves_with_all_authority:
  assumes "transfer_group_ownership now d c successor source departing = Inr d'"
    "find_app d' i = Some app" "ga_conv app = cv_id c" "acts_on sha t d' i act" "now \<le> t"
  shows "\<exists>s\<in>set (db_members d). cm_id s = cm_id successor \<and> cm_user s \<noteq> None \<and> cm_status s = active \<and>
    Some (ga_user app) = cm_user s \<and> (ac_role act = Owner \<longrightarrow> ac_user act = cm_user s) \<and>
    (departing \<noteq> None \<and> departing \<noteq> cm_user s \<longrightarrow> ac_user act \<noteq> departing)"
  using assms by (rule ownership_moves)

text \<open>A group whose owner, user 1, has an app with user 3 as a member; user 2 is a linked member, and one member is not linked.\<close>

definition group_conv :: conv_row where
  "group_conv = \<lparr>cv_id = 5, cv_user = 1, cv_kind = GroupConv, cv_title = None, cv_avatar = None, cv_mode = ''auto'',
     cv_owner_source = Some ''explicit'', cv_status = ''active'', cv_created = 0, cv_updated = 0\<rparr>"

definition group_member :: "uuid \<Rightarrow> uuid option \<Rightarrow> member_role \<Rightarrow> member_row" where
  "group_member i u r = \<lparr>cm_id = i, cm_conv = 5, cm_user = u, cm_handle = str_int (int i), cm_external = None, cm_name = None,
     cm_service = None, cm_role = r, cm_status = active, cm_joined = int i, cm_left = None, cm_created = 0\<rparr>"

definition group_db :: "member_row list \<Rightarrow> db" where
  "group_db ms = sample_db\<lparr>db_convs := [group_conv], db_members := ms,
     db_memberships := [\<lparr>ms_id = 31, ms_app = 10, ms_user = 3, ms_role = Member, ms_created = 0\<rparr>],
     db_sessions := [\<lparr>ss_id = 30, ss_app = 10, ss_user = Some 1, ss_role = Owner, ss_hash = ''h'', ss_expires = 100,
       ss_revoked = None, ss_created = 0\<rparr>]\<rparr>"

definition linked_group :: db where
  "linked_group = group_db [group_member 20 (Some 1) GroupOwner, group_member 21 None GroupMember, group_member 22 (Some 2) GroupMember]"

definition unlinked_group :: db where
  "unlinked_group = group_db [group_member 20 (Some 1) GroupOwner, group_member 21 None GroupMember]"

theorem ownership_moves_with_all_authority_witness:
  "\<exists>d' app act. transfer_group_ownership 40 linked_group group_conv (group_member 22 (Some 2) GroupMember) ''transferred'' (Some 1) = Inr d' \<and>
     acts_on (\<lambda>s. s) 50 d' 10 act \<and> ac_role act = Owner \<and> ac_user act = Some 2 \<and> find_app d' 10 = Some app \<and> ga_user app = 2"
proof -
  let ?t = "transfer_group_ownership 40 linked_group group_conv (group_member 22 (Some 2) GroupMember) ''transferred'' (Some 1)"
  let ?act = "\<lparr>ac_role = Owner, ac_user = Some 2, ac_session = None, ac_verified = True\<rparr>"
  let ?app = "sample_app\<lparr>ga_user := 2, ga_updated := 40\<rparr>"
  have "\<not> isl ?t" by code_simp
  then have t: "?t = Inr (projr ?t)" by simp
  have app: "find_app (projr ?t) 10 = Some ?app" "ga_conv ?app = cv_id group_conv" by code_simp+
  have "authorize_user (projr ?t) 10 2 = Inr ?act" by code_simp
  then have act: "acts_on (\<lambda>s. s) 50 (projr ?t) 10 ?act" by (rule by_user)
  from ownership_moves_with_all_authority [OF t app act] t app act show ?thesis by fastforce
qed

text \<open>C26. The owner of a group who is removed loses every access to the group's apps: no user check, session
  token or ticket authorises them any more. Ownership passes to the active linked member who joined
  first; when there is none the group is unclaimed and nobody at all acts as owner of its apps.\<close>

theorem removed_owner_loses_all_authority:
  assumes "replace_owner now d c m = Inr d'" "find_conv d (cv_id c) = Some c" "cv_kind c = GroupConv"
    "cm_conv m = cv_id c" "distinct (map cm_id (db_members d))"
    "find_app d' i = Some app" "ga_conv app = cv_id c" "acts_on sha t d' i act" "now \<le> t"
  shows "case replacement_for d m of
      Some s \<Rightarrow> cm_conv s = cv_id c \<and> cm_status s = active \<and> cm_id s \<noteq> cm_id m \<and>
        (\<forall>q\<in>set (db_members d). cm_conv q = cv_id c \<and> cm_status q = active \<and> cm_user q \<noteq> None \<and> cm_id q \<noteq> cm_id m \<longrightarrow>
           (cm_joined s, cm_created s) \<le> (cm_joined q, cm_created q)) \<and>
        Some (ga_user app) = cm_user s \<and> (ac_role act = Owner \<longrightarrow> ac_user act = cm_user s) \<and>
        (cm_user s \<noteq> Some (departing_owner c m) \<longrightarrow> ac_user act \<noteq> Some (departing_owner c m))
    | None \<Rightarrow> ac_role act \<noteq> Owner \<and> ac_user act \<noteq> Some (departing_owner c m)"
proof (cases "replacement_for d m")
  case None
  then have d': "d' = release_group now d c m" using assms(1) by (simp add: replace_owner_def)
  have "app \<in> set (db_apps d')" "ga_id app = i" using row_by_Some [OF assms(6)] by simp_all
  with release_effect [OF assms(2,3), of app now m] assms(7) d' have
    r: "unclaimed_group d' app" "owned_only now (\<lambda>_. False) i d'" "shut_out now (departing_owner c m) i d'" by simp_all
  have "ac_role act \<noteq> Owner" using owned_only_authority [OF assms(8) _ r(2) assms(9,6)] r(1) by blast
  moreover have "ac_user act \<noteq> Some (departing_owner c m)"
    using shut_out_authority [OF assms(8) r(3) assms(9,6)] r(1) by blast
  ultimately show ?thesis using None by simp
next
  case (Some s)
  with assms(1) have tr: "transfer_group_ownership now d c s ''transferred'' (Some (departing_owner c m)) = Inr d'"
    by (simp add: replace_owner_def)
  have s: "s \<in> set (db_members d)" "cm_conv s = cv_id c" "cm_status s = active" "cm_id s \<noteq> cm_id m"
    "\<forall>q\<in>set (db_members d). cm_conv q = cv_id c \<and> cm_status q = active \<and> cm_user q \<noteq> None \<and> cm_id q \<noteq> cm_id m \<longrightarrow>
       (cm_joined s, cm_created s) \<le> (cm_joined q, cm_created q)"
    using least_by_Some [OF Some [unfolded replacement_for_def]] assms(4) by auto
  from ownership_moves [OF tr assms(6-9)] obtain s' where s': "s' \<in> set (db_members d)" "cm_id s' = cm_id s" "Some (ga_user app) = cm_user s'"
    "ac_role act = Owner \<longrightarrow> ac_user act = cm_user s'"
    "Some (departing_owner c m) \<noteq> cm_user s' \<longrightarrow> ac_user act \<noteq> Some (departing_owner c m)"
    by blast
  have "s' = s" using assms(5) s'(1,2) s(1) by (metis row_by_distinct option.inject)
  with s s' show ?thesis unfolding Some by simp
qed

theorem removed_owner_loses_all_authority_witness:
  "\<exists>d' act. replace_owner 40 unlinked_group group_conv (group_member 20 (Some 1) GroupOwner) = Inr d' \<and>
     acts_on (\<lambda>s. s) 50 d' 10 act \<and> ac_role act \<noteq> Owner \<and> ac_user act \<noteq> Some 1"
proof -
  let ?m = "group_member 20 (Some 1) GroupOwner"
  let ?t = "replace_owner 40 unlinked_group group_conv ?m"
  let ?act = "\<lparr>ac_role = Member, ac_user = Some 3, ac_session = None, ac_verified = True\<rparr>"
  have "\<not> isl ?t" by code_simp
  then have t: "?t = Inr (projr ?t)" by simp
  have c: "find_conv unlinked_group (cv_id group_conv) = Some group_conv" "cv_kind group_conv = GroupConv"
    "cm_conv ?m = cv_id group_conv" "distinct (map cm_id (db_members unlinked_group))" by code_simp+
  have app: "find_app (projr ?t) 10 = Some sample_app" "ga_conv sample_app = cv_id group_conv" by code_simp+
  have "authorize_user (projr ?t) 10 3 = Inr ?act" by code_simp
  then have act: "acts_on (\<lambda>s. s) 50 (projr ?t) 10 ?act" by (rule by_user)
  have "replacement_for unlinked_group ?m = None" "departing_owner group_conv ?m = 1" by code_simp+
  with removed_owner_loses_all_authority [OF t c app act] t act show ?thesis by fastforce
qed

text \<open>C28. The withdrawal does not last: the app still names the departed owner, so when a member without a
  Dot account claims the unclaimed group, which moves nothing, the departed owner is authorised as owner
  of the group's active apps again.\<close>

theorem unlinked_claim_restores_departed_owner:
  assumes "claim_group_owner now d c m source = Inr (True, d')" "cm_user m = None" "source \<noteq> ''unclaimed''"
    "find_conv d (cv_id c) = Some c0" "find_app d i = Some app" "ga_status app = AppActive" "ga_conv app = cv_id c"
  shows "authorize_user d' i (ga_user app) = Inr \<lparr>ac_role = Owner, ac_user = Some (ga_user app), ac_session = None, ac_verified = True\<rparr>"
proof -
  let ?f = "\<lambda>c. c\<lparr>cv_owner_source := Some source\<rparr>"
  from assms(1,2) obtain ms where d': "d' = touch_conv now ?f (cv_id c) (d\<lparr>db_members := ms\<rparr>)"
    by (auto simp: claim_group_owner_def Let_def split: if_splits)
  have "find_conv d' (cv_id c) = Some (if ?f c0 = c0 then c0 else (?f c0)\<lparr>cv_updated := now\<rparr>)"
    unfolding d' using assms(4) by (intro find_conv_touch) simp_all
  moreover have "cv_owner_source c0 = Some source" if "?f c0 = c0"
    using arg_cong [OF that, of cv_owner_source] by simp
  ultimately have "\<not> unclaimed_group d' app" using assms(3,7) by (simp add: unclaimed_group_def)
  moreover have "find_app d' i = Some app" using assms(5) by (simp add: d')
  ultimately show ?thesis using assms(6) by (simp add: authorize_user_def locked_active_app_def authorize_user_for_locked_app_def)
qed

theorem unlinked_claim_restores_departed_owner_witness:
  "\<exists>d1 d2 c act. replace_owner 40 unlinked_group group_conv (group_member 20 (Some 1) GroupOwner) = Inr d1 \<and>
     find_conv d1 5 = Some c \<and> claim_group_owner 50 d1 c (group_member 21 None GroupMember) ''first_invoker'' = Inr (True, d2) \<and>
     isl (authorize_user d1 10 1) \<and> authorize_user d2 10 1 = Inr act \<and> ac_role act = Owner"
proof -
  let ?t = "replace_owner 40 unlinked_group group_conv (group_member 20 (Some 1) GroupOwner)"
  let ?c = "group_conv\<lparr>cv_owner_source := Some ''unclaimed'', cv_updated := 40\<rparr>"
  let ?k = "claim_group_owner 50 (projr ?t) ?c (group_member 21 None GroupMember) ''first_invoker''"
  have "\<not> isl ?t" by code_simp
  then have t: "?t = Inr (projr ?t)" by simp
  have "\<not> isl ?k" "fst (projr ?k)" by code_simp+
  then have k: "?k = Inr (True, snd (projr ?k))" by (cases ?k) auto
  have c: "find_conv (projr ?t) (cv_id ?c) = Some ?c" "find_app (projr ?t) 10 = Some sample_app"
    "ga_status sample_app = AppActive" "ga_conv sample_app = cv_id ?c" by code_simp+
  have n: "cm_user (group_member 21 None GroupMember) = None" "''first_invoker'' \<noteq> ''unclaimed''" by code_simp+
  have i: "cv_id ?c = 5" "ga_user sample_app = 1" by code_simp+
  have "isl (authorize_user (projr ?t) 10 1)" by code_simp
  with unlinked_claim_restores_departed_owner [OF k n c] t k c(1) show ?thesis unfolding i by fastforce
qed

end
