(* ===== verification/Group_Mentions.thy ===== *)
theory Group_Mentions
  imports Linq_Groups
begin

text \<open>
  When a message in a group addresses dot: the search for the mention pattern finds exactly the messages that
  have dot's name as a word of its own.
\<close>

definition own_word :: "string \<Rightarrow> string \<Rightarrow> bool" where
  "own_word w text \<longleftrightarrow> (\<exists>p q. text = p @ w @ q \<and> (p = [] \<or> \<not> is_word (last p)) \<and> (q = [] \<or> \<not> is_word (hd q)))"

definition dot_name :: "string \<Rightarrow> bool" where
  "dot_name w \<longleftrightarrow> map low_char w \<in> {''dot'', ''benji''}"

lemma name_ends_here_iff:
  "name_ends_here name s \<longleftrightarrow> (\<exists>w q. s = w @ q \<and> map low_char w = name \<and> (q = [] \<or> \<not> is_word (hd q)))"
proof
  assume "name_ends_here name s"
  then show "\<exists>w q. s = w @ q \<and> map low_char w = name \<and> (q = [] \<or> \<not> is_word (hd q))"
    by (intro exI [of _ "take (length name) s"] exI [of _ "drop (length name) s"]) (simp add: name_ends_here_def)
next
  assume "\<exists>w q. s = w @ q \<and> map low_char w = name \<and> (q = [] \<or> \<not> is_word (hd q))"
  then show "name_ends_here name s" by (auto simp: name_ends_here_def)
qed

lemma name_here_iff: "name_here s \<longleftrightarrow> (\<exists>w q. s = w @ q \<and> dot_name w \<and> (q = [] \<or> \<not> is_word (hd q)))"
proof -
  have "dot_name w \<longleftrightarrow> map low_char w = ''dot'' \<or> map low_char w = ''benji''" for w by (simp only: dot_name_def insert_iff empty_iff simp_thms)
  then show ?thesis unfolding name_here_def name_ends_here_iff by metis
qed

lemma mention_after_iff: "mention_after s \<longleftrightarrow> (\<exists>p c cs. s = p @ c # cs \<and> \<not> is_word c \<and> mention_here cs)"
proof (induction s)
  case (Cons x xs)
  show ?case
  proof
    assume "mention_after (x # xs)"
    then consider "\<not> is_word x" "mention_here xs" | "mention_after xs" by auto
    then show "\<exists>p c cs. x # xs = p @ c # cs \<and> \<not> is_word c \<and> mention_here cs"
    proof cases
      case 1
      then show ?thesis by (intro exI [of _ "[]"]) simp
    next
      case 2
      with Cons obtain p c cs where "xs = p @ c # cs" "\<not> is_word c" "mention_here cs" by blast
      then show ?thesis by (intro exI [of _ "x # p"]) simp
    qed
  next
    assume "\<exists>p c cs. x # xs = p @ c # cs \<and> \<not> is_word c \<and> mention_here cs"
    then obtain p c cs where "x # xs = p @ c # cs" "\<not> is_word c" "mention_here cs" by blast
    with Cons show "mention_after (x # xs)" by (cases p) auto
  qed
qed simp

lemma at_no_word: "\<not> is_word (CHR ''@'')"
  by code_simp

lemma own_wordI: "text = p @ w @ q \<Longrightarrow> p = [] \<or> \<not> is_word (last p) \<Longrightarrow> q = [] \<or> \<not> is_word (hd q) \<Longrightarrow> own_word w text"
  unfolding own_word_def by blast

lemma mention_here_own:
  assumes "mention_here cs" "text = p @ cs" "p = [] \<or> \<not> is_word (last p)"
  shows "\<exists>w. own_word w text \<and> dot_name w"
proof -
  consider "name_here cs" | s where "cs = CHR ''@'' # s" "name_here s"
    using assms(1) unfolding mention_here_def by (cases cs) auto
  then show ?thesis
  proof cases
    case 1
    then show ?thesis using assms(2,3) unfolding name_here_iff by (blast intro: own_wordI)
  next
    case (2 s)
    then obtain w q where "s = w @ q" "dot_name w" "q = [] \<or> \<not> is_word (hd q)" unfolding name_here_iff by blast
    with 2 assms(2) at_no_word show ?thesis by (intro exI [of _ w] conjI own_wordI [of _ "p @ ''@''" _ q]) simp_all
  qed
qed

text \<open>C31. A message addresses dot exactly when one of its words, taken with the characters that are no part of a
  word on both sides, is dot or benji in any case: the optional at sign of the pattern makes no
  difference, and a longer word that contains the name does not count.\<close>

theorem mention_is_a_word:
  "group_message_addresses_benji text \<longleftrightarrow> (\<exists>w. own_word w text \<and> dot_name w)"
proof
  assume "group_message_addresses_benji text"
  then consider "mention_here text" | p c cs where "text = p @ c # cs" "\<not> is_word c" "mention_here cs"
    unfolding group_message_addresses_benji_def mention_after_iff by blast
  then show "\<exists>w. own_word w text \<and> dot_name w"
  proof cases
    case 1
    then show ?thesis by (rule mention_here_own [of _ _ "[]"]) simp_all
  next
    case (2 p c cs)
    from 2(3) show ?thesis by (rule mention_here_own [of _ _ "p @ [c]"]) (simp_all add: 2(1,2))
  qed
next
  assume "\<exists>w. own_word w text \<and> dot_name w"
  then obtain w p q where w: "dot_name w" "text = p @ w @ q" "p = [] \<or> \<not> is_word (last p)" "q = [] \<or> \<not> is_word (hd q)"
    unfolding own_word_def by blast
  from w(1,4) have h: "mention_here (w @ q)" unfolding mention_here_def name_here_iff by blast
  show "group_message_addresses_benji text"
  proof (cases p rule: rev_cases)
    case Nil
    with h w(2) show ?thesis by (simp add: group_message_addresses_benji_def)
  next
    case (snoc ps c)
    with w(2,3) have "text = ps @ c # (w @ q)" "\<not> is_word c" by simp_all
    with h show ?thesis unfolding group_message_addresses_benji_def mention_after_iff by blast
  qed
qed

end
