(* ===== verification/Group_Runs.thy ===== *)
theory Group_Runs
  imports Group_Laws
begin

text \<open>
  Runs of the group operations: every group has one owner, or none while it is unclaimed, and an invite
  admits no more new members than it allows.
\<close>

section \<open>The owners of a group\<close>

definition owns_in :: "uuid \<Rightarrow> member_row \<Rightarrow> bool" where
  "owns_in i m \<longleftrightarrow> cm_conv m = i \<and> cm_role m = GroupOwner"

definition owner_count :: "conv_row \<Rightarrow> int" where
  "owner_count c = (if cv_owner_source c = Some ''unclaimed'' then 0 else 1)"

definition member_key :: "member_row \<Rightarrow> uuid \<times> uuid \<times> member_role" where
  "member_key m = (cm_id m, cm_conv m, cm_role m)"

definition conv_key :: "conv_row \<Rightarrow> uuid \<times> conv_kind \<times> string option" where
  "conv_key c = (cv_id c, cv_kind c, cv_owner_source c)"

definition rows_ok :: "db \<Rightarrow> bool" where
  "rows_ok d \<longleftrightarrow> distinct (map cm_id (db_members d)) \<and> distinct (map cv_id (db_convs d)) \<and>
     (\<forall>m\<in>set (db_members d). cm_id m < db_next d \<and> cm_conv m < db_next d) \<and> (\<forall>c\<in>set (db_convs d). cv_id c < db_next d)"

definition group_ok :: "db \<Rightarrow> bool" where
  "group_ok d \<longleftrightarrow> rows_ok d \<and>
     (\<forall>c\<in>set (db_convs d). cv_kind c = GroupConv \<longrightarrow> count_where (owns_in (cv_id c)) (db_members d) = owner_count c)"

lemma group_okD:
  assumes "group_ok d"
  shows "rows_ok d" "\<And>c. c \<in> set (db_convs d) \<Longrightarrow> cv_kind c = GroupConv \<Longrightarrow>
    count_where (owns_in (cv_id c)) (db_members d) = owner_count c"
  using assms unfolding group_ok_def by blast+

text \<open>
  What most operations do to members and conversations: they keep who owns what, and add members at the
  end.
\<close>

definition members_grow :: "db \<Rightarrow> db \<Rightarrow> bool" where
  "members_grow d d' \<longleftrightarrow> map conv_key (db_convs d') = map conv_key (db_convs d) \<and> db_next d \<le> db_next d' \<and>
     (\<exists>new. map member_key (db_members d') = map member_key (db_members d) @ map member_key new \<and>
        distinct (map cm_id new) \<and> (\<forall>m\<in>set new. cm_role m = GroupMember \<and> db_next d \<le> cm_id m \<and> cm_id m < db_next d' \<and>
          cm_conv m < db_next d'))"

lemma members_growI:
  "map conv_key (db_convs d') = map conv_key (db_convs d) \<Longrightarrow> db_next d \<le> db_next d' \<Longrightarrow>
   map member_key (db_members d') = map member_key (db_members d) @ map member_key new \<Longrightarrow> distinct (map cm_id new) \<Longrightarrow>
   (\<And>m. m \<in> set new \<Longrightarrow> cm_role m = GroupMember \<and> db_next d \<le> cm_id m \<and> cm_id m < db_next d' \<and> cm_conv m < db_next d') \<Longrightarrow>
   members_grow d d'"
  unfolding members_grow_def by blast

lemma members_grow_same:
  "map conv_key (db_convs d') = map conv_key (db_convs d) \<Longrightarrow> db_next d \<le> db_next d' \<Longrightarrow>
   map member_key (db_members d') = map member_key (db_members d) \<Longrightarrow> members_grow d d'"
  by (rule members_growI [of _ _ "[]"]) simp_all

lemma members_grow_refl [simp]: "members_grow d d"
  by (rule members_grow_same) simp_all

lemma members_grow_trans [trans]:
  assumes "members_grow a b" "members_grow b c"
  shows "members_grow a c"
proof -
  from assms(1) obtain xs where x: "map conv_key (db_convs b) = map conv_key (db_convs a)" "db_next a \<le> db_next b"
    "map member_key (db_members b) = map member_key (db_members a) @ map member_key xs" "distinct (map cm_id xs)"
    "\<forall>m\<in>set xs. cm_role m = GroupMember \<and> db_next a \<le> cm_id m \<and> cm_id m < db_next b \<and> cm_conv m < db_next b"
    unfolding members_grow_def by blast
  from assms(2) obtain ys where y: "map conv_key (db_convs c) = map conv_key (db_convs b)" "db_next b \<le> db_next c"
    "map member_key (db_members c) = map member_key (db_members b) @ map member_key ys" "distinct (map cm_id ys)"
    "\<forall>m\<in>set ys. cm_role m = GroupMember \<and> db_next b \<le> cm_id m \<and> cm_id m < db_next c \<and> cm_conv m < db_next c"
    unfolding members_grow_def by blast
  show ?thesis
  proof (rule members_growI [of _ _ "xs @ ys"])
    show "distinct (map cm_id (xs @ ys))" using x(4,5) y(4,5) by fastforce
    show "cm_role m = GroupMember \<and> db_next a \<le> cm_id m \<and> cm_id m < db_next c \<and> cm_conv m < db_next c" if "m \<in> set (xs @ ys)" for m
      using that x(2,5) y(2,5) by fastforce
  qed (use x(1-3) y(1-3) in simp_all)
qed

lemma count_by_key: "map member_key ms = map member_key ns \<Longrightarrow> count_where (owns_in i) ms = count_where (owns_in i) ns"
proof (induction ms arbitrary: ns)
  case (Cons m ms)
  then obtain n ns' where "ns = n # ns'" "member_key m = member_key n" "map member_key ms = map member_key ns'" by auto
  moreover from this(2) have "owns_in i m = owns_in i n" by (simp add: member_key_def owns_in_def)
  ultimately show ?case using Cons.IH [of ns'] by simp
qed simp

lemma ids_by_key:
  assumes "map member_key ms = map member_key ns"
  shows "map cm_id ms = map cm_id ns \<and> map cm_conv ms = map cm_conv ns"
  using arg_cong [OF assms, of "map fst"] arg_cong [OF assms, of "map (fst \<circ> snd)"]
  by (simp add: comp_def member_key_def)

lemma convs_by_key:
  assumes "map conv_key cs = map conv_key bs" "c \<in> set cs"
  shows "\<exists>b\<in>set bs. cv_id b = cv_id c \<and> cv_kind b = cv_kind c \<and> owner_count b = owner_count c"
proof -
  have "conv_key c \<in> set (map conv_key bs)" using assms by (metis image_eqI list.set_map)
  then show ?thesis by (auto simp: conv_key_def owner_count_def)
qed

lemma conv_ids_by_key:
  assumes "map conv_key cs = map conv_key bs"
  shows "map cv_id cs = map cv_id bs"
  using arg_cong [OF assms, of "map fst"] by (simp add: comp_def conv_key_def)

lemma count_fresh: "\<forall>m\<in>set ms. cm_role m = GroupMember \<Longrightarrow> count_where (owns_in i) ms = 0"
  by (simp add: count_where_zero owns_in_def)

lemma members_grow_rows:
  assumes "members_grow d d'" "rows_ok d"
  shows "rows_ok d'"
proof -
  from assms(1) obtain new where n: "map conv_key (db_convs d') = map conv_key (db_convs d)" "db_next d \<le> db_next d'"
    "map member_key (db_members d') = map member_key (db_members d @ new)" "distinct (map cm_id new)"
    "\<forall>m\<in>set new. cm_role m = GroupMember \<and> db_next d \<le> cm_id m \<and> cm_id m < db_next d' \<and> cm_conv m < db_next d'"
    unfolding members_grow_def by auto
  from assms(2) have r: "distinct (map cm_id (db_members d))" "distinct (map cv_id (db_convs d))"
    "\<forall>m\<in>set (db_members d). cm_id m < db_next d \<and> cm_conv m < db_next d" "\<forall>c\<in>set (db_convs d). cv_id c < db_next d"
    unfolding rows_ok_def by blast+
  have ids: "map cm_id (db_members d') = map cm_id (db_members d @ new)" "map cm_conv (db_members d') = map cm_conv (db_members d @ new)"
    using ids_by_key [OF n(3)] by auto
  have "distinct (map cm_id (db_members d'))" unfolding ids using r(1,3) n(4,5) by fastforce
  moreover have "distinct (map cv_id (db_convs d'))" unfolding conv_ids_by_key [OF n(1)] by (rule r(2))
  moreover have "cm_id m < db_next d' \<and> cm_conv m < db_next d'" if "m \<in> set (db_members d')" for m
  proof -
    have "\<forall>x\<in>set (map cm_id (db_members d @ new)). x < db_next d'" "\<forall>x\<in>set (map cm_conv (db_members d @ new)). x < db_next d'"
      using r(3) n(2,5) by (fastforce intro: less_le_trans)+
    then have "\<forall>x\<in>set (map cm_id (db_members d')). x < db_next d'" "\<forall>x\<in>set (map cm_conv (db_members d')). x < db_next d'"
      unfolding ids by blast+
    then show ?thesis using that by simp
  qed
  moreover have "cv_id c < db_next d'" if "c \<in> set (db_convs d')" for c
    using bspec [OF r(4)] convs_by_key [OF n(1) that] n(2) by (metis less_le_trans)
  ultimately show "rows_ok d'" unfolding rows_ok_def by blast
qed

lemma members_grow_ok:
  assumes "members_grow d d'" "group_ok d"
  shows "group_ok d'"
proof -
  from assms(1) obtain new where n: "map conv_key (db_convs d') = map conv_key (db_convs d)"
    "map member_key (db_members d') = map member_key (db_members d @ new)" "\<forall>m\<in>set new. cm_role m = GroupMember"
    unfolding members_grow_def by auto
  have "rows_ok d'" by (rule members_grow_rows [OF assms(1) group_okD(1) [OF assms(2)]])
  moreover have "count_where (owns_in (cv_id c)) (db_members d') = owner_count c" if "c \<in> set (db_convs d')" "cv_kind c = GroupConv" for c
  proof -
    from convs_by_key [OF n(1) that(1)] obtain b where
      b: "b \<in> set (db_convs d)" "cv_id b = cv_id c" "cv_kind b = cv_kind c" "owner_count b = owner_count c" by auto
    have "count_where (owns_in (cv_id c)) (db_members d') = count_where (owns_in (cv_id c)) (db_members d) + count_where (owns_in (cv_id c)) new"
      using count_by_key [OF n(2)] by simp
    also have "count_where (owns_in (cv_id c)) new = 0" using n(3) by (rule count_fresh)
    finally show ?thesis using group_okD(2) [OF assms(2) b(1)] b that(2) by simp
  qed
  ultimately show ?thesis unfolding group_ok_def by blast
qed

section \<open>Operations that only add members\<close>

lemma member_key_upd:
  "(\<And>m. p m \<Longrightarrow> member_key (f m) = member_key m) \<Longrightarrow> map member_key (upd_where p f ms) = map member_key ms"
  by (rule map_upd_where)

lemma set_member_keys:
  assumes "rows_ok d" "m0 \<in> set (db_members d)" "member_key m = member_key m0"
  shows "map member_key (db_members (set_member m d)) = map member_key (db_members d)" "m \<in> set (db_members (set_member m d))"
proof -
  have d: "distinct (map cm_id (db_members d))" and id: "cm_id m = cm_id m0"
    using assms(1,3) by (simp_all add: rows_ok_def member_key_def)
  have "m0 = q" if "q \<in> set (db_members d)" "cm_id q = cm_id m" for q
    using d that assms(2) id by (metis row_by_distinct option.inject)
  then show "map member_key (db_members (set_member m d)) = map member_key (db_members d)"
    using assms(3) by (auto simp: set_member_def upd_where_def)
  show "m \<in> set (db_members (set_member m d))"
    using assms(2) id by (auto simp: set_member_def in_set_upd_where)
qed

lemma set_member_other [simp]: "db_convs (set_member m d) = db_convs d" "db_next (set_member m d) = db_next d"
  "db_apps (set_member m d) = db_apps d"
  by (simp_all add: set_member_def)

lemma update_reported_key: "member_key (update_reported r m) = member_key m"
  by (simp add: update_reported_def member_key_def)

lemma upsert_grow:
  assumes "upsert_group_member now d cid r = Inr (m, d')" "rows_ok d" "cid < db_next d"
  shows "members_grow d d' \<and> m \<in> set (db_members d') \<and> cm_conv m = cid \<and> db_convs d' = db_convs d"
proof (cases "find (reported_member cid r) (db_members d)")
  case None
  obtain m1 where m1: "m1 = \<lparr>cm_id = db_next d, cm_conv = cid, cm_user = None, cm_handle = mr_handle r, cm_external = None,
      cm_name = None, cm_service = None, cm_role = GroupMember, cm_status = active, cm_joined = now, cm_left = None, cm_created = now\<rparr>" by blast
  with None assms(1) have m: "m = update_reported r m1" "d' = d\<lparr>db_next := db_next d + 1, db_members := db_members d @ [m]\<rparr>"
    by (auto simp: upsert_group_member_def take_id_def Let_def)
  have k: "cm_id m = db_next d" "cm_conv m = cid" "cm_role m = GroupMember" unfolding m(1) m1 by (simp_all add: update_reported_def)
  have "members_grow d d'" by (rule members_growI [of _ _ "[m]"]) (use k assms(3) in \<open>simp_all add: m(2)\<close>)
  then show ?thesis using k(2) by (simp add: m(2))
next
  case (Some m0)
  with assms(1) have m: "m = update_reported r m0" "d' = set_member m d"
    by (auto simp: upsert_group_member_def Let_def split: if_splits)
  have "m0 \<in> set (db_members d)" "cm_conv m0 = cid" using find_SomeD [OF Some] by (simp_all add: reported_member_def)
  with set_member_keys [OF assms(2), of m0 m] update_reported_key [of r m0] m have
    "map member_key (db_members d') = map member_key (db_members d)" "m \<in> set (db_members d')" "cm_conv m = cid"
    by (simp_all add: member_key_def)
  then show ?thesis unfolding m(2) by (intro conjI members_grow_same) simp_all
qed

lemma sync_participant_grow:
  assumes "sync_participant en parse now cid item d = Inr d'" "rows_ok d" "cid < db_next d"
  shows "members_grow d d'"
proof -
  consider "d' = d" | r m where "upsert_group_member now d cid r = Inr (m, d')"
    using assms(1) by (auto simp: sync_participant_def result_simps split: json.splits if_splits prod.splits)
  then show ?thesis by cases (use upsert_grow [OF _ assms(2,3)] in auto)
qed

lemma members_grow_next: "members_grow d d' \<Longrightarrow> db_next d \<le> db_next d'"
  by (simp add: members_grow_def)

lemma sync_grow:
  assumes "sync_linq_group_participants en parse now d cid chat = Inr d'" "rows_ok d" "cid < db_next d"
  shows "members_grow d d'"
proof -
  have "members_grow d d'" if "foldR (sync_participant en parse now cid) items d = Inr d'" "rows_ok d" "cid < db_next d" for items d d'
    using that
  proof (induction items arbitrary: d)
    case (Cons x items)
    then obtain d1 where d1: "sync_participant en parse now cid x d = Inr d1" "foldR (sync_participant en parse now cid) items d1 = Inr d'"
      by (auto simp: result_simps)
    have g: "members_grow d d1" by (rule sync_participant_grow [OF d1(1) Cons.prems(2,3)])
    then have "members_grow d1 d'" using Cons.IH [OF d1(2)] members_grow_rows [OF g Cons.prems(2)] members_grow_next [OF g] Cons.prems(3)
      by (simp add: order.strict_trans2)
    with g show ?case by (rule members_grow_trans)
  qed simp
  with assms show ?thesis
    by (cases "get_or_null chat ''handles''") (auto simp: sync_linq_group_participants_def)
qed

lemma touch_grow:
  assumes "\<And>c. conv_key (f c) = conv_key c"
  shows "members_grow d (touch_conv now f i d)"
proof (rule members_grow_same)
  have "conv_key (q\<lparr>cv_updated := now\<rparr>) = conv_key q" for q by (simp add: conv_key_def)
  then show "map conv_key (db_convs (touch_conv now f i d)) = map conv_key (db_convs d)"
    using assms by (simp add: touch_conv_def map_upd_where)
qed simp_all

lemma touch_channel_grow: "members_grow d (touch_channel now f i d)"
  by (rule members_grow_same) (simp_all add: touch_channel_def)

lemma create_group_invite_grow:
  "create_group_invite sha now token d cid u ttl uses = Inr (i, d') \<Longrightarrow> members_grow d d'"
  by (rule members_grow_same) (auto simp: create_group_invite_def result_simps take_id_def Let_def)

lemma rename_grow: "rename_group now d cid u title = Inr (c, d') \<Longrightarrow> members_grow d d'"
  by (auto simp: rename_group_def result_simps Let_def conv_key_def intro!: touch_grow)

lemma leave_grow:
  assumes "leave_web_group now d cid u = Inr d'" "rows_ok d"
  shows "members_grow d d'"
proof -
  from assms(1) obtain m where m: "find (\<lambda>m. cm_conv m = cid \<and> cm_user m = Some u) (db_members d) = Some m"
    "d' = set_member (m\<lparr>cm_status := ''left'', cm_left := Some now\<rparr>) d"
    unfolding leave_web_group_def bindR_Inr by (auto split: if_splits option.splits)
  have "map member_key (db_members d') = map member_key (db_members d)" unfolding m(2)
    by (rule set_member_keys [OF assms(2), of m]) (use find_SomeD [OF m(1)] in \<open>simp_all add: member_key_def\<close>)
  then show ?thesis by (intro members_grow_same) (simp_all add: m(2))
qed

lemma join_group_Inr:
  assumes "join_group_from_invite sha now d token user = Inr (c', d')"
  obtains i c where "find (\<lambda>i. iv_hash i = sha token) (db_invites d) = Some i" "invite_open now i" "find_conv d (iv_conv i) = Some c"
    "find (\<lambda>m. cm_conv m = cv_id c \<and> (cm_user m = Some (us_id user) \<or> cm_handle m = get_primary_user_handle d user)) (db_members d) = None"
    "d' = d\<lparr>db_next := db_next d + 1, db_members := db_members d @
       [\<lparr>cm_id = db_next d, cm_conv = cv_id c, cm_user = Some (us_id user), cm_handle = get_primary_user_handle d user,
         cm_external = None, cm_name = us_name user, cm_service = Some ''web'', cm_role = GroupMember, cm_status = active,
         cm_joined = now, cm_left = None, cm_created = now\<rparr>],
       db_invites := upd_where (\<lambda>q. iv_id q = iv_id i) (\<lambda>q. q\<lparr>iv_count := iv_count q + 1\<rparr>) (db_invites d),
       db_convs := upd_where (\<lambda>q. cv_id q = cv_id c) (\<lambda>q. q\<lparr>cv_updated := now\<rparr>) (db_convs d)\<rparr>"
  | i c m where "find (\<lambda>i. iv_hash i = sha token) (db_invites d) = Some i" "invite_open now i" "find_conv d (iv_conv i) = Some c"
    "m \<in> set (db_members d)" "cm_conv m = cv_id c"
    "d' = (set_member (m\<lparr>cm_user := Some (us_id user), cm_name := or_opt (us_name user) (cm_name m), cm_status := active,
        cm_left := None\<rparr>) d)\<lparr>db_convs := upd_where (\<lambda>q. cv_id q = cv_id c) (\<lambda>q. q\<lparr>cv_updated := now\<rparr>) (db_convs d)\<rparr>"
  using assms unfolding join_group_from_invite_def Let_def take_id_def prod.case
  by (auto split: option.splits if_splits dest!: find_SomeD [of "\<lambda>m. cm_conv m = i \<and> q m" for i q])

lemma join_grow:
  assumes "join_group_from_invite sha now d token user = Inr (c', d')" "rows_ok d"
  shows "members_grow d d'"
proof -
  have k: "map conv_key (upd_where (\<lambda>q. cv_id q = i) (\<lambda>q. q\<lparr>cv_updated := now\<rparr>) cs) = map conv_key cs" for i cs
    by (rule map_upd_where) (simp add: conv_key_def)
  from assms(1) show ?thesis
  proof (cases rule: join_group_Inr)
    case (1 i c)
    let ?m = "\<lparr>cm_id = db_next d, cm_conv = cv_id c, cm_user = Some (us_id user), cm_handle = get_primary_user_handle d user,
         cm_external = None, cm_name = us_name user, cm_service = Some ''web'', cm_role = GroupMember, cm_status = active,
         cm_joined = now, cm_left = None, cm_created = now\<rparr>"
    have "cv_id c < db_next d" using row_by_Some [OF 1(3)] assms(2) unfolding rows_ok_def by blast
    then show ?thesis by (intro members_growI [of _ _ "[?m]"]) (simp_all add: 1(5) k)
  next
    case (2 i c m)
    have "map member_key (db_members d') = map member_key (db_members d)" unfolding 2(6)
      using set_member_keys(1) [OF assms(2) 2(4)] by (simp add: member_key_def)
    then show ?thesis by (intro members_grow_same) (simp_all add: 2(6) k)
  qed
qed

section \<open>Operations that move the ownership\<close>

lemma change_owner_ok:
  assumes "group_ok d" "db_next d \<le> db_next d'"
    "map (\<lambda>m. (cm_id m, cm_conv m)) (db_members d') = map (\<lambda>m. (cm_id m, cm_conv m)) (db_members d)"
    "map (\<lambda>c. (cv_id c, cv_kind c)) (db_convs d') = map (\<lambda>c. (cv_id c, cv_kind c)) (db_convs d)"
    "\<And>c. c \<in> set (db_convs d') \<Longrightarrow> if cv_id c = i then owner_count c = n else c \<in> set (db_convs d)"
    "\<And>k. count_where (owns_in k) (db_members d') = (if k = i then n else count_where (owns_in k) (db_members d))"
  shows "group_ok d'"
proof -
  from group_okD(1) [OF assms(1)] have r: "distinct (map cm_id (db_members d))" "distinct (map cv_id (db_convs d))"
    "\<forall>x\<in>set (map (\<lambda>m. (cm_id m, cm_conv m)) (db_members d)). fst x < db_next d \<and> snd x < db_next d"
    "\<forall>x\<in>set (map (\<lambda>c. (cv_id c, cv_kind c)) (db_convs d)). fst x < db_next d"
    unfolding rows_ok_def by auto
  have "map cm_id (db_members d') = map cm_id (db_members d)" "map cv_id (db_convs d') = map cv_id (db_convs d)"
    using arg_cong [OF assms(3), of "map fst"] arg_cong [OF assms(4), of "map fst"] by (simp_all add: comp_def)
  moreover have "\<forall>m\<in>set (db_members d'). cm_id m < db_next d' \<and> cm_conv m < db_next d'" "\<forall>c\<in>set (db_convs d'). cv_id c < db_next d'"
    using r(3,4) assms(2) unfolding assms(3,4) [symmetric] by (auto intro: less_le_trans)
  ultimately have "rows_ok d'" using r(1,2) unfolding rows_ok_def by simp
  moreover have "count_where (owns_in (cv_id c)) (db_members d') = owner_count c" if "c \<in> set (db_convs d')" "cv_kind c = GroupConv" for c
    using assms(5) [OF that(1)] assms(6) [of "cv_id c"] group_okD(2) [OF assms(1) _ that(2)] by (simp split: if_splits)
  ultimately show ?thesis unfolding group_ok_def by blast
qed

lemma owns_in_simps [simp]:
  "owns_in k (m\<lparr>cm_role := GroupMember\<rparr>) = False" "owns_in k (m\<lparr>cm_role := GroupOwner\<rparr>) = (cm_conv m = k)"
  by (auto simp: owns_in_def)

text \<open>Demoting every owner of a group and promoting one of its members, and demoting its only owner.\<close>

abbreviation demote_all :: "uuid \<Rightarrow> member_row list \<Rightarrow> member_row list" where
  "demote_all i \<equiv> upd_where (\<lambda>m. cm_conv m = i \<and> cm_role m = GroupOwner) (\<lambda>m. m\<lparr>cm_role := GroupMember\<rparr>)"

abbreviation promote :: "uuid \<Rightarrow> member_row list \<Rightarrow> member_row list" where
  "promote j \<equiv> upd_where (\<lambda>m. cm_id m = j) (\<lambda>m. m\<lparr>cm_role := GroupOwner\<rparr>)"

lemma demote_all_simps:
  "map cm_id (demote_all i ms) = map cm_id ms" "map cm_conv (demote_all i ms) = map cm_conv ms"
  "count_where (owns_in k) (demote_all i ms) = (if k = i then 0 else count_where (owns_in k) ms)"
proof -
  show "map cm_id (demote_all i ms) = map cm_id ms" "map cm_conv (demote_all i ms) = map cm_conv ms"
    by (rule map_upd_where, simp)+
  show "count_where (owns_in k) (demote_all i ms) = (if k = i then 0 else count_where (owns_in k) ms)"
  proof (induction ms)
    case (Cons a ms)
    then show ?case by (cases "k = i") (simp_all add: owns_in_def [of k a] owns_in_def [of i a])
  qed simp
qed

lemma change_one:
  assumes "distinct (map cm_id ms)" "s \<in> set ms" "\<And>q. cm_id q = cm_id s \<Longrightarrow> p q"
  shows "count_where (owns_in k) (upd_where (\<lambda>m. cm_id m = cm_id s) f ms) =
    count_where (owns_in k) ms - (if owns_in k s then 1 else 0) + (if owns_in k (f s) then 1 else 0)"
proof -
  from upd_where_one [of cm_id ms s "\<lambda>m. cm_id m = cm_id s" f] assms(1,2) obtain xs ys where
    "ms = xs @ s # ys" "upd_where (\<lambda>m. cm_id m = cm_id s) f ms = xs @ f s # ys" by auto
  then show ?thesis by simp
qed

lemma promote_count:
  assumes "distinct (map cm_id ms)" "s \<in> set ms" "cm_conv s = i"
  shows "count_where (owns_in k) (promote (cm_id s) (demote_all i ms)) = (if k = i then 1 else count_where (owns_in k) ms)"
proof -
  have d: "distinct (map cm_id (demote_all i ms))" unfolding demote_all_simps by (rule assms(1))
  have "\<exists>s'\<in>set (demote_all i ms). cm_id s' = cm_id s \<and> cm_conv s' = i"
  proof (rule bexI)
    let ?s = "if cm_conv s = i \<and> cm_role s = GroupOwner then s\<lparr>cm_role := GroupMember\<rparr> else s"
    show "cm_id ?s = cm_id s \<and> cm_conv ?s = i" using assms(3) by simp
    show "?s \<in> set (demote_all i ms)" using assms(2) unfolding in_set_upd_where by blast
  qed
  then obtain s' where s': "s' \<in> set (demote_all i ms)" "cm_id s' = cm_id s" "cm_conv s' = i" by blast
  have "\<not> owns_in i s'"
    using s'(1) demote_all_simps(3) [of i i ms] by (simp add: count_where_zero)
  then have "\<not> owns_in k s'" using s'(3) by (auto simp: owns_in_def)
  then show ?thesis using change_one [OF d s'(1), of "\<lambda>_. True" k "\<lambda>m. m\<lparr>cm_role := GroupOwner\<rparr>"] s'
    by (auto simp: demote_all_simps)
qed

lemma id_conv_keys:
  "(\<And>m. p m \<Longrightarrow> cm_id (f m) = cm_id m \<and> cm_conv (f m) = cm_conv m) \<Longrightarrow>
   map (\<lambda>m. (cm_id m, cm_conv m)) (upd_where p f ms) = map (\<lambda>m. (cm_id m, cm_conv m)) ms"
  by (rule map_upd_where) simp

lemma touch_conv_convs:
  assumes "\<And>c. cv_id (f c) = cv_id c \<and> cv_kind (f c) = cv_kind c \<and> owner_count (f c) = n"
  shows "map (\<lambda>c. (cv_id c, cv_kind c)) (db_convs (touch_conv now f i d)) = map (\<lambda>c. (cv_id c, cv_kind c)) (db_convs d)"
    "c \<in> set (db_convs (touch_conv now f i d)) \<Longrightarrow> if cv_id c = i then owner_count c = n else c \<in> set (db_convs d)"
proof -
  obtain g where g: "g = (\<lambda>c. if f c = c then c else (f c)\<lparr>cv_updated := now\<rparr>)" by blast
  have k: "cv_id (g c) = cv_id c" "cv_kind (g c) = cv_kind c" "owner_count (g c) = n" for c
    using assms [of c] unfolding g by (auto simp: owner_count_def)
  have t: "db_convs (touch_conv now f i d) = upd_where (\<lambda>c. cv_id c = i) g (db_convs d)" by (simp add: touch_conv_def g)
  show "map (\<lambda>c. (cv_id c, cv_kind c)) (db_convs (touch_conv now f i d)) = map (\<lambda>c. (cv_id c, cv_kind c)) (db_convs d)"
    unfolding t by (rule map_upd_where) (simp add: k)
  show "if cv_id c = i then owner_count c = n else c \<in> set (db_convs d)" if "c \<in> set (db_convs (touch_conv now f i d))"
    using that k unfolding t in_set_upd_where by (metis (full_types))
qed

lemma transfer_ok:
  assumes "transfer_group_ownership now d c s source departing = Inr d'" "source \<noteq> ''unclaimed''" "group_ok d"
  shows "group_ok d'"
  using assms(1)
proof (rule transfer_group_ownership_Inr)
  fix c0 s u prior
  assume s: "s \<in> set (db_members d)" "cm_conv s = cv_id c" "cv_id c0 = cv_id c"
    and d': "d' = transfer_all now u prior departing (map ga_id (filter (\<lambda>a. ga_conv a = cv_id c0) (db_apps d)))
       (touch_conv now (\<lambda>c. c\<lparr>cv_user := u, cv_owner_source := Some source\<rparr>) (cv_id c0)
         (d\<lparr>db_members := promote (cm_id s) (demote_all (cv_id c0) (db_members d)),
            db_apps := upd_where (\<lambda>a. ga_conv a = cv_id c0)
              (\<lambda>a. if ga_user a = u then a else a\<lparr>ga_user := u, ga_updated := now\<rparr>) (db_apps d)\<rparr>))"
  let ?f = "\<lambda>c. c\<lparr>cv_user := u, cv_owner_source := Some source\<rparr>"
  have f: "cv_id (?f q) = cv_id q \<and> cv_kind (?f q) = cv_kind q \<and> owner_count (?f q) = 1" for q
    using assms(2) by (simp add: owner_count_def)
  have dis: "distinct (map cm_id (db_members d))" using group_okD(1) [OF assms(3)] by (simp add: rows_ok_def)
  show "group_ok d'"
  proof (rule change_owner_ok [OF assms(3)])
    show "db_next d \<le> db_next d'" unfolding d' by (rule order_trans [OF _ transfer_all_next]) simp
    show "map (\<lambda>m. (cm_id m, cm_conv m)) (db_members d') = map (\<lambda>m. (cm_id m, cm_conv m)) (db_members d)"
      by (simp add: d' transfer_all_other id_conv_keys)
    show "map (\<lambda>c. (cv_id c, cv_kind c)) (db_convs d') = map (\<lambda>c. (cv_id c, cv_kind c)) (db_convs d)"
      unfolding d' transfer_all_other touch_conv_convs(1) [OF f] by simp
    show "if cv_id q = cv_id c then owner_count q = 1 else q \<in> set (db_convs d)" if "q \<in> set (db_convs d')" for q
      using touch_conv_convs(2) [OF f that [unfolded d' transfer_all_other]] s(3) by (cases "cv_id q = cv_id c") simp_all
    show "count_where (owns_in k) (db_members d') = (if k = cv_id c then 1 else count_where (owns_in k) (db_members d))" for k
      using promote_count [OF dis s(1), of "cv_id c0" k] s(2,3) by (simp add: d' transfer_all_other)
  qed
qed

lemma claim_ok:
  assumes "claim_group_owner now d c m source = Inr (b, d')" "source \<noteq> ''unclaimed''" "group_ok d"
    "m \<in> set (db_members d)" "cm_conv m = cv_id c"
  shows "group_ok d'"
proof -
  consider "d' = d" | "transfer_group_ownership now d c m source None = Inr d'"
    | "d' = touch_conv now (\<lambda>c. c\<lparr>cv_owner_source := Some source\<rparr>) (cv_id c)
         (d\<lparr>db_members := promote (cm_id m) (demote_all (cv_id c) (db_members d))\<rparr>)"
    using assms(1) by (auto simp: claim_group_owner_def Let_def result_simps split: if_splits)
  then show ?thesis
  proof cases
    case 3
    let ?f = "\<lambda>c. c\<lparr>cv_owner_source := Some source\<rparr>"
    have f: "cv_id (?f q) = cv_id q \<and> cv_kind (?f q) = cv_kind q \<and> owner_count (?f q) = 1" for q
      using assms(2) by (simp add: owner_count_def)
    have dis: "distinct (map cm_id (db_members d))" using group_okD(1) [OF assms(3)] by (simp add: rows_ok_def)
    show ?thesis
    proof (rule change_owner_ok [OF assms(3)])
      show "map (\<lambda>m. (cm_id m, cm_conv m)) (db_members d') = map (\<lambda>m. (cm_id m, cm_conv m)) (db_members d)"
        by (simp add: 3 id_conv_keys)
      show "map (\<lambda>c. (cv_id c, cv_kind c)) (db_convs d') = map (\<lambda>c. (cv_id c, cv_kind c)) (db_convs d)"
        unfolding 3 touch_conv_convs(1) [OF f] by simp
      show "if cv_id q = cv_id c then owner_count q = 1 else q \<in> set (db_convs d)" if "q \<in> set (db_convs d')" for q
        using touch_conv_convs(2) [OF f that [unfolded 3]] by (cases "cv_id q = cv_id c") simp_all
      show "count_where (owns_in k) (db_members d') = (if k = cv_id c then 1 else count_where (owns_in k) (db_members d))" for k
        using promote_count [OF dis assms(4,5)] by (simp add: 3)
    qed (simp add: 3)
  qed (use assms(2,3) transfer_ok in auto)
qed

lemma release_ok:
  assumes "group_ok d" "m \<in> set (db_members d)" "cm_role m = GroupOwner" "cm_conv m = cv_id c" "c \<in> set (db_convs d)" "cv_kind c = GroupConv"
  shows "group_ok (release_group now d c m)"
proof -
  let ?f = "\<lambda>q. q\<lparr>cv_owner_source := Some ''unclaimed''\<rparr>"
  have f: "cv_id (?f q) = cv_id q \<and> cv_kind (?f q) = cv_kind q \<and> owner_count (?f q) = 0" for q
    by (simp add: owner_count_def)
  have dis: "distinct (map cm_id (db_members d))" using group_okD(1) [OF assms(1)] by (simp add: rows_ok_def)
  have own: "owns_in (cv_id c) m" using assms(3,4) by (simp add: owns_in_def)
  have "count_where (owns_in (cv_id c)) (db_members d) \<noteq> 0" using own assms(2) by (auto simp: count_where_zero)
  then have one: "count_where (owns_in (cv_id c)) (db_members d) = 1"
    using group_okD(2) [OF assms(1,5,6)] by (simp add: owner_count_def split: if_splits)
  have other: "\<not> owns_in k m" if "k \<noteq> cv_id c" for k using that assms(4) by (simp add: owns_in_def)
  have mem: "db_members (release_group now d c m) = upd_where (\<lambda>q. cm_id q = cm_id m) (\<lambda>_. m\<lparr>cm_role := GroupMember\<rparr>) (db_members d)"
    by (simp add: release_group_def revoke_all_other set_member_def)
  have conv: "db_convs (release_group now d c m) = db_convs (touch_conv now ?f (cv_id c) d)"
    by (simp add: release_group_def revoke_all_other touch_conv_def)
  show ?thesis
  proof (rule change_owner_ok [OF assms(1)])
    show "db_next d \<le> db_next (release_group now d c m)" by (simp add: release_group_def revoke_all_other)
    have same: "q = m" if "q \<in> set (db_members d)" "cm_id q = cm_id m" for q
      using dis that assms(2) by (metis row_by_distinct option.inject)
    show "map (\<lambda>m. (cm_id m, cm_conv m)) (db_members (release_group now d c m)) = map (\<lambda>m. (cm_id m, cm_conv m)) (db_members d)"
      unfolding mem upd_where_def using same by auto
    show "map (\<lambda>c. (cv_id c, cv_kind c)) (db_convs (release_group now d c m)) = map (\<lambda>c. (cv_id c, cv_kind c)) (db_convs d)"
      unfolding conv touch_conv_convs(1) [OF f] ..
    show "if cv_id q = cv_id c then owner_count q = 0 else q \<in> set (db_convs d)" if "q \<in> set (db_convs (release_group now d c m))" for q
      by (rule touch_conv_convs(2) [OF f that [unfolded conv]])
    show "count_where (owns_in k) (db_members (release_group now d c m)) =
      (if k = cv_id c then 0 else count_where (owns_in k) (db_members d))" for k
      using change_one [OF dis assms(2), of "\<lambda>_. True" k "\<lambda>_. m\<lparr>cm_role := GroupMember\<rparr>"] one own other [of k]
      by (cases "k = cv_id c") (simp_all add: mem)
  qed
qed

lemma new_group_ok:
  assumes "group_ok d" "db_next d \<le> cv_id c" "cv_id c < db_next d'" "cv_kind c = GroupConv" "db_convs d' = db_convs d @ [c]"
    "db_members d' = db_members d @ ms" "distinct (map cm_id ms)"
    "\<forall>m\<in>set ms. cm_conv m = cv_id c \<and> db_next d \<le> cm_id m \<and> cm_id m < db_next d'"
    "count_where (owns_in (cv_id c)) ms = owner_count c" "db_next d \<le> db_next d'"
  shows "group_ok d'"
proof -
  from group_okD(1) [OF assms(1)] have r: "distinct (map cm_id (db_members d))" "distinct (map cv_id (db_convs d))"
    "\<forall>m\<in>set (db_members d). cm_id m < db_next d \<and> cm_conv m < db_next d" "\<forall>c\<in>set (db_convs d). cv_id c < db_next d"
    unfolding rows_ok_def by blast+
  have "distinct (map cm_id (db_members d'))" unfolding assms(6) using r(1,3) assms(7,8) by fastforce
  moreover have "distinct (map cv_id (db_convs d'))" unfolding assms(5) using r(2,4) assms(2) by fastforce
  moreover have "\<forall>m\<in>set (db_members d'). cm_id m < db_next d' \<and> cm_conv m < db_next d'"
    unfolding assms(6) set_append ball_Un using r(3) assms(3,8,10) by (auto intro: less_le_trans)
  moreover have "\<forall>c\<in>set (db_convs d'). cv_id c < db_next d'"
    unfolding assms(5) using r(4) assms(3,10) by (auto intro: less_le_trans)
  ultimately have "rows_ok d'" unfolding rows_ok_def by blast
  moreover have "count_where (owns_in (cv_id q)) (db_members d') = owner_count q" if q: "q \<in> set (db_convs d')" "cv_kind q = GroupConv" for q
  proof (cases "q = c")
    case True
    have "count_where (owns_in (cv_id c)) (db_members d) = 0" using r(3) assms(2) by (force simp: count_where_zero owns_in_def)
    then show ?thesis using True assms(9) by (simp add: assms(6))
  next
    case False
    then have m: "q \<in> set (db_convs d)" using q(1) assms(5) by simp
    have "count_where (owns_in (cv_id q)) ms = 0" using assms(2,8) r(4) m by (force simp: count_where_zero owns_in_def)
    then show ?thesis using group_okD(2) [OF assms(1) m q(2)] by (simp add: assms(6))
  qed
  ultimately show ?thesis unfolding group_ok_def by blast
qed

lemma create_web_group_ok:
  assumes "create_web_group now d owner title = Inr (c, d')" "group_ok d"
  shows "group_ok d'"
proof (rule new_group_ok [OF assms(2), of c d' "drop (length (db_members d)) (db_members d')"])
qed (use assms(1) in \<open>auto simp: create_web_group_def result_simps take_id_def Let_def owns_in_def owner_count_def\<close>)

section \<open>The provider's operations\<close>

lemma attach_group_ok:
  assumes "attach_group now d chat sender service data = Inr (c, hid, created, d')" "group_ok d"
  shows "group_ok d' \<and> c \<in> set (db_convs d') \<and> cv_kind c = GroupConv"
proof (cases "find_channel d ''linq'' chat")
  case None
  have "group_ok d'"
    by (rule new_group_ok [OF assms(2), of c d' "[]"])
      (use assms(1) None in \<open>auto simp: attach_group_def take_id_def Let_def owner_count_def\<close>)
  then show ?thesis using assms(1) None by (auto simp: attach_group_def take_id_def Let_def)
next
  case (Some h)
  then obtain c0 where c: "find_conv d (cc_conv h) = Some c0" "c = c0" "cv_kind c = GroupConv"
    and d': "d' = (case service of Some (x # xs) \<Rightarrow> touch_channel now (\<lambda>h. h\<lparr>cc_service := Some (x # xs)\<rparr>) (cc_id h) d | _ \<Rightarrow> d)"
    using assms(1) unfolding attach_group_def by (auto split: option.splits if_splits)
  have "members_grow d d'" unfolding d' by (auto intro: touch_channel_grow split: option.split list.split)
  moreover have "db_convs d' = db_convs d" unfolding d' by (simp add: touch_channel_def split: option.split list.split)
  ultimately show ?thesis using c row_by_Some [OF c(1)] members_grow_ok assms(2) by auto
qed

lemma rows_of_group: "group_ok d \<Longrightarrow> c \<in> set (db_convs d) \<Longrightarrow> cv_id c < db_next d"
  by (auto dest!: group_okD(1) simp: rows_ok_def)

lemma sync_chat_grow:
  assumes "sync_chat en parse now d cid data = Inr d'" "rows_ok d" "cid < db_next d"
  shows "members_grow d d'"
proof -
  have t: "members_grow d1 (touch_conv now (\<lambda>c. c\<lparr>cv_title := Some t\<rparr>) cid d1)" for d1 t
    by (rule touch_grow) (simp add: conv_key_def)
  show ?thesis
  proof (cases "data = []")
    case False
    with assms(1) obtain d1 where d1: "sync_linq_group_participants en parse now d cid data = Inr d1"
      "d' = d1 \<or> (\<exists>t. d' = touch_conv now (\<lambda>c. c\<lparr>cv_title := Some t\<rparr>) cid d1)"
      by (auto simp: sync_chat_def bindR_Inr split: option.splits)
    with members_grow_trans [OF sync_grow [OF d1(1) assms(2,3)] t] sync_grow [OF d1(1) assms(2,3)] show ?thesis by blast
  qed (use assms(1) in \<open>simp add: sync_chat_def\<close>)
qed

text \<open>A member that was there has the same conversation after more members came.\<close>

lemma grown_member:
  assumes "members_grow d d'" "m \<in> set (db_members d)" "row_by cm_id (cm_id m) (db_members d') = Some q" "rows_ok d'"
  shows "cm_conv q = cm_conv m"
proof -
  from assms(1) obtain new where n: "map member_key (db_members d') = map member_key (db_members d) @ map member_key new"
    unfolding members_grow_def by blast
  have "member_key m \<in> set (map member_key (db_members d'))" unfolding n using assms(2) by simp
  then obtain r where r: "r \<in> set (db_members d')" "member_key m = member_key r" by auto
  have "distinct (map cm_id (db_members d'))" using assms(4) by (simp add: rows_ok_def)
  from row_by_distinct [OF this r(1)] r(2) assms(3) have "q = r" by (simp add: member_key_def)
  with r(2) show ?thesis by (simp add: member_key_def)
qed

lemma resolve_linq_ok:
  assumes "resolve_linq_group_conversation en parse now d chat sender service handle data claim = Inr (cid, hid, created, d')"
    "group_ok d"
  shows "group_ok d'"
proof -
  from assms(1) obtain c d1 m d2 d4 where
    s1: "attach_group now d chat sender service data = Inr (c, hid, created, d1)" and
    s2: "\<exists>r. upsert_group_member now d1 (cv_id c) r = Inr (m, d2)" and
    s3: "sync_chat en parse now d2 (cv_id c) data = Inr d4" and
    s4: "claim_as_sender now d4 (cv_id c) (cm_id m) claim = Inr d'"
    unfolding resolve_linq_group_conversation_def bindR_Inr split_paired_Ex prod.case by auto blast
  from attach_group_ok [OF s1 assms(2)] have g1: "group_ok d1" "cv_id c < db_next d1" "c \<in> set (db_convs d1)"
    using rows_of_group by blast+
  from s2 upsert_grow group_okD(1) [OF g1(1)] g1(2) have u: "members_grow d1 d2" "m \<in> set (db_members d2)" "cm_conv m = cv_id c"
    by blast+
  have g2: "rows_ok d2" "cv_id c < db_next d2"
    using members_grow_rows [OF u(1)] group_okD(1) [OF g1(1)] members_grow_next [OF u(1)] g1(2) by auto
  have g24: "members_grow d2 d4" by (rule sync_chat_grow [OF s3 g2])
  have g4: "group_ok d4" using members_grow_ok u(1) g24 g1(1) by blast
  consider "d' = d4" | c1 m1 b where "find_conv d4 (cv_id c) = Some c1" "row_by cm_id (cm_id m) (db_members d4) = Some m1"
      "claim_group_owner now d4 c1 m1 ''first_invoker'' = Inr (b, d')"
    using s4 by (auto simp: claim_as_sender_def bindR_Inr some_or_Inr split: if_splits)
  then show ?thesis
  proof cases
    case (2 c1 m1 b)
    have "cm_conv m1 = cv_id c" using grown_member [OF g24 u(2) 2(2) group_okD(1) [OF g4]] u(3) by simp
    then show ?thesis using claim_ok [OF 2(3) _ g4] row_by_Some [OF 2(1)] row_by_Some [OF 2(2)] by simp
  qed (use g4 in simp)
qed

lemma replace_owner_ok:
  assumes "replace_owner now d c m = Inr d'" "group_ok d" "m \<in> set (db_members d)" "cm_role m = GroupOwner"
    "cm_conv m = cv_id c" "c \<in> set (db_convs d)" "cv_kind c = GroupConv"
  shows "group_ok d'"
proof (cases "replacement_for d m")
  case None
  with assms(1) have "d' = release_group now d c m" by (simp add: replace_owner_def)
  then show ?thesis using release_ok [OF assms(2-7)] by simp
next
  case (Some s)
  with assms(1) show ?thesis by (simp add: replace_owner_def transfer_ok [OF _ _ assms(2)])
qed

lemma apply_linq_group_event_ok:
  assumes "apply_linq_group_event en parse now d type data = Inr (b, d')" "group_ok d"
  shows "group_ok d'"
proof -
  have touch: "group_ok (touch_conv now f i d)" if "\<And>c. conv_key (f c) = conv_key c" for f i
    by (rule members_grow_ok [OF touch_grow assms(2)]) (rule that)
  have part: "group_ok d'" if p: "participant_event en parse now d c h removed data = Inr (b, d')" "find_conv d i = Some c" "cv_kind c = GroupConv"
    for c h i removed
  proof -
    have c: "c \<in> set (db_convs d)" using row_by_Some [OF p(2)] by blast
    consider s where "d' = touch_channel now (\<lambda>h. h\<lparr>cc_status := s\<rparr>) (cc_id h) (touch_conv now (\<lambda>c. c\<lparr>cv_status := s\<rparr>) (cv_id c) d)"
      | "d' = d" | r m d1 where "upsert_group_member now d (cv_id c) r = Inr (m, d1)"
        "d' = d1 \<or> (cm_role m = GroupOwner \<and> replace_owner now d1 c m = Inr d')"
      using p(1) unfolding participant_event_def Let_def
      by (auto simp: bindR_Inr split: if_splits json.splits)
    then show ?thesis
    proof cases
      case (1 s)
      have "group_ok (touch_conv now (\<lambda>c. c\<lparr>cv_status := s\<rparr>) (cv_id c) d)" by (rule touch) (simp add: conv_key_def)
      then show ?thesis unfolding 1 by (rule members_grow_ok [OF touch_channel_grow])
    next
      case 2
      then show ?thesis using assms(2) by simp
    next
      case (3 r m d1)
      from upsert_grow [OF 3(1) group_okD(1) [OF assms(2)] rows_of_group [OF assms(2) c]] have
        u: "group_ok d1" "m \<in> set (db_members d1)" "cm_conv m = cv_id c" "c \<in> set (db_convs d1)"
        using members_grow_ok assms(2) c by auto
      then show ?thesis using 3(2) replace_owner_ok p(3) by blast
    qed
  qed
  show ?thesis
  proof (cases "event_chat_id data")
    case (JStr chat)
    show ?thesis
    proof (cases "find_channel d ''linq'' chat")
      case (Some h)
      show ?thesis
      proof (cases "find_conv d (cc_conv h)")
        case (Some c)
        then show ?thesis using assms \<open>find_channel d ''linq'' chat = Some h\<close> JStr part [OF _ Some]
          by (auto simp: apply_linq_group_event_def Let_def conv_key_def split: if_splits intro!: touch)
      qed (use assms Some JStr in \<open>simp add: apply_linq_group_event_def\<close>)
    qed (use assms JStr in \<open>simp add: apply_linq_group_event_def\<close>)
  qed (use assms in \<open>simp_all add: apply_linq_group_event_def\<close>)
qed

section \<open>Runs\<close>

inductive group_step :: "identity_env \<Rightarrow> (string \<Rightarrow> string) \<Rightarrow> (string \<Rightarrow> instant option) \<Rightarrow> db \<Rightarrow> db \<Rightarrow> bool" for en sha parse where
  gs_create: "create_web_group now d owner title = Inr (c, d') \<Longrightarrow> group_step en sha parse d d'"
| gs_invite: "create_group_invite sha now token d cid u ttl uses = Inr (i, d') \<Longrightarrow> group_step en sha parse d d'"
| gs_join: "join_group_from_invite sha now d token user = Inr (c, d') \<Longrightarrow> group_step en sha parse d d'"
| gs_leave: "leave_web_group now d cid u = Inr d' \<Longrightarrow> group_step en sha parse d d'"
| gs_rename: "rename_group now d cid u title = Inr (c, d') \<Longrightarrow> group_step en sha parse d d'"
| gs_claim: "claim_group_owner now d c m ''first_invoker'' = Inr (b, d') \<Longrightarrow> m \<in> set (db_members d) \<Longrightarrow> cm_conv m = cv_id c \<Longrightarrow>
    group_step en sha parse d d'"
| gs_sync: "sync_linq_group_participants en parse now d cid chat = Inr d' \<Longrightarrow> find_conv d cid = Some c \<Longrightarrow> group_step en sha parse d d'"
| gs_resolve: "resolve_linq_group_conversation en parse now d chat sender service handle data claim = Inr (cid, hid, b, d') \<Longrightarrow>
    group_step en sha parse d d'"
| gs_event: "apply_linq_group_event en parse now d type data = Inr (b, d') \<Longrightarrow> group_step en sha parse d d'"

lemma group_step_ok: "group_step en sha parse d d' \<Longrightarrow> group_ok d \<Longrightarrow> group_ok d'"
proof (induction rule: group_step.induct)
  case (gs_sync now d cid chat d' c)
  have "cid < db_next d" using rows_of_group [OF gs_sync.prems] row_by_Some [OF gs_sync.hyps(2)] by blast
  then show ?case using members_grow_ok [OF sync_grow [OF gs_sync.hyps(1) group_okD(1)]] gs_sync.prems by blast
next
  case (gs_claim now d c m b d')
  then show ?case by (auto intro: claim_ok)
qed (blast intro: create_web_group_ok members_grow_ok create_group_invite_grow join_grow leave_grow rename_grow
    resolve_linq_ok apply_linq_group_event_ok dest: group_okD(1))+

text \<open>C29. Every group has one owner, and none while it is unclaimed, after any run of the operations on groups, on
  the web and from the messaging provider: creations, joins, departures, claims, participants synchronised,
  added and removed in any order.\<close>

theorem groups_have_one_owner:
  assumes "(group_step en sha parse)\<^sup>*\<^sup>* d d'" "group_ok d"
  shows "group_ok d' \<and> (\<forall>c\<in>set (db_convs d'). cv_kind c = GroupConv \<longrightarrow>
    length (filter (\<lambda>m. cm_conv m = cv_id c \<and> cm_role m = GroupOwner) (db_members d')) = (if cv_owner_source c = Some ''unclaimed'' then 0 else 1))"
proof -
  from assms have ok: "group_ok d'" by (induction rule: rtranclp_induct) (auto intro: group_step_ok)
  have "length (filter (\<lambda>m. cm_conv m = cv_id c \<and> cm_role m = GroupOwner) (db_members d')) =
      (if cv_owner_source c = Some ''unclaimed'' then 0 else 1)" if "c \<in> set (db_convs d')" "cv_kind c = GroupConv" for c
    using group_okD(2) [OF ok that] by (simp add: count_where_def owns_in_def [abs_def] owner_count_def split: if_splits)
  with ok show ?thesis by blast
qed

lemma group_ok_empty: "group_ok empty_db"
  by (simp add: group_ok_def rows_ok_def empty_db_def)

definition founder :: user_row where
  "founder = \<lparr>us_id = 1, us_phone = Some ''+1'', us_name = None, us_opted_out = None, us_phone_verified = None,
     us_first_seen = 0, us_last_seen = 0\<rparr>"

definition founded_db :: db where
  "founded_db = snd (projr (create_web_group 5 empty_db founder ''chess''))"

definition chat_db :: db where
  "chat_db = (case resolve_linq_group_conversation plain_env (\<lambda>_. None) 6 founded_db ''chat'' founder None (Some ''+1'') [] True of
     Inl _ \<Rightarrow> founded_db | Inr (_, _, _, d) \<Rightarrow> d)"

theorem groups_have_one_owner_witness:
  "(group_step plain_env (\<lambda>s. s) (\<lambda>_. None))\<^sup>*\<^sup>* empty_db chat_db \<and> map cv_owner_source (db_convs chat_db) = [Some ''explicit'', Some ''first_invoker''] \<and>
   map (\<lambda>c. length (filter (\<lambda>m. cm_conv m = cv_id c \<and> cm_role m = GroupOwner) (db_members chat_db))) (db_convs chat_db) = [1, 1]"
proof -
  let ?c = "create_web_group 5 empty_db founder ''chess''"
  let ?r = "resolve_linq_group_conversation plain_env (\<lambda>_. None) 6 founded_db ''chat'' founder None (Some ''+1'') [] True"
  have "\<not> isl ?c" "\<not> isl ?r" by code_simp+
  then have "\<exists>c. ?c = Inr (c, founded_db)" "\<exists>x y z. ?r = Inr (x, y, z, chat_db)"
    by (cases ?c; cases ?r; auto simp: founded_db_def chat_db_def)+
  then obtain c x y z where "?c = Inr (c, founded_db)" "?r = Inr (x, y, z, chat_db)" by blast
  then have "group_step plain_env (\<lambda>s. s) (\<lambda>_. None) empty_db founded_db" "group_step plain_env (\<lambda>s. s) (\<lambda>_. None) founded_db chat_db"
    by (blast intro: gs_create gs_resolve)+
  then have run: "(group_step plain_env (\<lambda>s. s) (\<lambda>_. None))\<^sup>*\<^sup>* empty_db chat_db" by auto
  have c: "map cv_owner_source (db_convs chat_db) = [Some ''explicit'', Some ''first_invoker'']" "\<forall>c\<in>set (db_convs chat_db). cv_kind c = GroupConv"
    by code_simp+
  have "\<forall>s\<in>set (map cv_owner_source (db_convs chat_db)). s \<noteq> Some ''unclaimed''" unfolding c(1) by simp
  with groups_have_one_owner [OF run group_ok_empty] c(2) have
    one: "\<forall>c\<in>set (db_convs chat_db). length (filter (\<lambda>m. cm_conv m = cv_id c \<and> cm_role m = GroupOwner) (db_members chat_db)) = 1"
    by auto
  from c(1) obtain x y where "db_convs chat_db = [x, y]" by (auto simp: map_eq_Cons_conv)
  with one run c(1) show ?thesis by simp
qed

section \<open>Invites\<close>

text \<open>A step of invites: one created, or one used; the label is the invite that admitted a new member.\<close>

inductive invite_step :: "(string \<Rightarrow> string) \<Rightarrow> db \<Rightarrow> uuid list \<Rightarrow> db \<Rightarrow> bool" for sha where
  is_create: "create_group_invite sha now token d cid u ttl uses = Inr (i, d') \<Longrightarrow> invite_step sha d [] d'"
| is_join: "join_group_from_invite sha now d token user = Inr (c, d') \<Longrightarrow> find (\<lambda>i. iv_hash i = sha token) (db_invites d) = Some i \<Longrightarrow>
    invite_step sha d (if length (db_members d) < length (db_members d') then [iv_id i] else []) d'"

inductive invite_run :: "(string \<Rightarrow> string) \<Rightarrow> db \<Rightarrow> uuid list \<Rightarrow> db \<Rightarrow> bool" for sha where
  ir_none: "invite_run sha d [] d"
| ir_step: "invite_run sha d used d1 \<Longrightarrow> invite_step sha d1 label d' \<Longrightarrow> invite_run sha d (used @ label) d'"

definition invites_ok :: "db \<Rightarrow> bool" where
  "invites_ok d \<longleftrightarrow> distinct (map iv_id (db_invites d)) \<and>
     (\<forall>i\<in>set (db_invites d). iv_id i < db_next d \<and> 0 \<le> iv_count i \<and> iv_count i \<le> iv_max i \<and> iv_max i \<le> 100)"

definition uses_counted :: "uuid list \<Rightarrow> db \<Rightarrow> bool" where
  "uses_counted used d \<longleftrightarrow> (\<forall>j\<in>set used. j < db_next d) \<and>
     (\<forall>i\<in>set (db_invites d). int (count_list used (iv_id i)) \<le> iv_count i)"

lemma invite_step_keeps:
  assumes "invite_step sha d label d'" "invites_ok d" "uses_counted used d"
  shows "invites_ok d' \<and> uses_counted (used @ label) d'"
  using assms(1)
proof cases
  case (is_create now token cid u ttl uses i)
  then have d': "db_invites d' = db_invites d @ [i]" "iv_id i = db_next d" "iv_count i = 0" "1 \<le> iv_max i" "iv_max i \<le> 100"
    "db_next d' = db_next d + 1" "label = []"
    by (auto simp: create_group_invite_def bindR_Inr take_id_def Let_def)
  have "count_list used (db_next d) = 0" using assms(3) by (auto simp: uses_counted_def count_list_0_iff)
  then show ?thesis using assms(2,3) d' unfolding invites_ok_def uses_counted_def by (auto intro: less_SucI)
next
  case (is_join now token user c i)
  from is_join(2) show ?thesis
  proof (cases rule: join_group_Inr)
    case (1 i' c')
    let ?f = "\<lambda>q. q\<lparr>iv_count := iv_count q + 1\<rparr>"
    have i: "i' = i" "iv_count i < iv_max i" using 1(1,2) is_join(3) by (simp_all add: invite_open_def)
    have l: "label = [iv_id i]" using is_join(1) 1(5) by simp
    have inv: "db_invites d' = upd_where (\<lambda>q. iv_id q = iv_id i) ?f (db_invites d)" "db_next d' = db_next d + 1" using 1(5) i(1) by simp_all
    have mem: "i \<in> set (db_invites d)" using find_SomeD [OF is_join(3)] by blast
    have one: "q = i" if "q \<in> set (db_invites d)" "iv_id q = iv_id i" for q
      using assms(2) mem that unfolding invites_ok_def by (metis row_by_distinct option.inject)
    have "map iv_id (db_invites d') = map iv_id (db_invites d)" unfolding inv(1) by (rule map_upd_where) simp
    moreover have "iv_id q < db_next d' \<and> 0 \<le> iv_count q \<and> iv_count q \<le> iv_max q \<and> iv_max q \<le> 100 \<and>
        int (count_list (used @ label) (iv_id q)) \<le> iv_count q" if q: "q \<in> set (db_invites d')" for q
    proof -
      from q inv(1) obtain r where r: "r \<in> set (db_invites d)" "q = (if iv_id r = iv_id i then ?f r else r)" by (auto simp: in_set_upd_where)
      have b: "iv_id r < db_next d" "0 \<le> iv_count r" "iv_count r \<le> iv_max r" "iv_max r \<le> 100" "int (count_list used (iv_id r)) \<le> iv_count r"
        using r(1) assms(2,3) unfolding invites_ok_def uses_counted_def by blast+
      show ?thesis
      proof (cases "iv_id r = iv_id i")
        case True
        with one [OF r(1)] have "r = i" by blast
        with b i(2) r(2) l inv(2) show ?thesis by simp
      next
        case False
        with b r(2) l inv(2) show ?thesis by simp
      qed
    qed
    moreover have "\<forall>j\<in>set (used @ label). j < db_next d'"
      using assms(2,3) mem l inv(2) unfolding invites_ok_def uses_counted_def by (auto intro: less_SucI)
    ultimately show ?thesis using assms(2) unfolding invites_ok_def uses_counted_def by simp
  next
    case (2 i' c' m)
    then have "label = []" "db_invites d' = db_invites d" "db_next d' = db_next d"
      using is_join(1) by (simp_all add: set_member_def)
    then show ?thesis using assms(2,3) by (simp add: invites_ok_def uses_counted_def)
  qed
qed

text \<open>C30. An invite never admits more new members than its limit, and no more than a hundred, whatever run of
  creations and uses of invites, at whatever times.\<close>

theorem invites_admit_boundedly:
  assumes "invite_run sha d used d'" "invites_ok d" "i \<in> set (db_invites d')"
  shows "int (count_list used (iv_id i)) \<le> iv_max i \<and> iv_max i \<le> 100"
proof -
  have start: "uses_counted [] d" using assms(2) by (simp add: uses_counted_def invites_ok_def)
  from assms(1) have "invites_ok d \<Longrightarrow> uses_counted [] d \<Longrightarrow> invites_ok d' \<and> uses_counted used d'"
    by (induction rule: invite_run.induct) (auto dest: invite_step_keeps)
  with assms(2,3) start show ?thesis unfolding invites_ok_def uses_counted_def by fastforce
qed

definition invited_db :: db where
  "invited_db = (case create_group_invite (\<lambda>s. s) 10 ''tok'' founded_db 1 1 24 1 of Inl _ \<Rightarrow> founded_db | Inr (_, d) \<Rightarrow> d)"

definition joined_db :: db where
  "joined_db = (case join_group_from_invite (\<lambda>s. s) 20 invited_db ''tok'' (founder\<lparr>us_id := 2, us_phone := Some ''+2''\<rparr>) of
     Inl _ \<Rightarrow> invited_db | Inr (_, d) \<Rightarrow> d)"

theorem invites_admit_boundedly_witness:
  "\<exists>i. invite_run (\<lambda>s. s) founded_db [i] joined_db \<and> int (count_list [i] i) \<le> 1 \<and> length (db_members joined_db) = 2 \<and>
     isl (join_group_from_invite (\<lambda>s. s) 30 joined_db ''tok'' (founder\<lparr>us_id := 3, us_phone := Some ''+3''\<rparr>))"
proof -
  let ?c = "create_group_invite (\<lambda>s. s) 10 ''tok'' founded_db 1 1 24 1"
  let ?j = "join_group_from_invite (\<lambda>s. s) 20 invited_db ''tok'' (founder\<lparr>us_id := 2, us_phone := Some ''+2''\<rparr>)"
  have "\<not> isl ?c" "\<not> isl ?j" by code_simp+
  then have "\<exists>i. ?c = Inr (i, invited_db)" "\<exists>c. ?j = Inr (c, joined_db)"
    by (cases ?c; cases ?j; auto simp: invited_db_def joined_db_def)+
  then obtain i c where r: "?c = Inr (i, invited_db)" "?j = Inr (c, joined_db)" by blast
  have e: "map (\<lambda>i. (iv_id i, iv_hash i)) (db_invites invited_db) = [(4, ''tok'')]" "map (\<lambda>i. (iv_id i, iv_max i)) (db_invites joined_db) = [(4, 1)]"
    "length (db_members invited_db) = 1" "length (db_members joined_db) = 2" by code_simp+
  then obtain v where v: "db_invites invited_db = [v]" "iv_id v = 4" "iv_hash v = ''tok''" by (cases "db_invites invited_db") auto
  have "invite_run (\<lambda>s. s) founded_db [] invited_db" using ir_step [OF ir_none is_create [OF r(1)]] by simp
  from ir_step [OF this is_join [OF r(2), of v]] v e(3,4) have run: "invite_run (\<lambda>s. s) founded_db [4] joined_db" by simp
  have ok: "invites_ok founded_db" by code_simp
  from e(2) obtain w where w: "w \<in> set (db_invites joined_db)" "iv_id w = 4" "iv_max w = 1" by (cases "db_invites joined_db") auto
  have full: "isl (join_group_from_invite (\<lambda>s. s) 30 joined_db ''tok'' (founder\<lparr>us_id := 3, us_phone := Some ''+3''\<rparr>))" by code_simp
  from invites_admit_boundedly [OF run ok w(1)] w run e(4) full show ?thesis by auto
qed

end
