(* ===== verification/Rate_Limits.thy ===== *)
theory Rate_Limits
  imports Dot_Prelude
begin

text \<open>
  The in-process rate limiters of the public endpoints (\<open>services/auth_rate_limit.py\<close> and
  \<open>services/waitlist_rate_limit.py\<close>, the same algorithm with another third namespace): a log of accepted
  attempts per key, pruned from the front, one rule per scope. The monotonic clock is read in
  microseconds; \<open>sha\<close> and \<open>casefold\<close> are parameters. The lock makes a check one atomic step. A refused
  check keeps what it pruned.
\<close>

section \<open>The limiter\<close>

record rate_rule =
  rr_namespace :: string
  rr_limit :: nat
  rr_window :: int

text \<open>The deque per key; a missing key is an empty deque (\<open>defaultdict\<close>).\<close>

type_synonym rate_events = "string \<Rightarrow> int list"

definition rate_rules :: "string \<Rightarrow> int \<Rightarrow> int \<Rightarrow> int \<Rightarrow> rate_rule list" where
  "rate_rules third ip_per_minute ip_per_hour identifier_per_hour =
     [\<lparr>rr_namespace = ''ip-minute'', rr_limit = nat (max 1 ip_per_minute), rr_window = seconds 60\<rparr>,
      \<lparr>rr_namespace = ''ip-hour'', rr_limit = nat (max 1 ip_per_hour), rr_window = seconds 3600\<rparr>,
      \<lparr>rr_namespace = third, rr_limit = nat (max 1 identifier_per_hour), rr_window = seconds 3600\<rparr>]"

abbreviation auth_rules :: "int \<Rightarrow> int \<Rightarrow> int \<Rightarrow> rate_rule list" where
  "auth_rules \<equiv> rate_rules ''identifier-hour''"

abbreviation waitlist_rules :: "int \<Rightarrow> int \<Rightarrow> int \<Rightarrow> rate_rule list" where
  "waitlist_rules \<equiv> rate_rules ''email-hour''"

definition opaque_key :: "(string \<Rightarrow> string) \<Rightarrow> (string \<Rightarrow> string) \<Rightarrow> string \<Rightarrow> string" where
  "opaque_key sha casefold value = sha (casefold (py_strip value))"

text \<open>The rules with their keys: the first two by client address, the third by identifier.\<close>

definition scoped :: "(string \<Rightarrow> string) \<Rightarrow> rate_rule list \<Rightarrow> string \<Rightarrow> string \<Rightarrow> (rate_rule \<times> string) list" where
  "scoped key rules client identifier =
     zip rules (map2 (\<lambda>r v. rr_namespace r @ '':'' @ key v) rules [client, client, identifier])"

definition ceil_seconds :: "int \<Rightarrow> int" where
  "ceil_seconds t = - ((- t) div 1000000)"

definition prune :: "instant \<Rightarrow> rate_rule \<Rightarrow> int list \<Rightarrow> int list" where
  "prune now r = dropWhile (\<lambda>t. t \<le> now - rr_window r)"

fun check_rules :: "instant \<Rightarrow> (rate_rule \<times> string) list \<Rightarrow> rate_events \<Rightarrow> int option \<times> rate_events" where
  "check_rules now [] ev = (None, ev)"
| "check_rules now ((r, k) # rs) ev =
     (let es = prune now r (ev k); ev1 = ev(k := es)
      in if rr_limit r \<le> length es
         then (Some (max 1 (ceil_seconds (rr_window r - (now - hd es)))), ev1)
         else check_rules now rs ev1)"

text \<open>\<open>check\<close>: \<open>Inl\<close> the seconds to wait, \<open>Inr\<close> when the attempt is accepted and logged under each key.\<close>

definition check :: "instant \<Rightarrow> (rate_rule \<times> string) list \<Rightarrow> rate_events \<Rightarrow> (int + unit) \<times> rate_events" where
  "check now rs ev =
     (case check_rules now rs ev of
        (Some retry_after, ev1) \<Rightarrow> (Inl retry_after, ev1)
      | (None, ev1) \<Rightarrow> (Inr (), fold (\<lambda>k ev. ev(k := ev k @ [now])) (map snd rs) ev1))"

section \<open>Runs\<close>

text \<open>An attempt: the time, the client address and the identifier. A run gives the accepted ones, in order.\<close>

type_synonym attempt = "instant \<times> string \<times> string"

fun limiter_run :: "(string \<Rightarrow> string) \<Rightarrow> rate_rule list \<Rightarrow> attempt list \<Rightarrow> rate_events \<Rightarrow> attempt list \<times> rate_events" where
  "limiter_run key rules [] ev = ([], ev)"
| "limiter_run key rules ((now, client, identifier) # as) ev =
     (case check now (scoped key rules client identifier) ev of
        (Inl _, ev1) \<Rightarrow> limiter_run key rules as ev1
      | (Inr _, ev1) \<Rightarrow> (case limiter_run key rules as ev1 of (acc, ev2) \<Rightarrow> ((now, client, identifier) # acc, ev2)))"

text \<open>The accepted attempts that count under a key, and those of the window before \<open>now\<close>.\<close>

definition counted :: "(string \<Rightarrow> string) \<Rightarrow> rate_rule list \<Rightarrow> string \<Rightarrow> attempt list \<Rightarrow> int list" where
  "counted key rules k acc =
     map fst (filter (\<lambda>(t, client, identifier). k \<in> snd ` set (scoped key rules client identifier)) acc)"

definition in_window :: "instant \<Rightarrow> rate_rule \<Rightarrow> int list \<Rightarrow> nat" where
  "in_window now r ts = length (filter (\<lambda>t. now - rr_window r < t \<and> t \<le> now) ts)"

section \<open>The log\<close>

text \<open>The key of a rule shows its namespace, so that two rules never share a key.\<close>

definition namespaces_ok :: "rate_rule list \<Rightarrow> bool" where
  "namespaces_ok rules \<longleftrightarrow> length rules = 3 \<and> distinct (map rr_namespace rules) \<and>
     (\<forall>r\<in>set rules. CHR '':'' \<notin> set (rr_namespace r) \<and> 0 < rr_limit r \<and> 0 < rr_window r)"

lemma auth_rules_ok: "namespaces_ok (auth_rules a b c)" "namespaces_ok (waitlist_rules a b c)"
  by (auto simp: namespaces_ok_def rate_rules_def less_max_iff_disj)

lemma namespace_of_key: "CHR '':'' \<notin> set n \<Longrightarrow> takeWhile (\<lambda>c. c \<noteq> CHR '':'') (n @ '':'' @ x) = n"
  by (induction n) auto

lemma scoped_rules:
  assumes "namespaces_ok rules" "(r, k) \<in> set (scoped key rules c i)"
  shows "r \<in> set rules \<and> takeWhile (\<lambda>c. c \<noteq> CHR '':'') k = rr_namespace r"
proof -
  obtain r1 r2 r3 where rs: "rules = [r1, r2, r3]"
    using assms(1) unfolding namespaces_ok_def by (auto simp: length_Suc_conv numeral_3_eq_3)
  with assms show ?thesis by (auto simp: scoped_def namespaces_ok_def namespace_of_key simp del: append_Cons)
qed

lemma scoped_rule_unique:
  assumes "namespaces_ok rules" "(r, k) \<in> set (scoped key rules c i)" "(r', k) \<in> set (scoped key rules c' i')"
  shows "r' = r"
proof -
  have "rr_namespace r' = rr_namespace r" "r \<in> set rules" "r' \<in> set rules"
    using scoped_rules [OF assms(1,2)] scoped_rules [OF assms(1,3)] by auto
  then show ?thesis using assms(1) unfolding namespaces_ok_def by (auto simp: distinct_map inj_on_def)
qed

lemma scoped_distinct:
  assumes "namespaces_ok rules"
  shows "distinct (map snd (scoped key rules c i))" "map fst (scoped key rules c i) = rules"
proof -
  obtain r1 r2 r3 where rs: "rules = [r1, r2, r3]"
    using assms unfolding namespaces_ok_def by (auto simp: length_Suc_conv numeral_3_eq_3)
  have "x @ '':'' @ u \<noteq> y @ '':'' @ v" if "x \<noteq> y" "CHR '':'' \<notin> set x" "CHR '':'' \<notin> set y" for x y u v :: string
    using that namespace_of_key by metis
  with assms show "distinct (map snd (scoped key rules c i))" unfolding namespaces_ok_def by (auto simp: rs scoped_def)
  show "map fst (scoped key rules c i) = rules" by (simp add: rs scoped_def)
qed

text \<open>
  What the log holds at a time: under the key of a rule, the accepted attempts but for some that left the
  window; the accepted attempts of each key are in order and none is later than the last reading.
\<close>

definition log_of :: "instant \<Rightarrow> rate_rule \<Rightarrow> int list \<Rightarrow> int list \<Rightarrow> bool" where
  "log_of now r ts es \<longleftrightarrow> sorted ts \<and> (\<forall>t\<in>set ts. t \<le> now) \<and>
     (\<exists>old. ts = old @ es \<and> (\<forall>t\<in>set old. t \<le> now - rr_window r))"

lemma log_of_later: "log_of now r ts es \<Longrightarrow> now \<le> now' \<Longrightarrow> log_of now' r ts es"
  unfolding log_of_def by force

lemma log_of_prune:
  assumes "log_of now r ts es"
  shows "log_of now r ts (prune now r es)" "length (prune now r es) = in_window now r ts"
proof -
  from assms obtain old where o: "ts = old @ es" "\<forall>t\<in>set old. t \<le> now - rr_window r" and s: "sorted ts" "\<forall>t\<in>set ts. t \<le> now"
    unfolding log_of_def by blast
  have es: "es = takeWhile (\<lambda>t. t \<le> now - rr_window r) es @ prune now r es" by (simp add: prune_def)
  have "\<forall>t\<in>set (old @ takeWhile (\<lambda>t. t \<le> now - rr_window r) es). t \<le> now - rr_window r"
    using o(2) by (auto dest: set_takeWhileD)
  then show "log_of now r ts (prune now r es)" unfolding log_of_def using s o(1) es by (metis append.assoc)
  have "sorted es" using s(1) o(1) by (simp add: sorted_append)
  then have "\<forall>t\<in>set (prune now r es). now - rr_window r < t"
    unfolding prune_def by (induction es) (auto simp: not_le intro: less_le_trans)
  moreover have "\<forall>t\<in>set (prune now r es). t \<le> now" using s(2) o(1) by (auto simp: prune_def dest: set_dropWhileD)
  ultimately have "filter (\<lambda>t. now - rr_window r < t \<and> t \<le> now) (prune now r es) = prune now r es" by (simp add: filter_id_conv)
  moreover have "filter (\<lambda>t. now - rr_window r < t \<and> t \<le> now) (old @ takeWhile (\<lambda>t. t \<le> now - rr_window r) es) = []"
    using o(2) by (auto simp: filter_empty_conv dest: set_takeWhileD)
  ultimately show "length (prune now r es) = in_window now r ts"
    unfolding in_window_def o(1) by (subst es) simp
qed

lemma log_of_accept:
  assumes "log_of now r ts es"
  shows "log_of now r (ts @ [now]) (es @ [now])"
  using assms unfolding log_of_def by (auto simp: sorted_append)

text \<open>What a pass over the rules prunes, and when it lets the attempt through.\<close>

lemma check_rules_pruned:
  assumes "check_rules now rs ev = (res, ev1)" "distinct (map snd rs)"
  shows "ev1 k = ev k \<or> (\<exists>r. (r, k) \<in> set rs \<and> ev1 k = prune now r (ev k))"
  using assms
proof (induction rs arbitrary: ev)
  case (Cons x rs)
  obtain r j where x: "x = (r, j)" by (cases x)
  let ?ev = "ev(j := prune now r (ev j))"
  show ?case
  proof (cases "rr_limit r \<le> length (prune now r (ev j))")
    case True
    with Cons.prems(1) x have "ev1 = ?ev" by (simp add: Let_def)
    then show ?thesis by (cases "k = j") (auto simp: x)
  next
    case False
    with Cons.prems(1) x have "check_rules now rs ?ev = (res, ev1)" by (simp add: Let_def)
    from Cons.IH [OF this] Cons.prems(2) x show ?thesis by (cases "k = j") force+
  qed
qed simp

lemma check_rules_passes:
  assumes "distinct (map snd rs)"
  shows "fst (check_rules now rs ev) = None \<longleftrightarrow> (\<forall>(r, k)\<in>set rs. length (prune now r (ev k)) < rr_limit r)"
  using assms
proof (induction rs arbitrary: ev)
  case (Cons x rs)
  obtain r j where x: "x = (r, j)" by (cases x)
  have "fst (check_rules now rs (ev(j := prune now r (ev j)))) = None \<longleftrightarrow>
      (\<forall>(r', k)\<in>set rs. length (prune now r' ((ev(j := prune now r (ev j))) k)) < rr_limit r')"
    using Cons by simp
  also have "\<dots> \<longleftrightarrow> (\<forall>(r', k)\<in>set rs. length (prune now r' (ev k)) < rr_limit r')"
    using Cons.prems x by (intro ball_cong) force+
  finally show ?case using x by (auto simp: Let_def not_le)
qed simp

lemma accepted_log:
  "distinct ks \<Longrightarrow> fold (\<lambda>k ev. ev(k := ev k @ [now])) ks ev k = (if k \<in> set ks then ev k @ [now] else ev k)"
  for ev :: rate_events
  by (induction ks arbitrary: ev) auto

definition log_ok :: "(string \<Rightarrow> string) \<Rightarrow> rate_rule list \<Rightarrow> instant \<Rightarrow> attempt list \<Rightarrow> rate_events \<Rightarrow> bool" where
  "log_ok key rules now acc ev \<longleftrightarrow>
     (\<forall>c i. \<forall>(r, k)\<in>set (scoped key rules c i). log_of now r (counted key rules k acc) (ev k))"

lemma log_okD: "log_ok key rules now acc ev \<Longrightarrow> (r, k) \<in> set (scoped key rules c i) \<Longrightarrow> log_of now r (counted key rules k acc) (ev k)"
  unfolding log_ok_def by blast

lemma log_ok_later: "log_ok key rules now acc ev \<Longrightarrow> now \<le> now' \<Longrightarrow> log_ok key rules now' acc ev"
  unfolding log_ok_def using log_of_later by fast

lemma log_ok_pruned:
  assumes "log_ok key rules now acc ev" "check_rules now (scoped key rules c i) ev = (res, ev1)" "namespaces_ok rules"
  shows "log_ok key rules now acc ev1"
  unfolding log_ok_def
proof (intro allI ballI, clarify)
  fix c' i' r k assume k: "(r, k) \<in> set (scoped key rules c' i')"
  note l = log_okD [OF assms(1) k]
  from check_rules_pruned [OF assms(2) scoped_distinct(1) [OF assms(3)], of k]
  show "log_of now r (counted key rules k acc) (ev1 k)"
  proof (elim disjE exE conjE)
    fix r' assume r': "(r', k) \<in> set (scoped key rules c i)" "ev1 k = prune now r' (ev k)"
    with scoped_rule_unique [OF assms(3) k r'(1)] log_of_prune(1) [OF l] show ?thesis by simp
  qed (use l in simp)
qed

lemma counted_snoc:
  "counted key rules k (acc @ [(now, c, i)]) =
     counted key rules k acc @ (if k \<in> snd ` set (scoped key rules c i) then [now] else [])"
  by (simp add: counted_def)

text \<open>A check: it accepts when every window has room, and keeps the log.\<close>

lemma check_accepts:
  assumes "log_ok key rules now acc ev" "namespaces_ok rules"
  shows "fst (check now (scoped key rules c i) ev) = Inr () \<longleftrightarrow>
    (\<forall>(r, k)\<in>set (scoped key rules c i). in_window now r (counted key rules k acc) < rr_limit r)"
proof -
  have "fst (check now (scoped key rules c i) ev) = Inr () \<longleftrightarrow> fst (check_rules now (scoped key rules c i) ev) = None"
    by (auto simp: check_def split: prod.split option.split)
  also have "\<dots> \<longleftrightarrow> (\<forall>(r, k)\<in>set (scoped key rules c i). length (prune now r (ev k)) < rr_limit r)"
    by (rule check_rules_passes [OF scoped_distinct(1) [OF assms(2)]])
  also have "\<dots> \<longleftrightarrow> (\<forall>(r, k)\<in>set (scoped key rules c i). in_window now r (counted key rules k acc) < rr_limit r)"
    using log_of_prune(2) [OF log_okD [OF assms(1)]] by (intro ball_cong) auto
  finally show ?thesis .
qed

lemma check_keeps_log:
  assumes "log_ok key rules now acc ev" "namespaces_ok rules" "check now (scoped key rules c i) ev = (res, ev')"
  shows "log_ok key rules now (if isl res then acc else acc @ [(now, c, i)]) ev'"
proof -
  obtain a ev1 where a: "check_rules now (scoped key rules c i) ev = (a, ev1)" by force
  note l = log_ok_pruned [OF assms(1) a assms(2)]
  show ?thesis
  proof (cases a)
    case (Some n)
    with a assms(3) l show ?thesis by (auto simp: check_def)
  next
    case None
    with a assms(3) have res: "res = Inr ()" "ev' = fold (\<lambda>k ev. ev(k := ev k @ [now])) (map snd (scoped key rules c i)) ev1"
      by (auto simp: check_def)
    have "log_of now r (counted key rules k (acc @ [(now, c, i)])) (ev' k)" if k: "(r, k) \<in> set (scoped key rules c' i')" for c' i' r k
      using log_of_accept [OF log_okD [OF l k]] log_okD [OF l k]
      by (simp add: counted_snoc res(2) accepted_log [OF scoped_distinct(1) [OF assms(2)]])
    with res(1) show ?thesis unfolding log_ok_def by auto
  qed
qed

text \<open>No window ever holds more than the limit.\<close>

definition within_limits :: "(string \<Rightarrow> string) \<Rightarrow> rate_rule list \<Rightarrow> attempt list \<Rightarrow> bool" where
  "within_limits key rules acc \<longleftrightarrow>
     (\<forall>c i t. \<forall>(r, k)\<in>set (scoped key rules c i). in_window t r (counted key rules k acc) \<le> rr_limit r)"

lemma in_window_snoc:
  assumes "\<forall>t\<in>set ts. t \<le> now" "in_window now r ts < n" "\<forall>t. in_window t r ts \<le> n"
  shows "in_window t r (ts @ [now]) \<le> n"
proof (cases "t - rr_window r < now \<and> now \<le> t")
  case True
  then have "filter (\<lambda>u. t - rr_window r < u \<and> u \<le> t) ts = filter (\<lambda>u. t - rr_window r < u \<and> u \<le> t) (filter (\<lambda>u. now - rr_window r < u \<and> u \<le> now) ts)"
    using assms(1) by (auto intro!: filter_cong)
  then have "in_window t r ts \<le> in_window now r ts" unfolding in_window_def by (metis length_filter_le)
  then show ?thesis using True assms(2) by (simp add: in_window_def)
next
  case False
  then have "in_window t r (ts @ [now]) = in_window t r ts" unfolding in_window_def by simp
  then show ?thesis using assms(3) by simp
qed

lemma check_keeps_limits:
  assumes "within_limits key rules acc" "log_ok key rules now acc ev" "namespaces_ok rules"
    "check now (scoped key rules c i) ev = (Inr u, ev')"
  shows "within_limits key rules (acc @ [(now, c, i)])"
  unfolding within_limits_def
proof (intro allI ballI, clarify)
  fix c' i' t r k assume k: "(r, k) \<in> set (scoped key rules c' i')"
  have old: "in_window t r (counted key rules k acc) \<le> rr_limit r" for t
    using assms(1) k unfolding within_limits_def by blast
  show "in_window t r (counted key rules k (acc @ [(now, c, i)])) \<le> rr_limit r"
  proof (cases "k \<in> snd ` set (scoped key rules c i)")
    case True
    then obtain r' where r': "(r', k) \<in> set (scoped key rules c i)" by auto
    with scoped_rule_unique [OF assms(3) k] have "(r, k) \<in> set (scoped key rules c i)" by blast
    with check_accepts [OF assms(2,3), of c i] assms(4) have "in_window now r (counted key rules k acc) < rr_limit r" by auto
    moreover have "\<forall>t\<in>set (counted key rules k acc). t \<le> now" using log_okD [OF assms(2) k] by (simp add: log_of_def)
    ultimately show ?thesis using in_window_snoc old True by (simp add: counted_snoc)
  qed (use old in \<open>simp add: counted_snoc\<close>)
qed

lemma limiter_run_keeps:
  assumes "limiter_run key rules as ev = (acc, ev')" "log_ok key rules now0 acc0 ev" "within_limits key rules acc0" "namespaces_ok rules"
    "sorted (map fst as)" "\<forall>a\<in>set as. now0 \<le> fst a \<and> fst a \<le> now" "now0 \<le> now"
  shows "log_ok key rules now (acc0 @ acc) ev' \<and> within_limits key rules (acc0 @ acc)"
  using assms
proof (induction as arbitrary: ev acc now0 acc0)
  case Nil
  then show ?case using log_ok_later by auto
next
  case (Cons a as)
  obtain t c i where a: "a = (t, c, i)" by (cases a)
  have t: "now0 \<le> t" "t \<le> now" using Cons.prems(6) a by auto
  note l = log_ok_later [OF Cons.prems(2) t(1)]
  have later: "sorted (map fst as)" "\<forall>a\<in>set as. t \<le> fst a \<and> fst a \<le> now" using Cons.prems(5,6) a by auto
  obtain res ev1 where ch: "check t (scoped key rules c i) ev = (res, ev1)" by force
  note l1 = check_keeps_log [OF l Cons.prems(4) ch]
  show ?case
  proof (cases res)
    case (Inl n)
    with Cons.prems(1) a ch have "limiter_run key rules as ev1 = (acc, ev')" by simp
    from Cons.IH [OF this _ Cons.prems(3,4) later t(2)] l1 Inl show ?thesis by simp
  next
    case (Inr u)
    with Cons.prems(1) a ch obtain acc1 where r: "limiter_run key rules as ev1 = (acc1, ev')" "acc = (t, c, i) # acc1"
      by (auto split: prod.splits)
    have w: "within_limits key rules (acc0 @ [(t, c, i)])" by (rule check_keeps_limits [OF Cons.prems(3) l Cons.prems(4) ch [unfolded Inr]])
    from Cons.IH [OF r(1) _ w Cons.prems(4) later t(2)] l1 Inr r(2) show ?thesis by simp
  qed
qed

text \<open>C33. The limiter is a sliding window: after any run of attempts under a clock that does not go back, an
  attempt is refused exactly when for its address or its identifier as many attempts as a rule allows were
  accepted within the rule's window before it; what was pruned never mattered. So no window, wherever it
  ends, ever holds more accepted attempts of a key than its limit.\<close>

theorem limiter_is_a_sliding_window:
  assumes "limiter_run key rules as (\<lambda>_. []) = (acc, ev)" "namespaces_ok rules" "sorted (map fst as)" "\<forall>a\<in>set as. fst a \<le> now"
  shows "(isl (fst (check now (scoped key rules client identifier) ev)) \<longleftrightarrow>
      (\<exists>(r, k)\<in>set (scoped key rules client identifier). rr_limit r \<le> in_window now r (counted key rules k acc))) \<and>
    (\<forall>(r, k)\<in>set (scoped key rules client identifier). \<forall>t. in_window t r (counted key rules k acc) \<le> rr_limit r)"
proof -
  obtain now0 where now0: "now0 = Min (insert now (fst ` set as))" by blast
  have low: "now0 \<le> now" "\<forall>a\<in>set as. now0 \<le> fst a \<and> fst a \<le> now" unfolding now0 using assms(4) by auto
  have "log_ok key rules now0 [] (\<lambda>_. [])" by (auto simp: log_ok_def log_of_def counted_def)
  moreover have "within_limits key rules []" by (auto simp: within_limits_def counted_def in_window_def)
  ultimately have k: "log_ok key rules now acc ev" "within_limits key rules acc"
    using limiter_run_keeps [where ?acc0.0 = "[]", OF assms(1) _ _ assms(2,3) low(2,1)] by simp_all
  have "isl x \<longleftrightarrow> x \<noteq> Inr ()" for x :: "int + unit" by (cases x) auto
  then show ?thesis using check_accepts [OF k(1) assms(2), where c = client and i = "identifier"] k(2) unfolding within_limits_def
    by (fastforce simp: not_less)
qed

theorem limiter_is_a_sliding_window_witness:
  "fst (limiter_run id (auth_rules 1 5 5) [(0, ''ip'', ''ada''), (10000000, ''ip'', ''bob'')] (\<lambda>_. [])) = [(0, ''ip'', ''ada'')] \<and>
   in_window 10000000 \<lparr>rr_namespace = ''ip-minute'', rr_limit = 1, rr_window = seconds 60\<rparr> [0] \<le> 1"
proof -
  let ?xs = "[(0, ''ip'', ''ada''), (10000000, ''ip'', ''bob'')] :: attempt list"
  let ?r = "limiter_run id (auth_rules 1 5 5) ?xs (\<lambda>_. [])"
  have run: "?r = (fst ?r, snd ?r)" by simp
  have acc: "fst ?r = [(0, ''ip'', ''ada'')]" by code_simp
  have s: "sorted (map fst ?xs)" "\<forall>a\<in>set ?xs. fst a \<le> (10000000::int)" by simp_all
  have k: "(\<lparr>rr_namespace = ''ip-minute'', rr_limit = 1, rr_window = seconds 60\<rparr>, ''ip-minute:ip'') \<in> set (scoped id (auth_rules 1 5 5) ''ip'' ''bob'')"
    "counted id (auth_rules 1 5 5) ''ip-minute:ip'' [(0, ''ip'', ''ada'')] = [0]" by code_simp+
  from limiter_is_a_sliding_window [OF run auth_rules_ok(1) s, of "''ip''" "''bob''"] k acc show ?thesis by fastforce
qed

end
