(* ===== verification/Record_Store.thy ===== *)
theory Record_Store
  imports Dot_Samples
begin

text \<open>
  The contract of the data operations: the records of an app are a map from identifiers to an entity, the
  fields and a version, which a creation extends, an update patches at the version it names, and a deletion
  shrinks. Every run of the operations carries out, on that map, exactly the operations it answered to.
\<close>

section \<open>The abstract store\<close>

type_synonym stored = "string \<times> (string \<Rightarrow> json option) \<times> int"

type_synonym store = "uuid \<Rightarrow> uuid \<Rightarrow> stored option"

datatype store_op =
    Nop
  | Put uuid uuid string obj
  | Patch uuid uuid int obj
  | Drop uuid uuid int

definition patch :: "obj \<Rightarrow> (string \<Rightarrow> json option) \<Rightarrow> string \<Rightarrow> json option" where
  "patch changes m = foldl (\<lambda>m (k, v). m(k := (if v = JNull then None else Some v))) m changes"

fun run_op :: "store_op \<Rightarrow> store \<Rightarrow> store option" where
  "run_op Nop s = Some s"
| "run_op (Put a i e fs) s =
     (if s a i \<noteq> None then None else Some (s(a := (s a)(i \<mapsto> (e, map_of fs, 1)))))"
| "run_op (Patch a i v changes) s =
     (case s a i of None \<Rightarrow> None
      | Some (e, m, w) \<Rightarrow> if w = v then Some (s(a := (s a)(i \<mapsto> (e, patch changes m, v + 1)))) else None)"
| "run_op (Drop a i v) s =
     (case s a i of None \<Rightarrow> None
      | Some (e, m, w) \<Rightarrow> if w = v then Some (s(a := (s a)(i := None))) else None)"

fun run_ops :: "store_op list \<Rightarrow> store \<Rightarrow> store option" where
  "run_ops [] s = Some s"
| "run_ops (x # xs) s = (case run_op x s of None \<Rightarrow> None | Some t \<Rightarrow> run_ops xs t)"

lemma run_ops_snoc: "run_ops (xs @ [x]) s = (case run_ops xs s of None \<Rightarrow> None | Some t \<Rightarrow> run_op x t)"
  by (induction xs arbitrary: s) (auto split: option.splits)

section \<open>The abstraction\<close>

definition stored_of :: "data_row \<Rightarrow> stored" where
  "stored_of r = (dr_entity r, map_of (dr_data r), dr_version r)"

definition store_of :: "db \<Rightarrow> store" where
  "store_of d a i = map_option stored_of (find_record d a i)"

lemma find_record_iff:
  assumes "distinct (map dr_id (db_records d))"
  shows "find_record d a i = Some r \<longleftrightarrow> r \<in> set (db_records d) \<and> dr_id r = i \<and> dr_app r = a"
proof
  assume "r \<in> set (db_records d) \<and> dr_id r = i \<and> dr_app r = a"
  then have r: "r \<in> set (db_records d)" "dr_id r = i" "dr_app r = a" by auto
  then obtain q where q: "find_record d a i = Some q"
    by (cases "find_record d a i") (auto simp: find_record_def find_None_iff)
  have "q = r" using find_record_Some [OF q] r assms by (metis row_by_distinct option.inject)
  with q show "find_record d a i = Some r" by simp
qed (use find_record_Some in blast)

lemma store_of_iff:
  assumes "distinct (map dr_id (db_records d))"
  shows "store_of d a i = Some s \<longleftrightarrow> (\<exists>r\<in>set (db_records d). dr_id r = i \<and> dr_app r = a \<and> s = stored_of r)"
  using find_record_iff [OF assms] by (auto simp: store_of_def)

text \<open>Two states whose records correspond have corresponding stores.\<close>

lemma store_eqI:
  assumes "\<And>b j s. t b j = Some s \<longleftrightarrow> u b j = Some (s::stored)"
  shows "t = (u::store)"
  using assms by (intro ext) (metis option.exhaust)

lemma merge_data_patch: "map_of (merge_data m changes) = patch changes (map_of m)"
  unfolding merge_data_def patch_def
  by (induction changes arbitrary: m) (auto simp: delete_conv' update_conv' split: if_splits)

section \<open>Each operation\<close>

definition create_op :: "uuid \<Rightarrow> record_result \<Rightarrow> db \<Rightarrow> db \<Rightarrow> store_op" where
  "create_op a res d d' =
     (if d' = d then Nop else Put a (sr_id (shown_record res)) (sr_entity (shown_record res)) (sr_data (shown_record res)))"

definition update_op :: "uuid \<Rightarrow> uuid \<Rightarrow> int \<Rightarrow> json \<Rightarrow> db \<Rightarrow> db \<Rightarrow> store_op" where
  "update_op a i expected data d d' = (if d' = d then Nop else Patch a i expected (dict_or_empty data))"

definition delete_op :: "uuid \<Rightarrow> uuid \<Rightarrow> int \<Rightarrow> db \<Rightarrow> db \<Rightarrow> store_op" where
  "delete_op a i expected d d' = (if d' = d then Nop else Drop a i expected)"

lemma data_ok_ids: "data_ok d \<Longrightarrow> distinct (map dr_id (db_records d))"
  by (simp add: data_ok_def)

lemma create_refines:
  assumes "create_data_record sha now d a act entity data key = Inr (res, d')" "data_ok d"
  shows "run_op (create_op a res d d') (store_of d) = Some (store_of d')"
proof (cases "d' = d")
  case False
  with create_data_record_Inr [OF assms(1)] obtain actor e ob k h where
    i: "insert_record now d a actor e ob k h = Inr (res, d')" "text_value (JStr k) 160 = Inr k" by blast
  from i obtain r where r: "dr_id r = db_next d" "dr_app r = a" "dr_version r = 1" "res = LiveRecord r"
    "db_records d' = db_records d @ [r]"
    by (rule insert_record_Inr) (rule that, simp_all)
  have ok: "data_ok d'" using data_step_keeps [OF step_create [OF assms(1)]] assms(2) by blast
  have fresh: "\<forall>q\<in>set (db_records d). dr_id q < db_next d" using assms(2) by (simp add: data_ok_def row_ok_def)
  have none: "store_of d a (db_next d) = None"
    using fresh by (auto simp: store_of_def find_record_def find_None_iff)
  have "store_of d' = (store_of d)(a := (store_of d a)(db_next d \<mapsto> stored_of r))"
    using fresh r(1,2) by (intro store_eqI)
      (auto simp: store_of_iff [OF data_ok_ids [OF ok]] store_of_iff [OF data_ok_ids [OF assms(2)]] r(5))
  with none False r show ?thesis by (simp add: create_op_def record_snapshot_def stored_of_def)
qed (simp add: create_op_def)

lemma update_refines:
  assumes "update_data_record sha now d a i act expected data key = Inr (res, d')" "data_ok d"
  shows "run_op (update_op a i expected data d d') (store_of d) = Some (store_of d')"
proof (cases "d' = d")
  case False
  with update_data_record_Inr [OF assms(1)] obtain actor ob k h where
    c: "change_record now d a actor i expected ob k h = Inr (res, d')" "text_value (JStr k) 160 = Inr k"
      "update_request sha i expected data key = Inr (ob, k, h)" by blast
  from c(3) have ob: "dict_or_empty data = ob" by (cases data) (auto simp: update_request_def bindR_Inr)
  obtain r xs ys where
    r: "find_record d a i = Some r" "dr_version r = expected" "db_records d = xs @ r # ys"
      "db_records d' = xs @ changed_row now actor ob r # ys"
    by (rule change_record_Inr [OF c(1,2) data_ok_ids [OF assms(2)]]) (rule that, simp_all)
  let ?r = "changed_row now actor ob r"
  have ok: "data_ok d'" using data_step_keeps [OF step_update [OF assms(1)]] assms(2) by blast
  have id: "dr_id r = i" "dr_app r = a" using find_record_Some [OF r(1)] by auto
  have "\<forall>q\<in>set xs \<union> set ys. dr_id q \<noteq> i" using data_ok_ids [OF assms(2)] r(3) id by (auto simp: image_iff)
  then have "store_of d' = (store_of d)(a := (store_of d a)(i \<mapsto> stored_of ?r))"
    using id by (intro store_eqI)
      (auto simp: store_of_iff [OF data_ok_ids [OF ok]] store_of_iff [OF data_ok_ids [OF assms(2)]] r(3,4))
  moreover have "store_of d a i = Some (stored_of r)" using r(1) by (simp add: store_of_def)
  ultimately show ?thesis using False r(2) by (simp add: update_op_def stored_of_def ob merge_data_patch)
qed (simp add: update_op_def)

lemma delete_refines:
  assumes "delete_data_record sha now d a i act expected key = Inr (u, d')" "data_ok d"
  shows "run_op (delete_op a i expected d d') (store_of d) = Some (store_of d')"
proof (cases "d' = d")
  case False
  with delete_data_record_Inr [OF assms(1)] obtain r q where
    r: "find_record d a i = Some r" and q: "q \<in> set (db_records d)" "dr_id q = i" "dr_app q = a" "dr_version q = expected" and
    d': "db_records d' = delete_where (\<lambda>r. dr_id r = i \<and> dr_app r = a \<and> dr_version r = expected) (db_records d)" by auto
  note dis = data_ok_ids [OF assms(2)]
  have ok: "data_ok d'" using data_step_keeps [OF step_delete [OF assms(1)]] assms(2) by blast
  have "r = q" using r q unfolding find_record_iff [OF dis] by (metis dis row_by_distinct option.inject)
  have only: "x = q" if "x \<in> set (db_records d)" "dr_id x = i" for x
    using that q dis by (metis row_by_distinct option.inject)
  have mem: "x \<in> set (db_records d') \<longleftrightarrow> x \<in> set (db_records d) \<and> x \<noteq> q" for x
    unfolding d' in_set_delete_where using only q by blast
  have "store_of d' = (store_of d)(a := (store_of d a)(i := None))"
  proof (rule store_eqI)
    fix b j s
    show "store_of d' b j = Some s \<longleftrightarrow> ((store_of d)(a := (store_of d a)(i := None))) b j = Some s"
    proof (cases "b = a \<and> j = i")
      case True
      have "store_of d' a i \<noteq> Some s" unfolding store_of_iff [OF data_ok_ids [OF ok]] using only mem by blast
      with True show ?thesis by simp
    next
      case False
      then have "((store_of d)(a := (store_of d a)(i := None))) b j = store_of d b j" by auto
      moreover have "store_of d' b j = Some s \<longleftrightarrow> store_of d b j = Some s"
        unfolding store_of_iff [OF data_ok_ids [OF ok]] store_of_iff [OF dis] using False q(2,3) mem by blast
      ultimately show ?thesis by simp
    qed
  qed
  moreover have "store_of d a i = Some (stored_of q)" using r \<open>r = q\<close> by (simp add: store_of_def)
  ultimately show ?thesis using False q(4) by (simp add: delete_op_def stored_of_def)
qed (simp add: delete_op_def)

section \<open>Runs\<close>

text \<open>A run of data operations with the operations on the store it answered to.\<close>

inductive data_trace :: "(string \<Rightarrow> string) \<Rightarrow> db \<Rightarrow> store_op list \<Rightarrow> db \<Rightarrow> bool" for sha where
  dt_none: "data_trace sha d [] d"
| dt_create: "data_trace sha d ops d1 \<Longrightarrow> create_data_record sha now d1 a act entity data key = Inr (res, d2) \<Longrightarrow>
    data_trace sha d (ops @ [create_op a res d1 d2]) d2"
| dt_update: "data_trace sha d ops d1 \<Longrightarrow> update_data_record sha now d1 a i act expected data key = Inr (res, d2) \<Longrightarrow>
    data_trace sha d (ops @ [update_op a i expected data d1 d2]) d2"
| dt_delete: "data_trace sha d ops d1 \<Longrightarrow> delete_data_record sha now d1 a i act expected key = Inr (u, d2) \<Longrightarrow>
    data_trace sha d (ops @ [delete_op a i expected d1 d2]) d2"

text \<open>C32. The data operations implement a versioned store: seen as maps from record identifiers to entity,
  fields and version, the records after any run are what the operations it answered to make of the records
  before: a creation puts the record it returned under an unused identifier at version one, an update patches
  the fields of the version it named and raises it by one, a deletion removes the version it named, and an
  answer replayed from the journal does nothing.\<close>

theorem records_refine_store:
  assumes "data_trace sha d ops d'" "data_ok d"
  shows "run_ops ops (store_of d) = Some (store_of d')"
proof -
  from assms have "data_ok d' \<and> run_ops ops (store_of d) = Some (store_of d')"
  proof (induction rule: data_trace.induct)
    case (dt_create d ops d1 now a act entity data key res d2)
    then show ?case using create_refines data_step_keeps [OF step_create] by (auto simp: run_ops_snoc)
  next
    case (dt_update d ops d1 now a i act expected data key res d2)
    then show ?case using update_refines data_step_keeps [OF step_update] by (auto simp: run_ops_snoc)
  next
    case (dt_delete d ops d1 now a i act expected key u d2)
    then show ?case using delete_refines data_step_keeps [OF step_delete] by (auto simp: run_ops_snoc)
  qed simp
  then show ?thesis by blast
qed

theorem records_refine_store_witness:
  "run_ops [Put 10 100 ''chores'' [(''title'', JStr ''dishes''), (''done'', JBool False)], Patch 10 100 1 [(''done'', JBool True)]]
     (store_of sample_db) = Some (store_of updated_db)"
proof -
  have n: "length (db_events sample_db) = 0" "length (db_events created_db) = 1" "length (db_events updated_db) = 2" by code_simp+
  then have "created_db \<noteq> sample_db" "updated_db \<noteq> created_db" by auto
  with dt_update [OF dt_create [OF dt_none created_run] updated_run] have
    t: "data_trace id sample_db [Put 10 100 ''chores'' [(''title'', JStr ''dishes''), (''done'', JBool False)],
      Patch 10 100 1 [(''done'', JBool True)]] updated_db"
    by (simp add: create_op_def update_op_def record_snapshot_def)
  show ?thesis by (rule records_refine_store [OF t data_ok_sample])
qed

end
