(* ===== verification/Waitlist.thy ===== *)
theory Waitlist
  imports Users Dot_Text
begin

text \<open>
  The waitlist (\<open>services/waitlist.py\<close>): joining under a normalised e-mail address with a referral code, and
  the standing of an entry, ranked by referrals, then by time. The table is a state of its own. \<open>codes\<close> are
  the candidates of \<open>secrets.token_urlsafe\<close>, one per attempt; an insertion whose code is taken is the
  savepoint that is rolled back, after which the next code is tried. Concurrent insertion of the same
  address, which the same handler also covers, does not occur in an atomic step.
\<close>

section \<open>The table\<close>

record waitlist_entry =
  we_id :: uuid
  we_email :: string
  we_code :: string
  we_referrer :: "uuid option"
  we_source :: "string option"
  we_utm :: "string option list"
  we_created :: instant

record waitlist =
  wl_next :: uuid
  wl_entries :: "waitlist_entry list"

datatype waitlist_error =
    WaitlistValue
  | WaitlistEntryNotFound
  | NoReferralCode

record waitlist_result =
  wr_entry :: waitlist_entry
  wr_joined :: bool
  wr_position :: int
  wr_referrals :: int

definition REFERRAL_CODE_ATTEMPTS :: nat where
  "REFERRAL_CODE_ATTEMPTS = 5"

section \<open>Text\<close>

definition waitlist_text :: "string option \<Rightarrow> nat \<Rightarrow> waitlist_error + string option" where
  "waitlist_text value max_length =
     (case value of
        None \<Rightarrow> Inr None
      | Some v \<Rightarrow>
          let clean = join '' '' (py_split v) in
          if clean = [] then Inr None
          else if max_length < length clean then Inl WaitlistValue
          else Inr (Some clean))"

section \<open>Standing\<close>

definition referral_count :: "waitlist_entry list \<Rightarrow> waitlist_entry \<Rightarrow> int" where
  "referral_count es e = count_where (\<lambda>x. we_referrer x = Some (we_id e)) es"

definition rank_key :: "waitlist_entry list \<Rightarrow> waitlist_entry \<Rightarrow> int \<times> instant \<times> uuid" where
  "rank_key es e = (- referral_count es e, we_created e, we_id e)"

definition position :: "waitlist_entry list \<Rightarrow> waitlist_entry \<Rightarrow> int" where
  "position es e = 1 + int (length (takeWhile (\<lambda>x. we_id x \<noteq> we_id e) (sort_key (rank_key es) es)))"

definition waitlist_standing :: "waitlist \<Rightarrow> waitlist_entry \<Rightarrow> bool \<Rightarrow> waitlist_result" where
  "waitlist_standing w e joined =
     \<lparr>wr_entry = e, wr_joined = joined, wr_position = position (wl_entries w) e,
      wr_referrals = referral_count (wl_entries w) e\<rparr>"

section \<open>Operations\<close>

definition entry_by_email :: "waitlist \<Rightarrow> string \<Rightarrow> waitlist_entry option" where
  "entry_by_email w email = find (\<lambda>e. we_email e = email) (wl_entries w)"

definition entry_by_referral_code :: "waitlist \<Rightarrow> string option \<Rightarrow> waitlist_error + waitlist_entry option" where
  "entry_by_referral_code w code =
     bindR (waitlist_text code 64) (\<lambda>clean.
       Inr (case clean of None \<Rightarrow> None | Some c \<Rightarrow> find (\<lambda>e. we_code e = c) (wl_entries w)))"

fun allocate :: "waitlist \<Rightarrow> (string \<Rightarrow> waitlist_entry) \<Rightarrow> string list \<Rightarrow> waitlist_error + (waitlist_result \<times> waitlist)" where
  "allocate w entry [] = Inl NoReferralCode"
| "allocate w entry (code # codes) =
     (if code \<in> we_code ` set (wl_entries w) then allocate w entry codes
      else let w1 = w\<lparr>wl_next := wl_next w + 1, wl_entries := wl_entries w @ [entry code]\<rparr>
           in Inr (waitlist_standing w1 (entry code) True, w1))"

definition join_waitlist ::
  "identity_env \<Rightarrow> instant \<Rightarrow> (nat \<Rightarrow> string) \<Rightarrow> waitlist \<Rightarrow> string \<Rightarrow> string option \<Rightarrow> string option \<Rightarrow> string option list \<Rightarrow>
   waitlist_error + (waitlist_result \<times> waitlist)" where
  "join_waitlist en now codes w email referral_code source utm =
     (case normalize_email_address en email of
        Inl _ \<Rightarrow> Inl WaitlistValue
      | Inr normalized \<Rightarrow>
          (case entry_by_email w normalized of
             Some e \<Rightarrow> Inr (waitlist_standing w e False, w)
           | None \<Rightarrow>
               bindR (entry_by_referral_code w referral_code) (\<lambda>referrer.
               bindR (waitlist_text source 64) (\<lambda>clean_source.
               bindR (mapR (\<lambda>(v, n). waitlist_text v n) (zip utm [120, 120, 200, 200, 200])) (\<lambda>clean_utm.
                 allocate w
                   (\<lambda>code. \<lparr>we_id = wl_next w, we_email = normalized, we_code = code,
                            we_referrer = map_option we_id referrer, we_source = clean_source,
                            we_utm = clean_utm, we_created = now\<rparr>)
                   (map codes [0..<REFERRAL_CODE_ATTEMPTS]))))))"

definition get_waitlist_referral_stats :: "waitlist \<Rightarrow> string \<Rightarrow> waitlist_error + waitlist_result" where
  "get_waitlist_referral_stats w referral_code =
     bindR (entry_by_referral_code w (Some referral_code)) (\<lambda>e.
       case e of None \<Rightarrow> Inl WaitlistEntryNotFound | Some e \<Rightarrow> Inr (waitlist_standing w e False))"

section \<open>What is kept\<close>

definition waitlist_ok :: "waitlist \<Rightarrow> bool" where
  "waitlist_ok w \<longleftrightarrow> distinct (map we_id (wl_entries w)) \<and> distinct (map we_email (wl_entries w)) \<and>
     distinct (map we_code (wl_entries w)) \<and> (\<forall>e\<in>set (wl_entries w). we_id e < wl_next w) \<and>
     (\<forall>e\<in>set (wl_entries w). case we_referrer e of None \<Rightarrow> True | Some i \<Rightarrow> i < wl_next w)"

lemma allocate_Inr:
  assumes "allocate w entry codes = Inr (r, w')"
  obtains code where "code \<notin> we_code ` set (wl_entries w)" "code \<in> set codes"
    "w' = w\<lparr>wl_next := wl_next w + 1, wl_entries := wl_entries w @ [entry code]\<rparr>" "r = waitlist_standing w' (entry code) True"
  using assms by (induction codes) (auto simp: Let_def split: if_splits)

lemma join_waitlist_cases:
  assumes "join_waitlist en now codes w email referral source utm = Inr (r, w')"
  obtains e n where "normalize_email_address en email = Inr n" "entry_by_email w n = Some e" "w' = w" "r = waitlist_standing w e False"
  | n referrer e where "normalize_email_address en email = Inr n" "entry_by_email w n = None"
    "entry_by_referral_code w referral = Inr referrer" "we_id e = wl_next w" "we_email e = n" "we_created e = now"
    "we_referrer e = map_option we_id referrer" "we_code e \<notin> we_code ` set (wl_entries w)"
    "w' = w\<lparr>wl_next := wl_next w + 1, wl_entries := wl_entries w @ [e]\<rparr>" "r = waitlist_standing w' e True"
proof (cases "normalize_email_address en email")
  case (Inr n)
  show thesis
  proof (cases "entry_by_email w n")
    case None
    with assms Inr obtain referrer cs cu where r: "entry_by_referral_code w referral = Inr referrer"
      and a: "allocate w (\<lambda>code. \<lparr>we_id = wl_next w, we_email = n, we_code = code, we_referrer = map_option we_id referrer,
        we_source = cs, we_utm = cu, we_created = now\<rparr>) (map codes [0..<REFERRAL_CODE_ATTEMPTS]) = Inr (r, w')"
      by (auto simp: join_waitlist_def bindR_Inr)
    from a show thesis by (rule allocate_Inr) (rule that(2) [OF Inr None r], simp_all)
  next
    case (Some e)
    from assms have "w' = w" "r = waitlist_standing w e False" by (auto simp: join_waitlist_def Inr Some)
    then show thesis by (rule that(1) [OF Inr Some])
  qed
next
  case (Inl e)
  from assms show thesis by (simp add: join_waitlist_def Inl)
qed

lemma entry_by_referral_code_in:
  "entry_by_referral_code w code = Inr (Some e) \<Longrightarrow> e \<in> set (wl_entries w)"
  by (auto simp: entry_by_referral_code_def bindR_Inr split: option.splits dest: find_SomeD)

lemma join_waitlist_ok:
  assumes "join_waitlist en now codes w email referral source utm = Inr (r, w')" "waitlist_ok w"
  shows "waitlist_ok w'"
  using assms(1)
proof (cases rule: join_waitlist_cases)
  case (2 n referrer e)
  have n: "n \<notin> we_email ` set (wl_entries w)" using 2(2) by (auto simp: entry_by_email_def find_None_iff)
  have i: "\<forall>q\<in>set (wl_entries w). we_id q < wl_next w" using assms(2) by (simp add: waitlist_ok_def)
  have ref: "case we_referrer e of None \<Rightarrow> True | Some i \<Rightarrow> i < Suc (wl_next w)"
    using 2(3,7) i entry_by_referral_code_in by (cases referrer) (auto intro: less_SucI)
  have old: "\<forall>q\<in>set (wl_entries w). case we_referrer q of None \<Rightarrow> True | Some i \<Rightarrow> i < Suc (wl_next w)"
    using assms(2) by (fastforce simp: waitlist_ok_def split: option.splits)
  have dis: "distinct (map we_id (wl_entries w))" "distinct (map we_email (wl_entries w))" "distinct (map we_code (wl_entries w))"
    using assms(2) by (simp_all add: waitlist_ok_def)
  have new: "we_id e \<notin> we_id ` set (wl_entries w)" using i 2(4) by auto
  have w': "wl_next w' = Suc (wl_next w)" "wl_entries w' = wl_entries w @ [e]" using 2(9) by simp_all
  show ?thesis unfolding waitlist_ok_def w'
    using n i ref old dis new 2(4,5,8) by (simp add: less_SucI)
next
  case (1 e n)
  then show ?thesis using assms(2) by (simp only:)
qed

text \<open>The position counts the entries that rank before.\<close>

lemma position_counts:
  assumes "distinct (map we_id es)" "e \<in> set es"
  shows "position es e = 1 + int (length (filter (\<lambda>x. rank_key es x < rank_key es e) es))"
proof -
  let ?k = "rank_key es" and ?s = "sort_key (rank_key es) es"
  have inj: "?k x = ?k y \<Longrightarrow> we_id x = we_id y" for x y by (simp add: rank_key_def)
  have "e \<in> set ?s" using assms(2) by simp
  then obtain xs ys where s: "?s = xs @ e # ys" by (meson split_list)
  have d: "distinct (map we_id ?s)" using assms(1) by (simp add: distinct_map inj_on_def)
  have srt: "sorted (map ?k (xs @ e # ys))" using sorted_sort_key [of ?k es] s by simp
  have xs: "\<forall>x\<in>set xs. we_id x \<noteq> we_id e \<and> ?k x < ?k e"
  proof
    fix x assume x: "x \<in> set xs"
    have "?k x \<le> ?k e" using srt x by (auto simp: sorted_append)
    moreover have "we_id x \<noteq> we_id e" using d x unfolding s by (auto simp: image_iff)
    ultimately show "we_id x \<noteq> we_id e \<and> ?k x < ?k e" using inj by (metis order_le_less)
  qed
  have ys: "\<forall>y\<in>set (e # ys). \<not> ?k y < ?k e" using srt by (auto simp: sorted_append)
  have "takeWhile (\<lambda>x. we_id x \<noteq> we_id e) ?s = xs" unfolding s using xs by simp
  moreover have "filter (\<lambda>x. ?k x < ?k e) ?s = xs" unfolding s using xs ys by (simp add: filter_id_conv filter_empty_conv)
  moreover have "length (filter (\<lambda>x. ?k x < ?k e) ?s) = length (filter (\<lambda>x. ?k x < ?k e) es)"
    by (metis filter_sort length_sort)
  ultimately show ?thesis by (simp add: position_def)
qed

text \<open>Joining again, under any spelling of the address and with whatever referral code, answers with the
  entry that joined and changes nothing; an address has one entry.\<close>

theorem joining_is_idempotent:
  assumes "join_waitlist en now codes w email referral source utm = Inr (r, w')" "waitlist_ok w"
    "normalize_email_address en email' = normalize_email_address en email"
  shows "waitlist_ok w' \<and> (\<exists>r'. join_waitlist en now' codes' w' email' referral' source' utm' = Inr (r', w') \<and>
    wr_entry r' = wr_entry r \<and> \<not> wr_joined r' \<and> wr_position r' = wr_position r)"
  using assms(1)
proof (cases rule: join_waitlist_cases)
  case (1 e n)
  then show ?thesis using assms(2,3) by (simp add: join_waitlist_def waitlist_standing_def)
next
  case (2 n referrer e)
  have "entry_by_email w' n = Some e" using 2(2,5,9) by (simp add: entry_by_email_def find_append_None)
  then show ?thesis using join_waitlist_ok [OF assms(1,2)] 2(1,10) assms(3) by (simp add: join_waitlist_def waitlist_standing_def)
qed

definition ada_list :: waitlist where
  "ada_list = (case join_waitlist plain_env 5 (\<lambda>_. ''code'') \<lparr>wl_next = 1, wl_entries = []\<rparr> ''ada@example.com'' None None [] of
     Inl _ \<Rightarrow> \<lparr>wl_next = 1, wl_entries = []\<rparr> | Inr (_, w) \<Rightarrow> w)"

lemma ada_run: "\<exists>r. join_waitlist plain_env 5 (\<lambda>_. ''code'') \<lparr>wl_next = 1, wl_entries = []\<rparr> ''ada@example.com'' None None [] = Inr (r, ada_list)"
proof -
  let ?j = "join_waitlist plain_env 5 (\<lambda>_. ''code'') \<lparr>wl_next = 1, wl_entries = []\<rparr> ''ada@example.com'' None None []"
  have "\<not> isl ?j" by code_simp
  then show ?thesis by (cases ?j) (auto simp: ada_list_def)
qed

theorem joining_is_idempotent_witness:
  "\<exists>r. join_waitlist plain_env 9 (\<lambda>_. ''other'') ada_list ''  ada@example.com '' (Some ''code'') None [] = Inr (r, ada_list) \<and> \<not> wr_joined r"
proof -
  obtain r where r: "join_waitlist plain_env 5 (\<lambda>_. ''code'') \<lparr>wl_next = 1, wl_entries = []\<rparr> ''ada@example.com'' None None [] = Inr (r, ada_list)"
    using ada_run by blast
  have ok: "waitlist_ok \<lparr>wl_next = 1, wl_entries = []\<rparr>" by (simp add: waitlist_ok_def)
  have e: "normalize_email_address plain_env ''  ada@example.com '' = normalize_email_address plain_env ''ada@example.com''" by code_simp
  from joining_is_idempotent [OF r ok e] show ?thesis by blast
qed

text \<open>Referring someone never costs a place: when an address joins with the code of an entry, that entry has
  one referral more and stands no lower than before.\<close>

theorem referral_never_costs_a_place:
  assumes "join_waitlist en now codes w email (Some code) source utm = Inr (r, w')" "waitlist_ok w" "wr_joined r"
    "entry_by_referral_code w (Some code) = Inr (Some e)"
  shows "referral_count (wl_entries w') e = referral_count (wl_entries w) e + 1 \<and>
    position (wl_entries w') e \<le> position (wl_entries w) e"
  using assms(1)
proof (cases rule: join_waitlist_cases)
  case (2 n referrer x)
  have ref: "we_referrer x = Some (we_id e)"
  proof -
    have "referrer = Some e" using 2(3) assms(4) by simp
    then show ?thesis using 2(7) by simp
  qed
  have e: "e \<in> set (wl_entries w)" by (rule entry_by_referral_code_in [OF assms(4)])
  have es: "wl_entries w' = wl_entries w @ [x]" using 2(9) by simp
  have cnt: "referral_count (wl_entries w') q = referral_count (wl_entries w) q + (if we_id q = we_id e then 1 else 0)" for q
    by (auto simp: referral_count_def es ref)
  have ids: "distinct (map we_id (wl_entries w))" "distinct (map we_id (wl_entries w'))"
    using assms(2) join_waitlist_ok [OF assms(1,2)] by (simp_all add: waitlist_ok_def)
  let ?k = "rank_key (wl_entries w)" and ?k' = "rank_key (wl_entries w')"
  have ie: "we_id e < wl_next w" using e assms(2) by (simp add: waitlist_ok_def)
  have "\<forall>q\<in>set (wl_entries w). we_referrer q \<noteq> Some (we_id x)"
    using assms(2) 2(4) unfolding waitlist_ok_def by (auto split: option.splits)
  then have "referral_count (wl_entries w) x = 0" by (simp add: referral_count_def count_where_zero)
  then have "referral_count (wl_entries w') x = 0" using cnt [of x] 2(4) ie by simp
  moreover have "0 < referral_count (wl_entries w') e"
    using cnt [of e] count_where_nonneg [of "\<lambda>q. we_referrer q = Some (we_id e)" "wl_entries w"]
    by (simp add: referral_count_def [of "wl_entries w"])
  ultimately have x: "\<not> ?k' x < ?k' e" by (simp add: rank_key_def)
  have up: "?k' e < ?k e" using cnt [of e] by (simp add: rank_key_def)
  have "?k q < ?k e" if "?k' q < ?k' e" for q
  proof (cases "we_id q = we_id e")
    case False
    then have "?k' q = ?k q" using cnt [of q] by (simp add: rank_key_def)
    with that up show ?thesis by (metis order.strict_trans)
  next
    case True
    then have "referral_count (wl_entries w') q = referral_count (wl_entries w') e" "referral_count (wl_entries w) q = referral_count (wl_entries w) e"
      by (simp_all add: referral_count_def)
    with that True show ?thesis by (simp add: rank_key_def)
  qed
  then have "count_where (\<lambda>q. ?k' q < ?k' e) (wl_entries w) \<le> count_where (\<lambda>q. ?k q < ?k e) (wl_entries w)"
    by (intro count_where_mono)
  then have "count_where (\<lambda>q. ?k' q < ?k' e) (wl_entries w') \<le> count_where (\<lambda>q. ?k q < ?k e) (wl_entries w)"
    using x by (simp add: es)
  then show ?thesis
    using position_counts [OF ids(1) e] position_counts [OF ids(2), of e] e cnt [of e] by (simp add: es count_where_def)
qed (use assms(3) in \<open>simp add: waitlist_standing_def\<close>)

theorem referral_never_costs_a_place_witness:
  "\<exists>r w' e. join_waitlist plain_env 9 (\<lambda>_. ''other'') ada_list ''bob@example.com'' (Some ''code'') None [] = Inr (r, w') \<and>
     entry_by_referral_code ada_list (Some ''code'') = Inr (Some e) \<and> referral_count (wl_entries w') e = 1 \<and>
     position (wl_entries w') e \<le> position (wl_entries ada_list) e"
proof -
  let ?j = "join_waitlist plain_env 9 (\<lambda>_. ''other'') ada_list ''bob@example.com'' (Some ''code'') None []"
  let ?e = "hd (wl_entries ada_list)"
  have "\<not> isl ?j" by code_simp
  then have j: "?j = Inr (fst (projr ?j), snd (projr ?j))" by (simp add: sum.collapse)
  have joined: "wr_joined (fst (projr ?j))" by code_simp
  obtain r where "join_waitlist plain_env 5 (\<lambda>_. ''code'') \<lparr>wl_next = 1, wl_entries = []\<rparr> ''ada@example.com'' None None [] = Inr (r, ada_list)"
    using ada_run by blast
  from join_waitlist_ok [OF this] have ok: "waitlist_ok ada_list" by (simp add: waitlist_ok_def)
  have e: "entry_by_referral_code ada_list (Some ''code'') = Inr (Some ?e)" and z: "referral_count (wl_entries ada_list) ?e = 0" by code_simp+
  from referral_never_costs_a_place [OF j ok joined e] z have
    "referral_count (wl_entries (snd (projr ?j))) ?e = 1" "position (wl_entries (snd (projr ?j))) ?e \<le> position (wl_entries ada_list) ?e"
    by simp_all
  with j e show ?thesis by blast
qed

end
