(* ===== verification/Spec2Isabelle.thy ===== *)
theory Spec2Isabelle
  imports App_Access App_Access_Laws App_Blueprint App_Build_Laws App_Build_Steps App_Builds App_Calls App_Deploy App_Deploy_Facts App_Harness App_Journal App_Manifest App_Pipeline App_Policy App_Record_Laws App_Records App_Reminders App_Specs App_Tool_Schema Build_Samples Build_Worker Channels Dot_Json Dot_Models Dot_Numbers Dot_Prelude Dot_Samples Dot_Text Follow_Ups Group_Chats Group_Laws Group_Mentions Group_Runs Linq_Groups Rate_Limits Record_Store Schedules User_Events Users Waitlist Work_Queue
begin

text \<open>
  A verification library for the services of the Dot backend (\<open>src/benji_api\<close>): a personal agent that talks to
  users over iMessage (Linq) and the web, builds small apps for them and their groups, and acts later on its
  own (events, schedules, follow-ups). The routes, the agent and the workers call the services; the
  services keep everything in one relational database. What is modelled is that layer: each operation
  is a function on an explicit database state.

  \<^bold>\<open>Theories and code.\<close>
  \<^item> Foundations. \<open>Dot_Prelude\<close>: results, tables, text and time; \<open>Dot_Json\<close>: JSON values, canonical printing and
    its sizes, ISO instants, durations; \<open>Dot_Text\<close> and \<open>Dot_Numbers\<close>: normalised text, upper case,
    and floats with \<open>round(x, 4)\<close>; \<open>Dot_Models\<close>: a record per table (\<open>models/\<close>) and the database state \<open>db\<close>, a
    list of rows per table and a counter for fresh identifiers.
  \<^item> Code apps (\<open>services/generated_apps_v2.py\<close>, \<open>generated_app_contract.py\<close>). \<open>App_Access\<close>: tickets,
    sessions, who may act; \<open>App_Manifest\<close>: the data contract; \<open>App_Journal\<close>: the event journal with its
    replay of keyed requests, limits; \<open>App_Records\<close>: records under optimistic versions; \<open>App_Builds\<close>: creation,
    revision, the build queue; \<open>App_Deploy\<close>: completion, promotion, rollback; \<open>App_Reminders\<close>. Their laws are
    in \<open>App_Access_Laws\<close>, \<open>App_Record_Laws\<close>, \<open>Record_Store\<close>, \<open>App_Build_Steps\<close>, \<open>App_Deploy_Facts\<close> and
    \<open>App_Build_Laws\<close>.
  \<^item> Composable apps (\<open>services/generated_app_specs.py\<close>). \<open>App_Specs\<close>: the validators of modules, settings and
    records, and the stored specification; \<open>App_Tool_Schema\<close>: the schemas shown to a model.
  \<^item> The app builder (\<open>app_builder/\<close>). \<open>App_Policy\<close> (\<open>policy.py\<close>): what generated source must pass; \<open>App_Blueprint\<close>
    (\<open>types.py\<close>): the contract an app is generated from and its acceptance plan; \<open>App_Pipeline\<close> (\<open>pipeline.py\<close>): generate,
    inspect, compile, run, review, repair, package; \<open>App_Calls\<close>: how often a build calls its collaborators; \<open>Build_Worker\<close> (\<open>process_next_build\<close>, \<open>service_hooks.py\<close>): a turn of the
    worker over the queue of \<open>App_Builds\<close>; \<open>App_Harness\<close> (\<open>browser_smoke.py\<close>, \<open>compiler/\<close>, \<open>visual_review.py\<close>, \<open>providers.py\<close>):
    what is made of the answers of the compiler, the browsers, the reviewer and the model. All these are
    functions of an environment over a world of any type, so the theorems hold for every behaviour of them.
  \<^item> Work over time. \<open>Work_Queue\<close> states as locales what the queues promise (a claim takes the least eligible
    row, counts the attempt, holds a lease; a failure backs off; a keyed insertion happens once), and is
    interpreted in \<open>User_Events\<close> (\<open>services/user_events.py\<close>), \<open>Schedules\<close> (\<open>services/schedules.py\<close>) and \<open>Follow_Ups\<close>
    (\<open>services/agent_followups.py\<close>, \<open>agents/followups.py\<close>).
  \<^item> People and places. \<open>Users\<close> (\<open>services/users.py\<close>, \<open>schemas/phone.py\<close>); \<open>Channels\<close> (\<open>services/channels.py\<close>);
    \<open>Group_Chats\<close> and \<open>Linq_Groups\<close> (\<open>services/groups.py\<close>) with \<open>Group_Laws\<close>, \<open>Group_Runs\<close> and \<open>Group_Mentions\<close>.
  \<^item> Front door. \<open>Rate_Limits\<close> (\<open>services/auth_rate_limit.py\<close>, \<open>services/waitlist_rate_limit.py\<close>) and \<open>Waitlist\<close>
    (\<open>services/waitlist.py\<close>).
  \<^item> \<open>Dot_Samples\<close> and \<open>Build_Samples\<close> hold the concrete states the witnesses run on.

  \<^bold>\<open>How they interact.\<close> A turn of the builder's worker claims a job (\<open>App_Builds\<close>), builds it (\<open>App_Pipeline\<close>) and settles it
  through the hooks, whose contract is the locale \<open>settling_hooks\<close>; what it delivers meets the gate of
  \<open>App_Deploy\<close>, where only the manifest and the size of the test results are left to decide. Completing a build (\<open>App_Deploy\<close>) moves a deployment, issues a link (\<open>App_Access\<close>) and
  enqueues a user event (\<open>User_Events\<close>), whose dispatch runs the agent and must produce a turn that carries
  the link. Scheduled tasks enqueue user events; an app's reminder (\<open>App_Reminders\<close>) creates a scheduled task. Moving a
  group (\<open>Group_Chats\<close>) moves its apps, memberships, sessions and tickets, which is what \<open>App_Access\<close> decides by.
  Resolving a Linq sender uses \<open>Users\<close>, a conversation \<open>Channels\<close>.

  \<^bold>\<open>What the lemmas show.\<close> Records: no update is lost, keyed requests happen once, quotas and schema are
  invariants, and the three mutations refine a versioned key-value store. Builds: at most three claims, oldest first, a settled or
  superseded claim is fenced, a turn of the worker is a run of these operations and releases its claim, only builds past the promotion gate are ever deployed, rolling back twice restores the pointers and the shown revision. Access: what a ticket
  opens, how often, and that no credential outlives the ownership it rests on. Queues: exclusive claims, bounded
  attempts, cancelled work stays cancelled, an answered follow-up is not sent. Schedules: the next run exists, is in the future and keeps its wall-clock
  time. Groups: one owner, invites admit boundedly. Specifications: what is stored reads back unchanged.
  Limiter: the pruned log is a sliding window. Builder: bounded calls of every collaborator with one clean regeneration, only the manifest and the size of the test results left for the gate to decide, nothing is delivered that did not pass the
  policy, compile and run, the delimiter scan accepts exactly the well-nested texts, a blueprint survives its dict form.

  \<^bold>\<open>Modelling decisions.\<close>
  \<^item> An operation is one transaction and atomic; it returns \<open>Inl\<close> the exception and no state, or \<open>Inr\<close> the answer and
    the state. Interleaving is between operations. Row locks and dialect tests are dropped; handlers of commit-time integrity
    errors that only concurrent inserts reach are dropped where an atomic step cannot reach them. Joining by an invite
    takes no lock in the code either: its bound is proved of joins that follow each other.
  \<^item> One reading \<open>now\<close> of the clock per operation; instants in microseconds. Fresh tokens, identifiers of texts and the like
    are arguments (\<open>raw\<close>, \<open>codes\<close>); row identifiers come from a counter.
  \<^item> Parameters stand for code not in the repository or out of reach of the model: SHA-256, \<open>json.loads\<close>, time zones, ISO date parsing,
    \<open>phonenumbers\<close>, \<open>idna\<close>, case folding, the searches of the policy's regular expressions, the agent's turn, the delivery adapter. Hypotheses on them are named and
    stated where they are used.
  \<^item> Text is over the code points 0 to 255, so the capitals of the micro sign and of the y with diaeresis, which lie outside, are
    those letters themselves; a float is the text of its \<open>repr\<close>; exceptions carry their class, not their message, except
    where the text is stored. Ties of an SQL ordering are broken by insertion order. Logging and typing indicators are left out.
  \<^item> Loops that are not structural are functions with a measure and need no fuel: \<open>claim_loop\<close> of the build queue,
    which ends an exhausted job each round, \<open>build_loop\<close> of the pipeline, which uses up a repair, \<open>next_wall\<close> of the recurrence, which approaches the present by whole periods, and the
    printing of numbers.

  \<^bold>\<open>Not modelled.\<close> The agent loop, its tools and prompts, the calls of models, the builder's subprocesses and their JavaScript, the clients of Linq, Google, Plaid and Firebase, and the routes: they call services outside the repository or rewrite
  requests for the services above. Finance, integrations, account deletion and memory consolidation are state of
  their own tables, reached from the modelled services only through the parameters named above.
\<close>

end
